(* ===== verification/Go_Base.thy ===== *)
theory Go_Base
  imports Main "HOL-Library.Word"
begin

text \<open>
  The part of Go and of its standard library that the components share: 64-bit signed
  arithmetic with its wrap-around, truncating division, the string functions of
  \<^verbatim>\<open>strings\<close> and \<^verbatim>\<open>strconv\<close> that the sources call, errors with their wrapping
  chain (\<^verbatim>\<open>errors.Is\<close>, \<^verbatim>\<open>fmt.Errorf("%w")\<close>, gRPC status codes), and the generic
  lemmas on them.

  Go strings and byte slices are byte sequences; both are \<open>string\<close> here (a list of
  8-bit characters). Case mapping is the ASCII one.
\<close>

named_theorems go_int \<open>wrap-around and truncating division inside their exact range\<close>
named_theorems go_str \<open>the string functions on their canonical inputs\<close>
named_theorems go_err \<open>errors and their chains\<close>

section \<open>Integers\<close>

text \<open>\<open>wrap64\<close> is the value an \<^verbatim>\<open>int64\<close> operation leaves in its register.\<close>

definition wrap64 :: "int \<Rightarrow> int" where
  "wrap64 x = (x + 2 ^ 63) mod 2 ^ 64 - 2 ^ 63"

definition int64_range :: "int \<Rightarrow> bool" where
  "int64_range x \<longleftrightarrow> - (2 ^ 63) \<le> x \<and> x < 2 ^ 63"

abbreviation maxInt64 :: int where
  "maxInt64 \<equiv> 2 ^ 63 - 1"

abbreviation minInt64 :: int where
  "minInt64 \<equiv> - (2 ^ 63)"

text \<open>Go's integer division rounds towards zero.\<close>

definition go_div :: "int \<Rightarrow> int \<Rightarrow> int" where
  "go_div a b = sgn a * sgn b * (\<bar>a\<bar> div \<bar>b\<bar>)"

lemma wrap64_id [go_int]: "int64_range x \<Longrightarrow> wrap64 x = x"
  by (simp add: wrap64_def int64_range_def)

lemma wrap64_range [simp]: "int64_range (wrap64 x)"
proof -
  have "0 \<le> (x + 2 ^ 63) mod 2 ^ 64" and "(x + 2 ^ 63) mod 2 ^ 64 < 2 ^ 64"
    by simp_all
  then show ?thesis
    by (simp add: wrap64_def int64_range_def)
qed

lemma go_div_nonneg [go_int]: "0 \<le> a \<Longrightarrow> 0 < b \<Longrightarrow> go_div a b = a div b"
  by (cases "a = 0") (simp_all add: go_div_def sgn_if)

section \<open>Strings\<close>

definition HasPrefix :: "string \<Rightarrow> string \<Rightarrow> bool" where
  "HasPrefix s p = (take (length p) s = p)"

definition HasSuffix :: "string \<Rightarrow> string \<Rightarrow> bool" where
  "HasSuffix s p = HasPrefix (rev s) (rev p)"

definition TrimPrefix :: "string \<Rightarrow> string \<Rightarrow> string" where
  "TrimPrefix s p = (if HasPrefix s p then drop (length p) s else s)"

fun Contains :: "string \<Rightarrow> string \<Rightarrow> bool" where
  "Contains [] p = (p = [])"
| "Contains (c # s) p = (HasPrefix (c # s) p \<or> Contains s p)"

text \<open>\<^verbatim>\<open>strings.Trim(s, "c")\<close> for a cutset of one byte.\<close>

definition Trim :: "char \<Rightarrow> string \<Rightarrow> string" where
  "Trim c s = rev (dropWhile (\<lambda>x. x = c) (rev (dropWhile (\<lambda>x. x = c) s)))"

definition TrimRight :: "char \<Rightarrow> string \<Rightarrow> string" where
  "TrimRight c s = rev (dropWhile (\<lambda>x. x = c) (rev s))"

text \<open>\<^verbatim>\<open>strings.Split\<close> and \<^verbatim>\<open>strings.Index\<close> for a separator of one byte.\<close>

fun Split :: "char \<Rightarrow> string \<Rightarrow> string list" where
  "Split c [] = [[]]"
| "Split c (x # xs) =
     (if x = c then [] # Split c xs
      else (case Split c xs of [] \<Rightarrow> [[x]] | y # ys \<Rightarrow> (x # y) # ys))"

fun IndexByte :: "string \<Rightarrow> char \<Rightarrow> nat option" where
  "IndexByte [] c = None"
| "IndexByte (x # xs) c = (if x = c then Some 0 else map_option Suc (IndexByte xs c))"

definition LastIndexByte :: "string \<Rightarrow> char \<Rightarrow> nat option" where
  "LastIndexByte s c = map_option (\<lambda>i. length s - Suc i) (IndexByte (rev s) c)"

text \<open>\<^verbatim>\<open>strings.Cut\<close>: the text before and after the first separator, and whether it is there.\<close>

definition Cut :: "string \<Rightarrow> char \<Rightarrow> string \<times> string \<times> bool" where
  "Cut s c = (case IndexByte s c of
     None \<Rightarrow> (s, [], False)
   | Some i \<Rightarrow> (take i s, drop (Suc i) s, True))"

text \<open>
  \<^verbatim>\<open>strings.TrimSpace\<close> removes Unicode white space: the six ASCII bytes and the UTF-8
  encodings of the other white-space code points.
\<close>

definition ws_seqs :: "string list" where
  "ws_seqs =
     [[CHR 0x20], [CHR 0x09], [CHR 0x0A], [CHR 0x0B], [CHR 0x0C], [CHR 0x0D],
      [CHR 0xC2, CHR 0x85], [CHR 0xC2, CHR 0xA0],
      [CHR 0xE1, CHR 0x9A, CHR 0x80],
      [CHR 0xE2, CHR 0x80, CHR 0x80], [CHR 0xE2, CHR 0x80, CHR 0x81],
      [CHR 0xE2, CHR 0x80, CHR 0x82], [CHR 0xE2, CHR 0x80, CHR 0x83],
      [CHR 0xE2, CHR 0x80, CHR 0x84], [CHR 0xE2, CHR 0x80, CHR 0x85],
      [CHR 0xE2, CHR 0x80, CHR 0x86], [CHR 0xE2, CHR 0x80, CHR 0x87],
      [CHR 0xE2, CHR 0x80, CHR 0x88], [CHR 0xE2, CHR 0x80, CHR 0x89],
      [CHR 0xE2, CHR 0x80, CHR 0x8A], [CHR 0xE2, CHR 0x80, CHR 0xA8],
      [CHR 0xE2, CHR 0x80, CHR 0xA9], [CHR 0xE2, CHR 0x80, CHR 0xAF],
      [CHR 0xE2, CHR 0x81, CHR 0x9F], [CHR 0xE3, CHR 0x80, CHR 0x80]]"

function drop_seqs :: "string list \<Rightarrow> string \<Rightarrow> string" where
  "drop_seqs ps s =
     (case find (\<lambda>p. p \<noteq> [] \<and> HasPrefix s p) ps of
        None \<Rightarrow> s
      | Some p \<Rightarrow> drop_seqs ps (drop (length p) s))"
  by pat_completeness auto
termination
proof (relation "measure (\<lambda>(ps, s). length s)")
  fix ps :: "string list" and s p :: string
  assume "find (\<lambda>p. p \<noteq> [] \<and> HasPrefix s p) ps = Some p"
  then have "p \<noteq> []" and "take (length p) s = p"
    by (auto simp: find_Some_iff HasPrefix_def)
  then have "0 < length p" and "length p \<le> length s"
    using length_take [of "length p" s] by simp_all
  then have "length s - length p < length s" by linarith
  then show "((ps, drop (length p) s), (ps, s)) \<in> measure (\<lambda>(ps, s). length s)"
    by simp
qed simp

declare drop_seqs.simps [simp del]

definition TrimSpace :: "string \<Rightarrow> string" where
  "TrimSpace s = rev (drop_seqs (map rev ws_seqs) (rev (drop_seqs ws_seqs s)))"

text \<open>
  ASCII case mapping, and \<^verbatim>\<open>strings.EqualFold\<close> against an ASCII string: the long s and the Kelvin sign are the only
  characters beyond ASCII that fold to a letter of it.
\<close>

definition lower :: "char \<Rightarrow> char" where
  "lower c = (let n = of_char c :: nat in if 65 \<le> n \<and> n \<le> 90 then char_of (n + 32) else c)"

definition ToLower :: "string \<Rightarrow> string" where
  "ToLower s = map lower s"

fun fold_letters :: "string \<Rightarrow> string" where
  "fold_letters (a # b # cs) =
     (if a = CHR 0xC5 \<and> b = CHR 0xBF then CHR ''s'' # fold_letters cs
      else if a = CHR 0xE2 \<and> take 2 (b # cs) = [CHR 0x84, CHR 0xAA] then CHR ''k'' # fold_letters (drop 1 cs)
      else a # fold_letters (b # cs))"
| "fold_letters cs = cs"

definition EqualFold :: "string \<Rightarrow> string \<Rightarrow> bool" where
  "EqualFold s t = (fold_letters (ToLower s) = fold_letters (ToLower t))"

lemma fold_letters_length: "length (fold_letters s) \<le> length s"
  by (induction s rule: fold_letters.induct) (auto simp: le_SucI)

lemma fold_letters_id: "length (fold_letters s) = length s \<Longrightarrow> fold_letters s = s"
proof (induction s rule: fold_letters.induct)
  case (1 a b cs)
  then show ?case using fold_letters_length [of cs] fold_letters_length [of "drop 1 cs"] by (auto split: if_splits)
qed auto

section \<open>Numbers in strings\<close>

text \<open>
  \<^verbatim>\<open>strconv.ParseUint\<close> reads digits from the left; overflow is reported as soon as it
  happens, before a later bad character is seen.
\<close>

datatype num_result = NumOk nat | NumSyntax | NumRange

definition digit_val :: "char \<Rightarrow> nat option" where
  "digit_val c =
     (let n = of_char c :: nat in
      if 48 \<le> n \<and> n \<le> 57 then Some (n - 48)
      else if 97 \<le> n \<and> n \<le> 122 then Some (n - 87)
      else if 65 \<le> n \<and> n \<le> 90 then Some (n - 55)
      else None)"

fun parse_digits :: "nat \<Rightarrow> nat \<Rightarrow> string \<Rightarrow> num_result" where
  "parse_digits base acc [] = NumOk acc"
| "parse_digits base acc (c # cs) =
     (case digit_val c of
        None \<Rightarrow> NumSyntax
      | Some d \<Rightarrow>
          if base \<le> d then NumSyntax
          else if 2 ^ 64 \<le> acc * base + d then NumRange
          else parse_digits base (acc * base + d) cs)"

definition ParseUint :: "string \<Rightarrow> nat \<Rightarrow> num_result" where
  "ParseUint s base = (if s = [] then NumSyntax else parse_digits base 0 s)"

text \<open>
  \<^verbatim>\<open>strconv.ParseInt(s, base, 64)\<close>: the value and whether the error is nil. A syntax
  error gives 0, a range error the clamped bound.
\<close>

definition signed_result :: "bool \<Rightarrow> num_result \<Rightarrow> int \<times> bool" where
  "signed_result neg r =
     (case r of
        NumSyntax \<Rightarrow> (0, False)
      | NumRange \<Rightarrow> (if neg then minInt64 else maxInt64, False)
      | NumOk n \<Rightarrow>
          if \<not> neg \<and> 2 ^ 63 \<le> n then (maxInt64, False)
          else if neg \<and> 2 ^ 63 < n then (minInt64, False)
          else (if neg then - int n else int n, True))"

definition ParseInt :: "string \<Rightarrow> nat \<Rightarrow> int \<times> bool" where
  "ParseInt s base =
     (case s of
        [] \<Rightarrow> (0, False)
      | c # cs \<Rightarrow>
          if c = CHR ''-'' then signed_result True (ParseUint cs base)
          else if c = CHR ''+'' then signed_result False (ParseUint cs base)
          else signed_result False (ParseUint s base))"

definition digit :: "nat \<Rightarrow> char" where
  "digit d = char_of (48 + d)"

fun show_nat :: "nat \<Rightarrow> string" where
  "show_nat n = (if n < 10 then [digit n] else show_nat (n div 10) @ [digit (n mod 10)])"

declare show_nat.simps [simp del]

text \<open>\<^verbatim>\<open>strconv.FormatInt(i, 10)\<close>.\<close>

definition FormatInt :: "int \<Rightarrow> string" where
  "FormatInt i = (if i < 0 then CHR ''-'' # show_nat (nat (- i)) else show_nat (nat i))"

subsection \<open>Lemmas on strings\<close>

lemma HasPrefix_append [simp, go_str]: "HasPrefix (p @ s) p"
  by (simp add: HasPrefix_def)

lemma HasPrefix_iff: "HasPrefix s p \<longleftrightarrow> (\<exists>r. s = p @ r)"
  by (metis HasPrefix_append HasPrefix_def append_take_drop_id)

lemma HasPrefix_Nil [simp, go_str]: "HasPrefix s []"
  by (simp add: HasPrefix_def)

lemma HasPrefix_Cons [simp, go_str]: "HasPrefix (x # xs) (y # ys) \<longleftrightarrow> x = y \<and> HasPrefix xs ys"
  by (auto simp: HasPrefix_def)

lemma HasPrefix_Nil2 [simp, go_str]: "HasPrefix [] p \<longleftrightarrow> p = []"
  by (auto simp: HasPrefix_def)

lemma TrimPrefix_append [simp, go_str]: "TrimPrefix (p @ s) p = s"
  by (simp add: TrimPrefix_def)

lemma Split_not_Nil [simp]: "Split c s \<noteq> []"
  by (induction s) (auto split: list.splits)

lemma Split_no_sep: "c \<notin> set s \<Longrightarrow> Split c s = [s]"
  by (induction s) auto

lemma Split_append_sep: "c \<notin> set s \<Longrightarrow> Split c (s @ c # t) = s # Split c t"
  by (induction s) auto

lemma Split_parts_no_sep: "p \<in> set (Split c s) \<Longrightarrow> c \<notin> set p"
proof (induction s arbitrary: p)
  case Nil
  then show ?case by simp
next
  case (Cons x xs)
  show ?case
  proof (cases "Split c xs")
    case Nil
    then show ?thesis by simp
  next
    case (Cons y ys)
    with Cons.prems Cons.IH show ?thesis by (auto split: if_splits)
  qed
qed

lemma IndexByte_None [simp]: "IndexByte s c = None \<longleftrightarrow> c \<notin> set s"
  by (induction s) auto

lemma IndexByte_append [go_str]: "c \<notin> set s \<Longrightarrow> IndexByte (s @ c # t) c = Some (length s)"
  by (induction s) auto

lemma IndexByte_Some_less: "IndexByte s c = Some i \<Longrightarrow> i < length s"
  by (induction s arbitrary: i) (auto split: if_splits)

lemma Cut_append [go_str]: "c \<notin> set s \<Longrightarrow> Cut (s @ c # t) c = (s, t, True)"
  by (simp add: Cut_def IndexByte_append)

lemma Cut_at: "fst (Cut s c) = takeWhile (\<lambda>x. x \<noteq> c) s"
proof (induction s)
  case (Cons x s)
  then show ?case by (cases "IndexByte s c") (auto simp: Cut_def simp del: IndexByte_None)
qed (simp add: Cut_def)

lemma LastIndexByte_append [go_str]:
  assumes "c \<notin> set t"
  shows "LastIndexByte (s @ c # t) c = Some (length s)"
proof -
  from assms have "c \<notin> set (rev t)" by simp
  then have "IndexByte (rev t @ c # rev s) c = Some (length (rev t))"
    by (rule IndexByte_append)
  then show ?thesis by (simp add: LastIndexByte_def)
qed

text \<open>Trimming leaves a string alone whose first and last bytes are printable ASCII.\<close>

lemma drop_seqs_stop: "\<forall>p \<in> set ps. p \<noteq> [] \<longrightarrow> \<not> HasPrefix s p \<Longrightarrow> drop_seqs ps s = s"
  by (subst drop_seqs.simps) (auto simp: find_None_iff split: option.splits dest: find_Some_iff [THEN iffD1])

lemma ws_not_printable:
  "p \<in> set ws_seqs \<or> p \<in> set (map rev ws_seqs) \<Longrightarrow> (of_char (hd p) :: nat) < 33 \<or> 126 < (of_char (hd p) :: nat)"
  unfolding ws_seqs_def by (elim disjE) (simp; elim disjE; simp)+

lemma TrimSpace_printable:
  assumes "s \<noteq> []" and "33 \<le> (of_char (hd s) :: nat)" and "(of_char (hd s) :: nat) \<le> 126"
    and "33 \<le> (of_char (last s) :: nat)" and "(of_char (last s) :: nat) \<le> 126"
  shows "TrimSpace s = s"
proof -
  have *: "\<not> HasPrefix t p"
    if "p \<in> set ws_seqs \<or> p \<in> set (map rev ws_seqs)" and "p \<noteq> []" and "t \<noteq> []"
      and "33 \<le> (of_char (hd t) :: nat)" and "(of_char (hd t) :: nat) \<le> 126" for t p
    using ws_not_printable [OF that(1)] that(2-) by (cases p; cases t) auto
  have "drop_seqs ws_seqs s = s"
    using assms * by (intro drop_seqs_stop) blast
  moreover have "drop_seqs (map rev ws_seqs) (rev s) = rev s"
    using assms * [of _ "rev s"] by (intro drop_seqs_stop) (auto simp: hd_rev)
  ultimately show ?thesis by (simp add: TrimSpace_def)
qed

text \<open>Separator-joined strings are injective when the leading component has no separator.\<close>

lemma sep_inject:
  assumes "c \<notin> set a" and "c \<notin> set a'"
  shows "a @ c # b = a' @ c # b' \<longleftrightarrow> a = a' \<and> b = b'"
  using assms
proof (induction a arbitrary: a')
  case Nil
  then show ?case by (cases a') auto
next
  case (Cons x xs)
  then show ?case by (cases a') auto
qed

lemma sep_inject_right:
  assumes "c \<notin> set b" and "c \<notin> set b'"
  shows "a @ c # b = a' @ c # b' \<longleftrightarrow> a = a' \<and> b = b'"
proof -
  have "a @ c # b = a' @ c # b' \<longleftrightarrow> rev (a @ c # b) = rev (a' @ c # b')"
    by (simp only: rev_is_rev_conv)
  also have "\<dots> \<longleftrightarrow> rev b @ c # rev a = rev b' @ c # rev a'" by simp
  also have "\<dots> \<longleftrightarrow> rev b = rev b' \<and> rev a = rev a'"
    using assms by (intro sep_inject) auto
  also have "\<dots> \<longleftrightarrow> a = a' \<and> b = b'" by auto
  finally show ?thesis .
qed

subsection \<open>Printing and reading decimals\<close>

lemma of_char_digit: "d < 10 \<Longrightarrow> of_char (digit d) = 48 + d"
  by (simp add: digit_def of_char_of)

lemma digit_val_digit: "d < 10 \<Longrightarrow> digit_val (digit d) = Some d"
  by (simp add: digit_val_def Let_def of_char_digit)

lemma show_nat_not_Nil [simp]: "show_nat n \<noteq> []"
  by (subst show_nat.simps) simp

lemma parse_digits_append:
  "parse_digits b acc xs = NumOk m \<Longrightarrow> parse_digits b acc (xs @ ys) = parse_digits b m ys"
  by (induction xs arbitrary: acc) (auto split: option.splits if_splits)

lemma parse_digits_show_nat: "n < 2 ^ 64 \<Longrightarrow> parse_digits 10 0 (show_nat n) = NumOk n"
proof (induction n rule: show_nat.induct)
  case (1 n)
  show ?case
  proof (cases "n < 10")
    case True
    then show ?thesis by (subst show_nat.simps) (simp add: digit_val_digit)
  next
    case False
    then have "parse_digits 10 0 (show_nat (n div 10)) = NumOk (n div 10)"
      using "1.IH" "1.prems" by simp
    from parse_digits_append [OF this, of "[digit (n mod 10)]"] False "1.prems"
    show ?thesis by (subst show_nat.simps) (simp add: digit_val_digit)
  qed
qed

lemma show_nat_chars: "c \<in> set (show_nat n) \<Longrightarrow> \<exists>d < 10. c = digit d"
proof (induction n rule: show_nat.induct)
  case (1 n)
  show ?case
  proof (cases "n < 10")
    case True
    with "1.prems" show ?thesis by (subst (asm) show_nat.simps) auto
  next
    case False
    with "1.prems" have "c \<in> set (show_nat (n div 10)) \<or> c = digit (n mod 10)"
      by (subst (asm) show_nat.simps) auto
    with False "1.IH" show ?thesis by (auto intro: exI [of _ "n mod 10"])
  qed
qed

lemma digit_neq: "d < 10 \<Longrightarrow> of_char c < (48::nat) \<or> 57 < (of_char c :: nat) \<Longrightarrow> digit d \<noteq> c"
  using of_char_digit by fastforce

lemma show_nat_no_char:
  "of_char c < (48::nat) \<or> 57 < (of_char c :: nat) \<Longrightarrow> c \<notin> set (show_nat n)"
  using show_nat_chars digit_neq by blast

lemma FormatInt_not_Nil [simp]: "FormatInt i \<noteq> []"
  by (simp add: FormatInt_def)

lemma FormatInt_no_char:
  "c \<noteq> CHR ''-'' \<Longrightarrow> of_char c < (48::nat) \<or> 57 < (of_char c :: nat) \<Longrightarrow> c \<notin> set (FormatInt i)"
  by (auto simp: FormatInt_def show_nat_no_char)

lemma FormatInt_nonneg_no_dash: "0 \<le> i \<Longrightarrow> CHR ''-'' \<notin> set (FormatInt i)"
  by (simp add: FormatInt_def show_nat_no_char)

lemma signed_result_ok:
  "int64_range i \<Longrightarrow> signed_result (i < 0) (NumOk (nat \<bar>i\<bar>)) = (i, True)"
proof (cases "i < 0")
  case True
  assume "int64_range i"
  with True have "nat (- i) \<le> 2 ^ 63" by (simp add: int64_range_def nat_le_iff)
  with True show ?thesis by (simp add: signed_result_def)
next
  case False
  assume "int64_range i"
  with False have "nat i < 2 ^ 63" by (simp add: int64_range_def nat_less_iff)
  with False show ?thesis by (simp add: signed_result_def)
qed

lemma signed_result_range: "int64_range (fst (signed_result neg r))"
proof (cases r)
  case (NumOk n)
  have "int n < 2 ^ 63 \<longleftrightarrow> n < 2 ^ 63" and "int n \<le> 2 ^ 63 \<longleftrightarrow> n \<le> 2 ^ 63"
    by simp_all
  with NumOk show ?thesis
    by (cases neg) (simp_all add: signed_result_def int64_range_def)
qed (simp_all add: signed_result_def int64_range_def)

lemma ParseInt_FormatInt [simp]:
  assumes "int64_range i"
  shows "ParseInt (FormatInt i) 10 = (i, True)"
proof (cases "i < 0")
  case True
  with assms have "nat (- i) < 2 ^ 64"
    by (auto simp: int64_range_def)
  with True show ?thesis
    using signed_result_ok [OF assms]
    by (simp add: ParseInt_def FormatInt_def ParseUint_def parse_digits_show_nat)
next
  case False
  obtain c cs where c: "show_nat (nat i) = c # cs"
    by (meson list.exhaust show_nat_not_Nil)
  then have "c \<noteq> CHR ''-''" and "c \<noteq> CHR ''+''"
    using show_nat_no_char [of "CHR ''-''" "nat i"] show_nat_no_char [of "CHR ''+''" "nat i"] by auto
  moreover from False assms have "nat i < 2 ^ 64"
    by (auto simp: int64_range_def)
  then have "ParseUint (c # cs) 10 = NumOk (nat i)"
    using parse_digits_show_nat [of "nat i"] c by (simp add: ParseUint_def)
  ultimately show ?thesis
    using signed_result_ok [OF assms] False c by (simp add: ParseInt_def FormatInt_def)
qed

lemma FormatInt_inject:
  assumes "int64_range i" and "int64_range j" and "FormatInt i = FormatInt j"
  shows "i = j"
proof -
  have "ParseInt (FormatInt j) 10 = (i, True)"
    using ParseInt_FormatInt [OF assms(1)] unfolding assms(3) .
  from trans [OF sym [OF this] ParseInt_FormatInt [OF assms(2)]]
  show ?thesis by (rule Pair_inject)
qed

lemma ParseInt_range: "int64_range (fst (ParseInt s b))"
  using signed_result_range
  by (cases s) (simp_all add: ParseInt_def int64_range_def [of 0])

section \<open>Errors\<close>

text \<open>
  A Go error value. The named constructors are the sentinel and typed errors the sources
  test for; \<open>EAuth\<close> is the typed authentication error, which wraps its cause; \<open>EText\<close> is any other leaf error with its message; \<open>EWrap\<close> is
  \<^verbatim>\<open>fmt.Errorf\<close> with \<^verbatim>\<open>%w\<close> verbs (the errors wrapped, after the fixed text), which is
  also what \<^verbatim>\<open>errors.Join\<close> builds.
\<close>

datatype grpc_code = OK | Canceled | Unknown | InvalidArgument | DeadlineExceeded | NotFound
  | Unavailable | OtherCode nat

datatype auth_code = ErrCodeSignatureMismatch | ErrCodeInvalidAccessKey | ErrCodeExpiredRequest
  | ErrCodeMalformedAuth | ErrCodeInternal

datatype err =
    ErrNotFound
  | ErrCacheDisabled
  | ErrPopulateShed
  | ErrBodyLengthMismatch
  | ErrVersionMismatch "64 word"
  | EStatus grpc_code string
  | CtxCanceled
  | CtxDeadlineExceeded
  | EOF
  | UnexpectedEOF
  | ErrShortWrite
  | ErrShortBuffer
  | ErrUnknownAccessKey
  | ErrSignatureMismatch
  | ErrExpiredRequest
  | ErrInvalidDate
  | ErrMissingContentHash
  | ErrInvalidExpires
  | ErrMissingAuth
  | ErrUnsupportedAuthScheme
  | ErrInvalidAuthFormat
  | ErrChunkSignatureMismatch
  | ErrCachePopulateDeclined
  | ErrBlockETagMismatch
  | ErrBlockUpstreamGone
  | ErrBlockAssemblyWouldAmplify
  | ErrBlockStreamDegraded
  | EAuth auth_code err
  | EText string
  | EWrap string "err list"

text \<open>\<^verbatim>\<open>errors.Is(e, t)\<close> for a sentinel \<open>t\<close>: \<open>t\<close> is somewhere in the chain of \<open>e\<close>.\<close>

fun err_is :: "err \<Rightarrow> err \<Rightarrow> bool" where
  "err_is (EWrap m es) t = (EWrap m es = t \<or> (\<exists>e \<in> set es. err_is e t))"
| "err_is (EAuth c e) t = (EAuth c e = t \<or> err_is e t)"
| "err_is e t = (e = t)"

lemma err_is_refl [simp, go_err]: "err_is e e"
  by (cases e) auto

lemma err_is_wrap [simp, go_err]: "err_is e t \<Longrightarrow> e \<in> set es \<Longrightarrow> err_is (EWrap m es) t"
  by auto

text \<open>The result of a fallible call: \<open>Inl\<close> the error.\<close>

type_synonym 'a result = "err + 'a"

subsection \<open>Error texts\<close>

text \<open>
  \<^verbatim>\<open>e.Error()\<close>. A wrapped error carries its full text, which \<open>Errorf\<close> builds from a prefix
  and the wrapped error, and \<open>errors_Join\<close> from the texts of its parts, one per line.
\<close>

fun code_text :: "grpc_code \<Rightarrow> string" where
  "code_text OK = ''OK''"
| "code_text Canceled = ''Canceled''"
| "code_text Unknown = ''Unknown''"
| "code_text InvalidArgument = ''InvalidArgument''"
| "code_text DeadlineExceeded = ''DeadlineExceeded''"
| "code_text NotFound = ''NotFound''"
| "code_text Unavailable = ''Unavailable''"
| "code_text (OtherCode n) = ''Code('' @ show_nat n @ '')''"

fun Error :: "err \<Rightarrow> string" where
  "Error ErrNotFound = ''not found in cache''"
| "Error ErrCacheDisabled = ''cache is disabled''"
| "Error ErrPopulateShed = ''cache populate shed: owner over disk budget''"
| "Error ErrBodyLengthMismatch = ''cache body length mismatch''"
| "Error (ErrVersionMismatch v) = ''version mismatch: current version '' @ show_nat (unat v)"
| "Error (EStatus c m) = ''rpc error: code = '' @ code_text c @ '' desc = '' @ m"
| "Error CtxCanceled = ''context canceled''"
| "Error CtxDeadlineExceeded = ''context deadline exceeded''"
| "Error EOF = ''EOF''"
| "Error UnexpectedEOF = ''unexpected EOF''"
| "Error ErrShortWrite = ''short write''"
| "Error ErrShortBuffer = ''short buffer''"
| "Error ErrUnknownAccessKey = ''unknown access key''"
| "Error ErrSignatureMismatch = ''signature does not match''"
| "Error ErrExpiredRequest = ''request has expired''"
| "Error ErrInvalidDate = ''invalid date format''"
| "Error ErrMissingContentHash = ''missing X-Amz-Content-Sha256 header''"
| "Error ErrInvalidExpires = ''invalid X-Amz-Expires''"
| "Error ErrMissingAuth = ''missing authorization''"
| "Error ErrUnsupportedAuthScheme = ''unsupported authorization scheme''"
| "Error ErrInvalidAuthFormat = ''invalid authorization header format''"
| "Error ErrChunkSignatureMismatch = ''chunk signature does not match''"
| "Error ErrCachePopulateDeclined = ''cache populate declined: concurrent write limit reached''"
| "Error ErrBlockETagMismatch = ''block etag mismatch''"
| "Error ErrBlockUpstreamGone = ''block upstream gone''"
| "Error ErrBlockAssemblyWouldAmplify = ''block assembly would amplify''"
| "Error ErrBlockStreamDegraded = ''block stream degraded''"
| "Error (EAuth c e) = Error e"
| "Error (EText m) = m"
| "Error (EWrap m es) = m"

definition Errorf :: "string \<Rightarrow> err \<Rightarrow> err" where
  "Errorf pre e = EWrap (pre @ Error e) [e]"

fun join_lines :: "string list \<Rightarrow> string" where
  "join_lines [] = []"
| "join_lines [s] = s"
| "join_lines (s # ss) = s @ [CHR 0x0A] @ join_lines ss"

definition errors_Join :: "err list \<Rightarrow> err option" where
  "errors_Join es = (if es = [] then None else Some (EWrap (join_lines (map Error es)) es))"

text \<open>\<^verbatim>\<open>errors.As\<close> for the version-mismatch error of the store.\<close>

fun IsVersionMismatch :: "err \<Rightarrow> 64 word option" where
  "IsVersionMismatch (ErrVersionMismatch v) = Some v"
| "IsVersionMismatch (EWrap m es) =
     fold (\<lambda>e r. case r of Some v \<Rightarrow> Some v | None \<Rightarrow> IsVersionMismatch e) es None"
| "IsVersionMismatch (EAuth c e) = IsVersionMismatch e"
| "IsVersionMismatch _ = None"

lemma err_is_Errorf [simp, go_err]: "err_is e t \<Longrightarrow> err_is (Errorf pre e) t"
  by (simp add: Errorf_def)

end
