(* ===== verification/Byte_Budget.thy ===== *)
theory Byte_Budget
  imports Go_Base Complex_Main
begin

text \<open>
  Admission of cache populates and serve buffers (\<^verbatim>\<open>src/proxy/service.go\<close>): the
  priority-aware byte budget, the count semaphores, the weights that are charged, and the
  acquire/release pairs built from them. Every budget operation runs under the budget's mutex, so
  each is one atomic step; the only blocking operation, \<^verbatim>\<open>acquireWarm\<close>, is split at its
  condition variable into entering, one pass of the loop, and leaving.

  The locale \<open>reservation\<close> is the accounting contract of a pair of acquire and release
  functions; the system of \<open>steps\<close> at the end interleaves any number of holders.
\<close>

section \<open>Floating point\<close>

text \<open>
  A \<^verbatim>\<open>float64\<close> value; \<open>fl\<close> is the rounding of an exact result to the nearest
  double, an argument where the code multiplies or divides.
\<close>

datatype float64 = NaN | PosInf | NegInf | Fin rat

section \<open>Configuration and limits\<close>

record budget_config =
  MaxConcurrentWrites :: int
  MaxPopulateMemoryBytes :: int
  WarmOnWrite :: bool
  WarmOnWriteReservedFraction :: float64
  PopulateShedDiskRatio :: rat
  IsBlockCachingEnabled :: bool
  cfg_BlockSize :: int
  cfg_ChunkSize :: int
  cfg_ChannelBuffer :: int
  IsTiered :: bool

record byteBudget =
  budget_total :: int
  remaining :: int
  pendingWarm :: int
  reserveCap :: int
  stagingInUse :: int
  stagingCap :: int

text \<open>A channel of empty structs used as a counting semaphore.\<close>

record semaphore =
  sem_cap :: nat
  sem_len :: nat

record limits =
  populateBudget :: "byteBudget option"
  cacheSemaphore :: "semaphore option"
  enginePutSlots :: "semaphore option"
  perPopulateCap :: int
  backgroundPopulateWriterCap :: int

section \<open>Weights\<close>

abbreviation DefaultChunkSize :: int where
  "DefaultChunkSize \<equiv> 65536"

abbreviation DefaultChannelBuffer :: int where
  "DefaultChannelBuffer \<equiv> 1024"

definition perPopulateBufferBytes :: "budget_config \<Rightarrow> int" where
  "perPopulateBufferBytes cfg =
     (let chunkSize = (if cfg_ChunkSize cfg < DefaultChunkSize then DefaultChunkSize else cfg_ChunkSize cfg);
          channelBuf = (if cfg_ChannelBuffer cfg \<le> 0 then DefaultChannelBuffer else cfg_ChannelBuffer cfg);
          queue = go_div channelBuf 4;
          queue = (if queue < 64 then 64 else queue)
      in wrap64 (wrap64 (channelBuf + queue) * chunkSize))"

definition backgroundPopulateWriterBufferBytes :: int where
  "backgroundPopulateWriterBufferBytes = 2 ^ 20 + 2 ^ 20 + 2 ^ 20 + 2 ^ 20"

definition backgroundPopulateBufferBytes :: "budget_config \<Rightarrow> int" where
  "backgroundPopulateBufferBytes cfg =
     (let writer = backgroundPopulateWriterBufferBytes in
      if IsBlockCachingEnabled cfg \<and> 0 < cfg_BlockSize cfg then wrap64 (writer + cfg_BlockSize cfg)
      else writer)"

definition clampPopulateWeight :: "budget_config \<Rightarrow> int \<Rightarrow> int" where
  "clampPopulateWeight cfg w =
     (let w = (if w < 1 then 1 else w); budget = MaxPopulateMemoryBytes cfg
      in if 0 < budget \<and> budget < w then budget else w)"

definition populateWeight :: "budget_config \<Rightarrow> limits \<Rightarrow> int \<Rightarrow> int" where
  "populateWeight cfg s contentLength =
     (let w = perPopulateCap s;
          w = (if 0 < contentLength \<and> contentLength < w then contentLength else w)
      in clampPopulateWeight cfg w)"

definition backgroundPopulateWeight :: "limits \<Rightarrow> int" where
  "backgroundPopulateWeight s =
     (let w = backgroundPopulateWriterCap s;
          w = (if w \<le> 0 then backgroundPopulateWriterBufferBytes else w)
      in if w < 1 then 1 else w)"

definition stagingWeight :: "budget_config \<Rightarrow> int \<Rightarrow> int" where
  "stagingWeight cfg n =
     (let n = (if n < 1 then 1 else n); budget = MaxPopulateMemoryBytes cfg
      in if 0 < budget \<and> budget < n then budget else n)"

section \<open>The byte budget\<close>

definition clamp_fraction :: "float64 \<Rightarrow> rat" where
  "clamp_fraction reserveFraction =
     (case reserveFraction of
        NaN \<Rightarrow> 0 | NegInf \<Rightarrow> 0 | PosInf \<Rightarrow> 1
      | Fin q \<Rightarrow> if q < 0 then 0 else if 1 < q then 1 else q)"

definition newByteBudget :: "(rat \<Rightarrow> rat) \<Rightarrow> int \<Rightarrow> float64 \<Rightarrow> int \<Rightarrow> byteBudget" where
  "newByteBudget fl total' reserveFraction perPopulateCap' =
     (let f = clamp_fraction reserveFraction;
          cap = \<lfloor>fl (fl (of_int total') * f)\<rfloor>;
          cap = (if 0 < f \<and> cap < perPopulateCap' then perPopulateCap' else cap);
          cap = (if total' < cap then total' else cap)
      in \<lparr>budget_total = total', remaining = total', pendingWarm = 0, reserveCap = cap,
          stagingInUse = 0, stagingCap = total'\<rparr>)"

text \<open>What read-miss populates and staging leave free for waiting warm-on-write populates.\<close>

definition warm_reserve :: "byteBudget \<Rightarrow> int" where
  "warm_reserve b = (if reserveCap b < pendingWarm b then reserveCap b else pendingWarm b)"

definition tryAcquireReadMiss :: "int \<Rightarrow> byteBudget \<Rightarrow> byteBudget \<times> bool" where
  "tryAcquireReadMiss n b =
     (if wrap64 (remaining b - n) < warm_reserve b then (b, False)
      else (b\<lparr>remaining := wrap64 (remaining b - n)\<rparr>, True))"

definition tryAcquireWarm :: "int \<Rightarrow> byteBudget \<Rightarrow> byteBudget \<times> bool" where
  "tryAcquireWarm n b =
     (if budget_total b < n then (b, False)
      else let b = b\<lparr>pendingWarm := wrap64 (pendingWarm b + n)\<rparr> in
        if remaining b < n then (b\<lparr>pendingWarm := wrap64 (pendingWarm b - n)\<rparr>, False)
        else let b = b\<lparr>remaining := wrap64 (remaining b - n)\<rparr>
             in (b\<lparr>pendingWarm := wrap64 (pendingWarm b - n)\<rparr>, True))"

text \<open>
  \<^verbatim>\<open>acquireWarm\<close> up to its loop (\<open>None\<close> is an immediate refusal), and one pass of the
  loop under the mutex: \<open>WarmTaken\<close> and \<open>WarmGaveUp\<close> include the deferred withdrawal of the
  registration, \<open>WarmParked\<close> is \<^verbatim>\<open>cond.Wait\<close>.
\<close>

definition acquireWarm_enter :: "int \<Rightarrow> byteBudget \<Rightarrow> byteBudget option" where
  "acquireWarm_enter n b =
     (if budget_total b < n then None else Some (b\<lparr>pendingWarm := wrap64 (pendingWarm b + n)\<rparr>))"

datatype warm_pass = WarmTaken byteBudget | WarmGaveUp byteBudget | WarmParked

definition acquireWarm_pass :: "bool \<Rightarrow> int \<Rightarrow> byteBudget \<Rightarrow> warm_pass" where
  "acquireWarm_pass ctx_err n b =
     (if remaining b < n then
        (if ctx_err then WarmGaveUp (b\<lparr>pendingWarm := wrap64 (pendingWarm b - n)\<rparr>) else WarmParked)
      else WarmTaken (b\<lparr>remaining := wrap64 (remaining b - n),
                        pendingWarm := wrap64 (pendingWarm b - n)\<rparr>))"

definition release_bytes :: "int \<Rightarrow> byteBudget \<Rightarrow> byteBudget" where
  "release_bytes n b = b\<lparr>remaining := wrap64 (remaining b + n)\<rparr>"

definition tryAcquireStaging :: "int \<Rightarrow> byteBudget \<Rightarrow> byteBudget \<times> bool" where
  "tryAcquireStaging n b =
     (if stagingCap b < wrap64 (stagingInUse b + n) then (b, False)
      else if wrap64 (remaining b - n) < warm_reserve b then (b, False)
      else (b\<lparr>remaining := wrap64 (remaining b - n), stagingInUse := wrap64 (stagingInUse b + n)\<rparr>, True))"

definition releaseStaging :: "int \<Rightarrow> byteBudget \<Rightarrow> byteBudget" where
  "releaseStaging n b =
     b\<lparr>remaining := wrap64 (remaining b + n), stagingInUse := wrap64 (stagingInUse b - n)\<rparr>"

section \<open>Slots\<close>

definition sem_new :: "int \<Rightarrow> semaphore option" where
  "sem_new n = (if 0 < n then Some \<lparr>sem_cap = nat n, sem_len = 0\<rparr> else None)"

text \<open>A send in a select with a default branch, and a receive by a goroutine that sent before.\<close>

definition sem_try :: "semaphore \<Rightarrow> semaphore option" where
  "sem_try c = (if sem_len c < sem_cap c then Some (c\<lparr>sem_len := sem_len c + 1\<rparr>) else None)"

definition sem_recv :: "semaphore \<Rightarrow> semaphore" where
  "sem_recv c = c\<lparr>sem_len := sem_len c - 1\<rparr>"

datatype populatePriority = priorityReadMiss | priorityWarmWrite

text \<open>The budget part of \<^verbatim>\<open>NewService\<close>.\<close>

definition new_limits :: "(rat \<Rightarrow> rat) \<Rightarrow> budget_config \<Rightarrow> limits" where
  "new_limits fl cfg =
     \<lparr>populateBudget =
        (if 0 < MaxPopulateMemoryBytes cfg then
           let total' = MaxPopulateMemoryBytes cfg;
               reserveFraction = (if WarmOnWrite cfg then WarmOnWriteReservedFraction cfg else Fin 0);
               b = newByteBudget fl total' reserveFraction (backgroundPopulateBufferBytes cfg)
           in Some (b\<lparr>stagingCap := go_div total' 2\<rparr>)
         else None),
      cacheSemaphore = sem_new (MaxConcurrentWrites cfg),
      enginePutSlots = (if IsTiered cfg then sem_new (MaxConcurrentWrites cfg) else None),
      perPopulateCap = perPopulateBufferBytes cfg,
      backgroundPopulateWriterCap = backgroundPopulateWriterBufferBytes\<rparr>"

text \<open>\<open>usage\<close> is what \<^verbatim>\<open>DiskUsageRatio\<close> returned, \<open>None\<close> for not ok.\<close>

definition DiskUsageRatio :: "(rat \<Rightarrow> rat) \<Rightarrow> int \<Rightarrow> int option \<Rightarrow> rat option" where
  "DiskUsageRatio fl maxDiskUsage reported =
     (if maxDiskUsage \<le> 0 then None
      else map_option (\<lambda>used. fl (fl (of_int used) / fl (of_int maxDiskUsage))) reported)"

definition diskOverBudget :: "budget_config \<Rightarrow> rat option \<Rightarrow> bool" where
  "diskOverBudget cfg usage =
     (if PopulateShedDiskRatio cfg \<le> 0 then False
      else case usage of None \<Rightarrow> False | Some ratio \<Rightarrow> PopulateShedDiskRatio cfg \<le> ratio)"

text \<open>The reservation a read-miss takes, and the non-waiting one of either priority.\<close>

definition on_budget :: "(byteBudget \<Rightarrow> byteBudget \<times> bool) \<Rightarrow> limits \<Rightarrow> limits \<times> bool" where
  "on_budget f s =
     (case populateBudget s of
        None \<Rightarrow> (s, True)
      | Some b \<Rightarrow> let (b', ok) = f b in (s\<lparr>populateBudget := Some b'\<rparr>, ok))"

definition acquireCacheBytes_readMiss :: "int \<Rightarrow> limits \<Rightarrow> limits \<times> bool" where
  "acquireCacheBytes_readMiss weight s =
     (if weight \<le> 0 \<or> populateBudget s = None then (s, True)
      else on_budget (tryAcquireReadMiss weight) s)"

definition tryAcquireCacheBytes :: "int \<Rightarrow> populatePriority \<Rightarrow> limits \<Rightarrow> limits \<times> bool" where
  "tryAcquireCacheBytes weight prio s =
     (if weight \<le> 0 \<or> populateBudget s = None then (s, True)
      else if prio = priorityWarmWrite then on_budget (tryAcquireWarm weight) s
      else on_budget (tryAcquireReadMiss weight) s)"

definition release_budget :: "int \<Rightarrow> limits \<Rightarrow> limits" where
  "release_budget weight s =
     (case populateBudget s of None \<Rightarrow> s | Some b \<Rightarrow> s\<lparr>populateBudget := Some (release_bytes weight b)\<rparr>)"

definition acquireEnginePutSlot :: "int \<Rightarrow> limits \<Rightarrow> limits \<times> bool" where
  "acquireEnginePutSlot weight s =
     (let admitted = (case enginePutSlots s of
                        None \<Rightarrow> Some s
                      | Some c \<Rightarrow> map_option (\<lambda>c. s\<lparr>enginePutSlots := Some c\<rparr>) (sem_try c))
      in case admitted of
           None \<Rightarrow> (s, False)
         | Some s1 \<Rightarrow>
             let (s2, ok) = acquireCacheBytes_readMiss weight s1 in
             if \<not> ok then (s2\<lparr>enginePutSlots := map_option sem_recv (enginePutSlots s2)\<rparr>, False)
             else (s2, True))"

definition releaseEnginePutSlot :: "int \<Rightarrow> limits \<Rightarrow> limits" where
  "releaseEnginePutSlot weight s =
     (let s = release_budget weight s in s\<lparr>enginePutSlots := map_option sem_recv (enginePutSlots s)\<rparr>)"

text \<open>
  \<^verbatim>\<open>acquireCacheSlot\<close> for a read miss runs to completion. For a warm-on-write it waits for
  bytes and then for a count slot; \<open>warm_slot_try\<close> and \<open>warm_slot_cancel\<close> are the two branches
  of its select once it holds the bytes.
\<close>

definition acquireCacheSlot_readMiss ::
  "budget_config \<Rightarrow> rat option \<Rightarrow> int \<Rightarrow> limits \<Rightarrow> limits \<times> bool" where
  "acquireCacheSlot_readMiss cfg usage weight s =
     (if diskOverBudget cfg usage then (s, False)
      else let admitted = (case cacheSemaphore s of
                             None \<Rightarrow> Some s
                           | Some c \<Rightarrow> map_option (\<lambda>c. s\<lparr>cacheSemaphore := Some c\<rparr>) (sem_try c))
      in case admitted of
           None \<Rightarrow> (s, False)
         | Some s1 \<Rightarrow>
             let (s2, ok) = acquireCacheBytes_readMiss weight s1 in
             if \<not> ok then (s2\<lparr>cacheSemaphore := map_option sem_recv (cacheSemaphore s2)\<rparr>, False)
             else (s2, True))"

definition warm_slot_try :: "limits \<Rightarrow> limits option" where
  "warm_slot_try s =
     (case cacheSemaphore s of
        None \<Rightarrow> Some s
      | Some c \<Rightarrow> map_option (\<lambda>c. s\<lparr>cacheSemaphore := Some c\<rparr>) (sem_try c))"

definition warm_slot_cancel :: "int \<Rightarrow> limits \<Rightarrow> limits" where
  "warm_slot_cancel weight s = release_budget weight s"

definition releaseCacheSlot :: "int \<Rightarrow> limits \<Rightarrow> limits" where
  "releaseCacheSlot weight s =
     (let s = release_budget weight s in s\<lparr>cacheSemaphore := map_option sem_recv (cacheSemaphore s)\<rparr>)"

section \<open>The accounting contract\<close>

definition budget_ok :: "byteBudget \<Rightarrow> bool" where
  "budget_ok b \<longleftrightarrow>
     0 \<le> remaining b \<and> 0 \<le> stagingInUse b \<and> stagingInUse b \<le> stagingCap b
     \<and> remaining b + stagingInUse b \<le> budget_total b \<and> budget_total b < 2 ^ 63
     \<and> 0 \<le> pendingWarm b \<and> pendingWarm b < 2 ^ 63 \<and> 0 \<le> reserveCap b \<and> stagingCap b \<le> budget_total b"

definition populate_held :: "byteBudget \<Rightarrow> int" where
  "populate_held b = budget_total b - remaining b - stagingInUse b"

definition weight_ok :: "int \<Rightarrow> bool" where
  "weight_ok n \<longleftrightarrow> 1 \<le> n \<and> n < 2 ^ 63"

locale reservation =
  fixes acquire :: "int \<Rightarrow> byteBudget \<Rightarrow> byteBudget \<times> bool"
    and release :: "int \<Rightarrow> byteBudget \<Rightarrow> byteBudget"
    and held :: "byteBudget \<Rightarrow> int" and others :: "byteBudget \<Rightarrow> int"
  assumes acquire_true:
      "budget_ok b \<Longrightarrow> weight_ok n \<Longrightarrow> acquire n b = (b', True) \<Longrightarrow>
       budget_ok b' \<and> held b' = held b + n \<and> others b' = others b \<and> remaining b' = remaining b - n
       \<and> budget_total b' = budget_total b \<and> pendingWarm b' = pendingWarm b"
    and acquire_false:
      "budget_ok b \<Longrightarrow> weight_ok n \<Longrightarrow> acquire n b = (b', False) \<Longrightarrow> b' = b"
    and release_ok:
      "budget_ok b \<Longrightarrow> weight_ok n \<Longrightarrow> n \<le> held b \<Longrightarrow>
       budget_ok (release n b) \<and> held (release n b) = held b - n \<and> others (release n b) = others b
       \<and> remaining (release n b) = remaining b + n \<and> budget_total (release n b) = budget_total b
       \<and> pendingWarm (release n b) = pendingWarm b"
    and release_acquire:
      "budget_ok b \<Longrightarrow> weight_ok n \<Longrightarrow> acquire n b = (b', True) \<Longrightarrow> release n b' = b"
begin

fun acquire_all :: "int list \<Rightarrow> byteBudget \<Rightarrow> byteBudget option" where
  "acquire_all [] b = Some b"
| "acquire_all (n # ns) b = (let (b', ok) = acquire n b in if ok then acquire_all ns b' else None)"

text \<open>Reservations that were all granted fit together in what was free, and giving them back in
  the opposite order restores the budget.\<close>

lemma acquire_all_fits:
  assumes "budget_ok b" and "list_all weight_ok ns" and "acquire_all ns b = Some b'"
  shows "budget_ok b' \<and> sum_list ns \<le> remaining b \<and> held b' = held b + sum_list ns
         \<and> fold release (rev ns) b' = b"
  using assms
proof (induction ns arbitrary: b)
  case Nil
  then show ?case by (simp add: budget_ok_def)
next
  case (Cons n ns)
  obtain c ok where c: "acquire n b = (c, ok)" by fastforce
  with Cons.prems have "ok" "acquire_all ns c = Some b'" by (auto split: if_splits)
  moreover note acquire_true [of b n c] release_acquire [of b n c] Cons.IH [of c]
  ultimately show ?case using Cons.prems c by auto
qed

end

lemma wrap64_in: "- (2 ^ 63) \<le> x \<Longrightarrow> x < 2 ^ 63 \<Longrightarrow> wrap64 x = x"
  by (rule wrap64_id) (simp add: int64_range_def)

lemma wrap64_add_back: "int64_range p \<Longrightarrow> wrap64 (wrap64 (p + n) - n) = p"
proof -
  assume p: "int64_range p"
  have "((p + n + 2 ^ 63) mod 2 ^ 64 - 2 ^ 63 - n + 2 ^ 63) mod 2 ^ 64 = (p + 2 ^ 63) mod (2 ^ 64 :: int)"
    by (simp add: mod_diff_left_eq algebra_simps flip: diff_diff_eq)
  then have "wrap64 (wrap64 (p + n) - n) = wrap64 p" by (simp add: wrap64_def)
  with p show ?thesis by (simp add: wrap64_id)
qed

lemma budget_arith:
  assumes "budget_ok b" and "weight_ok n"
  shows "wrap64 (remaining b - n) = remaining b - n" and "0 \<le> warm_reserve b"
    and "n \<le> remaining b \<Longrightarrow> wrap64 (stagingInUse b + n) = stagingInUse b + n"
    and "n \<le> budget_total b - remaining b \<Longrightarrow> wrap64 (remaining b + n) = remaining b + n"
    and "n \<le> stagingInUse b \<Longrightarrow> wrap64 (stagingInUse b - n) = stagingInUse b - n"
    and "wrap64 (wrap64 (pendingWarm b + n) - n) = pendingWarm b"
  using assms
  by (auto simp: budget_ok_def weight_ok_def warm_reserve_def int64_range_def
      intro!: wrap64_in wrap64_add_back)

lemma release_bytes_undo:
  assumes "budget_ok b" and "weight_ok n" and "n \<le> remaining b"
  shows "release_bytes n (b\<lparr>remaining := remaining b - n\<rparr>) = b"
  using assms by (simp add: release_bytes_def wrap64_in budget_ok_def weight_ok_def)

lemma release_bytes_ok:
  assumes "budget_ok b" and "weight_ok n" and "n \<le> populate_held b"
  shows "budget_ok (release_bytes n b) \<and> populate_held (release_bytes n b) = populate_held b - n
       \<and> stagingInUse (release_bytes n b) = stagingInUse b
       \<and> remaining (release_bytes n b) = remaining b + n \<and> budget_total (release_bytes n b) = budget_total b
       \<and> pendingWarm (release_bytes n b) = pendingWarm b"
proof -
  have "wrap64 (remaining b + n) = remaining b + n"
    using assms by (intro budget_arith) (auto simp: populate_held_def budget_ok_def)
  with assms show ?thesis
    by (simp add: release_bytes_def populate_held_def budget_ok_def weight_ok_def)
qed

lemma tryAcquireReadMiss_cases:
  assumes "budget_ok b" and "weight_ok n"
  shows "tryAcquireReadMiss n b =
    (if remaining b - n < warm_reserve b then (b, False) else (b\<lparr>remaining := remaining b - n\<rparr>, True))"
  by (simp add: tryAcquireReadMiss_def budget_arith(1) [OF assms])

lemma tryAcquireWarm_cases:
  assumes "budget_ok b" and "weight_ok n"
  shows "tryAcquireWarm n b =
    (if remaining b < n then (b, False) else (b\<lparr>remaining := remaining b - n\<rparr>, True))"
proof -
  have "b\<lparr>pendingWarm := wrap64 (wrap64 (pendingWarm b + n) - n)\<rparr> = b"
    by (simp add: budget_arith(6) [OF assms])
  moreover have "budget_total b < n \<Longrightarrow> remaining b < n" using assms(1) by (simp add: budget_ok_def)
  ultimately show ?thesis
    by (auto simp: tryAcquireWarm_def Let_def budget_arith(1,6) [OF assms])
qed

lemma tryAcquireStaging_cases:
  assumes "budget_ok b" and "weight_ok n"
  shows "tryAcquireStaging n b =
    (if stagingCap b < stagingInUse b + n \<or> remaining b - n < warm_reserve b then (b, False)
     else (b\<lparr>remaining := remaining b - n, stagingInUse := stagingInUse b + n\<rparr>, True))"
proof (cases "remaining b - n < warm_reserve b")
  case False
  then have "n \<le> remaining b" using budget_arith(2) [OF assms] by simp
  then show ?thesis using False by (simp add: tryAcquireStaging_def budget_arith(1,3) [OF assms])
qed (simp add: tryAcquireStaging_def budget_arith(1) [OF assms])

interpretation rm: reservation tryAcquireReadMiss release_bytes populate_held stagingInUse
proof
  fix b b' n assume b: "budget_ok b" "weight_ok n" and a: "tryAcquireReadMiss n b = (b', True)"
  then have *: "b' = b\<lparr>remaining := remaining b - n\<rparr>" "n \<le> remaining b"
    using budget_arith(2) [OF b] by (auto simp: tryAcquireReadMiss_cases split: if_splits)
  with b show "budget_ok b' \<and> populate_held b' = populate_held b + n \<and> stagingInUse b' = stagingInUse b
      \<and> remaining b' = remaining b - n \<and> budget_total b' = budget_total b \<and> pendingWarm b' = pendingWarm b"
    by (auto simp: budget_ok_def weight_ok_def populate_held_def)
  from * b show "release_bytes n b' = b" by (simp add: release_bytes_undo)
qed (auto simp: tryAcquireReadMiss_cases release_bytes_ok split: if_splits)

interpretation wm: reservation tryAcquireWarm release_bytes populate_held stagingInUse
proof
  fix b b' n assume b: "budget_ok b" "weight_ok n" and a: "tryAcquireWarm n b = (b', True)"
  then have *: "b' = b\<lparr>remaining := remaining b - n\<rparr>" "n \<le> remaining b"
    by (auto simp: tryAcquireWarm_cases split: if_splits)
  with b show "budget_ok b' \<and> populate_held b' = populate_held b + n \<and> stagingInUse b' = stagingInUse b
      \<and> remaining b' = remaining b - n \<and> budget_total b' = budget_total b \<and> pendingWarm b' = pendingWarm b"
    by (auto simp: budget_ok_def weight_ok_def populate_held_def)
  from * b show "release_bytes n b' = b" by (simp add: release_bytes_undo)
qed (auto simp: tryAcquireWarm_cases release_bytes_ok split: if_splits)

interpretation stg: reservation tryAcquireStaging releaseStaging stagingInUse populate_held
proof
  fix b b' n assume b: "budget_ok b" "weight_ok n" and a: "tryAcquireStaging n b = (b', True)"
  then have *: "b' = b\<lparr>remaining := remaining b - n, stagingInUse := stagingInUse b + n\<rparr>" "n \<le> remaining b"
      "stagingInUse b + n \<le> stagingCap b"
    using budget_arith(2) [OF b] by (auto simp: tryAcquireStaging_cases split: if_splits)
  with b show "budget_ok b' \<and> stagingInUse b' = stagingInUse b + n \<and> populate_held b' = populate_held b
      \<and> remaining b' = remaining b - n \<and> budget_total b' = budget_total b \<and> pendingWarm b' = pendingWarm b"
    by (auto simp: budget_ok_def weight_ok_def populate_held_def)
  from * b show "releaseStaging n b' = b"
    by (simp add: releaseStaging_def wrap64_in budget_ok_def weight_ok_def)
next
  fix b n assume b: "budget_ok b" "weight_ok n" "n \<le> stagingInUse b"
  then have "n \<le> budget_total b - remaining b" by (simp add: budget_ok_def)
  with b budget_arith(4,5) [OF b(1,2)]
  show "budget_ok (releaseStaging n b) \<and> stagingInUse (releaseStaging n b) = stagingInUse b - n
      \<and> populate_held (releaseStaging n b) = populate_held b \<and> remaining (releaseStaging n b) = remaining b + n
      \<and> budget_total (releaseStaging n b) = budget_total b \<and> pendingWarm (releaseStaging n b) = pendingWarm b"
    by (simp add: releaseStaging_def budget_ok_def weight_ok_def populate_held_def)
qed (auto simp: tryAcquireStaging_cases split: if_splits)

section \<open>The interleaved system\<close>

text \<open>
  Who holds what: warm-on-writes waiting for bytes, those holding bytes and waiting for a count
  slot, running populates, engine PUTs, representation-specific extra reservations, and staging
  buffers. Each step is one atomic operation of one goroutine.
\<close>

record admission =
  lim :: limits
  waiting :: "int list"
  slot_wait :: "int list"
  populating :: "int list"
  engine :: "int list"
  extra :: "int list"
  staging :: "int list"

inductive step :: "budget_config \<Rightarrow> admission \<Rightarrow> admission \<Rightarrow> bool" for cfg where
  read_miss:
    "weight_ok w \<Longrightarrow> acquireCacheSlot_readMiss cfg usage w (lim s) = (l, ok) \<Longrightarrow>
     step cfg s (s\<lparr>lim := l, populating := (if ok then w # populating s else populating s)\<rparr>)"
| warm_enter:
    "weight_ok w \<Longrightarrow> \<not> diskOverBudget cfg usage \<Longrightarrow> populateBudget (lim s) = Some b \<Longrightarrow>
     acquireWarm_enter w b = Some b' \<Longrightarrow> sum_list (waiting s) + w < 2 ^ 63 \<Longrightarrow>
     step cfg s (s\<lparr>lim := (lim s)\<lparr>populateBudget := Some b'\<rparr>, waiting := w # waiting s\<rparr>)"
| warm_unbudgeted:
    "weight_ok w \<Longrightarrow> \<not> diskOverBudget cfg usage \<Longrightarrow> populateBudget (lim s) = None \<Longrightarrow>
     step cfg s (s\<lparr>slot_wait := w # slot_wait s\<rparr>)"
| warm_taken:
    "w \<in> set (waiting s) \<Longrightarrow> populateBudget (lim s) = Some b \<Longrightarrow> acquireWarm_pass ctx_err w b = WarmTaken b' \<Longrightarrow>
     step cfg s (s\<lparr>lim := (lim s)\<lparr>populateBudget := Some b'\<rparr>, waiting := remove1 w (waiting s),
                  slot_wait := w # slot_wait s\<rparr>)"
| warm_gave_up:
    "w \<in> set (waiting s) \<Longrightarrow> populateBudget (lim s) = Some b \<Longrightarrow> acquireWarm_pass ctx_err w b = WarmGaveUp b' \<Longrightarrow>
     step cfg s (s\<lparr>lim := (lim s)\<lparr>populateBudget := Some b'\<rparr>, waiting := remove1 w (waiting s)\<rparr>)"
| warm_slot:
    "w \<in> set (slot_wait s) \<Longrightarrow> warm_slot_try (lim s) = Some l \<Longrightarrow>
     step cfg s (s\<lparr>lim := l, slot_wait := remove1 w (slot_wait s), populating := w # populating s\<rparr>)"
| warm_cancel:
    "w \<in> set (slot_wait s) \<Longrightarrow>
     step cfg s (s\<lparr>lim := warm_slot_cancel w (lim s), slot_wait := remove1 w (slot_wait s)\<rparr>)"
| populate_done:
    "w \<in> set (populating s) \<Longrightarrow>
     step cfg s (s\<lparr>lim := releaseCacheSlot w (lim s), populating := remove1 w (populating s)\<rparr>)"
| engine_put:
    "weight_ok w \<Longrightarrow> acquireEnginePutSlot w (lim s) = (l, ok) \<Longrightarrow>
     step cfg s (s\<lparr>lim := l, engine := (if ok then w # engine s else engine s)\<rparr>)"
| engine_done:
    "w \<in> set (engine s) \<Longrightarrow>
     step cfg s (s\<lparr>lim := releaseEnginePutSlot w (lim s), engine := remove1 w (engine s)\<rparr>)"
| extra_take:
    "weight_ok w \<Longrightarrow> tryAcquireCacheBytes w prio (lim s) = (l, ok) \<Longrightarrow>
     step cfg s (s\<lparr>lim := l, extra := (if ok then w # extra s else extra s)\<rparr>)"
| extra_done:
    "w \<in> set (extra s) \<Longrightarrow>
     step cfg s (s\<lparr>lim := release_budget w (lim s), extra := remove1 w (extra s)\<rparr>)"
| staging_take:
    "weight_ok w \<Longrightarrow> populateBudget (lim s) = Some b \<Longrightarrow> tryAcquireStaging w b = (b', ok) \<Longrightarrow>
     step cfg s (s\<lparr>lim := (lim s)\<lparr>populateBudget := Some b'\<rparr>,
                  staging := (if ok then w # staging s else staging s)\<rparr>)"
| staging_done:
    "w \<in> set (staging s) \<Longrightarrow> populateBudget (lim s) = Some b \<Longrightarrow>
     step cfg s (s\<lparr>lim := (lim s)\<lparr>populateBudget := Some (releaseStaging w b)\<rparr>,
                  staging := remove1 w (staging s)\<rparr>)"

inductive_cases step_elims: "step cfg s t"

abbreviation populate_weights :: "admission \<Rightarrow> int list" where
  "populate_weights s \<equiv> slot_wait s @ populating s @ engine s @ extra s"

definition budget_inv :: "byteBudget option \<Rightarrow> int \<Rightarrow> int \<Rightarrow> int \<Rightarrow> bool" where
  "budget_inv bo p st w \<longleftrightarrow>
     (case bo of None \<Rightarrow> True
      | Some b \<Rightarrow> budget_ok b \<and> populate_held b = p \<and> stagingInUse b = st \<and> pendingWarm b = w)"

definition sem_inv :: "semaphore option \<Rightarrow> nat \<Rightarrow> bool" where
  "sem_inv so n \<longleftrightarrow> (case so of None \<Rightarrow> True | Some c \<Rightarrow> sem_len c = n \<and> n \<le> sem_cap c)"

definition admission_inv :: "admission \<Rightarrow> bool" where
  "admission_inv s \<longleftrightarrow>
     list_all weight_ok (waiting s @ populate_weights s @ staging s)
     \<and> budget_inv (populateBudget (lim s)) (sum_list (populate_weights s)) (sum_list (staging s))
         (sum_list (waiting s))
     \<and> sem_inv (cacheSemaphore (lim s)) (length (populating s))
     \<and> sem_inv (enginePutSlots (lim s)) (length (engine s))"

lemma sum_list_remove1: "(w::int) \<in> set xs \<Longrightarrow> sum_list (remove1 w xs) = sum_list xs - w"
  by (induction xs) auto

lemma weights_nonneg: "list_all weight_ok xs \<Longrightarrow> 0 \<le> sum_list xs"
  by (induction xs) (auto simp: weight_ok_def)

lemma weight_le_sum: "list_all weight_ok xs \<Longrightarrow> w \<in> set xs \<Longrightarrow> w \<le> sum_list xs"
  using weights_nonneg by (induction xs) (fastforce simp: weight_ok_def)+

lemma list_all_remove1: "list_all P xs \<Longrightarrow> list_all P (remove1 w xs)"
  by (metis list_all_iff notin_set_remove1)

subsection \<open>Each operation keeps the books\<close>

text \<open>What a reservation of \<open>n\<close> populate bytes does to the books.\<close>

definition books :: "int \<Rightarrow> (byteBudget \<Rightarrow> byteBudget \<times> bool) \<Rightarrow> bool" where
  "books n f \<longleftrightarrow>
     (\<forall>b p st w. budget_inv (Some b) p st w \<longrightarrow>
        budget_inv (Some (fst (f b))) (if snd (f b) then p + n else p) st w)"

lemma books_intro:
  assumes "reservation f release_bytes populate_held stagingInUse" and n: "weight_ok n"
  shows "books n (f n)"
  unfolding books_def
proof (intro allI impI)
  fix b p st w assume "budget_inv (Some b) p st w"
  then have b: "budget_ok b" "populate_held b = p" "stagingInUse b = st" "pendingWarm b = w"
    by (simp_all add: budget_inv_def)
  obtain b' ok where f: "f n b = (b', ok)" by fastforce
  show "budget_inv (Some (fst (f n b))) (if snd (f n b) then p + n else p) st w"
  proof (cases ok)
    case True
    with reservation.acquire_true [OF assms(1) b(1) n, of b'] f b show ?thesis by (simp add: budget_inv_def)
  next
    case False
    with reservation.acquire_false [OF assms(1) b(1) n, of b'] f b show ?thesis by (simp add: budget_inv_def)
  qed
qed

lemmas books_readMiss = books_intro [OF rm.reservation_axioms]
lemmas books_warm = books_intro [OF wm.reservation_axioms]

lemma on_budget_inv:
  assumes "books n f" and "budget_inv (populateBudget l) p st w" and "on_budget f l = (l', ok)"
  shows "budget_inv (populateBudget l') (if ok then p + n else p) st w
         \<and> cacheSemaphore l' = cacheSemaphore l \<and> enginePutSlots l' = enginePutSlots l"
proof (cases "populateBudget l")
  case None
  then show ?thesis using assms by (auto simp: on_budget_def budget_inv_def)
next
  case (Some b)
  have "budget_inv (Some (fst (f b))) (if snd (f b) then p + n else p) st w"
    using assms(1,2) Some unfolding books_def by metis
  then show ?thesis using assms(3) Some by (auto simp: on_budget_def Let_def split: prod.splits)
qed

lemma acquireCacheBytes_readMiss_inv:
  assumes "budget_inv (populateBudget l) p st w" and "weight_ok n" and "acquireCacheBytes_readMiss n l = (l', ok)"
  shows "budget_inv (populateBudget l') (if ok then p + n else p) st w
         \<and> cacheSemaphore l' = cacheSemaphore l \<and> enginePutSlots l' = enginePutSlots l"
proof (cases "populateBudget l")
  case None
  then show ?thesis using assms by (auto simp: acquireCacheBytes_readMiss_def budget_inv_def)
next
  case (Some b)
  then have "on_budget (tryAcquireReadMiss n) l = (l', ok)"
    using assms(2,3) by (simp add: acquireCacheBytes_readMiss_def weight_ok_def)
  with books_readMiss [OF assms(2)] assms(1) show ?thesis by (rule on_budget_inv)
qed

lemma tryAcquireCacheBytes_inv:
  assumes "budget_inv (populateBudget l) p st w" and "weight_ok n" and "tryAcquireCacheBytes n prio l = (l', ok)"
  shows "budget_inv (populateBudget l') (if ok then p + n else p) st w
         \<and> cacheSemaphore l' = cacheSemaphore l \<and> enginePutSlots l' = enginePutSlots l"
proof (cases "populateBudget l")
  case None
  then show ?thesis using assms by (auto simp: tryAcquireCacheBytes_def budget_inv_def)
next
  case (Some b)
  then have "on_budget (if prio = priorityWarmWrite then tryAcquireWarm n else tryAcquireReadMiss n) l = (l', ok)"
    using assms(2,3) by (simp add: tryAcquireCacheBytes_def weight_ok_def split: if_splits)
  moreover have "books n (if prio = priorityWarmWrite then tryAcquireWarm n else tryAcquireReadMiss n)"
    using books_readMiss books_warm assms(2) by simp
  ultimately show ?thesis using on_budget_inv assms(1) by blast
qed

lemma release_budget_inv:
  assumes "budget_inv (populateBudget l) p st w" and "weight_ok n" and "n \<le> p"
  shows "budget_inv (populateBudget (release_budget n l)) (p - n) st w"
    and "cacheSemaphore (release_budget n l) = cacheSemaphore l"
    and "enginePutSlots (release_budget n l) = enginePutSlots l"
proof -
  show "budget_inv (populateBudget (release_budget n l)) (p - n) st w"
  proof (cases "populateBudget l")
    case (Some b)
    then show ?thesis using assms rm.release_ok [of b n] by (simp add: release_budget_def budget_inv_def)
  qed (simp add: release_budget_def budget_inv_def)
qed (simp_all add: release_budget_def split: option.splits)

lemma sem_try_inv: "sem_inv (Some c) n \<Longrightarrow> sem_try c = Some c' \<Longrightarrow> sem_inv (Some c') (Suc n)"
  by (auto simp: sem_inv_def sem_try_def split: if_splits)

lemma sem_recv_inv: "sem_inv so (Suc n) \<Longrightarrow> sem_inv (map_option sem_recv so) n"
  by (cases so) (auto simp: sem_inv_def sem_recv_def)

lemma acquireCacheSlot_readMiss_inv:
  assumes "budget_inv (populateBudget l) p st w" and "weight_ok n" and "sem_inv (cacheSemaphore l) k"
    and "acquireCacheSlot_readMiss cfg usage n l = (l', ok)"
  shows "budget_inv (populateBudget l') (if ok then p + n else p) st w
         \<and> sem_inv (cacheSemaphore l') (if ok then Suc k else k) \<and> enginePutSlots l' = enginePutSlots l"
proof (cases "diskOverBudget cfg usage \<or> (\<exists>c. cacheSemaphore l = Some c \<and> sem_try c = None)")
  case True
  then have "l' = l \<and> \<not> ok" using assms(4) by (auto simp: acquireCacheSlot_readMiss_def split: if_splits)
  with assms show ?thesis by simp
next
  case False
  obtain l1 where l1: "budget_inv (populateBudget l1) p st w" "sem_inv (cacheSemaphore l1) (Suc k)"
      "enginePutSlots l1 = enginePutSlots l"
    and eq: "acquireCacheSlot_readMiss cfg usage n l =
      (let (s2, ok) = acquireCacheBytes_readMiss n l1 in
       if \<not> ok then (s2\<lparr>cacheSemaphore := map_option sem_recv (cacheSemaphore s2)\<rparr>, False) else (s2, True))"
  proof (cases "cacheSemaphore l")
    case None
    with False assms(1) that [of l] show ?thesis by (simp add: acquireCacheSlot_readMiss_def sem_inv_def)
  next
    case (Some c)
    with False obtain c' where c': "sem_try c = Some c'" by auto
    with Some assms(3) have "sem_inv (Some c') (Suc k)" using sem_try_inv by metis
    with False Some c' assms(1) that [of "l\<lparr>cacheSemaphore := Some c'\<rparr>"] show ?thesis
      by (simp add: acquireCacheSlot_readMiss_def)
  qed
  obtain s2 ok2 where a: "acquireCacheBytes_readMiss n l1 = (s2, ok2)" by fastforce
  note i = acquireCacheBytes_readMiss_inv [OF l1(1) assms(2) a]
  from eq a assms(4) have "(if \<not> ok2 then (s2\<lparr>cacheSemaphore := map_option sem_recv (cacheSemaphore s2)\<rparr>, False)
      else (s2, True)) = (l', ok)" by simp
  with i l1(2,3) sem_recv_inv [of "cacheSemaphore l1" k] show ?thesis by (cases ok2) auto
qed

lemma acquireEnginePutSlot_inv:
  assumes "budget_inv (populateBudget l) p st w" and "weight_ok n" and "sem_inv (enginePutSlots l) k"
    and "acquireEnginePutSlot n l = (l', ok)"
  shows "budget_inv (populateBudget l') (if ok then p + n else p) st w
         \<and> sem_inv (enginePutSlots l') (if ok then Suc k else k) \<and> cacheSemaphore l' = cacheSemaphore l"
proof (cases "\<exists>c. enginePutSlots l = Some c \<and> sem_try c = None")
  case True
  then have "l' = l \<and> \<not> ok" using assms(4) by (auto simp: acquireEnginePutSlot_def)
  with assms show ?thesis by simp
next
  case False
  obtain l1 where l1: "budget_inv (populateBudget l1) p st w" "sem_inv (enginePutSlots l1) (Suc k)"
      "cacheSemaphore l1 = cacheSemaphore l"
    and eq: "acquireEnginePutSlot n l =
      (let (s2, ok) = acquireCacheBytes_readMiss n l1 in
       if \<not> ok then (s2\<lparr>enginePutSlots := map_option sem_recv (enginePutSlots s2)\<rparr>, False) else (s2, True))"
  proof (cases "enginePutSlots l")
    case None
    with False assms(1) that [of l] show ?thesis by (simp add: acquireEnginePutSlot_def sem_inv_def)
  next
    case (Some c)
    with False obtain c' where c': "sem_try c = Some c'" by auto
    with Some assms(3) have "sem_inv (Some c') (Suc k)" using sem_try_inv by metis
    with False Some c' assms(1) that [of "l\<lparr>enginePutSlots := Some c'\<rparr>"] show ?thesis
      by (simp add: acquireEnginePutSlot_def)
  qed
  obtain s2 ok2 where a: "acquireCacheBytes_readMiss n l1 = (s2, ok2)" by fastforce
  note i = acquireCacheBytes_readMiss_inv [OF l1(1) assms(2) a]
  from eq a assms(4) have "(if \<not> ok2 then (s2\<lparr>enginePutSlots := map_option sem_recv (enginePutSlots s2)\<rparr>, False)
      else (s2, True)) = (l', ok)" by simp
  with i l1(2,3) sem_recv_inv [of "enginePutSlots l1" k] show ?thesis by (cases ok2) auto
qed

lemma acquireWarm_enter_inv:
  assumes "budget_inv (Some b) p st w" and "weight_ok n" and "w + n < 2 ^ 63" and "acquireWarm_enter n b = Some b'"
  shows "budget_inv (Some b') p st (w + n)"
  using assms
  by (auto simp: budget_inv_def acquireWarm_enter_def budget_ok_def populate_held_def weight_ok_def wrap64_in
      split: if_splits)

lemma acquireWarm_pass_inv:
  assumes "budget_inv (Some b) p st w" and "weight_ok n" and "n \<le> w"
  shows "acquireWarm_pass ctx_err n b = WarmTaken b' \<Longrightarrow> budget_inv (Some b') (p + n) st (w - n)"
    and "acquireWarm_pass ctx_err n b = WarmGaveUp b' \<Longrightarrow> budget_inv (Some b') p st (w - n)"
  using assms
  by (auto simp: budget_inv_def acquireWarm_pass_def budget_ok_def populate_held_def weight_ok_def wrap64_in
      split: if_splits)

lemma warm_slot_try_inv:
  assumes "warm_slot_try l = Some l'" and "sem_inv (cacheSemaphore l) k"
  shows "populateBudget l' = populateBudget l \<and> enginePutSlots l' = enginePutSlots l
         \<and> sem_inv (cacheSemaphore l') (Suc k)"
  using assms sem_try_inv
  by (auto simp: warm_slot_try_def split: option.splits) (simp add: sem_inv_def)

lemma staging_inv:
  assumes "budget_inv (Some b) p st w" and "weight_ok n"
  shows "tryAcquireStaging n b = (b', ok) \<Longrightarrow> budget_inv (Some b') p (if ok then st + n else st) w"
    and "n \<le> st \<Longrightarrow> budget_inv (Some (releaseStaging n b)) p (st - n) w"
  using assms stg.acquire_true [of b n b'] stg.acquire_false [of b n b'] stg.release_ok [of b n]
  by (auto simp: budget_inv_def split: if_splits)

subsection \<open>The invariant\<close>

lemma invD:
  assumes "admission_inv s"
  shows "budget_inv (populateBudget (lim s)) (sum_list (populate_weights s)) (sum_list (staging s)) (sum_list (waiting s))"
    and "sem_inv (cacheSemaphore (lim s)) (length (populating s))"
    and "sem_inv (enginePutSlots (lim s)) (length (engine s))"
    and "w \<in> set (waiting s) \<Longrightarrow> weight_ok w" "w \<in> set (populate_weights s) \<Longrightarrow> weight_ok w"
    and "w \<in> set (staging s) \<Longrightarrow> weight_ok w"
    and "w \<in> set (waiting s) \<Longrightarrow> w \<le> sum_list (waiting s)"
    and "w \<in> set (populate_weights s) \<Longrightarrow> w \<le> sum_list (populate_weights s)"
    and "w \<in> set (staging s) \<Longrightarrow> w \<le> sum_list (staging s)"
  using assms weight_le_sum [of "waiting s" w] weight_le_sum [of "populate_weights s" w] weight_le_sum [of "staging s" w]
  by (auto simp: admission_inv_def list_all_iff)

lemmas inv_simps = admission_inv_def sum_list_remove1 list_all_remove1 length_remove1

lemma length_pos_Suc: "x \<in> set xs \<Longrightarrow> length xs = Suc (length xs - 1)"
  by (cases xs) auto

lemma step_inv: "step cfg s t \<Longrightarrow> admission_inv s \<Longrightarrow> admission_inv t"
proof (induction rule: step.induct)
  case (read_miss w usage s l ok)
  from acquireCacheSlot_readMiss_inv [OF invD(1) [OF read_miss(3)] read_miss(1) invD(2) [OF read_miss(3)] read_miss(2)]
    read_miss show ?case by (auto simp: inv_simps algebra_simps)
next
  case (warm_enter w usage s b b')
  from acquireWarm_enter_inv [OF invD(1) [OF warm_enter(6), unfolded warm_enter(3)] warm_enter(1,5,4)] warm_enter
  show ?case by (auto simp: inv_simps algebra_simps)
next
  case (warm_unbudgeted w usage s)
  then show ?case by (auto simp: inv_simps budget_inv_def)
next
  case (warm_taken w s b ctx_err b')
  from acquireWarm_pass_inv(1) [OF invD(1) [OF warm_taken(4), unfolded warm_taken(2)]
      invD(4,7) [OF warm_taken(4) warm_taken(1)] warm_taken(3)] invD(4) [OF warm_taken(4) warm_taken(1)] warm_taken
  show ?case by (auto simp: inv_simps algebra_simps)
next
  case (warm_gave_up w s b ctx_err b')
  from acquireWarm_pass_inv(2) [OF invD(1) [OF warm_gave_up(4), unfolded warm_gave_up(2)]
      invD(4,7) [OF warm_gave_up(4) warm_gave_up(1)] warm_gave_up(3)] warm_gave_up
  show ?case by (auto simp: inv_simps algebra_simps)
next
  case (warm_slot w s l)
  from warm_slot_try_inv [OF warm_slot(2) invD(2) [OF warm_slot(3)]] invD(5) [OF warm_slot(3), of w] warm_slot
  show ?case by (auto simp: inv_simps algebra_simps)
next
  case (warm_cancel w s)
  from release_budget_inv [OF invD(1) [OF warm_cancel(2)], of w] invD(5,8) [OF warm_cancel(2), of w] warm_cancel
  show ?case by (auto simp: inv_simps warm_slot_cancel_def algebra_simps)
next
  case (populate_done w s)
  have "sem_inv (cacheSemaphore (lim s)) (Suc (length (populating s) - 1))"
    using invD(2) [OF populate_done(2)] length_pos_Suc [OF populate_done(1)] by simp
  from sem_recv_inv [OF this] release_budget_inv [OF invD(1) [OF populate_done(2)], of w]
    invD(5,8) [OF populate_done(2), of w] populate_done
  show ?case by (auto simp: inv_simps releaseCacheSlot_def Let_def algebra_simps)
next
  case (engine_put w s l ok)
  from acquireEnginePutSlot_inv [OF invD(1) [OF engine_put(3)] engine_put(1) invD(3) [OF engine_put(3)] engine_put(2)]
    engine_put show ?case by (auto simp: inv_simps algebra_simps)
next
  case (engine_done w s)
  have "sem_inv (enginePutSlots (lim s)) (Suc (length (engine s) - 1))"
    using invD(3) [OF engine_done(2)] length_pos_Suc [OF engine_done(1)] by simp
  from sem_recv_inv [OF this] release_budget_inv [OF invD(1) [OF engine_done(2)], of w]
    invD(5,8) [OF engine_done(2), of w] engine_done
  show ?case by (auto simp: inv_simps releaseEnginePutSlot_def Let_def algebra_simps)
next
  case (extra_take w prio s l ok)
  from tryAcquireCacheBytes_inv [OF invD(1) [OF extra_take(3)] extra_take(1) extra_take(2)] extra_take
  show ?case by (auto simp: inv_simps algebra_simps)
next
  case (extra_done w s)
  from release_budget_inv [OF invD(1) [OF extra_done(2)], of w] invD(5,8) [OF extra_done(2), of w] extra_done
  show ?case by (auto simp: inv_simps algebra_simps)
next
  case (staging_take w s b b' ok)
  from staging_inv(1) [OF invD(1) [OF staging_take(4), unfolded staging_take(2)] staging_take(1,3)] staging_take
  show ?case by (auto simp: inv_simps algebra_simps)
next
  case (staging_done w s b)
  from staging_inv(2) [OF invD(1) [OF staging_done(3), unfolded staging_done(2)]
      invD(6,9) [OF staging_done(3) staging_done(1)]] staging_done
  show ?case by (auto simp: inv_simps algebra_simps)
qed

definition start_system :: "limits \<Rightarrow> admission" where
  "start_system l = \<lparr>lim = l, waiting = [], slot_wait = [], populating = [], engine = [], extra = [], staging = []\<rparr>"

subsection \<open>Capacities never change\<close>

definition capacities :: "limits \<Rightarrow> (int \<times> int \<times> int) option \<times> nat option \<times> nat option" where
  "capacities l =
     (map_option (\<lambda>b. (budget_total b, stagingCap b, reserveCap b)) (populateBudget l),
      map_option sem_cap (cacheSemaphore l), map_option sem_cap (enginePutSlots l))"

lemma budget_op_capacities:
  "tryAcquireReadMiss n b = (b', ok) \<Longrightarrow> (budget_total b', stagingCap b', reserveCap b') = (budget_total b, stagingCap b, reserveCap b)"
  "tryAcquireWarm n b = (b', ok) \<Longrightarrow> (budget_total b', stagingCap b', reserveCap b') = (budget_total b, stagingCap b, reserveCap b)"
  "tryAcquireStaging n b = (b', ok) \<Longrightarrow> (budget_total b', stagingCap b', reserveCap b') = (budget_total b, stagingCap b, reserveCap b)"
  by (auto simp: tryAcquireReadMiss_def tryAcquireWarm_def tryAcquireStaging_def Let_def split: if_splits)

lemma sem_op_capacities: "sem_try c = Some c' \<Longrightarrow> sem_cap c' = sem_cap c" "sem_cap (sem_recv c) = sem_cap c"
  by (auto simp: sem_try_def sem_recv_def split: if_splits)

lemma map_sem_recv: "map_option sem_cap (map_option sem_recv so) = map_option sem_cap so"
  by (cases so) (simp_all add: sem_op_capacities)

lemma on_budget_capacities:
  assumes "\<And>b b' ok. f b = (b', ok) \<Longrightarrow> (budget_total b', stagingCap b', reserveCap b') = (budget_total b, stagingCap b, reserveCap b)"
    and "on_budget f l = (l', ok)"
  shows "capacities l' = capacities l"
proof (cases "populateBudget l")
  case None
  then show ?thesis using assms(2) by (simp add: on_budget_def)
next
  case (Some b)
  obtain b' ok' where f: "f b = (b', ok')" by fastforce
  then show ?thesis using Some assms(2) assms(1) [OF f] by (auto simp: on_budget_def capacities_def)
qed

lemma bytes_capacities:
  "acquireCacheBytes_readMiss n l = (l', ok) \<Longrightarrow> capacities l' = capacities l"
  "tryAcquireCacheBytes n prio l = (l', ok) \<Longrightarrow> capacities l' = capacities l"
  "capacities (release_budget n l) = capacities l"
  using on_budget_capacities [OF budget_op_capacities(1)] on_budget_capacities [OF budget_op_capacities(2)]
  by (auto simp: acquireCacheBytes_readMiss_def tryAcquireCacheBytes_def release_budget_def capacities_def release_bytes_def
      split: if_splits option.splits)

lemma slot_capacities:
  assumes "acquireCacheSlot_readMiss cfg usage n l = (l', ok)" shows "capacities l' = capacities l"
  using assms
  by (auto simp: acquireCacheSlot_readMiss_def Let_def split: if_splits option.splits prod.splits
      dest!: bytes_capacities(1) sem_op_capacities(1) simp: capacities_def map_sem_recv sem_op_capacities(2))

lemma engine_capacities:
  assumes "acquireEnginePutSlot n l = (l', ok)" shows "capacities l' = capacities l"
  using assms
  by (auto simp: acquireEnginePutSlot_def Let_def split: if_splits option.splits prod.splits
      dest!: bytes_capacities(1) sem_op_capacities(1) simp: capacities_def map_sem_recv sem_op_capacities(2))

lemma step_capacities: "step cfg s t \<Longrightarrow> capacities (lim t) = capacities (lim s)"
proof (induction rule: step.induct)
  case (read_miss w usage s l ok)
  then show ?case using slot_capacities by simp
next
  case (engine_put w s l ok)
  then show ?case using engine_capacities by simp
next
  case (extra_take w prio s l ok)
  then show ?case using bytes_capacities by simp
next
  case (staging_take w s b b' ok)
  then show ?case using budget_op_capacities(3) by (fastforce simp: capacities_def)
qed (auto simp: capacities_def acquireWarm_enter_def acquireWarm_pass_def warm_slot_try_def warm_slot_cancel_def
    releaseCacheSlot_def releaseEnginePutSlot_def release_budget_def release_bytes_def releaseStaging_def
    map_sem_recv sem_op_capacities Let_def split: if_splits option.splits)

lemma reachable_inv:
  assumes "(step cfg)\<^sup>*\<^sup>* s t" and "admission_inv s"
  shows "admission_inv t \<and> capacities (lim t) = capacities (lim s)"
  using assms by (induction rule: rtranclp_induct) (auto simp: step_capacities intro: step_inv)

lemma newByteBudget_fields:
  assumes "\<And>x. 0 \<le> x \<Longrightarrow> 0 \<le> fl x" and "0 \<le> t"
  shows "0 \<le> reserveCap (newByteBudget fl t f p)" "reserveCap (newByteBudget fl t f p) \<le> t"
    and "remaining (newByteBudget fl t f p) = t" "budget_total (newByteBudget fl t f p) = t"
    and "pendingWarm (newByteBudget fl t f p) = 0" "stagingInUse (newByteBudget fl t f p) = 0"
proof -
  define c where "c = \<lfloor>fl (fl (of_int t) * clamp_fraction f)\<rfloor>"
  have "0 \<le> clamp_fraction f" by (simp add: clamp_fraction_def split: float64.splits)
  with assms have "0 \<le> c" by (simp add: c_def)
  moreover have "reserveCap (newByteBudget fl t f p) =
      (let cap = (if 0 < clamp_fraction f \<and> c < p then p else c) in if t < cap then t else cap)"
    by (simp add: newByteBudget_def c_def Let_def)
  ultimately show "0 \<le> reserveCap (newByteBudget fl t f p)" "reserveCap (newByteBudget fl t f p) \<le> t"
    using assms(2) by (auto simp: Let_def)
qed (simp_all add: newByteBudget_def Let_def)

lemma start_inv:
  assumes "\<And>x. 0 \<le> x \<Longrightarrow> 0 \<le> fl x" and "MaxPopulateMemoryBytes cfg < 2 ^ 63"
  shows "admission_inv (start_system (new_limits fl cfg))"
proof (cases "0 < MaxPopulateMemoryBytes cfg")
  case True
  then show ?thesis
    using newByteBudget_fields [where fl = fl and t = "MaxPopulateMemoryBytes cfg", OF assms(1)] assms(2)
    by (simp add: start_system_def admission_inv_def new_limits_def budget_inv_def budget_ok_def populate_held_def
        sem_inv_def sem_new_def Let_def go_div_nonneg)
next
  case False
  then show ?thesis
    by (simp add: start_system_def admission_inv_def new_limits_def budget_inv_def sem_inv_def sem_new_def)
qed

section \<open>Properties\<close>

text \<open>C7: however requests interleave, the bytes reserved by populates, engine PUTs and serve
  buffers together never exceed the configured memory budget, serve buffers never hold more than
  half of it, and the running populates and engine PUTs never outnumber their slots.\<close>

theorem budget_never_exceeded:
  assumes "\<And>x. 0 \<le> x \<Longrightarrow> 0 \<le> fl x"
    and "0 < MaxPopulateMemoryBytes cfg" and "MaxPopulateMemoryBytes cfg < 2 ^ 63"
    and "0 < MaxConcurrentWrites cfg"
    and "(step cfg)\<^sup>*\<^sup>* (start_system (new_limits fl cfg)) s"
  shows "sum_list (populate_weights s) + sum_list (staging s) \<le> MaxPopulateMemoryBytes cfg
    \<and> sum_list (staging s) \<le> MaxPopulateMemoryBytes cfg div 2
    \<and> int (length (populating s)) \<le> MaxConcurrentWrites cfg
    \<and> (IsTiered cfg \<longrightarrow> int (length (engine s)) \<le> MaxConcurrentWrites cfg)"
proof -
  have i: "admission_inv s" and c: "capacities (lim s) = capacities (new_limits fl cfg)"
    using reachable_inv [OF assms(5) start_inv [OF assms(1,3)]] by (simp_all add: start_system_def)
  obtain b where b: "populateBudget (lim s) = Some b"
    and caps: "budget_total b = MaxPopulateMemoryBytes cfg" "stagingCap b = MaxPopulateMemoryBytes cfg div 2"
    using c assms(2) newByteBudget_fields(4) [where fl = fl and t = "MaxPopulateMemoryBytes cfg", OF assms(1)]
    by (auto simp: capacities_def new_limits_def Let_def go_div_nonneg)
  have "budget_ok b" "populate_held b = sum_list (populate_weights s)" "stagingInUse b = sum_list (staging s)"
    using invD(1) [OF i] b by (simp_all add: budget_inv_def)
  moreover obtain sc where "cacheSemaphore (lim s) = Some sc" "int (sem_cap sc) = MaxConcurrentWrites cfg"
    using c assms(4) by (auto simp: capacities_def new_limits_def sem_new_def)
  moreover have "\<exists>se. enginePutSlots (lim s) = Some se \<and> int (sem_cap se) = MaxConcurrentWrites cfg" if "IsTiered cfg"
    using c assms(4) that by (auto simp: capacities_def new_limits_def sem_new_def)
  ultimately show ?thesis
    using caps invD(2,3) [OF i] by (auto simp: budget_ok_def populate_held_def sem_inv_def)
qed

definition sample_cfg :: budget_config where
  "sample_cfg = \<lparr>MaxConcurrentWrites = 2, MaxPopulateMemoryBytes = 100, WarmOnWrite = True,
     WarmOnWriteReservedFraction = Fin (1 / 4), PopulateShedDiskRatio = 0, IsBlockCachingEnabled = False,
     cfg_BlockSize = 0, cfg_ChunkSize = 0, cfg_ChannelBuffer = 0, IsTiered = False\<rparr>"

theorem budget_never_exceeded_witness:
  "\<exists>s. (step sample_cfg)\<^sup>*\<^sup>* (start_system (new_limits (\<lambda>x. x) sample_cfg)) s \<and> populating s = [30]
     \<and> sum_list (populate_weights s) + sum_list (staging s) \<le> 100"
proof -
  let ?s0 = "start_system (new_limits (\<lambda>x. x) sample_cfg)"
  have w: "weight_ok 30" by (simp add: weight_ok_def)
  have "snd (acquireCacheSlot_readMiss sample_cfg None 30 (lim ?s0))"
    by (simp add: acquireCacheSlot_readMiss_def sample_cfg_def start_system_def new_limits_def newByteBudget_def clamp_fraction_def
        backgroundPopulateBufferBytes_def backgroundPopulateWriterBufferBytes_def diskOverBudget_def sem_new_def
        sem_try_def acquireCacheBytes_readMiss_def on_budget_def tryAcquireReadMiss_def warm_reserve_def wrap64_def
        Let_def go_div_nonneg)
  then obtain l where "acquireCacheSlot_readMiss sample_cfg None 30 (lim ?s0) = (l, True)"
    by (metis prod.collapse)
  from step.read_miss [OF w this] have "step sample_cfg ?s0 (?s0\<lparr>lim := l, populating := [30]\<rparr>)"
    by (simp add: start_system_def)
  then have r: "(step sample_cfg)\<^sup>*\<^sup>* ?s0 (?s0\<lparr>lim := l, populating := [30]\<rparr>)" by blast
  have "0 < MaxPopulateMemoryBytes sample_cfg" "MaxPopulateMemoryBytes sample_cfg < 2 ^ 63"
    "0 < MaxConcurrentWrites sample_cfg" by (simp_all add: sample_cfg_def)
  from budget_never_exceeded [OF _ this r] r show ?thesis by (auto simp: sample_cfg_def)
qed

text \<open>a populate that is refused changes nothing, and one that is admitted and released gives
  back exactly what it took: no path of the slot acquisition leaks bytes or count slots.\<close>

lemma cache_slot_no_leak:
  assumes "\<And>b. populateBudget l = Some b \<Longrightarrow> budget_ok b" and "weight_ok n"
  shows "case acquireCacheSlot_readMiss cfg usage n l of
           (l', ok) \<Rightarrow> if ok then releaseCacheSlot n l' = l else l' = l"
proof -
  have undo: "release_budget n l' = k \<and> ok \<or> l' = k \<and> \<not> ok"
    if a: "acquireCacheBytes_readMiss n k = (l', ok)" and k: "populateBudget k = populateBudget l" for k l' ok
  proof (cases "populateBudget k")
    case None
    with a show ?thesis by (simp add: acquireCacheBytes_readMiss_def release_budget_def split: if_splits)
  next
    case (Some b)
    with a assms(2) have "on_budget (tryAcquireReadMiss n) k = (l', ok)"
      by (simp add: acquireCacheBytes_readMiss_def weight_ok_def)
    moreover obtain b' where b': "tryAcquireReadMiss n b = (b', ok)" and "l' = k\<lparr>populateBudget := Some b'\<rparr>"
      using calculation Some by (auto simp: on_budget_def split: prod.splits)
    moreover have "k\<lparr>populateBudget := Some b\<rparr> = k" using Some by (cases k) simp
    moreover have "budget_ok b" using Some assms(1) k by simp
    ultimately show ?thesis
      using rm.acquire_false [of b n b'] rm.release_acquire [of b n b'] assms(2)
      by (cases ok) (auto simp: release_budget_def)
  qed
  have rec: "map_option sem_recv (Some c') = Some c" if "sem_try c = Some c'" for c c'
    using that by (auto simp: sem_try_def sem_recv_def split: if_splits)
  show ?thesis
  proof (cases "diskOverBudget cfg usage \<or> (\<exists>c. cacheSemaphore l = Some c \<and> sem_try c = None)")
    case True
    then show ?thesis by (auto simp: acquireCacheSlot_readMiss_def)
  next
    case False
    obtain k where k: "populateBudget k = populateBudget l"
      "k\<lparr>cacheSemaphore := map_option sem_recv (cacheSemaphore k)\<rparr> = l"
      "acquireCacheSlot_readMiss cfg usage n l =
         (let (s2, ok) = acquireCacheBytes_readMiss n k in
          if \<not> ok then (s2\<lparr>cacheSemaphore := map_option sem_recv (cacheSemaphore s2)\<rparr>, False) else (s2, True))"
    proof (cases "cacheSemaphore l")
      case None
      with False that [of l] show ?thesis by (simp add: acquireCacheSlot_readMiss_def)
    next
      case (Some c)
      with False obtain c' where c': "sem_try c = Some c'" by auto
      from False Some c' rec [OF c'] that [of "l\<lparr>cacheSemaphore := Some c'\<rparr>"] show ?thesis
        by (simp add: acquireCacheSlot_readMiss_def)
    qed
    obtain l2 ok2 where a: "acquireCacheBytes_readMiss n k = (l2, ok2)" by fastforce
    from undo [OF a k(1)] k(2,3) a show ?thesis by (auto simp: releaseCacheSlot_def Let_def)
  qed
qed

lemma cache_slot_no_leak_witness:
  "let l = new_limits (\<lambda>x. x) sample_cfg;
       (l', ok) = acquireCacheSlot_readMiss sample_cfg None 30 l
   in if ok then releaseCacheSlot 30 l' = l else l' = l"
proof -
  have "weight_ok 30" by (simp add: weight_ok_def)
  moreover have "admission_inv (start_system (new_limits (\<lambda>x. x) sample_cfg))"
    by (rule start_inv) (simp_all add: sample_cfg_def)
  then have "\<And>b. populateBudget (new_limits (\<lambda>x. x) sample_cfg) = Some b \<Longrightarrow> budget_ok b"
    by (auto simp: admission_inv_def start_system_def budget_inv_def)
  ultimately show ?thesis
    using cache_slot_no_leak [of "new_limits (\<lambda>x. x) sample_cfg" 30 sample_cfg None] by (simp add: Let_def)
qed

text \<open>C8: a waiting warm-on-write is not starved by reads: once the free bytes cover its demand and
  that demand is within the reserve, no read-miss populate and no serve buffer takes them below it,
  so its next pass of the loop succeeds.\<close>

theorem warm_priority:
  assumes "budget_ok b" and "weight_ok n" and "weight_ok w" and "w \<le> pendingWarm b" and "w \<le> reserveCap b"
    and "w \<le> remaining b"
    and "(b', ok) = tryAcquireReadMiss n b \<or> (b', ok) = tryAcquireStaging n b"
  shows "w \<le> remaining b' \<and> (\<exists>b''. acquireWarm_pass ctx_err w b' = WarmTaken b'')"
proof -
  have "w \<le> warm_reserve b" using assms(4,5) by (simp add: warm_reserve_def)
  with assms(6,7) have "w \<le> remaining b'"
    by (auto simp: tryAcquireReadMiss_cases [OF assms(1,2)] tryAcquireStaging_cases [OF assms(1,2)] split: if_splits)
  then show ?thesis by (simp add: acquireWarm_pass_def)
qed

definition sample_budget :: byteBudget where
  "sample_budget = \<lparr>budget_total = 100, remaining = 60, pendingWarm = 50, reserveCap = 50, stagingInUse = 0, stagingCap = 50\<rparr>"

theorem warm_priority_witness:
  "\<not> snd (tryAcquireReadMiss 20 sample_budget)
   \<and> (\<exists>b. acquireWarm_pass False 50 (fst (tryAcquireReadMiss 20 sample_budget)) = WarmTaken b)"
proof -
  have "budget_ok sample_budget" "weight_ok 20" "weight_ok 50" "50 \<le> pendingWarm sample_budget"
    "50 \<le> reserveCap sample_budget" "50 \<le> remaining sample_budget"
    by (simp_all add: sample_budget_def budget_ok_def weight_ok_def)
  from warm_priority [OF this, of "fst (tryAcquireReadMiss 20 sample_budget)" "snd (tryAcquireReadMiss 20 sample_budget)" False]
  show ?thesis by (simp add: tryAcquireReadMiss_def warm_reserve_def sample_budget_def wrap64_def)
qed

text \<open>a serve buffer as large as the whole budget is never staged: its weight is clamped to the
  budget, which is more than the half that staging may hold.\<close>

lemma full_budget_staging_never_admitted:
  assumes "2 \<le> MaxPopulateMemoryBytes cfg" and "MaxPopulateMemoryBytes cfg \<le> n"
    and "budget_ok b" and "budget_total b = MaxPopulateMemoryBytes cfg"
    and "stagingCap b = go_div (MaxPopulateMemoryBytes cfg) 2"
  shows "tryAcquireStaging (stagingWeight cfg n) b = (b, False)"
proof -
  have s: "stagingWeight cfg n = MaxPopulateMemoryBytes cfg"
    using assms(1,2) by (simp add: stagingWeight_def Let_def)
  have "weight_ok (MaxPopulateMemoryBytes cfg)" using assms(1,3,4) by (simp add: weight_ok_def budget_ok_def)
  from tryAcquireStaging_cases [OF assms(3) this] show ?thesis
    using assms s by (auto simp: go_div_nonneg budget_ok_def)
qed

lemma full_budget_staging_never_admitted_witness:
  "tryAcquireStaging (stagingWeight sample_cfg 100) (sample_budget\<lparr>remaining := 100, pendingWarm := 0\<rparr>)
   = (sample_budget\<lparr>remaining := 100, pendingWarm := 0\<rparr>, False)"
  by (rule full_budget_staging_never_admitted)
    (simp_all add: sample_cfg_def sample_budget_def budget_ok_def go_div_nonneg)

end
