(* ===== verification/Go_Http.thy ===== *)
theory Go_Http
  imports Go_Base "HOL-Library.AList"
begin

text \<open>
  The part of \<^verbatim>\<open>net/http\<close> and \<^verbatim>\<open>time\<close> that the proxy relies on: header maps with their
  canonical keys, and HTTP dates (\<^verbatim>\<open>http.ParseTime\<close> with its three layouts, and
  \<^verbatim>\<open>t.Format(http.TimeFormat)\<close>). An instant is its number of nanoseconds since the Unix
  epoch. The local time zone of the process is UTC.
\<close>

named_theorems http_hdr \<open>header maps: what Get returns after Set and Del\<close>

section \<open>Headers\<close>

text \<open>
  A \<^verbatim>\<open>map[string][]string\<close> as an association list whose order is the one a range loop
  visits; every fact below holds for every order.
\<close>

type_synonym header = "(string \<times> string list) list"

definition upper :: "char \<Rightarrow> char" where
  "upper c = (let n = of_char c :: nat in if 97 \<le> n \<and> n \<le> 122 then char_of (n - 32) else c)"

definition validHeaderFieldByte :: "char \<Rightarrow> bool" where
  "validHeaderFieldByte c =
     (let n = of_char c :: nat in
      48 \<le> n \<and> n \<le> 57 \<or> 65 \<le> n \<and> n \<le> 90 \<or> 97 \<le> n \<and> n \<le> 122
      \<or> c \<in> set ''!#$%&*+-.^_|~'' \<or> n = 39 \<or> n = 96)"

fun canon_key :: "bool \<Rightarrow> string \<Rightarrow> string" where
  "canon_key up [] = []"
| "canon_key up (c # cs) = (if up then upper c else lower c) # canon_key (c = CHR ''-'') cs"

definition CanonicalHeaderKey :: "string \<Rightarrow> string" where
  "CanonicalHeaderKey s = (if list_all validHeaderFieldByte s then canon_key True s else s)"

definition header_values :: "header \<Rightarrow> string \<Rightarrow> string list" where
  "header_values h k = (case map_of h (CanonicalHeaderKey k) of None \<Rightarrow> [] | Some vs \<Rightarrow> vs)"

definition header_get :: "header \<Rightarrow> string \<Rightarrow> string" where
  "header_get h k = (case header_values h k of [] \<Rightarrow> [] | v # _ \<Rightarrow> v)"

definition header_set :: "header \<Rightarrow> string \<Rightarrow> string \<Rightarrow> header" where
  "header_set h k v = AList.update (CanonicalHeaderKey k) [v] h"

definition header_add :: "header \<Rightarrow> string \<Rightarrow> string \<Rightarrow> header" where
  "header_add h k v = AList.update (CanonicalHeaderKey k) (header_values h k @ [v]) h"

definition header_del :: "header \<Rightarrow> string \<Rightarrow> header" where
  "header_del h k = AList.delete (CanonicalHeaderKey k) h"

text \<open>\<^verbatim>\<open>h[k] = vs\<close>, which does not canonicalise the key.\<close>

definition header_put_raw :: "header \<Rightarrow> string \<Rightarrow> string list \<Rightarrow> header" where
  "header_put_raw h k vs = AList.update k vs h"

lemma header_get_set [simp, http_hdr]: "header_get (header_set h k v) k = v"
  by (simp add: header_get_def header_set_def header_values_def update_conv')

lemma header_get_set_other [http_hdr]:
  "CanonicalHeaderKey k \<noteq> CanonicalHeaderKey k' \<Longrightarrow>
   header_get (header_set h k v) k' = header_get h k'"
  by (simp add: header_get_def header_set_def header_values_def update_conv')

lemma header_get_del [simp, http_hdr]: "header_get (header_del h k) k = []"
  by (simp add: header_get_def header_del_def header_values_def delete_conv')

lemma header_get_del_other [http_hdr]:
  "CanonicalHeaderKey k \<noteq> CanonicalHeaderKey k' \<Longrightarrow>
   header_get (header_del h k) k' = header_get h k'"
  by (simp add: header_get_def header_del_def header_values_def delete_conv')

lemma header_get_put_raw [http_hdr]:
  "CanonicalHeaderKey k' \<noteq> k \<Longrightarrow> header_get (header_put_raw h k vs) k' = header_get h k'"
  by (simp add: header_get_def header_put_raw_def header_values_def update_conv')

section \<open>Dates\<close>

subsection \<open>The calendar\<close>

definition leap :: "int \<Rightarrow> bool" where
  "leap y \<longleftrightarrow> y mod 4 = 0 \<and> (y mod 100 \<noteq> 0 \<or> y mod 400 = 0)"

definition month_lens :: "int \<Rightarrow> int list" where
  "month_lens y = [31, if leap y then 29 else 28, 31, 30, 31, 30, 31, 31, 30, 31, 30, 31]"

text \<open>Days before January 1st of a year, counted from year 0.\<close>

definition days_before_year :: "int \<Rightarrow> int" where
  "days_before_year y = 365 * y + (y - 1) div 4 - (y - 1) div 100 + (y - 1) div 400"

definition unix_days :: "int \<Rightarrow> nat \<Rightarrow> int \<Rightarrow> int" where
  "unix_days y m d =
     days_before_year y - days_before_year 1970 + sum_list (take m (month_lens y)) + d - 1"

fun month_scan :: "int list \<Rightarrow> nat \<Rightarrow> int \<Rightarrow> nat \<times> int" where
  "month_scan [] m d = (m, d)"
| "month_scan (l # ls) m d = (if d < l then (m, d) else month_scan ls (Suc m) (d - l))"

definition year_of :: "int \<Rightarrow> int" where
  "year_of n =
     (let y = n * 400 div 146097 in
      if days_before_year (y + 1) \<le> n then y + 1
      else if n < days_before_year y then y - 1 else y)"

text \<open>Year, zero-based month and day of the month of a day counted from the epoch.\<close>

definition civil :: "int \<Rightarrow> int \<times> nat \<times> int" where
  "civil days =
     (let n = days + days_before_year 1970; y = year_of n;
          (m, d) = month_scan (month_lens y) 0 (n - days_before_year y)
      in (y, m, d + 1))"

definition shortDayNames :: "string list" where
  "shortDayNames = [''Sun'', ''Mon'', ''Tue'', ''Wed'', ''Thu'', ''Fri'', ''Sat'']"

definition longDayNames :: "string list" where
  "longDayNames = [''Sunday'', ''Monday'', ''Tuesday'', ''Wednesday'', ''Thursday'', ''Friday'',
     ''Saturday'']"

definition shortMonthNames :: "string list" where
  "shortMonthNames = [''Jan'', ''Feb'', ''Mar'', ''Apr'', ''May'', ''Jun'', ''Jul'', ''Aug'',
     ''Sep'', ''Oct'', ''Nov'', ''Dec'']"

definition pad :: "nat \<Rightarrow> int \<Rightarrow> string" where
  "pad w i = (let s = show_nat (nat i) in replicate (w - length s) (CHR ''0'') @ s)"

text \<open>\<^verbatim>\<open>time.Unix(sec, 0).UTC().Format(http.TimeFormat)\<close>.\<close>

definition FormatTime :: "int \<Rightarrow> string" where
  "FormatTime sec =
     (let days = sec div 86400; rest = sec mod 86400; (y, m, d) = civil days
      in shortDayNames ! nat ((days + 4) mod 7) @ '', '' @ pad 2 d @ '' ''
         @ shortMonthNames ! m @ '' '' @ pad 4 y @ '' ''
         @ pad 2 (rest div 3600) @ '':'' @ pad 2 (rest mod 3600 div 60) @ '':''
         @ pad 2 (rest mod 60) @ '' GMT'')"

subsection \<open>Parsing\<close>

datatype layout_item = LitText string | WeekDay | LongWeekDay | ZeroDay | UnderDay | MonthName
  | ZeroMonth | Year2 | LongYear | Hour24 | ZeroMinute | ZeroSecond | ZoneName | NumZone

record date_fields =
  f_year :: int
  f_month :: nat
  f_day :: int
  f_hour :: int
  f_min :: int
  f_sec :: int
  f_nsec :: int
  f_shift :: int
  f_disp :: int

definition isDigit :: "char \<Rightarrow> bool" where
  "isDigit c = (let n = of_char c :: nat in 48 \<le> n \<and> n \<le> 57)"

definition dig :: "char \<Rightarrow> int" where
  "dig c = int (of_char c) - 48"

definition digits_val :: "string \<Rightarrow> int" where
  "digits_val s = foldl (\<lambda>a c. a * 10 + dig c) 0 s"

fun getnum :: "string \<Rightarrow> bool \<Rightarrow> (int \<times> string) option" where
  "getnum [] fixed = None"
| "getnum (a # s) fixed =
     (if \<not> isDigit a then None
      else (case s of
              b # r \<Rightarrow> if isDigit b then Some (dig a * 10 + dig b, r)
                       else if fixed then None else Some (dig a, s)
            | [] \<Rightarrow> if fixed then None else Some (dig a, [])))"

text \<open>\<^verbatim>\<open>lookup\<close>: the first name that is a prefix of the value, ignoring case.\<close>

fun lookup_name :: "string list \<Rightarrow> nat \<Rightarrow> string \<Rightarrow> (nat \<times> string) option" where
  "lookup_name [] i v = None"
| "lookup_name (n # ns) i v =
     (if length n \<le> length v \<and> ToLower (take (length n) v) = ToLower n then Some (i, drop (length n) v)
      else lookup_name ns (Suc i) v)"

definition cutspace :: "string \<Rightarrow> string" where
  "cutspace s = dropWhile (\<lambda>c. c = CHR '' '') s"

text \<open>
  \<^verbatim>\<open>skip\<close>: a run of blanks of the layout matches any run of blanks, also the empty one at
  the end of the value. Layout literals have no two adjacent blanks.
\<close>

fun skip_lit :: "string \<Rightarrow> string \<Rightarrow> string option" where
  "skip_lit [] v = Some v"
| "skip_lit (p # ps) v =
     (if p = CHR '' '' then
        (if v \<noteq> [] \<and> hd v \<noteq> CHR '' '' then None else skip_lit ps (cutspace v))
      else (case v of [] \<Rightarrow> None | c # cs \<Rightarrow> if c = p then skip_lit ps cs else None))"

definition atoi :: "string \<Rightarrow> int option" where
  "atoi s =
     (let (neg, t) = (case s of c # cs \<Rightarrow> if c = CHR ''-'' then (True, cs)
                        else if c = CHR ''+'' then (False, cs) else (False, s) | [] \<Rightarrow> (False, s))
      in if list_all isDigit t then Some (if neg then - digits_val t else digits_val t) else None)"

definition parseSignedOffset :: "string \<Rightarrow> nat" where
  "parseSignedOffset v =
     (case v of [] \<Rightarrow> 0
      | c # cs \<Rightarrow>
          let ds = takeWhile isDigit cs in
          if c \<noteq> CHR ''-'' \<and> c \<noteq> CHR ''+'' \<or> ds = [] \<or> 23 < digits_val ds then 0
          else Suc (length ds))"

definition parseTimeZone :: "string \<Rightarrow> nat option" where
  "parseTimeZone v =
     (if length v < 3 then None
      else if take 4 v = ''ChST'' \<or> take 4 v = ''MeST'' then Some 4
      else if take 3 v = ''GMT'' then Some (3 + parseSignedOffset (drop 3 v))
      else if hd v = CHR ''+'' \<or> hd v = CHR ''-'' then
        (if parseSignedOffset v = 0 then None else Some (parseSignedOffset v))
      else
        let n = length (takeWhile (\<lambda>c. 65 \<le> (of_char c :: nat) \<and> (of_char c :: nat) \<le> 90) (take 6 v))
        in if n = 5 \<and> v ! 4 = CHR ''T'' then Some 5
           else if n = 4 \<and> (v ! 3 = CHR ''T'' \<or> take 4 v = ''WITA'') then Some 4
           else if n = 3 then Some 3 else None)"

text \<open>An optional fraction after the seconds, which no HTTP layout asks for.\<close>

definition frac_seconds :: "string \<Rightarrow> int \<times> string" where
  "frac_seconds v =
     (case v of
        c # d # r \<Rightarrow>
          if (c = CHR ''.'' \<or> c = CHR '','') \<and> isDigit d then
            let ds = takeWhile isDigit (d # r); u = take 9 ds
            in (digits_val u * 10 ^ (9 - length u), drop (length ds) (d # r))
          else (0, v)
      | _ \<Rightarrow> (0, v))"

fun parse_item :: "layout_item \<Rightarrow> string \<times> date_fields \<Rightarrow> (string \<times> date_fields) option" where
  "parse_item (LitText p) (v, f) = map_option (\<lambda>v. (v, f)) (skip_lit p v)"
| "parse_item WeekDay (v, f) = map_option (\<lambda>(_, v). (v, f)) (lookup_name shortDayNames 0 v)"
| "parse_item LongWeekDay (v, f) = map_option (\<lambda>(_, v). (v, f)) (lookup_name longDayNames 0 v)"
| "parse_item ZeroDay (v, f) = map_option (\<lambda>(n, v). (v, f\<lparr>f_day := n\<rparr>)) (getnum v True)"
| "parse_item UnderDay (v, f) =
     map_option (\<lambda>(n, v). (v, f\<lparr>f_day := n\<rparr>))
       (getnum (case v of c # cs \<Rightarrow> if c = CHR '' '' then cs else v | [] \<Rightarrow> v) False)"
| "parse_item MonthName (v, f) =
     map_option (\<lambda>(n, v). (v, f\<lparr>f_month := n\<rparr>)) (lookup_name shortMonthNames 0 v)"
| "parse_item Year2 (v, f) =
     (if length v < 2 then None
      else map_option (\<lambda>y. (drop 2 v, f\<lparr>f_year := if 69 \<le> y then y + 1900 else y + 2000\<rparr>))
             (atoi (take 2 v)))"
| "parse_item LongYear (v, f) =
     (if length v < 4 \<or> \<not> list_all isDigit (take 4 v) then None
      else Some (drop 4 v, f\<lparr>f_year := digits_val (take 4 v)\<rparr>))"
| "parse_item Hour24 (v, f) =
     (case getnum v False of None \<Rightarrow> None
      | Some (n, v) \<Rightarrow> if n < 24 then Some (v, f\<lparr>f_hour := n\<rparr>) else None)"
| "parse_item ZeroMinute (v, f) =
     (case getnum v True of None \<Rightarrow> None
      | Some (n, v) \<Rightarrow> if n < 60 then Some (v, f\<lparr>f_min := n\<rparr>) else None)"
| "parse_item ZeroSecond (v, f) =
     (case getnum v True of None \<Rightarrow> None
      | Some (n, v) \<Rightarrow>
          if n < 60 then (let (ns, v) = frac_seconds v in Some (v, f\<lparr>f_sec := n, f_nsec := ns\<rparr>))
          else None)"
| "parse_item ZoneName (v, f) =
     (if take 3 v = ''UTC'' then Some (drop 3 v, f)
      else map_option
             (\<lambda>n. (drop n v, if 3 < n \<and> take 3 v = ''GMT''
                            then f\<lparr>f_disp := 3600 * (case atoi (drop 3 (take n v)) of Some h \<Rightarrow> h | None \<Rightarrow> 0)\<rparr>
                            else f))
             (parseTimeZone v))"
| "parse_item ZeroMonth (v, f) =
     (case getnum v True of None \<Rightarrow> None
      | Some (n, v) \<Rightarrow> if 1 \<le> n \<and> n \<le> 12 then Some (v, f\<lparr>f_month := nat (n - 1)\<rparr>) else None)"
| "parse_item NumZone (v, f) =
     (case v of
        c # r \<Rightarrow>
          (if length v < 5 \<or> c \<noteq> CHR ''+'' \<and> c \<noteq> CHR ''-'' then None
           else case (getnum (take 2 r) True, getnum (take 2 (drop 2 r)) True) of
                  (Some (h, _), Some (m, _)) \<Rightarrow>
                    if h \<le> 24 \<and> m \<le> 60
                    then (let off = (if c = CHR ''-'' then - (h * 3600 + m * 60) else h * 3600 + m * 60)
                          in Some (drop 4 r, f\<lparr>f_shift := off, f_disp := off\<rparr>))
                    else None
                | _ \<Rightarrow> None)
      | [] \<Rightarrow> None)"

fun parse_layout :: "layout_item list \<Rightarrow> string \<times> date_fields \<Rightarrow> date_fields option" where
  "parse_layout [] (v, f) = (if v = [] then Some f else None)"
| "parse_layout (l # ls) s = (case parse_item l s of None \<Rightarrow> None | Some s \<Rightarrow> parse_layout ls s)"

definition fields_time :: "date_fields \<Rightarrow> int option" where
  "fields_time f =
     (if f_day f < 1 \<or> month_lens (f_year f) ! f_month f < f_day f then None
      else Some ((unix_days (f_year f) (f_month f) (f_day f) * 86400
                  + f_hour f * 3600 + f_min f * 60 + f_sec f - f_shift f) * 1000000000 + f_nsec f))"

definition time_layouts :: "layout_item list list" where
  "time_layouts =
     [[WeekDay, LitText '', '', ZeroDay, LitText '' '', MonthName, LitText '' '', LongYear,
       LitText '' '', Hour24, LitText '':'', ZeroMinute, LitText '':'', ZeroSecond, LitText '' GMT''],
      [LongWeekDay, LitText '', '', ZeroDay, LitText ''-'', MonthName, LitText ''-'', Year2,
       LitText '' '', Hour24, LitText '':'', ZeroMinute, LitText '':'', ZeroSecond, LitText '' '',
       ZoneName],
      [WeekDay, LitText '' '', MonthName, LitText '' '', UnderDay, LitText '' '', Hour24, LitText '':'',
       ZeroMinute, LitText '':'', ZeroSecond, LitText '' '', LongYear]]"

definition no_fields :: date_fields where
  "no_fields = \<lparr>f_year = 0, f_month = 0, f_day = 1, f_hour = 0, f_min = 0, f_sec = 0, f_nsec = 0, f_shift = 0, f_disp = 0\<rparr>"

definition time_Parse :: "layout_item list \<Rightarrow> string \<Rightarrow> int option" where
  "time_Parse l v = Option.bind (parse_layout l (v, no_fields)) fields_time"

text \<open>
  A \<^verbatim>\<open>time.Time\<close> with the offset of its location: the numeric zone of the value shifts the
  instant and the display, the hours of a zone name like \<^verbatim>\<open>GMT+3\<close> only the display.
\<close>

definition time_ParseZ :: "layout_item list \<Rightarrow> string \<Rightarrow> (int \<times> int) option" where
  "time_ParseZ l v =
     Option.bind (parse_layout l (v, no_fields)) (\<lambda>f. map_option (\<lambda>t. (t, f_disp f)) (fields_time f))"

text \<open>\<^verbatim>\<open>http.ParseTime\<close>: the first layout that parses; \<^verbatim>\<open>None\<close> is its error.\<close>

fun first_layout :: "layout_item list list \<Rightarrow> string \<Rightarrow> int option" where
  "first_layout [] v = None"
| "first_layout (l # ls) v = (case time_Parse l v of Some t \<Rightarrow> Some t | None \<Rightarrow> first_layout ls v)"

definition ParseTime :: "string \<Rightarrow> int option" where
  "ParseTime v = first_layout time_layouts v"

definition unix_sec :: "int \<Rightarrow> int" where
  "unix_sec t = t div 1000000000"

end
