(* ===== verification/Broadcaster.thy ===== *)
theory Broadcaster
  imports Go_Http "HOL-Library.Sublist"
begin

text \<open>
  Request coalescing (\<^verbatim>\<open>src/proxy/broadcast\<close>): one producer streams a response to every
  subscribed listener through a bounded queue; a listener whose queue is full is disconnected; nobody
  joins once streaming has started.

  Listeners are pointers in the code, shared between the broadcaster and the consumers: here a
  listener is an index into \<open>store\<close>, and the broadcaster's list holds indices. A send on a
  closed channel and a second close of a channel panic; an operation that would panic returns
  \<open>None\<close>. Every operation of the broadcaster holds its mutex and is one atomic step.
\<close>

section \<open>Chunks and listeners\<close>

definition ErrSlowConsumer :: err where
  "ErrSlowConsumer = EText ''slow consumer''"

definition errCompletedBeforeHeaders :: err where
  "errCompletedBeforeHeaders = EText ''broadcast completed before response headers''"

datatype Chunk = Chunk (c_data: string) (c_err: "err option")

record Listener =
  ch :: "Chunk list"
  ch_cap :: nat
  ch_closed :: bool
  l_headers :: header
  l_status :: int
  headerCh_closed :: bool
  headerErr :: "err option"
  disconnected :: bool
  termErr :: "err option"

record Broadcaster =
  listeners :: "nat list"
  b_headers :: header
  b_status :: int
  headerSet :: bool
  streaming :: bool
  b_done :: bool
  b_err :: "err option"
  channelBuf :: nat
  store :: "Listener list"

definition NewBroadcaster :: "int \<Rightarrow> Broadcaster" where
  "NewBroadcaster buf =
     \<lparr>listeners = [], b_headers = [], b_status = 0, headerSet = False, streaming = False, b_done = False,
      b_err = None, channelBuf = nat (if buf \<le> 0 then 1024 else buf), store = []\<rparr>"

text \<open>A send in a select with a default branch.\<close>

datatype send_result = Sent Listener | ChanFull | SendPanic

definition try_send :: "Listener \<Rightarrow> Chunk \<Rightarrow> send_result" where
  "try_send l c =
     (if ch_closed l then SendPanic
      else if length (ch l) < ch_cap l then Sent (l\<lparr>ch := ch l @ [c]\<rparr>)
      else ChanFull)"

definition closeWithError :: "Listener \<Rightarrow> err option \<Rightarrow> Listener option" where
  "closeWithError l e =
     (let l = l\<lparr>termErr := e\<rparr> in
      case try_send l (Chunk [] e) of
        SendPanic \<Rightarrow> None
      | Sent l' \<Rightarrow> Some (l'\<lparr>ch_closed := True\<rparr>)
      | ChanFull \<Rightarrow> Some (l\<lparr>ch_closed := True\<rparr>))"

definition disconnectSlowConsumer :: "Listener \<Rightarrow> Listener option" where
  "disconnectSlowConsumer l = closeWithError (l\<lparr>disconnected := True\<rparr>) (Some ErrSlowConsumer)"

text \<open>
  \<open>header_ready\<close> and \<open>ctx_err\<close> say which channels of the select are ready; \<open>pick_headers\<close> is the
  choice of a select with both ready. \<open>None\<close> means that the call is still blocked.
\<close>

definition WaitForHeaders ::
  "Listener \<Rightarrow> err option \<Rightarrow> bool \<Rightarrow> (int \<times> header \<times> err option) option" where
  "WaitForHeaders l ctx_err pick_headers =
     (if headerCh_closed l \<and> (ctx_err = None \<or> pick_headers) then
        (if headerErr l \<noteq> None \<and> ctx_err \<noteq> None then Some (0, [], ctx_err)
         else Some (l_status l, l_headers l, headerErr l))
      else if ctx_err \<noteq> None then
        (if headerCh_closed l then
           (if headerErr l \<noteq> None then Some (0, [], ctx_err)
            else Some (l_status l, l_headers l, None))
         else Some (0, [], ctx_err))
      else None)"

section \<open>The broadcaster\<close>

text \<open>Subscribe returns the new listener's index, or \<open>None\<close> for a late joiner.\<close>

definition Subscribe :: "Broadcaster \<Rightarrow> Broadcaster \<times> nat option" where
  "Subscribe b =
     (if streaming b then (b, None)
      else
        let l = \<lparr>ch = [], ch_cap = channelBuf b, ch_closed = False,
                 l_headers = (if headerSet b then b_headers b else []),
                 l_status = (if headerSet b then b_status b else 0),
                 headerCh_closed = False, headerErr = None, disconnected = False, termErr = None\<rparr>;
            i = length (store b)
        in if b_done b then
             (let l = l\<lparr>headerErr := if headerSet b then None else b_err b, headerCh_closed := True,
                        termErr := b_err b,
                        ch := (case b_err b of None \<Rightarrow> [] | Some e \<Rightarrow> [Chunk [] (Some e)]),
                        ch_closed := True\<rparr>
              in (b\<lparr>store := store b @ [l]\<rparr>, Some i))
           else
             (let l = l\<lparr>headerCh_closed := headerSet b\<rparr>
              in (b\<lparr>store := store b @ [l], listeners := listeners b @ [i]\<rparr>, Some i)))"

definition SetHeaders :: "int \<Rightarrow> header \<Rightarrow> Broadcaster \<Rightarrow> Broadcaster" where
  "SetHeaders status headers b =
     b\<lparr>b_status := status, b_headers := headers, headerSet := True,
       store := fold (\<lambda>i st. st[i := (st ! i)\<lparr>l_status := status, l_headers := headers,
                                             headerCh_closed := True\<rparr>]) (listeners b) (store b)\<rparr>"

text \<open>The copying loop: the indices that keep receiving are collected in \<open>active\<close>.\<close>

fun send_copies :: "string \<Rightarrow> nat list \<Rightarrow> Listener list \<Rightarrow> nat list \<Rightarrow> (Listener list \<times> nat list) option" where
  "send_copies data [] st active = Some (st, active)"
| "send_copies data (i # is) st active =
     (let l = st ! i in
      if disconnected l then send_copies data is st active
      else case try_send l (Chunk data None) of
             SendPanic \<Rightarrow> None
           | Sent l' \<Rightarrow> send_copies data is (st[i := l']) (active @ [i])
           | ChanFull \<Rightarrow>
               (case disconnectSlowConsumer l of
                  None \<Rightarrow> None
                | Some l' \<Rightarrow> send_copies data is (st[i := l']) active))"

text \<open>The first position of a listener with room, as \<^verbatim>\<open>ownerIndex\<close>.\<close>

fun owner_index :: "nat list \<Rightarrow> Listener list \<Rightarrow> nat option" where
  "owner_index [] st = None"
| "owner_index (i # is) st =
     (let l = st ! i in
      if \<not> disconnected l \<and> length (ch l) < ch_cap l then Some 0
      else map_option Suc (owner_index is st))"

text \<open>The loop that skips the owner and counts the active listeners before it.\<close>

fun send_others ::
  "string \<Rightarrow> nat option \<Rightarrow> nat \<Rightarrow> nat list \<Rightarrow> Listener list \<Rightarrow> nat list \<Rightarrow> nat
   \<Rightarrow> (Listener list \<times> nat list \<times> nat) option" where
  "send_others data owner pos [] st active ownerPosition = Some (st, active, ownerPosition)"
| "send_others data owner pos (i # is) st active ownerPosition =
     (let l = st ! i in
      if disconnected l \<or> owner = Some pos then
        send_others data owner (Suc pos) is st active ownerPosition
      else case try_send l (Chunk data None) of
             SendPanic \<Rightarrow> None
           | Sent l' \<Rightarrow>
               send_others data owner (Suc pos) is (st[i := l']) (active @ [i])
                 (case owner of None \<Rightarrow> ownerPosition
                  | Some k \<Rightarrow> if pos < k then Suc ownerPosition else ownerPosition)
           | ChanFull \<Rightarrow>
               (case disconnectSlowConsumer l of
                  None \<Rightarrow> None
                | Some l' \<Rightarrow> send_others data owner (Suc pos) is (st[i := l']) active ownerPosition))"

definition broadcastOwnedLocked :: "string \<Rightarrow> Broadcaster \<Rightarrow> (Broadcaster \<times> bool) option" where
  "broadcastOwnedLocked data b =
     (let ownerIndex = owner_index (listeners b) (store b) in
      case send_others data ownerIndex 0 (listeners b) (store b) [] 0 of
        None \<Rightarrow> None
      | Some (st, active, ownerPosition) \<Rightarrow>
          case ownerIndex of
            None \<Rightarrow> Some (b\<lparr>store := st, listeners := active\<rparr>, False)
          | Some k \<Rightarrow>
              let owner = listeners b ! k in
              case try_send (st ! owner) (Chunk data None) of
                SendPanic \<Rightarrow> None
              | Sent l' \<Rightarrow>
                  Some (b\<lparr>store := st[owner := l'],
                          listeners := take ownerPosition active @ [owner] @ drop ownerPosition active\<rparr>, True)
              | ChanFull \<Rightarrow>
                  (case disconnectSlowConsumer (st ! owner) of
                     None \<Rightarrow> None
                   | Some l' \<Rightarrow> Some (b\<lparr>store := st[owner := l'], listeners := active\<rparr>, False)))"

definition broadcast :: "string \<Rightarrow> bool \<Rightarrow> Broadcaster \<Rightarrow> (Broadcaster \<times> bool) option" where
  "broadcast data owned b =
     (if data = [] then Some (b, False)
      else let b = b\<lparr>streaming := True\<rparr> in
        if owned then broadcastOwnedLocked data b
        else case send_copies data (listeners b) (store b) [] of
               None \<Rightarrow> None
             | Some (st, active) \<Rightarrow> Some (b\<lparr>store := st, listeners := active\<rparr>, False))"

text \<open>The loops of \<^verbatim>\<open>Complete\<close> over the listeners.\<close>

fun publish_header_err :: "err option \<Rightarrow> nat list \<Rightarrow> Listener list \<Rightarrow> Listener list option" where
  "publish_header_err e [] st = Some st"
| "publish_header_err e (i # is) st =
     (if headerCh_closed (st ! i) then None
      else publish_header_err e is (st[i := (st ! i)\<lparr>headerErr := e, headerCh_closed := True\<rparr>]))"

fun close_all :: "err option \<Rightarrow> nat list \<Rightarrow> Listener list \<Rightarrow> Listener list option" where
  "close_all e [] st = Some st"
| "close_all e (i # is) st =
     (if disconnected (st ! i) then close_all e is st
      else case closeWithError (st ! i) e of
             None \<Rightarrow> None
           | Some l' \<Rightarrow> close_all e is (st[i := l']))"

definition Complete :: "err option \<Rightarrow> Broadcaster \<Rightarrow> Broadcaster option" where
  "Complete e b =
     (if b_done b then Some b
      else
        let b = b\<lparr>b_done := True, b_err := e\<rparr>;
            b = (if \<not> headerSet b \<and> b_err b = None then b\<lparr>b_err := Some errCompletedBeforeHeaders\<rparr> else b);
            published = (if headerSet b then Some (store b)
                         else publish_header_err (b_err b) (listeners b) (store b))
        in case published of
             None \<Rightarrow> None
           | Some st \<Rightarrow>
               map_option (\<lambda>st. b\<lparr>store := st\<rparr>) (close_all (b_err b) (listeners b) st))"

section \<open>The manager\<close>

text \<open>Broadcasters are pointers too: the table holds indices into \<open>pool\<close>.\<close>

record Manager =
  active_map :: "string \<Rightarrow> nat option"
  pool :: "Broadcaster list"
  m_channelBuf :: int

definition NewManager :: "int \<Rightarrow> Manager" where
  "NewManager buf = \<lparr>active_map = (\<lambda>_. None), pool = [], m_channelBuf = (if buf \<le> 0 then 1024 else buf)\<rparr>"

definition GetOrCreate :: "string \<Rightarrow> Manager \<Rightarrow> Manager \<times> nat \<times> bool" where
  "GetOrCreate key m =
     (case active_map m key of
        Some b \<Rightarrow>
          if \<not> streaming (pool m ! b) then (m, b, False)
          else (m\<lparr>active_map := (active_map m)(key \<mapsto> length (pool m)),
                  pool := pool m @ [NewBroadcaster (m_channelBuf m)]\<rparr>, length (pool m), True)
      | None \<Rightarrow>
          (m\<lparr>active_map := (active_map m)(key \<mapsto> length (pool m)),
             pool := pool m @ [NewBroadcaster (m_channelBuf m)]\<rparr>, length (pool m), True))"

definition Remove :: "string \<Rightarrow> Manager \<Rightarrow> Manager" where
  "Remove key m = m\<lparr>active_map := (active_map m)(key := None)\<rparr>"

section \<open>Delivery to one listener\<close>

definition accepts :: "Listener \<Rightarrow> bool" where
  "accepts l \<longleftrightarrow> \<not> disconnected l \<and> length (ch l) < ch_cap l"

text \<open>What a broadcast of \<open>data\<close> does to a listener with an open channel.\<close>

definition deliver :: "string \<Rightarrow> Listener \<Rightarrow> Listener" where
  "deliver data l =
     (if disconnected l then l
      else if length (ch l) < ch_cap l then l\<lparr>ch := ch l @ [Chunk data None]\<rparr>
      else l\<lparr>disconnected := True, termErr := Some ErrSlowConsumer, ch_closed := True\<rparr>)"

lemma disconnect_full:
  "\<not> ch_closed l \<Longrightarrow> \<not> length (ch l) < ch_cap l \<Longrightarrow>
   disconnectSlowConsumer l = Some (l\<lparr>disconnected := True, termErr := Some ErrSlowConsumer, ch_closed := True\<rparr>)"
  by (simp add: disconnectSlowConsumer_def closeWithError_def try_send_def)

text \<open>A loop that updates every listed element.\<close>

definition upd_all :: "('a \<Rightarrow> 'a) \<Rightarrow> nat list \<Rightarrow> 'a list \<Rightarrow> 'a list" where
  "upd_all f is st = fold (\<lambda>i st. st[i := f (st ! i)]) is st"

lemma upd_all_simps [simp]:
  "upd_all f [] st = st"
  "upd_all f (i # is) st = upd_all f is (st[i := f (st ! i)])"
  by (simp_all add: upd_all_def)

lemma length_upd_all [simp]: "length (upd_all f is st) = length st"
  by (induction "is" arbitrary: st) simp_all

lemma nth_upd_all:
  "distinct is \<Longrightarrow> set is \<subseteq> {..<length st} \<Longrightarrow>
   upd_all f is st ! j = (if j \<in> set is then f (st ! j) else st ! j)"
proof (induction "is" arbitrary: st)
  case (Cons i "is")
  then show ?case by (cases "j = i") auto
qed simp

abbreviation deliver_all :: "string \<Rightarrow> nat list \<Rightarrow> Listener list \<Rightarrow> Listener list" where
  "deliver_all data \<equiv> upd_all (deliver data)"

lemma nth_update_notin: "i \<notin> set is \<Longrightarrow> j \<in> set is \<Longrightarrow> st[i := l] ! j = st ! j"
  by (metis nth_list_update_neq)

lemma filter_accepts_update:
  "i \<notin> set is \<Longrightarrow> filter (\<lambda>j. accepts (st[i := l] ! j)) is = filter (\<lambda>j. accepts (st ! j)) is"
  by (intro filter_cong) (auto simp: nth_update_notin)

lemma open_update:
  "i \<notin> set is \<Longrightarrow> \<forall>j \<in> set is. \<not> ch_closed (st ! j) \<Longrightarrow> \<forall>j \<in> set is. \<not> ch_closed (st[i := l] ! j)"
  by (auto simp: nth_update_notin)

lemma try_send_cases:
  "\<not> ch_closed l \<Longrightarrow> \<not> disconnected l \<Longrightarrow> accepts l \<Longrightarrow> try_send l (Chunk data None) = Sent (deliver data l)"
  "\<not> ch_closed l \<Longrightarrow> \<not> disconnected l \<Longrightarrow> \<not> accepts l \<Longrightarrow>
   try_send l (Chunk data None) = ChanFull \<and> disconnectSlowConsumer l = Some (deliver data l)"
  "disconnected l \<Longrightarrow> deliver data l = l \<and> \<not> accepts l"
  by (auto simp: try_send_def deliver_def accepts_def disconnect_full)

lemma send_copies_deliver:
  assumes "distinct is" and "set is \<subseteq> {..<length st}" and "\<forall>i \<in> set is. \<not> ch_closed (st ! i)"
  shows "send_copies data is st act = Some (deliver_all data is st, act @ filter (\<lambda>i. accepts (st ! i)) is)"
  using assms
proof (induction "is" arbitrary: st act)
  case (Cons i "is")
  then have i: "i \<notin> set is" "\<not> ch_closed (st ! i)" by auto
  have IH: "send_copies data is (st[i := l]) a =
      Some (deliver_all data is (st[i := l]), a @ filter (\<lambda>i. accepts (st ! i)) is)" for l a
    using Cons.IH [of "st[i := l]" a] Cons.prems i by (simp add: filter_accepts_update open_update)
  have self: "st[i := st ! i] = st" by simp
  show ?case
    using IH [of "deliver data (st ! i)"] IH [of "st ! i" act] i(2) try_send_cases [of "st ! i" data]
    by (cases "disconnected (st ! i)"; cases "accepts (st ! i)") (simp_all add: self)
qed simp

lemma owner_index_None: "owner_index is st = None \<longleftrightarrow> filter (\<lambda>i. accepts (st ! i)) is = []"
  by (induction "is") (auto simp: accepts_def Let_def)

lemma owner_index_Some:
  "owner_index is st = Some k \<Longrightarrow> k < length is \<and> accepts (st ! (is ! k)) \<and> filter (\<lambda>i. accepts (st ! i)) (take k is) = []"
proof (induction "is" arbitrary: k)
  case (Cons i "is")
  then show ?case by (cases k) (auto simp: accepts_def Let_def split: if_splits)
qed simp

lemma send_others_None:
  assumes "distinct is" and "set is \<subseteq> {..<length st}" and "\<forall>i \<in> set is. \<not> ch_closed (st ! i)"
  shows "send_others data None pos is st act op
         = Some (deliver_all data is st, act @ filter (\<lambda>i. accepts (st ! i)) is, op)"
  using assms
proof (induction "is" arbitrary: st act pos)
  case (Cons i "is")
  then have i: "i \<notin> set is" "\<not> ch_closed (st ! i)" by auto
  have IH: "send_others data None p is (st[i := l]) a op =
      Some (deliver_all data is (st[i := l]), a @ filter (\<lambda>i. accepts (st ! i)) is, op)" for l a p
    using Cons.IH [of "st[i := l]" p a] Cons.prems i by (simp add: filter_accepts_update open_update)
  have self: "st[i := st ! i] = st" by simp
  show ?case
    using IH [of _ "deliver data (st ! i)"] IH [of _ "st ! i" act] i(2) try_send_cases [of "st ! i" data]
    by (cases "disconnected (st ! i)"; cases "accepts (st ! i)") (simp_all add: self)
qed simp

lemma send_others_after:
  assumes "distinct is" and "set is \<subseteq> {..<length st}" and "\<forall>i \<in> set is. \<not> ch_closed (st ! i)" and "k < pos"
  shows "send_others data (Some k) pos is st act op
         = Some (deliver_all data is st, act @ filter (\<lambda>i. accepts (st ! i)) is, op)"
  using assms
proof (induction "is" arbitrary: st act pos)
  case (Cons i "is")
  then have i: "i \<notin> set is" "\<not> ch_closed (st ! i)" "k \<noteq> pos" "\<not> pos < k" by auto
  have IH: "send_others data (Some k) (Suc pos) is (st[i := l]) a op =
      Some (deliver_all data is (st[i := l]), a @ filter (\<lambda>i. accepts (st ! i)) is, op)" for l a
    using Cons.IH [of "st[i := l]" "Suc pos" a] Cons.prems i by (simp add: filter_accepts_update open_update)
  have self: "st[i := st ! i] = st" by simp
  show ?case
    using IH [of "deliver data (st ! i)"] IH [of "st ! i" act] i(2-) try_send_cases [of "st ! i" data]
    by (cases "disconnected (st ! i)"; cases "accepts (st ! i)") (simp_all add: self)
qed simp

lemma send_others_owner:
  assumes "distinct (xs @ w # ys)" and "set (xs @ w # ys) \<subseteq> {..<length st}"
    and "\<forall>i \<in> set (xs @ w # ys). \<not> ch_closed (st ! i)" and "k = pos + length xs"
  shows "send_others data (Some k) pos (xs @ w # ys) st act op
         = Some (deliver_all data (xs @ ys) st, act @ filter (\<lambda>i. accepts (st ! i)) (xs @ ys),
                 op + length (filter (\<lambda>i. accepts (st ! i)) xs))"
  using assms
proof (induction xs arbitrary: st act pos op)
  case Nil
  then show ?case using send_others_after [of ys st k "Suc pos" data act op] by simp
next
  case (Cons i "is")
  then have i: "i \<notin> set (is @ w # ys)" "i \<notin> set is" "i \<notin> set ys" "\<not> ch_closed (st ! i)" "k \<noteq> pos" "pos < k" by auto
  have IH: "send_others data (Some k) (Suc pos) (is @ w # ys) (st[i := l]) a p =
      Some (deliver_all data (is @ ys) (st[i := l]), a @ filter (\<lambda>i. accepts (st ! i)) (is @ ys),
            p + length (filter (\<lambda>i. accepts (st ! i)) is))" for l a p
    using Cons.IH [of "st[i := l]" "Suc pos" a p] Cons.prems i open_update [OF i(1), of st l]
    by (simp add: filter_accepts_update)
  have self: "st[i := st ! i] = st" by simp
  show ?case
    using IH [of "deliver data (st ! i)"] IH [of "st ! i" act] i(4-) try_send_cases [of "st ! i" data]
    by (cases "disconnected (st ! i)"; cases "accepts (st ! i)") (simp_all add: self)
qed

lemma deliver_all_commute:
  assumes "distinct (xs @ w # ys)" and "set (xs @ w # ys) \<subseteq> {..<length st}"
  shows "(deliver_all data (xs @ ys) st)[w := deliver data (st ! w)] = deliver_all data (xs @ w # ys) st"
proof (rule nth_equalityI)
  fix j assume "j < length ((deliver_all data (xs @ ys) st)[w := deliver data (st ! w)])"
  then show "(deliver_all data (xs @ ys) st)[w := deliver data (st ! w)] ! j = deliver_all data (xs @ w # ys) st ! j"
    using assms by (cases "j = w") (auto simp: nth_upd_all)
qed simp

text \<open>The state after a broadcast of a non-empty chunk.\<close>

definition after_broadcast :: "string \<Rightarrow> Broadcaster \<Rightarrow> Broadcaster" where
  "after_broadcast data b =
     b\<lparr>streaming := True, store := deliver_all data (listeners b) (store b),
       listeners := filter (\<lambda>i. accepts (store b ! i)) (listeners b)\<rparr>"

definition listeners_ok :: "Broadcaster \<Rightarrow> bool" where
  "listeners_ok b \<longleftrightarrow>
     distinct (listeners b) \<and> set (listeners b) \<subseteq> {..<length (store b)}
     \<and> (\<forall>i \<in> set (listeners b). \<not> ch_closed (store b ! i))"

lemma broadcast_copy:
  "listeners_ok b \<Longrightarrow> data \<noteq> [] \<Longrightarrow> broadcast data False b = Some (after_broadcast data b, False)"
  by (simp add: broadcast_def listeners_ok_def send_copies_deliver after_broadcast_def)

lemma broadcast_owned:
  assumes ok: "listeners_ok b" and d: "data \<noteq> []"
  shows "broadcast data True b
         = Some (after_broadcast data b, filter (\<lambda>i. accepts (store b ! i)) (listeners b) \<noteq> [])"
proof (cases "owner_index (listeners b) (store b)")
  case None
  then show ?thesis
    using ok d send_others_None [of "listeners b" "store b"] owner_index_None [of "listeners b" "store b"]
    by (simp add: broadcast_def broadcastOwnedLocked_def listeners_ok_def after_broadcast_def)
next
  case (Some k)
  define w xs ys where "w = listeners b ! k" and "xs = take k (listeners b)" and "ys = drop (Suc k) (listeners b)"
  have k: "k < length (listeners b)" "accepts (store b ! w)" "filter (\<lambda>i. accepts (store b ! i)) xs = []"
    using owner_index_Some [OF Some] by (auto simp: w_def xs_def)
  have L: "listeners b = xs @ w # ys" and len: "k = length xs"
    using k(1) by (simp_all add: w_def xs_def ys_def id_take_nth_drop)
  note ok' = ok [unfolded listeners_ok_def L]
  have st: "deliver_all data (xs @ ys) (store b) ! w = store b ! w"
    using ok' by (subst nth_upd_all) auto
  have "broadcastOwnedLocked data (b\<lparr>streaming := True\<rparr>)
        = Some (after_broadcast data b, True)"
    using Some ok' k send_others_owner [of xs w ys "store b" k 0 data "[]" 0] len try_send_cases(1) [of "store b ! w" data]
      deliver_all_commute [of xs w ys "store b" data]
    by (simp add: broadcastOwnedLocked_def L st after_broadcast_def nth_append accepts_def)
  then show ?thesis using d k by (auto simp: broadcast_def L)
qed

section \<open>The other operations\<close>

definition closing :: "err option \<Rightarrow> Listener \<Rightarrow> Listener" where
  "closing e l =
     (if disconnected l then l
      else l\<lparr>termErr := e, ch := (if length (ch l) < ch_cap l then ch l @ [Chunk [] e] else ch l),
             ch_closed := True\<rparr>)"

lemma closeWithError_closing:
  "\<not> ch_closed l \<Longrightarrow> \<not> disconnected l \<Longrightarrow> closeWithError l e = Some (closing e l)"
  "disconnected l \<Longrightarrow> closing e l = l"
  by (cases l; simp add: closing_def closeWithError_def try_send_def)+

lemma close_all_eq:
  assumes "distinct is" and "set is \<subseteq> {..<length st}" and "\<forall>i \<in> set is. \<not> ch_closed (st ! i)"
  shows "close_all e is st = Some (upd_all (closing e) is st)"
  using assms
proof (induction "is" arbitrary: st)
  case (Cons i "is")
  then have i: "i \<notin> set is" "\<not> ch_closed (st ! i)" by auto
  have IH: "close_all e is (st[i := l]) = Some (upd_all (closing e) is (st[i := l]))" for l
    using Cons.IH [of "st[i := l]"] Cons.prems i by (simp add: open_update)
  have self: "st[i := st ! i] = st" by simp
  show ?case
    using IH [of "closing e (st ! i)"] i(2) IH [of "st ! i"]
    by (cases "disconnected (st ! i)") (simp_all add: self closeWithError_closing)
qed simp

lemma publish_header_err_eq:
  assumes "distinct is" and "set is \<subseteq> {..<length st}" and "\<forall>i \<in> set is. \<not> headerCh_closed (st ! i)"
  shows "publish_header_err e is st = Some (upd_all (\<lambda>l. l\<lparr>headerErr := e, headerCh_closed := True\<rparr>) is st)"
  using assms
proof (induction "is" arbitrary: st)
  case (Cons i "is")
  then have i: "i \<notin> set is" "\<not> headerCh_closed (st ! i)" by auto
  have "\<forall>j \<in> set is. \<not> headerCh_closed (st[i := l] ! j)" for l
    using Cons.prems i by (auto simp: nth_update_notin)
  with Cons.IH Cons.prems i show ?case by simp
qed simp

lemma SetHeaders_store:
  "store (SetHeaders status h b)
   = upd_all (\<lambda>l. l\<lparr>l_status := status, l_headers := h, headerCh_closed := True\<rparr>) (listeners b) (store b)"
  by (simp add: SetHeaders_def upd_all_def)

section \<open>Producer and consumers together\<close>

text \<open>
  The state of one broadcast: the broadcaster, the bytes the producer has broadcast so far, and the
  chunks each consumer has received. The producer broadcasts only before it completes.
\<close>

record stream =
  bc :: Broadcaster
  sent :: string
  got :: "nat \<Rightarrow> Chunk list"

inductive bstep :: "stream \<Rightarrow> stream \<Rightarrow> bool" where
  subscribe: "Subscribe (bc s) = (b, r) \<Longrightarrow> bstep s (s\<lparr>bc := b\<rparr>)"
| set_headers: "\<not> b_done (bc s) \<Longrightarrow> bstep s (s\<lparr>bc := SetHeaders status h (bc s)\<rparr>)"
| send: "\<not> b_done (bc s) \<Longrightarrow> broadcast data owned (bc s) = Some (b, r) \<Longrightarrow>
    bstep s (s\<lparr>bc := b, sent := sent s @ data\<rparr>)"
| complete: "Complete e (bc s) = Some b \<Longrightarrow> bstep s (s\<lparr>bc := b\<rparr>)"
| receive: "i < length (store (bc s)) \<Longrightarrow> ch (store (bc s) ! i) = c # cs \<Longrightarrow>
    bstep s (s\<lparr>bc := (bc s)\<lparr>store := (store (bc s))[i := (store (bc s) ! i)\<lparr>ch := cs\<rparr>]\<rparr>,
              got := (got s)(i := got s i @ [c])\<rparr>)"

definition new_stream :: "int \<Rightarrow> stream" where
  "new_stream buf = \<lparr>bc = NewBroadcaster buf, sent = [], got = (\<lambda>_. [])\<rparr>"

text \<open>The bytes that have reached a listener: received or still queued.\<close>

definition reached :: "Chunk list \<Rightarrow> Listener \<Rightarrow> string" where
  "reached g l = concat (map c_data (g @ ch l))"

definition listener_inv :: "Broadcaster \<Rightarrow> string \<Rightarrow> Chunk list \<Rightarrow> bool \<Rightarrow> Listener \<Rightarrow> bool" where
  "listener_inv b snt g live l \<longleftrightarrow>
     (if live then
        \<not> disconnected l \<and> reached g l = snt \<and> ch_closed l = b_done b
        \<and> (b_done b \<longrightarrow> termErr l = b_err b) \<and> headerCh_closed l = (headerSet b \<or> b_done b)
      else ch_closed l \<and> prefix (reached g l) snt \<and> (termErr l = None \<longrightarrow> b_done b \<and> reached g l = snt))"

definition stream_inv :: "stream \<Rightarrow> bool" where
  "stream_inv s \<longleftrightarrow>
     distinct (listeners (bc s)) \<and> set (listeners (bc s)) \<subseteq> {..<length (store (bc s))}
     \<and> (\<not> streaming (bc s) \<longrightarrow> sent s = [])
     \<and> (\<forall>i \<ge> length (store (bc s)). got s i = [])
     \<and> (b_done (bc s) \<and> \<not> headerSet (bc s) \<longrightarrow> b_err (bc s) \<noteq> None)
     \<and> (\<forall>i < length (store (bc s)).
          listener_inv (bc s) (sent s) (got s i) (i \<in> set (listeners (bc s))) (store (bc s) ! i))"

lemma listeners_ok: "stream_inv s \<Longrightarrow> \<not> b_done (bc s) \<Longrightarrow> listeners_ok (bc s)"
  by (auto simp: stream_inv_def listeners_ok_def listener_inv_def)

lemma broadcast_result:
  assumes "listeners_ok b"
  shows "\<exists>r. broadcast data owned b = Some (if data = [] then b else after_broadcast data b, r)"
  using broadcast_copy [OF assms] broadcast_owned [OF assms]
  by (cases "data = []"; cases owned) (auto simp: broadcast_def)

definition after_complete :: "err option \<Rightarrow> Broadcaster \<Rightarrow> Broadcaster" where
  "after_complete e b =
     (let e' = (if \<not> headerSet b \<and> e = None then Some errCompletedBeforeHeaders else e);
          st = (if headerSet b then store b
                else upd_all (\<lambda>l. l\<lparr>headerErr := e', headerCh_closed := True\<rparr>) (listeners b) (store b))
      in b\<lparr>b_done := True, b_err := e', store := upd_all (closing e') (listeners b) st\<rparr>)"

lemma Complete_result:
  assumes "stream_inv s" and "\<not> b_done (bc s)"
  shows "Complete e (bc s) = Some (after_complete e (bc s))"
proof -
  let ?b = "bc s"
  have ok: "distinct (listeners ?b)" "set (listeners ?b) \<subseteq> {..<length (store ?b)}"
    "\<forall>i \<in> set (listeners ?b). \<not> ch_closed (store ?b ! i)"
    using listeners_ok [OF assms] by (simp_all add: listeners_ok_def)
  have h: "\<forall>i \<in> set (listeners ?b). \<not> headerCh_closed (store ?b ! i)" if "\<not> headerSet ?b"
    using assms that by (auto simp: stream_inv_def listener_inv_def)
  have open': "\<forall>i \<in> set (listeners ?b). \<not> ch_closed (upd_all (\<lambda>l. l\<lparr>headerErr := e', headerCh_closed := True\<rparr>)
      (listeners ?b) (store ?b) ! i)" for e'
    using ok by (simp add: nth_upd_all)
  show ?thesis
    using assms(2) ok h open'
    by (cases "headerSet ?b")
      (simp_all add: Complete_def after_complete_def Let_def publish_header_err_eq close_all_eq)
qed

lemma stream_invD:
  assumes "stream_inv s"
  shows "distinct (listeners (bc s))" and "set (listeners (bc s)) \<subseteq> {..<length (store (bc s))}"
    and "\<not> streaming (bc s) \<Longrightarrow> sent s = []"
    and "i < length (store (bc s)) \<Longrightarrow>
         listener_inv (bc s) (sent s) (got s i) (i \<in> set (listeners (bc s))) (store (bc s) ! i)"
  using assms by (auto simp: stream_inv_def)

lemma reached_simps:
  "reached g (l\<lparr>ch := ch l @ [Chunk d e]\<rparr>) = reached g l @ d"
  "reached (g @ [c]) (l\<lparr>ch := cs\<rparr>) = reached g (l\<lparr>ch := c # cs\<rparr>)"
  by (simp_all add: reached_def)

lemma listener_inv_cong:
  "b_done b' = b_done b \<Longrightarrow> b_err b' = b_err b \<Longrightarrow> headerSet b' = headerSet b \<Longrightarrow>
   listener_inv b' snt g live l = listener_inv b snt g live l"
  by (simp add: listener_inv_def)

lemma add_listener_inv:
  assumes i: "stream_inv s" and "listener_inv (bc s) (sent s) [] live l"
    and b: "b = (bc s)\<lparr>store := store (bc s) @ [l],
              listeners := listeners (bc s) @ (if live then [length (store (bc s))] else [])\<rparr>"
  shows "stream_inv (s\<lparr>bc := b\<rparr>)"
proof -
  let ?n = "length (store (bc s))"
  have fresh: "?n \<notin> set (listeners (bc s))" using stream_invD(2) [OF i] by auto
  have g: "got s ?n = []" using i by (simp add: stream_inv_def)
  have c: "listener_inv b = listener_inv (bc s)" using b by (intro ext listener_inv_cong) simp_all
  have "listener_inv (bc s) (sent s) (got s j) (j \<in> set (listeners b)) (store b ! j)" if "j < Suc ?n" for j
  proof (cases "j = ?n")
    case True
    then show ?thesis using assms(2) fresh g b by simp
  next
    case False
    with that have "j < ?n" by simp
    with stream_invD(4) [OF i this] b show ?thesis by (simp add: nth_append)
  qed
  with i b c fresh show ?thesis by (auto simp: stream_inv_def)
qed

lemma subscribe_inv:
  assumes i: "stream_inv s" and sub: "Subscribe (bc s) = (b, r)"
  shows "stream_inv (s\<lparr>bc := b\<rparr>)"
proof (cases "streaming (bc s)")
  case True
  with assms show ?thesis by (cases s) (auto simp: Subscribe_def)
next
  case False
  then have e: "sent s = []" using stream_invD(3) [OF i] by simp
  show ?thesis
  proof (cases "b_done (bc s)")
    case True
    with sub False obtain l where "b = (bc s)\<lparr>store := store (bc s) @ [l]\<rparr>" "ch_closed l" "termErr l = b_err (bc s)"
      "concat (map c_data (ch l)) = []"
      by (auto simp: Subscribe_def Let_def split: option.splits)
    with i e True show ?thesis
      by (intro add_listener_inv [where live = False and l = l]) (simp_all add: listener_inv_def reached_def)
  next
    case nd: False
    with sub False obtain l where "b = (bc s)\<lparr>store := store (bc s) @ [l], listeners := listeners (bc s) @ [length (store (bc s))]\<rparr>"
      "\<not> ch_closed l" "\<not> disconnected l" "ch l = []" "headerCh_closed l = headerSet (bc s)"
      by (auto simp: Subscribe_def Let_def)
    with i e nd show ?thesis
      by (intro add_listener_inv [where live = True and l = l]) (simp_all add: listener_inv_def reached_def)
  qed
qed

lemma SetHeaders_fields [simp]:
  "b_done (SetHeaders st h b) = b_done b" "b_err (SetHeaders st h b) = b_err b" "headerSet (SetHeaders st h b)"
  "listeners (SetHeaders st h b) = listeners b" "streaming (SetHeaders st h b) = streaming b"
  "length (store (SetHeaders st h b)) = length (store b)"
  by (simp_all add: SetHeaders_def flip: upd_all_def [of "\<lambda>l. l\<lparr>l_status := st, l_headers := h, headerCh_closed := True\<rparr>"])

lemma set_headers_inv:
  assumes i: "stream_inv s" and nd: "\<not> b_done (bc s)"
  shows "stream_inv (s\<lparr>bc := SetHeaders status h (bc s)\<rparr>)"
proof -
  let ?b = "bc s" and ?c = "SetHeaders status h (bc s)"
  have "listener_inv ?c (sent s) (got s j) (j \<in> set (listeners ?b)) (store ?c ! j)" if j: "j < length (store ?b)" for j
    using stream_invD(4) [OF i j] nd
    by (cases "j \<in> set (listeners ?b)")
      (simp_all add: SetHeaders_store nth_upd_all [OF stream_invD(1,2) [OF i]] listener_inv_def reached_def)
  then show ?thesis using i nd by (simp add: stream_inv_def)
qed

lemma after_broadcast_fields [simp]:
  "b_done (after_broadcast d b) = b_done b" "b_err (after_broadcast d b) = b_err b"
  "headerSet (after_broadcast d b) = headerSet b" "streaming (after_broadcast d b)"
  "store (after_broadcast d b) = deliver_all d (listeners b) (store b)"
  "listeners (after_broadcast d b) = filter (\<lambda>i. accepts (store b ! i)) (listeners b)"
  by (simp_all add: after_broadcast_def)

lemma after_broadcast_inv:
  assumes i: "stream_inv s" and nd: "\<not> b_done (bc s)"
  shows "stream_inv (s\<lparr>bc := after_broadcast data (bc s), sent := sent s @ data\<rparr>)"
proof -
  let ?b = "bc s"
  have "listener_inv (after_broadcast data ?b) (sent s @ data) (got s j)
      (j \<in> set (listeners ?b) \<and> accepts (store ?b ! j)) (deliver_all data (listeners ?b) (store ?b) ! j)"
    if j: "j < length (store ?b)" for j
  proof (cases "j \<in> set (listeners ?b)")
    case True
    with stream_invD(4) [OF i j] nd show ?thesis
      by (auto simp: nth_upd_all [OF stream_invD(1,2) [OF i]] listener_inv_def deliver_def accepts_def reached_def)
  next
    case False
    with stream_invD(4) [OF i j] nd show ?thesis
      by (auto simp: nth_upd_all [OF stream_invD(1,2) [OF i]] listener_inv_def)
  qed
  then show ?thesis using i nd by (auto simp: stream_inv_def)
qed

lemma after_complete_inv:
  assumes i: "stream_inv s" and nd: "\<not> b_done (bc s)"
  shows "stream_inv (s\<lparr>bc := after_complete e (bc s)\<rparr>)"
proof -
  let ?b = "bc s" and ?c = "after_complete e (bc s)"
  have st: "store ?c ! j = (if j \<in> set (listeners ?b)
      then closing (b_err ?c) (if headerSet ?b then store ?b ! j else (store ?b ! j)\<lparr>headerErr := b_err ?c, headerCh_closed := True\<rparr>)
      else store ?b ! j)" for j
    using stream_invD(1,2) [OF i] by (simp add: after_complete_def Let_def nth_upd_all)
  have f: "b_done ?c" "headerSet ?c = headerSet ?b" "listeners ?c = listeners ?b" "length (store ?c) = length (store ?b)"
    "streaming ?c = streaming ?b" "headerSet ?b \<or> b_err ?c \<noteq> None"
    by (auto simp: after_complete_def Let_def)
  have "listener_inv ?c (sent s) (got s j) (j \<in> set (listeners ?b)) (store ?c ! j)" if j: "j < length (store ?b)" for j
    using stream_invD(4) [OF i j] nd f
    by (auto simp: st listener_inv_def closing_def reached_def)
  then show ?thesis using i f by (auto simp: stream_inv_def)
qed

lemma receive_inv:
  assumes i: "stream_inv s" and j: "k < length (store (bc s))" "ch (store (bc s) ! k) = c # cs"
  shows "stream_inv (s\<lparr>bc := (bc s)\<lparr>store := (store (bc s))[k := (store (bc s) ! k)\<lparr>ch := cs\<rparr>]\<rparr>,
              got := (got s)(k := got s k @ [c])\<rparr>)"
proof -
  have "reached (got s k @ [c]) ((store (bc s) ! k)\<lparr>ch := cs\<rparr>) = reached (got s k) (store (bc s) ! k)"
    using j by (simp add: reached_def)
  then have "listener_inv (bc s) (sent s) (got s k @ [c]) (k \<in> set (listeners (bc s))) ((store (bc s) ! k)\<lparr>ch := cs\<rparr>)"
    using stream_invD(4) [OF i j(1)] by (simp add: listener_inv_def)
  then show ?thesis using i j by (auto simp: stream_inv_def listener_inv_def nth_list_update)
qed

lemma bstep_inv: "bstep s t \<Longrightarrow> stream_inv s \<Longrightarrow> stream_inv t"
proof (induction rule: bstep.induct)
  case (send s data owned b r)
  obtain r' where "broadcast data owned (bc s) = Some (if data = [] then bc s else after_broadcast data (bc s), r')"
    using broadcast_result [OF listeners_ok [OF send(3,1)]] by blast
  with send after_broadcast_inv [OF send(3,1), of data] show ?case by (auto split: if_splits)
next
  case (complete e s b)
  then show ?case
    using Complete_result [OF complete(2)] after_complete_inv [OF complete(2)]
    by (cases "b_done (bc s)") (auto simp: Complete_def)
qed (auto intro: subscribe_inv set_headers_inv receive_inv)

lemma reachable_stream: "bstep\<^sup>*\<^sup>* (new_stream buf) s \<Longrightarrow> stream_inv s"
proof (induction rule: rtranclp_induct)
  case base
  then show ?case by (simp add: new_stream_def stream_inv_def NewBroadcaster_def)
qed (auto intro: bstep_inv)

section \<open>Properties\<close>

text \<open>C9: what a listener receives is always a prefix, in order, of what was broadcast, whatever the
  interleaving of subscribers, chunks, slow consumers and completion; and a listener that has drained
  its channel to the close without a terminal error has received every byte.\<close>

theorem listener_stream_faithful:
  assumes "bstep\<^sup>*\<^sup>* (new_stream buf) s" and "i < length (store (bc s))"
  shows "prefix (concat (map c_data (got s i))) (sent s)
    \<and> (ch_closed (store (bc s) ! i) \<and> ch (store (bc s) ! i) = [] \<and> termErr (store (bc s) ! i) = None
       \<longrightarrow> concat (map c_data (got s i)) = sent s \<and> b_done (bc s))"
proof -
  have l: "listener_inv (bc s) (sent s) (got s i) (i \<in> set (listeners (bc s))) (store (bc s) ! i)"
    using stream_invD(4) [OF reachable_stream [OF assms(1)] assms(2)] .
  have "prefix (concat (map c_data (got s i))) (reached (got s i) (store (bc s) ! i))"
    by (simp add: reached_def)
  also have "prefix (reached (got s i) (store (bc s) ! i)) (sent s)"
    using l by (auto simp: listener_inv_def split: if_splits)
  finally have p: "prefix (concat (map c_data (got s i))) (sent s)" .
  have "b_done (bc s) \<and> reached (got s i) (store (bc s) ! i) = sent s"
    if "ch_closed (store (bc s) ! i)" "termErr (store (bc s) ! i) = None"
    using l that by (auto simp: listener_inv_def split: if_splits)
  then show ?thesis using p by (auto simp: reached_def)
qed

definition demo_stream :: stream where
  "demo_stream =
     (let b0 = fst (Subscribe (NewBroadcaster 1));
          b1 = fst (the (broadcast ''ab'' True b0));
          b2 = fst (the (broadcast ''cd'' True b1))
      in \<lparr>bc = b2, sent = ''abcd'', got = (\<lambda>_. [])\<rparr>)"

theorem listener_stream_faithful_witness:
  "bstep\<^sup>*\<^sup>* (new_stream 1) demo_stream \<and> termErr (store (bc demo_stream) ! 0) = Some ErrSlowConsumer
   \<and> prefix (concat (map c_data (got demo_stream 0))) ''abcd''"
proof -
  let ?b0 = "fst (Subscribe (NewBroadcaster 1))"
  have b1: "broadcast ''ab'' True ?b0 = Some (after_broadcast ''ab'' ?b0, True)"
    by (subst broadcast_owned) (simp_all add: listeners_ok_def Subscribe_def NewBroadcaster_def accepts_def)
  have b2: "broadcast ''cd'' True (after_broadcast ''ab'' ?b0) = Some (after_broadcast ''cd'' (after_broadcast ''ab'' ?b0), False)"
    by (subst broadcast_owned)
      (simp_all add: listeners_ok_def Subscribe_def NewBroadcaster_def accepts_def after_broadcast_def deliver_def)
  have 1: "bstep (new_stream 1) (new_stream 1\<lparr>bc := ?b0\<rparr>)"
    by (rule bstep.subscribe [where r = "Some 0"]) (simp add: new_stream_def Subscribe_def NewBroadcaster_def)
  have 2: "bstep (new_stream 1\<lparr>bc := ?b0\<rparr>) (new_stream 1\<lparr>bc := after_broadcast ''ab'' ?b0, sent := ''ab''\<rparr>)"
    using b1 bstep.send [of "new_stream 1\<lparr>bc := ?b0\<rparr>" "''ab''" True "after_broadcast ''ab'' ?b0" True]
    by (simp add: new_stream_def Subscribe_def NewBroadcaster_def)
  have 3: "bstep (new_stream 1\<lparr>bc := after_broadcast ''ab'' ?b0, sent := ''ab''\<rparr>) demo_stream"
    using bstep.send [of "new_stream 1\<lparr>bc := after_broadcast ''ab'' ?b0, sent := ''ab''\<rparr>" "''cd''" True
        "after_broadcast ''cd'' (after_broadcast ''ab'' ?b0)" False] b1 b2
    by (simp add: new_stream_def demo_stream_def Let_def Subscribe_def NewBroadcaster_def)
  have r: "bstep\<^sup>*\<^sup>* (new_stream 1) demo_stream"
    using converse_rtranclp_into_rtranclp [OF 1 converse_rtranclp_into_rtranclp [OF 2 r_into_rtranclp [of bstep, OF 3]]] .
  have "bc demo_stream = after_broadcast ''cd'' (after_broadcast ''ab'' ?b0)" "sent demo_stream = ''abcd''"
    by (simp_all add: demo_stream_def Let_def b1 b2)
  moreover from this(1) have "0 < length (store (bc demo_stream))" "termErr (store (bc demo_stream) ! 0) = Some ErrSlowConsumer"
    by (simp_all add: after_broadcast_def Subscribe_def NewBroadcaster_def deliver_def accepts_def)
  ultimately have "0 < length (store (bc demo_stream))" "termErr (store (bc demo_stream) ! 0) = Some ErrSlowConsumer"
    "sent demo_stream = ''abcd''" by simp_all
  with listener_stream_faithful [OF r, of 0] r show ?thesis by simp
qed



text \<open>handing the input buffer to one listener delivers exactly what copying it to every listener
  delivers: the same listeners keep receiving in the same order, the same ones are disconnected, and
  the call reports that the buffer was taken iff some listener accepted the chunk.\<close>

lemma owned_broadcast_equiv_copying:
  assumes "bstep\<^sup>*\<^sup>* (new_stream buf) s" and "\<not> b_done (bc s)"
  shows "map_option fst (broadcast data True (bc s)) = map_option fst (broadcast data False (bc s))
    \<and> map_option snd (broadcast data True (bc s))
      = Some (data \<noteq> [] \<and> (\<exists>i \<in> set (listeners (bc s)). length (ch (store (bc s) ! i)) < ch_cap (store (bc s) ! i)))"
proof (cases "data = []")
  case True
  then show ?thesis by (simp add: broadcast_def)
next
  case False
  have i: "stream_inv s" using reachable_stream [OF assms(1)] .
  have "\<not> disconnected (store (bc s) ! j)" if "j \<in> set (listeners (bc s))" for j
    using stream_invD(2,4) [OF i] that by (auto simp: listener_inv_def)
  then show ?thesis
    using broadcast_copy [OF listeners_ok [OF i assms(2)] False] broadcast_owned [OF listeners_ok [OF i assms(2)] False] False
    by (auto simp: filter_empty_conv accepts_def)
qed

lemma owned_broadcast_equiv_copying_witness:
  "map_option fst (broadcast ''x'' True (bc (new_stream 4))) = map_option fst (broadcast ''x'' False (bc (new_stream 4)))"
  using owned_broadcast_equiv_copying [of 4 "new_stream 4" "''x''"] by (simp add: new_stream_def NewBroadcaster_def)

text \<open>The answer of WaitForHeaders does not depend on which ready channel the runtime picks:
  published headers win over a cancelled context, a cancelled context wins over a completion without
  headers, and with neither ready the call blocks.\<close>

lemma WaitForHeaders_deterministic:
  "WaitForHeaders l ctx_err pick =
     (if headerCh_closed l then
        (if headerErr l \<noteq> None \<and> ctx_err \<noteq> None then Some (0, [], ctx_err)
         else Some (l_status l, l_headers l, headerErr l))
      else map_option (\<lambda>e. (0, [], Some e)) ctx_err)"
  by (cases ctx_err; cases "headerErr l") (simp_all add: WaitForHeaders_def)

text \<open>Remove takes the table entry by key, not by broadcaster: when a fetch ends after a late
  request has started its own broadcast under the same key, the entry removed is the successor's, and
  the next request fetches again although that broadcast could still be joined.\<close>

lemma Remove_evicts_successor:
  assumes "active_map m key = Some b" and "streaming (pool m ! b)"
    and "GetOrCreate key m = (m1, b1, f1)" and "GetOrCreate key (Remove key m1) = (m2, b2, f2)"
  shows "f1 \<and> \<not> streaming (pool m1 ! b1) \<and> GetOrCreate key m1 = (m1, b1, False) \<and> f2 \<and> b2 \<noteq> b1"
  using assms by (auto simp: GetOrCreate_def Remove_def NewBroadcaster_def nth_append)

definition demo_manager :: Manager where
  "demo_manager = (NewManager 4)\<lparr>active_map := [''k'' \<mapsto> 0], pool := [(NewBroadcaster 4)\<lparr>streaming := True\<rparr>]\<rparr>"

lemma Remove_evicts_successor_witness:
  "\<exists>m1 b1 m2 b2. GetOrCreate ''k'' demo_manager = (m1, b1, True)
     \<and> GetOrCreate ''k'' (Remove ''k'' m1) = (m2, b2, True) \<and> b2 \<noteq> b1"
proof -
  obtain m1 b1 f1 where 1: "GetOrCreate ''k'' demo_manager = (m1, b1, f1)" by (metis prod_cases3)
  obtain m2 b2 f2 where 2: "GetOrCreate ''k'' (Remove ''k'' m1) = (m2, b2, f2)" by (metis prod_cases3)
  have "active_map demo_manager ''k'' = Some 0" "streaming (pool demo_manager ! 0)"
    by (simp_all add: demo_manager_def)
  from Remove_evicts_successor [OF this 1 2] 1 2 show ?thesis by simp
qed

end
