(* ===== verification/Go_Url.thy ===== *)
theory Go_Url
  imports Go_Http "HOL-Library.List_Lexorder" "HOL-Library.Char_ord"
begin

text \<open>
  The part of \<^verbatim>\<open>net/url\<close> the proxy relies on: percent-encoding of query components, query strings as
  multi-valued maps, and the request record with the fields of \<^verbatim>\<open>http.Request\<close> the handlers read.
\<close>

named_theorems url_simps \<open>query strings and requests\<close>

section \<open>Percent-encoding\<close>

definition unreserved :: "char \<Rightarrow> bool" where
  "unreserved c =
     (let n = of_char c :: nat in
      65 \<le> n \<and> n \<le> 90 \<or> 97 \<le> n \<and> n \<le> 122 \<or> 48 \<le> n \<and> n \<le> 57 \<or> c \<in> set ''-_.~'')"

definition upper_hex :: "nat \<Rightarrow> char" where
  "upper_hex d = (if d < 10 then char_of (48 + d) else char_of (55 + d))"

definition unhex :: "char \<Rightarrow> nat option" where
  "unhex c =
     (let n = of_char c :: nat in
      if 48 \<le> n \<and> n \<le> 57 then Some (n - 48)
      else if 97 \<le> n \<and> n \<le> 102 then Some (n - 87)
      else if 65 \<le> n \<and> n \<le> 70 then Some (n - 55) else None)"

definition pct :: "char \<Rightarrow> string" where
  "pct c = [CHR ''%'', upper_hex (of_char c div 16), upper_hex (of_char c mod 16)]"

definition QueryEscape :: "string \<Rightarrow> string" where
  "QueryEscape s = concat (map (\<lambda>c. if unreserved c then [c] else if c = CHR '' '' then ''+'' else pct c) s)"

text \<open>\<open>pl\<close>: whether a plus sign stands for a blank, as it does in query components.\<close>

fun unescape :: "bool \<Rightarrow> string \<Rightarrow> string option" where
  "unescape pl [] = Some []"
| "unescape pl (c # s) =
     (if c = CHR ''%'' then
        (case s of
           a # b # r \<Rightarrow>
             (case (unhex a, unhex b) of
                (Some h, Some l) \<Rightarrow> map_option ((#) (char_of (16 * h + l))) (unescape pl r)
              | _ \<Rightarrow> None)
         | _ \<Rightarrow> None)
      else map_option ((#) (if pl \<and> c = CHR ''+'' then CHR '' '' else c)) (unescape pl s))"

abbreviation QueryUnescape :: "string \<Rightarrow> string option" where
  "QueryUnescape \<equiv> unescape True"

lemma unhex_upper_hex [simp]: "d < 16 \<Longrightarrow> unhex (upper_hex d) = Some d"
  by (auto simp: unhex_def upper_hex_def)

lemma nibbles: "16 * (of_char c div 16) + of_char c mod 16 = (of_char c :: nat)" "of_char c div 16 < (16::nat)"
  using nat_of_char_less_256 [of c] by (simp_all add: less_mult_imp_div_less)

lemma unescape_pct [url_simps]: "unescape p (pct c @ s) = map_option ((#) c) (unescape p s)"
  using nibbles [of c] by (simp add: pct_def)

lemma QueryUnescape_QueryEscape [simp]: "QueryUnescape (QueryEscape s) = Some s"
proof (induction s)
  case (Cons c s)
  have "unreserved c \<Longrightarrow> c \<noteq> CHR ''%'' \<and> c \<noteq> CHR ''+''" by (auto simp: unreserved_def)
  with Cons show ?case using unescape_pct [of True c "QueryEscape s"] by (auto simp: QueryEscape_def)
qed (simp add: QueryEscape_def)

lemma QueryEscape_inject: "QueryEscape s = QueryEscape t \<Longrightarrow> s = t"
  by (metis QueryUnescape_QueryEscape option.inject)

lemma upper_hex_alnum: "d < 16 \<Longrightarrow> unreserved (upper_hex d)"
  by (auto simp: upper_hex_def unreserved_def Let_def)

lemma QueryEscape_chars: "c \<in> set (QueryEscape s) \<Longrightarrow> unreserved c \<or> c = CHR ''%'' \<or> c = CHR ''+''"
  using upper_hex_alnum nibbles(2) by (auto simp: QueryEscape_def pct_def split: if_splits)

section \<open>Query strings\<close>

type_synonym Values = "(string \<times> string list) list"

definition values_add :: "Values \<Rightarrow> string \<Rightarrow> string \<Rightarrow> Values" where
  "values_add q k v = AList.update k ((case map_of q k of Some vs \<Rightarrow> vs | None \<Rightarrow> []) @ [v]) q"

definition values_all :: "Values \<Rightarrow> string \<Rightarrow> string list" where
  "values_all q k = (case map_of q k of Some vs \<Rightarrow> vs | None \<Rightarrow> [])"

definition values_get :: "Values \<Rightarrow> string \<Rightarrow> string" where
  "values_get q k = (case values_all q k of v # _ \<Rightarrow> v | [] \<Rightarrow> [])"

text \<open>One \<^verbatim>\<open>&\<close>-separated part of a query string; a part that does not parse is dropped.\<close>

definition query_part :: "Values \<Rightarrow> string \<Rightarrow> Values" where
  "query_part q part =
     (if part = [] \<or> CHR '';'' \<in> set part then q
      else let (k, v, _) = Cut part (CHR ''='') in
           case (QueryUnescape k, QueryUnescape v) of
             (Some k, Some v) \<Rightarrow> values_add q k v
           | _ \<Rightarrow> q)"

definition ParseQuery :: "string \<Rightarrow> Values" where
  "ParseQuery s = foldl query_part [] (Split (CHR ''&'') s)"

section \<open>Requests\<close>

record url =
  url_Opaque :: string
  url_Host :: string
  url_Path :: string
  url_RawPath :: string
  url_RawQuery :: string
  url_ForceQuery :: bool

record Request =
  Method :: string
  URL :: url
  Host :: string
  Header :: header
  ReqContentLength :: int

abbreviation URL_Path :: "Request \<Rightarrow> string" where
  "URL_Path r \<equiv> url_Path (URL r)"

definition URL_Query :: "Request \<Rightarrow> Values" where
  "URL_Query r = ParseQuery (url_RawQuery (URL r))"

section \<open>Joining\<close>

fun Join :: "string \<Rightarrow> string list \<Rightarrow> string" where
  "Join sep [] = []"
| "Join sep [s] = s"
| "Join sep (s # ss) = s @ sep @ Join sep ss"

lemma Join_Cons: "ss \<noteq> [] \<Longrightarrow> Join sep (s # ss) = s @ sep @ Join sep ss"
  by (cases ss) simp_all

lemma Split_Join:
  assumes "ss \<noteq> []" and "\<And>s. s \<in> set ss \<Longrightarrow> c \<notin> set s"
  shows "Split c (Join [c] ss) = ss"
  using assms
proof (induction ss)
  case (Cons s ss)
  show ?case
  proof (cases "ss = []")
    case True
    with Cons show ?thesis by (simp add: Split_no_sep)
  next
    case False
    with Cons show ?thesis by (simp add: Join_Cons Split_append_sep)
  qed
qed simp

end
