(* ===== verification/Go_Crypto.thy ===== *)
theory Go_Crypto
  imports Go_Base "HOL-Library.Word"
begin

text \<open>
  The cryptographic functions of the Go standard library that request signatures and chunk chains are
  built from: SHA-256 (FIPS 180-4) on byte strings, HMAC (RFC 2104) over it, and lower-case
  hexadecimal.
\<close>

unbundle bit_operations_syntax

section \<open>Hexadecimal\<close>

definition hex_digit :: "nat \<Rightarrow> char" where
  "hex_digit d = (if d < 10 then char_of (48 + d) else char_of (87 + d))"

definition EncodeToString :: "string \<Rightarrow> string" where
  "EncodeToString s = concat (map (\<lambda>c. [hex_digit (of_char c div 16), hex_digit (of_char c mod 16)]) s)"

section \<open>SHA-256\<close>

type_synonym w32 = "32 word"

definition rotr :: "nat \<Rightarrow> w32 \<Rightarrow> w32" where
  "rotr n x = (drop_bit n x) OR (push_bit (32 - n) x)"

text \<open>
  The constants are fractions of roots of primes: the first 32 fractional bits of the cube roots of the
  first 64 primes for the rounds, of the square roots of the first eight for the initial state.
\<close>

definition small_primes :: "nat list" where
  "small_primes = filter (\<lambda>p. list_all (\<lambda>d. p mod d \<noteq> 0) [2..<p]) [2..<312]"

definition int_root :: "nat \<Rightarrow> nat \<Rightarrow> nat" where
  "int_root k n = foldl (\<lambda>r b. if (r + 2 ^ b) ^ k \<le> n then r + 2 ^ b else r) 0 (rev [0..<38])"

definition root_fraction :: "nat \<Rightarrow> nat \<Rightarrow> w32" where
  "root_fraction k p = of_nat (int_root k (p * 2 ^ (32 * k)))"

definition sha_k :: "w32 list" where
  "sha_k = map (root_fraction 3) small_primes"

definition sha_init :: "w32 list" where
  "sha_init = map (root_fraction 2) [2, 3, 5, 7, 11, 13, 17, 19]"

definition be_bytes :: "nat \<Rightarrow> nat \<Rightarrow> string" where
  "be_bytes n v = map (\<lambda>i. char_of (v div 256 ^ (n - 1 - i))) [0..<n]"

definition be_word :: "string \<Rightarrow> w32" where
  "be_word s = foldl (\<lambda>a c. a * 256 + of_nat (of_char c)) 0 s"

definition sha_pad :: "string \<Rightarrow> string" where
  "sha_pad s =
     (let l = length s; z = (119 - l mod 64) mod 64
      in s @ [char_of (128::nat)] @ replicate z (char_of (0::nat)) @ be_bytes 8 (8 * l))"

text \<open>The message schedule, newest word first, extended by \<open>n\<close> words.\<close>

fun sha_schedule :: "nat \<Rightarrow> w32 list \<Rightarrow> w32 list" where
  "sha_schedule 0 ws = ws"
| "sha_schedule (Suc n) ws =
     (let w2 = ws ! 1; w7 = ws ! 6; w15 = ws ! 14; w16 = ws ! 15;
          s0 = rotr 7 w15 XOR rotr 18 w15 XOR drop_bit 3 w15;
          s1 = rotr 17 w2 XOR rotr 19 w2 XOR drop_bit 10 w2
      in sha_schedule n ((w16 + s0 + w7 + s1) # ws))"

fun sha_round :: "w32 list \<Rightarrow> w32 \<times> w32 \<Rightarrow> w32 list" where
  "sha_round [a, b, c, d, e, f, g, h] (k, w) =
     (let s1 = rotr 6 e XOR rotr 11 e XOR rotr 25 e;
          ch = (e AND f) XOR ((NOT e) AND g);
          t1 = h + s1 + ch + k + w;
          s0 = rotr 2 a XOR rotr 13 a XOR rotr 22 a;
          maj = (a AND b) XOR (a AND c) XOR (b AND c);
          t2 = s0 + maj
      in [t1 + t2, a, b, c, d + t1, e, f, g])"
| "sha_round s _ = s"

definition sha_block :: "w32 list \<Rightarrow> string \<Rightarrow> w32 list" where
  "sha_block h block =
     (let w0 = map (\<lambda>i. be_word (take 4 (drop (4 * i) block))) [0..<16];
          ws = rev (sha_schedule 48 (rev w0))
      in map2 (+) h (foldl sha_round h (zip sha_k ws)))"

definition sha256 :: "string \<Rightarrow> string" where
  "sha256 s =
     (let p = sha_pad s;
          h = foldl (\<lambda>h i. sha_block h (take 64 (drop (64 * i) p))) sha_init [0..<length p div 64]
      in concat (map (\<lambda>w. be_bytes 4 (unat w)) h))"

section \<open>HMAC\<close>

definition xor_byte :: "nat \<Rightarrow> char \<Rightarrow> char" where
  "xor_byte b c = char_of ((b::nat) XOR of_char c)"

definition hmacSHA256 :: "string \<Rightarrow> string \<Rightarrow> string" where
  "hmacSHA256 key msg =
     (let k = (if 64 < length key then sha256 key else key);
          k' = k @ replicate (64 - length k) (char_of (0::nat))
      in sha256 (map (xor_byte 0x5c) k' @ sha256 (map (xor_byte 0x36) k' @ msg)))"

section \<open>Lemmas\<close>

lemma EncodeToString_Nil [simp]: "EncodeToString [] = []"
  by (simp add: EncodeToString_def)

lemma EncodeToString_append: "EncodeToString (s @ t) = EncodeToString s @ EncodeToString t"
  by (simp add: EncodeToString_def)

lemma hex_digit_range:
  "d < 16 \<Longrightarrow> 48 \<le> (of_char (hex_digit d) :: nat) \<and> (of_char (hex_digit d) :: nat) \<le> 102"
  by (auto simp: hex_digit_def)

lemma EncodeToString_chars:
  assumes "c \<in> set (EncodeToString s)"
  shows "48 \<le> (of_char c :: nat) \<and> (of_char c :: nat) \<le> 102"
proof -
  obtain x where "c = hex_digit (of_char x div 16) \<or> c = hex_digit (of_char x mod 16)"
    using assms by (auto simp: EncodeToString_def)
  moreover have "of_char x div 16 < (16::nat)" using nat_of_char_less_256 [of x] by (simp add: less_mult_imp_div_less)
  ultimately show ?thesis using hex_digit_range by auto
qed

lemma length_sha_round: "length (sha_round s x) = length s"
  by (cases "(s, x)" rule: sha_round.cases) (simp_all add: Let_def)

lemma length_sha_rounds: "length (foldl sha_round s xs) = length s"
  by (induction xs arbitrary: s) (simp_all add: length_sha_round)

lemma length_sha_block: "length (sha_block h b) = length h"
  by (simp add: sha_block_def length_sha_rounds Let_def)

lemma length_be_bytes [simp]: "length (be_bytes n v) = n"
  by (simp add: be_bytes_def)

lemma length_sha256 [simp]: "length (sha256 s) = 32"
proof -
  have "length (foldl (\<lambda>h i. sha_block h (f i)) h xs) = length h" for f :: "nat \<Rightarrow> string" and h xs
    by (induction xs arbitrary: h) (simp_all add: length_sha_block)
  moreover have "length (concat (map (\<lambda>w. be_bytes 4 (unat w)) h)) = 4 * length h" for h :: "w32 list"
    by (induction h) simp_all
  ultimately show ?thesis by (simp add: sha256_def sha_init_def Let_def)
qed

lemma length_EncodeToString [simp]: "length (EncodeToString s) = 2 * length s"
  by (induction s) (simp_all add: EncodeToString_def)

lemma hmac_hex_nonempty [simp]: "EncodeToString (hmacSHA256 k m) \<noteq> []"
proof
  assume "EncodeToString (hmacSHA256 k m) = []"
  then have "length (EncodeToString (hmacSHA256 k m)) = 0" by simp
  then show False by (simp add: hmacSHA256_def Let_def)
qed

end
