(* ===== verification/Go_Dates.thy ===== *)
theory Go_Dates
  imports Go_Http
begin

text \<open>
  Correctness of the calendar and of printing and parsing numbers of fixed width: the civil date of a
  day is a valid date whose day number is that day, and a padded number is read back.
\<close>

section \<open>The civil calendar\<close>

lemma dby_scaled:
  "400 * days_before_year y
   = 146097 * y - 97 - 100 * ((y - 1) mod 4) + 4 * ((y - 1) mod 100) - (y - 1) mod 400"
proof -
  define a b c where "a = (y - 1) div 4" and "b = (y - 1) div 100" and "c = (y - 1) div 400"
  have "(y - 1) mod 4 = y - 1 - 4 * a" "(y - 1) mod 100 = y - 1 - 100 * b" "(y - 1) mod 400 = y - 1 - 400 * c"
    unfolding a_def b_def c_def by (simp_all add: minus_mult_div_eq_mod [symmetric])
  then show ?thesis unfolding days_before_year_def a_def [symmetric] b_def [symmetric] c_def [symmetric] by simp
qed

lemma dby_bounds: "146097 * y - 796 \<le> 400 * days_before_year y" "400 * days_before_year y \<le> 146097 * y + 299"
proof -
  have "0 \<le> (y - 1) mod 4" "(y - 1) mod 4 < 4" "0 \<le> (y - 1) mod 100" "(y - 1) mod 100 < 100"
    "0 \<le> (y - 1) mod 400" "(y - 1) mod 400 < 400" by simp_all
  then show "146097 * y - 796 \<le> 400 * days_before_year y" "400 * days_before_year y \<le> 146097 * y + 299"
    unfolding dby_scaled by linarith+
qed

lemma year_of_bounds: "days_before_year (year_of n) \<le> n \<and> n < days_before_year (year_of n + 1)"
proof -
  define y where "y = n * 400 div 146097"
  have "n * 400 = 146097 * y + n * 400 mod 146097" "0 \<le> n * 400 mod 146097" "n * 400 mod 146097 < 146097"
    unfolding y_def by simp_all
  then have n: "146097 * y \<le> 400 * n" "400 * n < 146097 * y + 146097" by linarith+
  have "400 * days_before_year (y - 1) \<le> 400 * n" "400 * n < 400 * days_before_year (y + 1 + 1)"
    using dby_bounds(2) [of "y - 1"] dby_bounds(1) [of "y + 1 + 1"] n by simp_all
  then show ?thesis unfolding year_of_def y_def [symmetric] Let_def by auto
qed

lemma div_pred:
  assumes "0 < k"
  shows "(y::int) div k - (y - 1) div k = (if y mod k = 0 then 1 else 0)"
proof -
  define q r where "q = y div k" and "r = y mod k"
  have y: "y = k * q + r" and r: "0 \<le> r" "r < k" using assms by (simp_all add: q_def r_def)
  show ?thesis
  proof (cases "r = 0")
    case True
    have "y - 1 = (k - 1) + (q - 1) * k" using y True by (simp add: algebra_simps)
    then have "(y - 1) div k = q - 1" using assms by (simp only: div_mult_self1) simp
    with True show ?thesis by (simp add: q_def r_def)
  next
    case False
    have "y - 1 = (r - 1) + q * k" using y by (simp add: algebra_simps)
    moreover have "(r - 1) div k = 0" using r False by simp
    ultimately have "(y - 1) div k = q" using assms by (simp only: div_mult_self1)
    with False show ?thesis by (simp add: q_def r_def)
  qed
qed

lemma year_length: "days_before_year (y + 1) - days_before_year y = sum_list (month_lens y)"
proof -
  have b: "y mod 100 = 0 \<Longrightarrow> y mod 4 = 0" "y mod 400 = 0 \<Longrightarrow> y mod 100 = 0"
    using dvd_trans [of 4 100 y] dvd_trans [of 100 400 y] by (simp_all add: dvd_eq_mod_eq_0 [symmetric])
  have "days_before_year (y + 1) - days_before_year y
        = 365 + (y div 4 - (y - 1) div 4) - (y div 100 - (y - 1) div 100) + (y div 400 - (y - 1) div 400)"
    by (simp add: days_before_year_def)
  also have "\<dots> = sum_list (month_lens y)"
    unfolding month_lens_def leap_def using b
    by (cases "y mod 4 = 0"; cases "y mod 100 = 0"; cases "y mod 400 = 0") (simp_all add: div_pred)
  finally show ?thesis .
qed

lemma month_scan_spec:
  assumes "0 \<le> d" and "d < sum_list ls" and "month_scan ls m d = (m', d')"
  shows "m \<le> m' \<and> m' < m + length ls \<and> 0 \<le> d' \<and> d' < ls ! (m' - m) \<and> sum_list (take (m' - m) ls) + d' = d"
  using assms
proof (induction ls arbitrary: m d)
  case (Cons l ls)
  show ?case
  proof (cases "d < l")
    case True
    with Cons.prems show ?thesis by auto
  next
    case False
    with Cons.prems have "Suc m \<le> m' \<and> m' < Suc m + length ls \<and> 0 \<le> d' \<and> d' < ls ! (m' - Suc m)
        \<and> sum_list (take (m' - Suc m) ls) + d' = d - l"
      by (intro Cons.IH) auto
    moreover from this have "m' - m = Suc (m' - Suc m)" by (elim conjE) linarith
    ultimately show ?thesis by simp
  qed
qed simp

lemma civil_correct:
  assumes "civil days = (y, m, d)"
  shows "m < 12 \<and> 1 \<le> d \<and> d \<le> month_lens y ! m \<and> unix_days y m d = days \<and> y = year_of (days + days_before_year 1970)"
proof -
  define n where "n = days + days_before_year 1970"
  have y: "y = year_of n" using assms by (simp add: civil_def n_def Let_def split: prod.splits)
  obtain d' where s: "month_scan (month_lens y) 0 (n - days_before_year y) = (m, d')" and d: "d = d' + 1"
    using assms y by (auto simp: civil_def n_def Let_def split: prod.splits)
  have "length (month_lens y) = 12" by (simp add: month_lens_def)
  with month_scan_spec [OF _ _ s] year_of_bounds [of n] year_length [of y] y
  have "m < 12 \<and> 0 \<le> d' \<and> d' < month_lens y ! m \<and> sum_list (take m (month_lens y)) + d' = n - days_before_year y"
    by simp
  then show ?thesis using d y unfolding unix_days_def n_def by simp
qed

lemma month_lens_le: "m < 12 \<Longrightarrow> month_lens y ! m \<le> 31"
  by (auto simp: month_lens_def less_Suc_eq numeral_eq_Suc)

section \<open>Padded numbers\<close>

lemma show_nat_digits: "n < 10 \<Longrightarrow> show_nat n = [digit n]"
  by (subst show_nat.simps) simp

lemma isDigit_digit [simp]: "d < 10 \<Longrightarrow> isDigit (digit d)"
  by (simp add: isDigit_def digit_def)

lemma dig_digit [simp]: "d < 10 \<Longrightarrow> dig (digit d) = int d"
  by (simp add: dig_def digit_def)

lemma pad2: "0 \<le> i \<Longrightarrow> i < 100 \<Longrightarrow> pad 2 i = [digit (nat i div 10), digit (nat i mod 10)]"
proof -
  assume i: "0 \<le> i" "i < 100"
  have z: "digit 0 = CHR ''0''" by code_simp
  have "show_nat (nat i) = (if nat i < 10 then [digit (nat i)] else [digit (nat i div 10), digit (nat i mod 10)])"
    using i by (subst show_nat.simps) (auto simp: show_nat_digits)
  then show ?thesis using z by (simp add: pad_def)
qed

lemma getnum_pad2:
  assumes "0 \<le> i" and "i < 100"
  shows "getnum (pad 2 i @ s) b = Some (i, s)"
proof -
  have d: "nat i div 10 < 10" "nat i mod 10 < 10" using assms by simp_all
  have "int (nat i div 10 * 10 + nat i mod 10) = i" using assms(1) unfolding div_mult_mod_eq by simp
  then have "int (nat i div 10) * 10 + int (nat i mod 10) = i" by (simp only: of_nat_add of_nat_mult of_nat_numeral)
  with d show ?thesis by (simp add: pad2 [OF assms])
qed

lemma show_nat_step: "10 \<le> n \<Longrightarrow> show_nat n = show_nat (n div 10) @ [digit (n mod 10)]"
  by (subst show_nat.simps) simp

lemma pad4:
  assumes "n < 10000"
  shows "pad 4 (int n) = [digit (n div 1000), digit (n div 100 mod 10), digit (n div 10 mod 10), digit (n mod 10)]"
proof -
  have z: "CHR ''0'' = digit 0" by code_simp
  have r: "replicate 3 c = [c, c, c]" "replicate 2 c = [c, c]" "replicate (4 - Suc (Suc 0)) c = [c, c]"
    "replicate (4 - Suc (Suc (Suc 0))) c = [c]" "replicate (4 - Suc 0) c = [c, c, c]" for c :: char
    by (simp_all add: numeral_eq_Suc)
  have dd: "m div 10 div 10 = m div 100" "m div 100 div 10 = m div 1000" for m :: nat
    by (simp_all add: div_mult2_eq [symmetric])
  consider "n < 10" | "10 \<le> n" "n < 100" | "100 \<le> n" "n < 1000" | "1000 \<le> n" by linarith
  then show ?thesis
  proof cases
    case 1
    then show ?thesis by (simp add: pad_def show_nat_digits z r)
  next
    case 2
    then have "show_nat n = [digit (n div 10), digit (n mod 10)]" by (simp add: show_nat_step show_nat_digits)
    with 2 show ?thesis by (simp add: pad_def z r)
  next
    case 3
    then have "show_nat n = [digit (n div 100), digit (n div 10 mod 10), digit (n mod 10)]"
      by (simp add: show_nat_step [of n] show_nat_step [of "n div 10"] show_nat_digits dd)
    with 3 show ?thesis by (simp add: pad_def z r)
  next
    case 4
    then have "show_nat n = [digit (n div 1000), digit (n div 100 mod 10), digit (n div 10 mod 10), digit (n mod 10)]"
      using assms
      by (simp add: show_nat_step [of n] show_nat_step [of "n div 10"] show_nat_step [of "n div 100"] show_nat_digits dd)
    then show ?thesis by (simp add: pad_def)
  qed
qed

lemma digits4:
  fixes n :: nat
  shows "((n div 1000 * 10 + n div 100 mod 10) * 10 + n div 10 mod 10) * 10 + n mod 10 = n"
proof -
  have dd: "n div 10 div 10 = n div 100" "n div 100 div 10 = n div 1000" by (simp_all add: div_mult2_eq [symmetric])
  show ?thesis
    using div_mult_mod_eq [of n 10] div_mult_mod_eq [of "n div 10" 10] div_mult_mod_eq [of "n div 100" 10]
    unfolding dd by simp
qed

lemma parse_LongYear_pad4:
  assumes "0 \<le> y" and "y < 10000"
  shows "parse_item LongYear (pad 4 y @ s, f) = Some (s, f\<lparr>f_year := y\<rparr>)"
proof -
  define n where "n = nat y"
  have y: "y = int n" and n: "n < 10000" using assms by (simp_all add: n_def)
  have d: "n div 1000 < 10" using n by (simp add: less_mult_imp_div_less)
  have "((int (n div 1000) * 10 + int (n div 100 mod 10)) * 10 + int (n div 10 mod 10)) * 10 + int (n mod 10) = int n"
    using arg_cong [OF digits4 [of n], of int] by (simp only: of_nat_add of_nat_mult of_nat_numeral)
  with d show ?thesis unfolding y pad4 [OF n] by (simp add: digits_val_def del: of_nat_mod of_nat_div)
qed

end
