(* ===== verification/Sigv4.thy ===== *)
theory Sigv4
  imports Go_Url Go_Crypto Go_Dates
begin

text \<open>
  AWS Signature Version 4 (\<^verbatim>\<open>src/auth\<close>): parsing the authentication of a request, the canonical request,
  signing of upstream requests, validation of client requests with the lifetime rules, the stores of
  signing keys, the authorization cache, and the token of the cache's own RPC. Times are pairs of an
  instant in nanoseconds and the display offset of its location.
\<close>

named_theorems sigv4 \<open>parsing and printing of authentication headers\<close>

section \<open>Authentication of a request (parser.go)\<close>

record AuthInfo =
  AccessKey :: string
  IsPresigned :: bool
  SignedHeaders :: "string list"
  Signature :: string
  Region :: string
  Date :: string

text \<open>The leftmost match of a literal followed by a capture; \<open>f\<close> captures from the text after the literal.\<close>

fun regex_find :: "string \<Rightarrow> (string \<Rightarrow> string option) \<Rightarrow> string \<Rightarrow> string option" where
  "regex_find lit f [] = None"
| "regex_find lit f (c # s) =
     (if HasPrefix (c # s) lit
      then (case f (drop (length lit) (c # s)) of Some m \<Rightarrow> Some m | None \<Rightarrow> regex_find lit f s)
      else regex_find lit f s)"

definition nonempty :: "string \<Rightarrow> string option" where
  "nonempty s = (if s = [] then None else Some s)"

definition credentialRegex :: "string \<Rightarrow> string option" where
  "credentialRegex =
     regex_find ''Credential='' (\<lambda>s. if CHR ''/'' \<in> set s then nonempty (takeWhile (\<lambda>c. c \<noteq> CHR ''/'') s) else None)"

definition scopeRegex :: "string \<Rightarrow> string option" where
  "scopeRegex = regex_find ''Credential='' (\<lambda>s. nonempty (takeWhile (\<lambda>c. c \<noteq> CHR '','') s))"

definition signedHeadersRegex :: "string \<Rightarrow> string option" where
  "signedHeadersRegex = regex_find ''SignedHeaders='' (\<lambda>s. nonempty (takeWhile (\<lambda>c. c \<noteq> CHR '','') s))"

definition lower_hex_char :: "char \<Rightarrow> bool" where
  "lower_hex_char c = (let n = of_char c :: nat in 48 \<le> n \<and> n \<le> 57 \<or> 97 \<le> n \<and> n \<le> 102)"

definition signatureRegex :: "string \<Rightarrow> string option" where
  "signatureRegex = regex_find ''Signature='' (\<lambda>s. nonempty (takeWhile lower_hex_char s))"

definition extractFromHeader :: "string \<Rightarrow> string result" where
  "extractFromHeader auth =
     (if \<not> HasPrefix auth ''AWS4-HMAC-SHA256'' then Inl ErrUnsupportedAuthScheme
      else case credentialRegex auth of None \<Rightarrow> Inl ErrInvalidAuthFormat | Some k \<Rightarrow> Inr k)"

definition extractFromQuery :: "Request \<Rightarrow> string result" where
  "extractFromQuery r =
     (let credential = values_get (URL_Query r) ''X-Amz-Credential'' in
      if credential = [] then Inl ErrMissingAuth
      else let parts = Split (CHR ''/'') credential in
           if hd parts = [] then Inl ErrInvalidAuthFormat else Inr (hd parts))"

definition ExtractAccessKey :: "Request \<Rightarrow> string result" where
  "ExtractAccessKey r =
     (let auth = header_get (Header r) ''Authorization'' in
      if auth \<noteq> [] then extractFromHeader auth else extractFromQuery r)"

definition parseFromHeader :: "string \<Rightarrow> AuthInfo result" where
  "parseFromHeader auth =
     (if \<not> HasPrefix auth ''AWS4-HMAC-SHA256'' then Inl ErrUnsupportedAuthScheme
      else case credentialRegex auth of
             None \<Rightarrow> Inl ErrInvalidAuthFormat
           | Some accessKey \<Rightarrow>
               let parts = (case scopeRegex auth of Some s \<Rightarrow> Split (CHR ''/'') s | None \<Rightarrow> []) in
               Inr \<lparr>AccessKey = accessKey, IsPresigned = False,
                    SignedHeaders = (case signedHeadersRegex auth of Some h \<Rightarrow> Split (CHR '';'') h | None \<Rightarrow> []),
                    Signature = (case signatureRegex auth of Some s \<Rightarrow> s | None \<Rightarrow> []),
                    Region = (if 4 \<le> length parts then parts ! 2 else []),
                    Date = (if 4 \<le> length parts then parts ! 1 else [])\<rparr>)"

definition parseFromQuery :: "Request \<Rightarrow> AuthInfo result" where
  "parseFromQuery r =
     (let query = URL_Query r; credential = values_get query ''X-Amz-Credential'' in
      if credential = [] then Inl ErrMissingAuth
      else let parts = Split (CHR ''/'') credential in
           if length parts < 4 then Inl ErrInvalidAuthFormat
           else let signedHeaders = values_get query ''X-Amz-SignedHeaders'' in
                Inr \<lparr>AccessKey = parts ! 0, IsPresigned = True,
                     SignedHeaders = (if signedHeaders \<noteq> [] then Split (CHR '';'') signedHeaders else []),
                     Signature = values_get query ''X-Amz-Signature'',
                     Region = parts ! 2, Date = parts ! 1\<rparr>)"

definition ParseAuthInfo :: "Request \<Rightarrow> AuthInfo result" where
  "ParseAuthInfo r =
     (let auth = header_get (Header r) ''Authorization'' in
      if auth \<noteq> [] then parseFromHeader auth else parseFromQuery r)"

definition IsPresignedRequest :: "Request \<Rightarrow> bool" where
  "IsPresignedRequest r \<longleftrightarrow> values_get (URL_Query r) ''X-Amz-Credential'' \<noteq> []"

section \<open>Canonical requests (signer.go)\<close>

definition emptyBodyHash :: string where
  "emptyBodyHash = ''e3b0c44298fc1c149afbf4c8996fb92427ae41e4649b934ca495991b7852b855''"

text \<open>A time in the formats of the \<^verbatim>\<open>X-Amz-Date\<close> header and of the credential scope.\<close>

type_synonym go_time = "int \<times> int"

definition shortTime :: "go_time \<Rightarrow> string" where
  "shortTime t = (let (y, m, d) = civil ((unix_sec (fst t) + snd t) div 86400)
                  in pad 4 y @ pad 2 (int m + 1) @ pad 2 d)"

definition TimeFormat :: "go_time \<Rightarrow> string" where
  "TimeFormat t =
     (let rest = (unix_sec (fst t) + snd t) mod 86400
      in shortTime t @ ''T'' @ pad 2 (rest div 3600) @ pad 2 (rest mod 3600 div 60) @ pad 2 (rest mod 60) @ ''Z'')"

definition TimeFormat_layout :: "layout_item list" where
  "TimeFormat_layout =
     [LongYear, ZeroMonth, ZeroDay, LitText ''T'', Hour24, ZeroMinute, ZeroSecond, LitText ''Z'']"

definition rfc1123_layout :: "layout_item \<Rightarrow> layout_item list" where
  "rfc1123_layout zone =
     [WeekDay, LitText '', '', ZeroDay, LitText '' '', MonthName, LitText '' '', LongYear,
      LitText '' '', Hour24, LitText '':'', ZeroMinute, LitText '':'', ZeroSecond, LitText '' '', zone]"

definition ParseHTTPDate :: "string \<Rightarrow> go_time option" where
  "ParseHTTPDate dateStr =
     (case time_ParseZ TimeFormat_layout dateStr of
        Some t \<Rightarrow> Some t
      | None \<Rightarrow> (case time_ParseZ (rfc1123_layout ZoneName) dateStr of
                   Some t \<Rightarrow> Some t
                 | None \<Rightarrow> time_ParseZ (rfc1123_layout NumZone) dateStr))"

definition aws_plain :: "bool \<Rightarrow> char \<Rightarrow> bool" where
  "aws_plain encodeSlash c \<longleftrightarrow> unreserved c \<or> c = CHR ''/'' \<and> \<not> encodeSlash"

definition awsURIEncode :: "string \<Rightarrow> bool \<Rightarrow> string" where
  "awsURIEncode s encodeSlash = concat (map (\<lambda>c. if aws_plain encodeSlash c then [c] else pct c) s)"

definition canonicalQueryString :: "Values \<Rightarrow> string" where
  "canonicalQueryString query =
     Join ''&'' (concat (map (\<lambda>key. map (\<lambda>v. awsURIEncode key True @ ''='' @ awsURIEncode v True)
                                        (sort (values_all query key)))
                            (sort (map fst query))))"

fun collapse_spaces :: "bool \<Rightarrow> string \<Rightarrow> string" where
  "collapse_spaces prev [] = []"
| "collapse_spaces prev (c # s) =
     (if c = CHR '' '' then (if prev then collapse_spaces True s else c # collapse_spaces True s)
      else c # collapse_spaces False s)"

definition canonicalHeaderValue :: "string \<Rightarrow> string" where
  "canonicalHeaderValue v =
     (let v = TrimSpace v in if \<not> Contains v ''  '' then v else collapse_spaces False v)"

definition writeCanonicalHeaderValues :: "string list \<Rightarrow> string" where
  "writeCanonicalHeaderValues vs = Join '','' (map canonicalHeaderValue vs)"

definition newline :: string where
  "newline = [CHR 0x0A]"

definition signed_name :: "string \<Rightarrow> bool" where
  "signed_name lower' \<longleftrightarrow> lower' = ''host'' \<or> HasPrefix lower' ''x-amz-'' \<or> lower' = ''content-type''"

text \<open>The canonical header block and the signed header names of the signer.\<close>

definition headers_to_sign :: "Request \<Rightarrow> header" where
  "headers_to_sign req =
     (let hs = foldl (\<lambda>hs (k, v). if signed_name (ToLower k) then AList.update (ToLower k) v hs else hs) [] (Header req)
      in if map_of hs ''host'' = None then AList.update ''host'' [url_Host (URL req)] hs else hs)"

definition buildCanonicalHeaders :: "Request \<Rightarrow> string \<times> string" where
  "buildCanonicalHeaders req =
     (let hs = headers_to_sign req; names = sort (map fst hs)
      in (concat (map (\<lambda>n. n @ '':'' @ writeCanonicalHeaderValues (values_all hs n) @ newline) names),
          Join '';'' names))"

definition canonical_uri :: "Request \<Rightarrow> string" where
  "canonical_uri r = (let u = awsURIEncode (URL_Path r) False in if u = [] then ''/'' else u)"

definition buildCanonicalRequest :: "Request \<Rightarrow> string \<Rightarrow> string \<times> string" where
  "buildCanonicalRequest req bodyHash =
     (let (canonicalHeaders, signedHeaders) = buildCanonicalHeaders req
      in (Join newline [Method req, canonical_uri req, canonicalQueryString (URL_Query req),
                        canonicalHeaders, signedHeaders, bodyHash],
          signedHeaders))"

definition hashSHA256 :: "string \<Rightarrow> string" where
  "hashSHA256 data = EncodeToString (sha256 data)"

definition buildStringToSign :: "go_time \<Rightarrow> string \<Rightarrow> string \<Rightarrow> string" where
  "buildStringToSign signingTime credentialScope canonicalRequest =
     Join newline [''AWS4-HMAC-SHA256'', TimeFormat signingTime, credentialScope, hashSHA256 canonicalRequest]"

definition deriveSigningKey :: "string \<Rightarrow> string \<Rightarrow> string \<Rightarrow> string" where
  "deriveSigningKey secretKey dateStr region =
     (let kDate = hmacSHA256 (''AWS4'' @ secretKey) dateStr;
          kRegion = hmacSHA256 kDate region;
          kService = hmacSHA256 kRegion ''s3''
      in hmacSHA256 kService ''aws4_request'')"

definition credentialScope :: "go_time \<Rightarrow> string \<Rightarrow> string" where
  "credentialScope signingTime region =
     shortTime signingTime @ ''/'' @ region @ ''/'' @ ''s3'' @ ''/'' @ ''aws4_request''"

section \<open>Signing (signer.go)\<close>

record RequestSigner =
  endpointURL :: "url result"
  signer_region :: string

definition shouldCopyHeader :: "string \<Rightarrow> bool" where
  "shouldCopyHeader key =
     (let l = ToLower key in
      if l \<in> set [''content-type'', ''content-length'', ''content-encoding'', ''content-disposition'',
                   ''content-language'', ''cache-control'', ''expires'', ''content-md5'', ''range'',
                   ''if-match'', ''if-none-match'', ''if-modified-since'', ''if-unmodified-since''] then True
      else if HasPrefix l ''x-amz-'' then True
      else if HasPrefix l ''x-tigris-proxy-'' \<or> l = ''x-tigris-forwarded-host'' then False
      else HasPrefix l ''tigris-'' \<or> HasPrefix l ''x-tigris-'')"

definition signHTTP :: "string \<Rightarrow> Request \<Rightarrow> string \<Rightarrow> string \<Rightarrow> string \<Rightarrow> go_time \<Rightarrow> Request" where
  "signHTTP region req accessKey secretKey bodyHash signingTime =
     (let scope = credentialScope signingTime region;
          (canonicalRequest, signedHeaders) = buildCanonicalRequest req bodyHash;
          stringToSign = buildStringToSign signingTime scope canonicalRequest;
          signingKey = deriveSigningKey secretKey (shortTime signingTime) region;
          signature = EncodeToString (hmacSHA256 signingKey stringToSign);
          authHeader = ''AWS4-HMAC-SHA256 Credential='' @ accessKey @ ''/'' @ scope
                       @ '', SignedHeaders='' @ signedHeaders @ '', Signature='' @ signature
      in req\<lparr>Header := header_set (Header req) ''Authorization'' authHeader\<rparr>)"

text \<open>
  The URL of an upstream request: relative paths get their slash, an encoded path that no longer
  matches is dropped, and a raw \<^verbatim>\<open>#\<close> ends the query.
\<close>

definition normalize_url :: "url \<Rightarrow> url" where
  "normalize_url u =
     (let u = (if url_Opaque u \<noteq> [] then u\<lparr>url_Path := [], url_RawPath := []\<rparr>
               else let u = (if url_RawPath u \<noteq> [] \<and> unescape False (url_RawPath u) \<noteq> Some (url_Path u)
                             then u\<lparr>url_RawPath := []\<rparr> else u)
                    in if url_Host u \<noteq> [] \<and> url_Path u \<noteq> [] \<and> hd (url_Path u) \<noteq> CHR ''/''
                       then u\<lparr>url_Path := CHR ''/'' # url_Path u, url_RawPath := []\<rparr> else u)
      in u\<lparr>url_ForceQuery := url_ForceQuery u \<and> url_RawQuery u = []\<rparr>)"

definition ctl_byte :: "char \<Rightarrow> bool" where
  "ctl_byte c = (let n = of_char c :: nat in n < 32 \<or> n = 127)"

definition reparse_url :: "url \<Rightarrow> url result" where
  "reparse_url u =
     (let (q, frag, _) = Cut (url_RawQuery u) (CHR ''#'') in
      if list_ex ctl_byte q then Inl (EText ''net/url: invalid control character in URL'')
      else if unescape False frag = None then Inl (EText ''net/url: invalid URL escape'')
      else Inr (u\<lparr>url_RawQuery := q, url_ForceQuery := (q = [])\<rparr>))"

definition signURL ::
  "RequestSigner \<Rightarrow> int \<Rightarrow> string \<Rightarrow> url \<Rightarrow> string \<Rightarrow> string \<Rightarrow> string \<Rightarrow> header \<Rightarrow> int \<Rightarrow> Request result" where
  "signURL s now method baseURL bodyHash accessKey secretKey headers contentLength =
     (let u = normalize_url baseURL;
          method = (if method = [] then ''GET'' else method)
      in if \<not> list_all validHeaderFieldByte method
         then Inl (Errorf ''failed to create request: '' (EText (''net/http: invalid method '' @ method)))
         else case (if CHR ''#'' \<in> set (url_RawQuery u) then reparse_url u else Inr u) of
                Inl e \<Rightarrow> Inl (Errorf ''failed to create request: '' e)
              | Inr u \<Rightarrow>
                  let h = foldl (\<lambda>h (k, v). if shouldCopyHeader k then header_put_raw h k v else h) [] headers;
                      bodyHash = (if bodyHash = [] then emptyBodyHash else bodyHash);
                      h = header_set h ''X-Amz-Date'' (TimeFormat (now, 0));
                      h = header_set h ''X-Amz-Content-Sha256'' bodyHash;
                      h = header_set h ''Host'' (url_Host u);
                      req = \<lparr>Method = method, URL = u, Host = url_Host u, Header = h, ReqContentLength = contentLength\<rparr>
                  in Inr (signHTTP (signer_region s) req accessKey secretKey bodyHash (now, 0)))"

definition SignRequest ::
  "RequestSigner \<Rightarrow> int \<Rightarrow> string \<Rightarrow> string \<Rightarrow> string \<Rightarrow> string \<Rightarrow> string \<Rightarrow> header \<Rightarrow> int \<Rightarrow> Request result" where
  "SignRequest s now method path bodyHash accessKey secretKey headers contentLength =
     (case endpointURL s of
        Inl e \<Rightarrow> Inl (Errorf ''failed to parse endpoint: '' e)
      | Inr u \<Rightarrow>
          let (pathPart, queryPart, _) = Cut path (CHR ''?'')
          in signURL s now method (u\<lparr>url_Path := pathPart, url_RawQuery := queryPart\<rparr>)
               bodyHash accessKey secretKey headers contentLength)"

definition SignObjectRequest ::
  "RequestSigner \<Rightarrow> int \<Rightarrow> string \<Rightarrow> string \<Rightarrow> string \<Rightarrow> string \<Rightarrow> string \<Rightarrow> string \<Rightarrow> header \<Rightarrow> int \<Rightarrow> Request result" where
  "SignObjectRequest s now method bucket key bodyHash accessKey secretKey headers contentLength =
     (case endpointURL s of
        Inl e \<Rightarrow> Inl (Errorf ''failed to parse endpoint: '' e)
      | Inr u \<Rightarrow>
          signURL s now method (u\<lparr>url_Path := ''/'' @ bucket @ ''/'' @ key, url_RawQuery := []\<rparr>)
            bodyHash accessKey secretKey headers contentLength)"

section \<open>Validation (validator.go)\<close>

record ValidatedRequest =
  vr_AccessKey :: string
  vr_signingKey :: string
  vr_signingTime :: string
  vr_scope :: string
  vr_signature :: string

type_synonym key_source = "string \<Rightarrow> string \<Rightarrow> string \<Rightarrow> string result"

definition maxRequestAge :: int where
  "maxRequestAge = 15 * 60 * 1000000000"

definition maxPresignedExpires :: int where
  "maxPresignedExpires = 604800"

definition buildCanonicalHeadersFromList :: "Request \<Rightarrow> string list \<Rightarrow> string" where
  "buildCanonicalHeadersFromList r signedHeaders =
     concat (map (\<lambda>name. name @ '':''
       @ (if name = ''host'' then canonicalHeaderValue (if Host r = [] then url_Host (URL r) else Host r)
          else writeCanonicalHeaderValues (header_values (Header r) name))
       @ newline) signedHeaders)"

text \<open>The canonical request over a query that a presigned URL strips of its signature.\<close>

definition canonical_request_over :: "Values \<Rightarrow> Request \<Rightarrow> string list \<Rightarrow> string \<Rightarrow> string" where
  "canonical_request_over query r signedHeaders bodyHash =
     Join newline [Method r, canonical_uri r, canonicalQueryString query,
                   buildCanonicalHeadersFromList r signedHeaders, Join '';'' signedHeaders, bodyHash]"

definition validator_signature :: "Values \<Rightarrow> Request \<Rightarrow> AuthInfo \<Rightarrow> string \<Rightarrow> string \<Rightarrow> go_time \<Rightarrow> string" where
  "validator_signature query r info signingKey bodyHash signingTime =
     EncodeToString (hmacSHA256 signingKey
       (buildStringToSign signingTime (credentialScope signingTime (Region info))
          (canonical_request_over query r (SignedHeaders info) bodyHash)))"

definition computeSignature :: "Request \<Rightarrow> AuthInfo \<Rightarrow> string \<Rightarrow> string \<Rightarrow> go_time \<Rightarrow> string" where
  "computeSignature r = validator_signature (URL_Query r) r"

definition computePresignedSignature :: "Request \<Rightarrow> AuthInfo \<Rightarrow> string \<Rightarrow> string \<Rightarrow> go_time \<Rightarrow> string" where
  "computePresignedSignature r = validator_signature (AList.delete ''X-Amz-Signature'' (URL_Query r)) r"

definition validateSigned :: "int \<Rightarrow> Request \<Rightarrow> AuthInfo \<Rightarrow> string \<Rightarrow> string \<Rightarrow> go_time result" where
  "validateSigned now r info signingKey bodyHash =
     (let d = header_get (Header r) ''X-Amz-Date'';
          dateStr = (if d = [] then header_get (Header r) ''Date'' else d)
      in if dateStr = [] then Inl ErrInvalidDate
         else case ParseHTTPDate dateStr of
                None \<Rightarrow> Inl ErrInvalidDate
              | Some t \<Rightarrow>
                  let age = now - fst t in
                  if maxRequestAge < age \<or> age < - maxRequestAge then Inl ErrExpiredRequest
                  else if Signature info \<noteq> computeSignature r info signingKey bodyHash t then Inl ErrSignatureMismatch
                  else Inr t)"

definition validatePresigned :: "int \<Rightarrow> Request \<Rightarrow> AuthInfo \<Rightarrow> string \<Rightarrow> go_time result" where
  "validatePresigned now r info signingKey =
     (let query = URL_Query r; dateStr = values_get query ''X-Amz-Date''
      in if dateStr = [] then Inl ErrInvalidDate
         else case time_ParseZ TimeFormat_layout dateStr of
                None \<Rightarrow> Inl ErrInvalidDate
              | Some t \<Rightarrow>
                  (case values_all query ''X-Amz-Expires'' of
                     [v] \<Rightarrow>
                       let (expires, ok) = ParseInt v 10; age = now - fst t in
                       if \<not> ok \<or> expires < 1 \<or> maxPresignedExpires < expires then Inl ErrInvalidExpires
                       else if age < - maxRequestAge then Inl ErrExpiredRequest
                       else if expires * 1000000000 < age then Inl ErrExpiredRequest
                       else if Signature info \<noteq> computePresignedSignature r info signingKey ''UNSIGNED-PAYLOAD'' t
                       then Inl ErrSignatureMismatch
                       else Inr t
                   | _ \<Rightarrow> Inl ErrInvalidExpires))"

definition short_date :: "Request \<Rightarrow> AuthInfo \<Rightarrow> string result" where
  "short_date r info =
     (let d = header_get (Header r) ''X-Amz-Date'';
          dateStr = (if IsPresigned info then values_get (URL_Query r) ''X-Amz-Date''
                     else if d = [] then header_get (Header r) ''Date'' else d)
      in if Date info \<noteq> [] then Inr (Date info)
         else case ParseHTTPDate dateStr of
                None \<Rightarrow> Inl ErrInvalidDate
              | Some t \<Rightarrow> Inr (shortTime (fst t, 0)))"

definition Validate :: "key_source \<Rightarrow> int \<Rightarrow> Request \<Rightarrow> ValidatedRequest result" where
  "Validate GetSigningKey now r =
     (let bodyHash = header_get (Header r) ''X-Amz-Content-Sha256'' in
      case ParseAuthInfo r of
        Inl e \<Rightarrow> if bodyHash = [] then Inl ErrMissingContentHash else Inl (Errorf ''failed to parse auth: '' e)
      | Inr info \<Rightarrow>
          if bodyHash = [] \<and> (\<not> IsPresigned info \<or> Method r \<noteq> ''GET'') then Inl ErrMissingContentHash
          else case short_date r info of
                 Inl e \<Rightarrow> Inl e
               | Inr shortDate \<Rightarrow>
                   (case GetSigningKey (AccessKey info) shortDate (Region info) of
                      Inl e \<Rightarrow> Inl (Errorf ''failed to get signing key: '' e)
                    | Inr signingKey \<Rightarrow>
                        (case (if IsPresigned info then validatePresigned now r info signingKey
                               else validateSigned now r info signingKey bodyHash) of
                           Inl e \<Rightarrow> Inl e
                         | Inr t \<Rightarrow>
                             Inr \<lparr>vr_AccessKey = AccessKey info, vr_signingKey = signingKey,
                                  vr_signingTime = TimeFormat t, vr_scope = credentialScope t (Region info),
                                  vr_signature = Signature info\<rparr>)))"

definition ValidateRequest :: "key_source \<Rightarrow> int \<Rightarrow> Request \<Rightarrow> string result" where
  "ValidateRequest ks now r = map_sum id vr_AccessKey (Validate ks now r)"

section \<open>Signing keys (credentials.go, derived_key_store.go)\<close>

text \<open>The interface the validator calls: a key lookup fails only for want of the key.\<close>

locale key_provider =
  fixes get_key :: "'s \<Rightarrow> key_source"
  assumes only_unknown: "get_key s accessKey date region = Inl e \<Longrightarrow> err_is e ErrUnknownAccessKey"
begin

text \<open>
  A validation error that wraps the unknown-key error comes from the key lookup and from nothing else:
  the request was well-formed and no signature was compared.
\<close>

lemma unknown_key_error:
  assumes "Validate (get_key s) now r = Inl e"
  shows "err_is e ErrUnknownAccessKey \<longleftrightarrow>
         (\<exists>info d e'. ParseAuthInfo r = Inr info
            \<and> \<not> (header_get (Header r) ''X-Amz-Content-Sha256'' = [] \<and> (\<not> IsPresigned info \<or> Method r \<noteq> ''GET''))
            \<and> short_date r info = Inr d \<and> get_key s (AccessKey info) d (Region info) = Inl e')"
proof (cases "ParseAuthInfo r")
  case (Inl e0)
  then have "e0 \<in> {ErrMissingAuth, ErrUnsupportedAuthScheme, ErrInvalidAuthFormat}"
    by (auto simp: ParseAuthInfo_def parseFromHeader_def parseFromQuery_def Let_def split: if_splits option.splits)
  with Inl assms show ?thesis by (auto simp: Validate_def Errorf_def split: if_splits)
next
  case (Inr info)
  have v: "validateSigned now r info k h = Inl x \<Longrightarrow> \<not> err_is x ErrUnknownAccessKey"
    "validatePresigned now r info k = Inl x \<Longrightarrow> \<not> err_is x ErrUnknownAccessKey"
    "short_date r info = Inl x \<Longrightarrow> \<not> err_is x ErrUnknownAccessKey" for k h x
    by (auto simp: validateSigned_def validatePresigned_def short_date_def Let_def
        split: if_splits option.splits list.splits prod.splits)
  show ?thesis
  proof (cases "header_get (Header r) ''X-Amz-Content-Sha256'' = [] \<and> (\<not> IsPresigned info \<or> Method r \<noteq> ''GET'')")
    case True
    with assms Inr show ?thesis by (auto simp: Validate_def)
  next
    case hash: False
    show ?thesis
    proof (cases "short_date r info")
      case (Inl x)
      with assms Inr hash have "e = x" by (auto simp: Validate_def)
      with Inl Inr v(3) show ?thesis by simp
    next
      case d: (Inr date)
      show ?thesis
      proof (cases "get_key s (AccessKey info) date (Region info)")
        case (Inl x)
        with assms Inr hash d have "e = Errorf ''failed to get signing key: '' x" by (auto simp: Validate_def)
        with Inl Inr hash d only_unknown [OF Inl] show ?thesis by auto
      next
        case (Inr key)
        let ?v = "if IsPresigned info then validatePresigned now r info key
                  else validateSigned now r info key (header_get (Header r) ''X-Amz-Content-Sha256'')"
        have "?v = Inl e"
          using assms \<open>ParseAuthInfo r = Inr info\<close> hash d Inr by (cases ?v) (auto simp: Validate_def Let_def split: if_splits)
        then have "\<not> err_is e ErrUnknownAccessKey" using v(1,2) by (simp split: if_splits)
        with \<open>ParseAuthInfo r = Inr info\<close> d Inr show ?thesis by simp
      qed
    qed
  qed
qed

end

record CredentialStore =
  credentials :: "string \<rightharpoonup> string"

definition NewCredentialStore :: CredentialStore where
  "NewCredentialStore = \<lparr>credentials = Map.empty\<rparr>"

definition LoadFromEnv :: "string \<Rightarrow> string \<Rightarrow> CredentialStore \<Rightarrow> CredentialStore" where
  "LoadFromEnv accessKey secretKey c =
     (if accessKey = [] \<or> secretKey = [] then c else c\<lparr>credentials := (credentials c)(accessKey \<mapsto> secretKey)\<rparr>)"

definition GetSecretKey :: "CredentialStore \<Rightarrow> string \<Rightarrow> string result" where
  "GetSecretKey c accessKey =
     (case credentials c accessKey of
        Some secret \<Rightarrow> Inr secret
      | None \<Rightarrow> Inl (EWrap (Error ErrUnknownAccessKey @ '': '' @ accessKey) [ErrUnknownAccessKey]))"

definition AddCredential :: "CredentialStore \<Rightarrow> string \<Rightarrow> string \<Rightarrow> CredentialStore" where
  "AddCredential c accessKey secretKey = c\<lparr>credentials := (credentials c)(accessKey \<mapsto> secretKey)\<rparr>"

definition RemoveCredential :: "CredentialStore \<Rightarrow> string \<Rightarrow> CredentialStore" where
  "RemoveCredential c accessKey = c\<lparr>credentials := (credentials c)(accessKey := None)\<rparr>"

definition HasCredential :: "CredentialStore \<Rightarrow> string \<Rightarrow> bool" where
  "HasCredential c accessKey \<longleftrightarrow> credentials c accessKey \<noteq> None"

definition credential_GetSigningKey :: "CredentialStore \<Rightarrow> key_source" where
  "credential_GetSigningKey c accessKey date region =
     map_sum id (\<lambda>secret. deriveSigningKey secret date region) (GetSecretKey c accessKey)"

interpretation credential_store: key_provider credential_GetSigningKey
  by unfold_locales (auto simp: credential_GetSigningKey_def GetSecretKey_def split: option.splits)

text \<open>
  The expiring LRU map (\<^verbatim>\<open>golang-lru/v2/expirable\<close>, a third-party package) as a record of operations on
  its own state; entries may vanish at any time.
\<close>

record ('s, 'v) lru =
  lru_Get :: "'s \<Rightarrow> string \<Rightarrow> 's \<times> 'v option"
  lru_Add :: "'s \<Rightarrow> string \<Rightarrow> 'v \<Rightarrow> 's"
  lru_Remove :: "'s \<Rightarrow> string \<Rightarrow> 's"

definition composite :: "string list \<Rightarrow> string" where
  "composite parts = Join [CHR 0x00] parts"

definition derived_Store ::
  "('s, string) lru \<Rightarrow> ('t, unit) lru \<Rightarrow> 's \<times> 't \<Rightarrow> string \<Rightarrow> string \<Rightarrow> string \<Rightarrow> string \<Rightarrow> 's \<times> 't" where
  "derived_Store keys accessKeys d accessKey date region signingKey =
     (lru_Add keys (fst d) (composite [accessKey, date, region]) signingKey, lru_Add accessKeys (snd d) accessKey ())"

definition derived_GetSigningKey :: "('s, string) lru \<Rightarrow> 's \<times> 't \<Rightarrow> key_source" where
  "derived_GetSigningKey keys d accessKey date region =
     (case snd (lru_Get keys (fst d) (composite [accessKey, date, region])) of
        None \<Rightarrow> Inl ErrUnknownAccessKey
      | Some k \<Rightarrow> Inr k)"

definition derived_HasKey :: "('t, unit) lru \<Rightarrow> 's \<times> 't \<Rightarrow> string \<Rightarrow> bool" where
  "derived_HasKey accessKeys d accessKey \<longleftrightarrow> snd (lru_Get accessKeys (snd d) accessKey) \<noteq> None"

interpretation derived_store: key_provider "derived_GetSigningKey keys" for keys
  by unfold_locales (auto simp: derived_GetSigningKey_def split: option.splits)

section \<open>Authorization (authz_cache.go)\<close>

definition authzKey :: "string \<Rightarrow> string \<Rightarrow> string" where
  "authzKey accessKey bucket = composite [accessKey, bucket]"

definition IsAuthorized :: "('s, unit) lru \<Rightarrow> 's \<Rightarrow> string \<Rightarrow> string \<Rightarrow> 's \<times> bool" where
  "IsAuthorized l c accessKey bucket = (let (c, v) = lru_Get l c (authzKey accessKey bucket) in (c, v \<noteq> None))"

definition Grant :: "('s, unit) lru \<Rightarrow> 's \<Rightarrow> string \<Rightarrow> string \<Rightarrow> 's" where
  "Grant l c accessKey bucket = lru_Add l c (authzKey accessKey bucket) ()"

definition Revoke :: "('s, unit) lru \<Rightarrow> 's \<Rightarrow> string \<Rightarrow> string \<Rightarrow> 's" where
  "Revoke l c accessKey bucket = lru_Remove l c (authzKey accessKey bucket)"

section \<open>Proxy headers and the cache's RPC token (proxy_signer.go, grpc_auth.go)\<close>

record ProxyHeaders =
  ForwardedHost :: string
  ProxyAccessKey :: string
  ProxyTimestamp :: string
  ProxySignature :: string

definition ComputeProxyHeaders :: "string \<Rightarrow> string \<Rightarrow> int \<Rightarrow> string \<Rightarrow> string \<Rightarrow> string \<Rightarrow> ProxyHeaders" where
  "ComputeProxyHeaders accessKey secretKey now forwardedHost method path =
     (let timestamp = FormatInt (unix_sec now) in
      \<lparr>ForwardedHost = forwardedHost, ProxyAccessKey = accessKey, ProxyTimestamp = timestamp,
       ProxySignature = EncodeToString (hmacSHA256 secretKey (Join newline [forwardedHost, timestamp, method, path]))\<rparr>)"

definition DeriveGRPCAuthToken :: "string \<Rightarrow> string \<Rightarrow> string" where
  "DeriveGRPCAuthToken accessKey secretKey =
     EncodeToString (hmacSHA256 secretKey (''ocache-grpc-auth-v1:'' @ accessKey))"

text \<open>The metadata of an incoming call, if it has any; \<open>None\<close> is acceptance.\<close>

definition validateGRPCToken :: "header option \<Rightarrow> string \<Rightarrow> err option" where
  "validateGRPCToken md expectedToken =
     (case md of
        None \<Rightarrow> Some (EStatus (OtherCode 16) ''missing metadata'')
      | Some md \<Rightarrow>
          (case values_all md ''x-cache-auth-token'' of
             [] \<Rightarrow> Some (EStatus (OtherCode 16) ''missing auth token'')
           | v # _ \<Rightarrow> if v \<noteq> expectedToken then Some (EStatus (OtherCode 16) ''invalid auth token'') else None))"

definition attachGRPCToken :: "header \<Rightarrow> string \<Rightarrow> header" where
  "attachGRPCToken md token = values_add md ''x-cache-auth-token'' token"

section \<open>Chunk signatures (chunk_verifier.go)\<close>

record ChunkVerifier =
  cv_signingKey :: string
  cv_prefix :: string
  cv_previous :: string

definition vr_ChunkVerifier :: "ValidatedRequest \<Rightarrow> ChunkVerifier" where
  "vr_ChunkVerifier vr =
     \<lparr>cv_signingKey = vr_signingKey vr,
      cv_prefix = ''AWS4-HMAC-SHA256-PAYLOAD'' @ newline @ vr_signingTime vr @ newline @ vr_scope vr @ newline,
      cv_previous = vr_signature vr\<rparr>"

text \<open>The signature the chain expects next for a chunk with the given digest.\<close>

definition chunk_signature :: "ChunkVerifier \<Rightarrow> string \<Rightarrow> string" where
  "chunk_signature c chunkSHA256 =
     EncodeToString (hmacSHA256 (cv_signingKey c)
       (cv_prefix c @ cv_previous c @ newline @ emptyBodyHash @ newline @ EncodeToString chunkSHA256))"

definition VerifyChunk :: "ChunkVerifier \<Rightarrow> string \<Rightarrow> string \<Rightarrow> ChunkVerifier \<times> err option" where
  "VerifyChunk c signature chunkSHA256 =
     (let expected = chunk_signature c chunkSHA256 in
      if expected \<noteq> signature then (c, Some ErrChunkSignatureMismatch)
      else (c\<lparr>cv_previous := expected\<rparr>, None))"

end
