(* ===== verification/Aws_Chunked.thy ===== *)
theory Aws_Chunked
  imports Sigv4 "HOL-Library.Sublist"
begin

text \<open>
  The decoder of aws-chunked bodies (\<^verbatim>\<open>src/proxy/chunked_reader.go\<close>), with and without verification of
  the chunk signatures. The buffered reader below it is its remaining bytes and the error at their end;
  how many bytes one buffered read hands over is an argument of every read.
\<close>

named_theorems chunked \<open>framing lemmas\<close>

section \<open>The decoder\<close>

definition StreamingPayloadHash :: string where
  "StreamingPayloadHash = ''STREAMING-AWS4-HMAC-SHA256-PAYLOAD''"

definition streamingPayloadHashes :: "string list" where
  "streamingPayloadHashes =
     [StreamingPayloadHash, StreamingPayloadHash @ ''-TRAILER'', ''STREAMING-UNSIGNED-PAYLOAD-TRAILER'',
      ''STREAMING-AWS4-ECDSA-P256-SHA256-PAYLOAD'', ''STREAMING-AWS4-ECDSA-P256-SHA256-PAYLOAD-TRAILER'']"

definition IsStreamingPayload :: "string \<Rightarrow> bool" where
  "IsStreamingPayload bodyHash \<longleftrightarrow> bodyHash \<in> set streamingPayloadHashes"

text \<open>A body is its bytes and the error that ends them, if any.\<close>

type_synonym body_reader = "string \<times> err option"

record awsChunkedReader =
  input :: string
  input_end :: err
  remaining :: int
  at_end :: bool
  verifier :: "ChunkVerifier option"
  chunkSig :: string
  chunkData :: string
  sticky :: "err option"
  undeclared :: int

definition newAWSChunkedReader :: "body_reader \<Rightarrow> awsChunkedReader" where
  "newAWSChunkedReader r =
     \<lparr>input = fst r, input_end = (case snd r of None \<Rightarrow> EOF | Some e \<Rightarrow> e), remaining = 0, at_end = False,
      verifier = None, chunkSig = [], chunkData = [], sticky = None, undeclared = - 1\<rparr>"

definition newVerifyingAWSChunkedReader :: "body_reader \<Rightarrow> ChunkVerifier option \<Rightarrow> int \<Rightarrow> awsChunkedReader" where
  "newVerifyingAWSChunkedReader r v decodedLength =
     (let cr = newAWSChunkedReader r in
      if v \<noteq> None then cr\<lparr>verifier := v, undeclared := (if 0 \<le> decodedLength then decodedLength else undeclared cr)\<rparr>
      else cr)"

definition chunkSignatureExtension :: "string \<Rightarrow> string option" where
  "chunkSignatureExtension ext =
     map_option (\<lambda>p. TrimPrefix (TrimSpace p) ''chunk-signature='')
       (find (\<lambda>p. HasPrefix (TrimSpace p) ''chunk-signature='') (Split (CHR '';'') ext))"

text \<open>The line, or the error, and the bytes that are left.\<close>

fun readLine :: "err \<Rightarrow> string \<Rightarrow> string \<Rightarrow> string \<times> string result" where
  "readLine e line [] = ([], Inl e)"
| "readLine e line (b # s) =
     (if b = CHR 0x0A then (s, Inr (TrimRight (CHR 0x0D) line))
      else if 256 < length line + 1 then (s, Inl (EText ''chunk header exceeds maximum length (256 bytes)''))
      else readLine e (line @ [b]) s)"

definition readTrailingCRLF :: "awsChunkedReader \<Rightarrow> awsChunkedReader \<times> err option" where
  "readTrailingCRLF r =
     (case input r of
        a # b # s \<Rightarrow>
          (r\<lparr>input := s\<rparr>,
           if a = CHR 0x0D \<and> b = CHR 0x0A then None else Some (EText ''invalid chunk trailer: expected CRLF''))
      | s \<Rightarrow>
          (r\<lparr>input := []\<rparr>,
           Some (Errorf ''reading chunk trailer: '' (if s \<noteq> [] \<and> input_end r = EOF then UnexpectedEOF else input_end r))))"

definition fail_sticky :: "awsChunkedReader \<Rightarrow> string \<Rightarrow> awsChunkedReader \<times> err option" where
  "fail_sticky r text = (let e = Errorf text ErrChunkSignatureMismatch in (r\<lparr>sticky := Some e\<rparr>, Some e))"

text \<open>The frame of a verifying reader: the declared length, and the signature of a terminal frame.\<close>

definition bind_frame :: "awsChunkedReader \<Rightarrow> ChunkVerifier \<Rightarrow> string \<Rightarrow> int \<Rightarrow> awsChunkedReader \<times> err option" where
  "bind_frame r v ext n =
     (case chunkSignatureExtension ext of
        None \<Rightarrow> fail_sticky r ''chunk header carries no chunk-signature: ''
      | Some sig \<Rightarrow>
          (case (if n \<le> 0 then
                   (case VerifyChunk v sig (sha256 []) of
                      (v, Some _) \<Rightarrow> fail_sticky (r\<lparr>verifier := Some v\<rparr>) ''verifying final chunk signature: ''
                    | (v, None) \<Rightarrow>
                        if 0 < undeclared r
                        then fail_sticky (r\<lparr>verifier := Some v\<rparr>)
                               (''terminal chunk arrived with '' @ FormatInt (undeclared r)
                                @ '' bytes of the declared decoded length unsent: '')
                        else (r\<lparr>verifier := Some v\<rparr>, None))
                 else if 0 \<le> undeclared r \<and> undeclared r < n then
                   fail_sticky r (''chunk claims '' @ FormatInt n @ '' bytes, more than the ''
                                  @ FormatInt (undeclared r) @ '' left of the declared decoded length: '')
                 else if 0 \<le> undeclared r then (r\<lparr>undeclared := undeclared r - n\<rparr>, None)
                 else (r, None)) of
             (r, Some e) \<Rightarrow> (r, Some e)
           | (r, None) \<Rightarrow> (r\<lparr>chunkSig := sig, chunkData := []\<rparr>, None)))"

definition readChunkHeader :: "awsChunkedReader \<Rightarrow> awsChunkedReader \<times> err option" where
  "readChunkHeader r =
     (case readLine (input_end r) [] (input r) of
        (s, Inl e) \<Rightarrow> (r\<lparr>input := s\<rparr>, Some (Errorf ''reading chunk header: '' e))
      | (s, Inr line) \<Rightarrow>
          let r = r\<lparr>input := s\<rparr>; (sizeStr, ext, _) = Cut line (CHR '';'');
              (n, ok) = ParseInt (TrimSpace sizeStr) 16
          in if \<not> ok then (r, Some (EText (''parsing chunk size '' @ sizeStr)))
             else case (case verifier r of None \<Rightarrow> (r, None) | Some v \<Rightarrow> bind_frame r v ext n) of
                    (r, Some e) \<Rightarrow> (r, Some e)
                  | (r, None) \<Rightarrow>
                      if n \<le> 0 then (r\<lparr>at_end := True\<rparr>, None) else (r\<lparr>remaining := n\<rparr>, None))"

definition truncated :: err where
  "truncated = EWrap ''aws-chunked body truncated mid-chunk: unexpected EOF'' [UnexpectedEOF]"

definition end_error :: "awsChunkedReader \<Rightarrow> err" where
  "end_error r = (if err_is (input_end r) EOF then truncated else input_end r)"

definition readVerifiedLastByte :: "nat \<Rightarrow> ChunkVerifier \<Rightarrow> awsChunkedReader \<Rightarrow> awsChunkedReader \<times> string \<times> err option" where
  "readVerifiedLastByte plen v r =
     (if plen = 0 then (r, [], None)
      else case input r of
             [] \<Rightarrow> (r, [], Some (end_error r))
           | last' # s \<Rightarrow>
               (case readTrailingCRLF (r\<lparr>input := s, chunkData := chunkData r @ [last']\<rparr>) of
                  (r, Some e) \<Rightarrow> (r, [], Some e)
                | (r, None) \<Rightarrow>
                    (case VerifyChunk v (chunkSig r) (sha256 (chunkData r)) of
                       (v, Some e) \<Rightarrow>
                         let e = Errorf ''verifying chunk signature: '' e
                         in (r\<lparr>verifier := Some v, sticky := Some e\<rparr>, [], Some e)
                     | (v, None) \<Rightarrow>
                         (case readChunkHeader (r\<lparr>verifier := Some v, remaining := 0\<rparr>) of
                            (r, Some e) \<Rightarrow> (r, [], Some e)
                          | (r, None) \<Rightarrow> (r, [last'], None)))))"

text \<open>Up to \<open>toRead\<close> bytes of the current chunk; the buffered reader hands over \<open>avail\<close> of them, at least one.\<close>

definition read_data :: "nat \<Rightarrow> nat \<Rightarrow> awsChunkedReader \<Rightarrow> awsChunkedReader \<times> string \<times> err option" where
  "read_data toRead avail r =
     (if toRead = 0 then (r, [], None)
      else if input r = [] then (r, [], Some (end_error r))
      else
        let out = take (max 1 (min avail toRead)) (input r);
            r = r\<lparr>input := drop (length out) (input r), remaining := remaining r - int (length out),
                  chunkData := (if verifier r \<noteq> None then chunkData r @ out else chunkData r)\<rparr>
        in if remaining r = 0 then (case readTrailingCRLF r of (r, e) \<Rightarrow> (r, out, e)) else (r, out, None))"

definition Read :: "nat \<Rightarrow> nat \<Rightarrow> awsChunkedReader \<Rightarrow> awsChunkedReader \<times> string \<times> err option" where
  "Read plen avail r =
     (case sticky r of
        Some e \<Rightarrow> (r, [], Some e)
      | None \<Rightarrow>
          if at_end r then (r, [], Some EOF)
          else case (if remaining r = 0 then readChunkHeader r else (r, None)) of
                 (r, Some e) \<Rightarrow> (r, [], Some e)
               | (r, None) \<Rightarrow>
                   if at_end r then (r, [], Some EOF)
                   else (case verifier r of
                           None \<Rightarrow> read_data (nat (min (int plen) (remaining r))) avail r
                         | Some v \<Rightarrow>
                             if remaining r = 1 then readVerifiedLastByte plen v r
                             else let toRead = min (int plen) (remaining r);
                                      toRead = (if toRead = remaining r then toRead - 1 else toRead)
                                  in read_data (nat toRead) avail r))"

section \<open>Requests\<close>

definition streamChunkVerifier :: "Request \<Rightarrow> ValidatedRequest option \<Rightarrow> ChunkVerifier option" where
  "streamChunkVerifier r vr =
     (case vr of
        None \<Rightarrow> None
      | Some vr \<Rightarrow>
          if header_get (Header r) ''X-Amz-Content-Sha256'' \<noteq> StreamingPayloadHash then None
          else Some (vr_ChunkVerifier vr))"

text \<open>The decoder that replaces the body, if any, with the body hash and length to forward.\<close>

definition decodeChunkedIfNeeded ::
  "Request \<Rightarrow> body_reader \<Rightarrow> ValidatedRequest option \<Rightarrow> awsChunkedReader option \<times> string \<times> int \<times> bool" where
  "decodeChunkedIfNeeded r body vr =
     (let bodyHash = header_get (Header r) ''X-Amz-Content-Sha256'' in
      if \<not> IsStreamingPayload bodyHash then (None, bodyHash, ReqContentLength r, False)
      else
        let v = header_get (Header r) ''X-Amz-Decoded-Content-Length'';
            contentLength = (if v \<noteq> [] then (case ParseInt v 10 of (n, ok) \<Rightarrow> if ok then n else - 1) else - 1)
        in (Some (newVerifyingAWSChunkedReader body (streamChunkVerifier r vr) contentLength),
            ''UNSIGNED-PAYLOAD'', contentLength, True))"

definition stripAWSChunkedToken :: "string \<Rightarrow> string" where
  "stripAWSChunkedToken ce =
     Join '','' (filter (\<lambda>p. p \<noteq> [] \<and> \<not> EqualFold p ''aws-chunked'') (map TrimSpace (Split (CHR '','') ce)))"

section \<open>Draining\<close>

text \<open>Successive reads, each with the size of its buffer and what the buffered reader has ready, up to the first error.\<close>

fun reads :: "(nat \<times> nat) list \<Rightarrow> awsChunkedReader \<Rightarrow> awsChunkedReader \<times> string \<times> err option" where
  "reads [] r = (r, [], None)"
| "reads ((plen, avail) # rs) r =
     (case Read plen avail r of
        (r, out, Some e) \<Rightarrow> (r, out, Some e)
      | (r, out, None) \<Rightarrow> (case reads rs r of (r, out', e) \<Rightarrow> (r, out @ out', e)))"

section \<open>What a verified body proves\<close>

definition advance :: "ChunkVerifier \<Rightarrow> string \<Rightarrow> ChunkVerifier" where
  "advance c d = c\<lparr>cv_previous := chunk_signature c (sha256 d)\<rparr>"

fun chain :: "ChunkVerifier \<Rightarrow> string list \<Rightarrow> ChunkVerifier" where
  "chain c [] = c"
| "chain c (d # ds) = chain (advance c d) ds"

lemma chain_snoc [chunked]: "chain c (ds @ [d]) = advance (chain c ds) d"
  by (induction ds arbitrary: c) simp_all

lemma VerifyChunk_cases:
  "VerifyChunk c sig (sha256 d) = (c', e) \<Longrightarrow>
   (case e of None \<Rightarrow> c' = advance c d \<and> sig = cv_previous c' | Some x \<Rightarrow> c' = c \<and> x = ErrChunkSignatureMismatch)"
  by (auto simp: VerifyChunk_def advance_def Let_def split: if_splits)

subsection \<open>Claims are part of the body\<close>

lemma drop_seqs_suffix: "suffix (drop_seqs ps s) s"
proof (induction ps s rule: drop_seqs.induct)
  case (1 ps s)
  then show ?case
    by (subst drop_seqs.simps) (auto split: option.splits intro: suffix_order.order_trans suffix_drop)
qed

lemma TrimSpace_sublist: "sublist (TrimSpace s) s"
proof -
  have "prefix (TrimSpace s) (drop_seqs ws_seqs s)"
    unfolding TrimSpace_def by (metis drop_seqs_suffix rev_rev_ident suffix_to_prefix)
  with drop_seqs_suffix [of ws_seqs s] show ?thesis
    by (meson prefix_imp_sublist suffix_imp_sublist sublist_order.order_trans)
qed

lemma Split_sublist: "p \<in> set (Split c s) \<Longrightarrow> sublist p s"
proof (induction s arbitrary: p)
  case (Cons x s)
  show ?case
  proof (cases "x = c")
    case True
    with Cons show ?thesis by (auto intro: sublist_Cons_right [THEN iffD2])
  next
    case False
    then obtain q qs where q: "Split c s = q # qs" by (cases "Split c s") auto
    have "prefix q s" using q
      by (induction s arbitrary: q qs) (auto split: if_splits list.splits)
    with False Cons q show ?thesis
      by (auto simp: sublist_Cons_right dest: prefix_imp_sublist)
  qed
qed simp

lemma readLine_split:
  "readLine e line s = (s', Inr l) \<Longrightarrow> \<exists>m. s = m @ CHR 0x0A # s' \<and> prefix l (line @ m)"
proof (induction s arbitrary: line)
  case (Cons b s)
  show ?case
  proof (cases "b = CHR 0x0A")
    case True
    have "prefix (TrimRight (CHR 0x0D) line) line"
      unfolding TrimRight_def by (metis rev_rev_ident suffix_dropWhile suffix_to_prefix)
    with True Cons.prems show ?thesis by auto
  next
    case False
    with Cons.prems have "readLine e (line @ [b]) s = (s', Inr l)" by (simp split: if_splits)
    from Cons.IH [OF this] obtain m where "s = m @ CHR 0x0A # s'" "prefix l ((line @ [b]) @ m)" by blast
    then show ?thesis by (intro exI [of _ "b # m"]) simp
  qed
qed simp

lemma Cut_sublist: "Cut s c = (a, b, f) \<Longrightarrow> sublist b s"
  by (auto simp: Cut_def split: option.splits intro: suffix_imp_sublist suffix_drop)

lemma TrimPrefix_split: "HasPrefix t p \<Longrightarrow> p @ TrimPrefix t p = t"
  by (auto simp: HasPrefix_iff)

lemma chunkSignatureExtension_sublist:
  assumes "chunkSignatureExtension ext = Some sig"
  shows "sublist (''chunk-signature='' @ sig) ext"
proof -
  define lit where "lit = ''chunk-signature=''"
  obtain p where p: "find (\<lambda>p. HasPrefix (TrimSpace p) lit) (Split (CHR '';'') ext) = Some p" "sig = TrimPrefix (TrimSpace p) lit"
    using assms by (auto simp: chunkSignatureExtension_def lit_def)
  then have "p \<in> set (Split (CHR '';'') ext)" "HasPrefix (TrimSpace p) lit" by (auto simp: find_Some_iff)
  then have "sublist p ext" "lit @ sig = TrimSpace p" using Split_sublist TrimPrefix_split p(2) by simp_all
  then show ?thesis using TrimSpace_sublist [of p] unfolding lit_def [symmetric] by (metis sublist_order.order_trans)
qed

subsection \<open>The invariant of a verifying reader\<close>

definition verified_end :: "ChunkVerifier \<Rightarrow> string \<Rightarrow> awsChunkedReader \<Rightarrow> string \<Rightarrow> bool" where
  "verified_end seed body r out \<longleftrightarrow>
     (\<exists>cs. out = concat cs \<and> verifier r = Some (chain seed (cs @ [[]]))
           \<and> sublist (''chunk-signature='' @ cv_previous (chain seed (cs @ [[]]))) body)"

definition auth_inv :: "ChunkVerifier \<Rightarrow> int \<Rightarrow> string \<Rightarrow> awsChunkedReader \<Rightarrow> string \<Rightarrow> bool" where
  "auth_inv seed N body r out \<longleftrightarrow>
     sticky r = None \<and> suffix (input r) body \<and>
     (if at_end r then verified_end seed body r out \<and> (0 \<le> N \<longrightarrow> int (length out) = N)
      else (\<exists>cs. out = concat cs @ chunkData r \<and> verifier r = Some (chain seed cs))
           \<and> 0 \<le> remaining r \<and> (remaining r = 0 \<longrightarrow> out = [])
           \<and> (if 0 \<le> N then 0 \<le> undeclared r \<and> undeclared r + remaining r + int (length out) = N else undeclared r = - 1))"

lemma header_inv:
  assumes "sticky r = None" and "suffix (input r) body" and "\<not> at_end r"
    and "verifier r = Some (chain seed cs)"
    and "if 0 \<le> N then 0 \<le> undeclared r \<and> undeclared r + int (length (concat cs)) = N else undeclared r = - 1"
    and "readChunkHeader r = (r', None)"
  shows "auth_inv seed N body r' (concat cs) \<and> (at_end r' \<or> 0 < remaining r')"
proof -
  obtain s line where l: "readLine (input_end r) [] (input r) = (s, Inr line)"
    using assms(6) by (auto simp: readChunkHeader_def split: prod.splits sum.splits)
  obtain sizeStr ext f where c: "Cut line (CHR '';'') = (sizeStr, ext, f)" by (metis prod_cases3)
  obtain n ok where p: "ParseInt (TrimSpace sizeStr) 16 = (n, ok)" by fastforce
  let ?r = "r\<lparr>input := s\<rparr>"
  obtain r1 where b: "bind_frame ?r (chain seed cs) ext n = (r1, None)"
    and r': "r' = (if n \<le> 0 then r1\<lparr>at_end := True\<rparr> else r1\<lparr>remaining := n\<rparr>)"
    using assms(4,6) l c p by (auto simp: readChunkHeader_def Let_def split: if_splits prod.splits option.splits)
  obtain sig where sig: "chunkSignatureExtension ext = Some sig"
    using b by (auto simp: bind_frame_def fail_sticky_def Let_def split: option.splits)
  from readLine_split [OF l] obtain m where m: "input r = m @ CHR 0x0A # s" "prefix line m" by auto
  have suf: "suffix s body"
    using assms(2) m(1) by (metis append_Cons append_Nil append_assoc suffixI suffix_order.order_trans)
  have "sublist m body" using m(1) assms(2) by (metis prefixI prefix_imp_sublist sublist_order.order_trans suffix_imp_sublist)
  then have claim: "sublist (''chunk-signature='' @ sig) body"
    using chunkSignatureExtension_sublist [OF sig] Cut_sublist [OF c] m(2) by (meson prefix_imp_sublist sublist_order.order_trans)
  show ?thesis
  proof (cases "n \<le> 0")
    case True
    obtain v e where v: "VerifyChunk (chain seed cs) sig (sha256 []) = (v, e)" by fastforce
    from b sig v True have "e = None" and u: "\<not> 0 < undeclared r"
      and r1: "r1 = ?r\<lparr>verifier := Some v, chunkSig := sig, chunkData := []\<rparr>"
      by (auto simp: bind_frame_def fail_sticky_def Let_def split: option.splits if_splits)
    with VerifyChunk_cases [OF v] have "v = chain seed (cs @ [[]])" "sig = cv_previous v" by (simp_all add: chain_snoc)
    then have "verified_end seed body r' (concat cs)"
      unfolding verified_end_def using claim r1 r' True by (intro exI [of _ cs]) simp
    then show ?thesis using r1 r' True u assms(1,5) suf by (auto simp: auth_inv_def)
  next
    case False
    from b sig False have u: "undeclared r < 0 \<or> n \<le> undeclared r"
      and r1: "r1 = ?r\<lparr>undeclared := (if 0 \<le> undeclared r then undeclared r - n else undeclared r), chunkSig := sig, chunkData := []\<rparr>"
      by (auto simp: bind_frame_def fail_sticky_def Let_def split: option.splits if_splits)
    then show ?thesis using r' False assms(1,3,4,5) suf by (auto simp: auth_inv_def split: if_splits)
  qed
qed

lemma CRLF_input:
  "readTrailingCRLF r = (r', None) \<Longrightarrow> \<exists>s. input r = [CHR 0x0D, CHR 0x0A] @ s \<and> r' = r\<lparr>input := s\<rparr>"
  by (auto simp: readTrailingCRLF_def split: list.splits if_splits)

lemma read_data_inv:
  assumes "auth_inv seed N body r out" and "\<not> at_end r" and "1 < remaining r" and "int toRead < remaining r"
    and "read_data toRead avail r = (r', o', e)"
  shows "(e = None \<longrightarrow> auth_inv seed N body r' (out @ o')) \<and> e \<noteq> Some EOF \<and> (e \<noteq> None \<longrightarrow> o' = [])"
proof (cases "toRead = 0 \<or> input r = []")
  case True
  with assms show ?thesis
    by (auto simp: read_data_def end_error_def truncated_def split: if_splits)
next
  case False
  define o1 where "o1 = take (max 1 (min avail toRead)) (input r)"
  have len: "int (length o1) < remaining r" using assms(3,4) False by (auto simp: o1_def)
  obtain cs where cs: "out = concat cs @ chunkData r" "verifier r = Some (chain seed cs)"
    using assms(1,2) by (auto simp: auth_inv_def)
  have r': "r' = r\<lparr>input := drop (length o1) (input r), remaining := remaining r - int (length o1), chunkData := chunkData r @ o1\<rparr>"
    "o' = o1" "e = None"
    using assms(5) False len cs(2) by (auto simp: read_data_def Let_def o1_def [unfolded One_nat_def, symmetric] split: if_splits)
  have "suffix (drop (length o1) (input r)) body"
    using assms(1) by (auto simp: auth_inv_def intro: suffix_order.order_trans suffix_drop)
  then show ?thesis using assms(1,2) len cs r' by (auto simp: auth_inv_def split: if_splits)
qed

lemma last_byte_inv:
  assumes "auth_inv seed N body r out" and "\<not> at_end r" and "remaining r = 1" and "verifier r = Some v"
    and "readVerifiedLastByte plen v r = (r', o', e)"
  shows "(e = None \<longrightarrow> auth_inv seed N body r' (out @ o')) \<and> e \<noteq> Some EOF \<and> (e \<noteq> None \<longrightarrow> o' = [])"
proof (cases "plen = 0 \<or> input r = []")
  case True
  with assms show ?thesis
    by (auto simp: readVerifiedLastByte_def end_error_def truncated_def split: if_splits)
next
  case False
  then obtain x s where x: "input r = x # s" by (cases "input r") auto
  let ?r = "r\<lparr>input := s, chunkData := chunkData r @ [x]\<rparr>"
  obtain r1 e1 where t: "readTrailingCRLF ?r = (r1, e1)" by fastforce
  show ?thesis
  proof (cases e1)
    case (Some y)
    with assms(5) False x t have "e = Some y" "o' = []" by (auto simp: readVerifiedLastByte_def)
    moreover have "y \<noteq> EOF" using t Some by (auto simp: readTrailingCRLF_def Errorf_def split: list.splits if_splits)
    ultimately show ?thesis by simp
  next
    case None
    with CRLF_input [of ?r r1] t obtain s1 where s1: "s = [CHR 0x0D, CHR 0x0A] @ s1" "r1 = ?r\<lparr>input := s1\<rparr>" by auto
    obtain cs where cs: "out = concat cs @ chunkData r" "v = chain seed cs"
      using assms(1,2,4) by (auto simp: auth_inv_def)
    let ?d = "chunkData r @ [x]"
    obtain v' e2 where v: "VerifyChunk v (chunkSig r1) (sha256 (chunkData r1)) = (v', e2)" by fastforce
    show ?thesis
    proof (cases e2)
      case (Some y)
      with assms(5) False x t None v show ?thesis by (auto simp: readVerifiedLastByte_def Let_def Errorf_def)
    next
      case n2: None
      have d: "chunkData r1 = ?d" using s1 by simp
      have v': "v' = chain seed (cs @ [?d])"
        using VerifyChunk_cases [OF v [unfolded d]] n2 cs(2) by (simp add: chain_snoc)
      let ?r2 = "r1\<lparr>verifier := Some v', remaining := 0\<rparr>"
      obtain r3 e3 where h: "readChunkHeader ?r2 = (r3, e3)" by fastforce
      have res: "(r', o', e) = (case e3 of Some y \<Rightarrow> (r3, [], Some y) | None \<Rightarrow> (r3, [x], None))"
        using assms(5) False x t None v n2 h by (auto simp: readVerifiedLastByte_def split: option.splits)
      show ?thesis
      proof (cases e3)
        case (Some y)
        have "y \<noteq> EOF" using h Some
          by (auto simp: readChunkHeader_def bind_frame_def fail_sticky_def Errorf_def Let_def
              split: prod.splits sum.splits option.splits if_splits)
        with res Some show ?thesis by simp
      next
        case n3: None
        have "suffix s1 body"
          using assms(1) x s1(1) by (auto simp: auth_inv_def dest: suffix_appendD suffix_ConsD)
        then have "auth_inv seed N body r3 (concat (cs @ [?d])) \<and> (at_end r3 \<or> 0 < remaining r3)"
          using assms(1-3) s1 v' h n3 cs
          by (intro header_inv [of ?r2]) (auto simp: auth_inv_def split: if_splits)
        with res n3 cs show ?thesis by simp
      qed
    qed
  qed
qed

lemma Read_inv:
  assumes "auth_inv seed N body r out" and "Read plen avail r = (r', o', e)"
  shows "(e = None \<longrightarrow> auth_inv seed N body r' (out @ o'))
         \<and> (e = Some EOF \<longrightarrow> o' = [] \<and> at_end r' \<and> auth_inv seed N body r' out)
         \<and> (e \<noteq> None \<and> e \<noteq> Some EOF \<longrightarrow> o' = [] \<and> \<not> at_end r)"
proof (cases "at_end r")
  case True
  with assms show ?thesis by (auto simp: Read_def auth_inv_def)
next
  case False
  have st: "sticky r = None" using assms(1) by (simp add: auth_inv_def)
  obtain r1 e1 where h: "(if remaining r = 0 then readChunkHeader r else (r, None)) = (r1, e1)" by fastforce
  show ?thesis
  proof (cases e1)
    case (Some y)
    have "y \<noteq> EOF" using h Some
      by (auto simp: readChunkHeader_def bind_frame_def fail_sticky_def Errorf_def Let_def
          split: prod.splits sum.splits option.splits if_splits)
    with assms(2) False st h Some show ?thesis by (auto simp: Read_def)
  next
    case None
    have i1: "auth_inv seed N body r1 out \<and> (at_end r1 \<or> 0 < remaining r1)"
    proof (cases "remaining r = 0")
      case True
      then have "out = []" "chunkData r = []" "\<exists>cs. verifier r = Some (chain seed cs) \<and> concat cs = []"
        using assms(1) False by (auto simp: auth_inv_def)
      then obtain cs where "verifier r = Some (chain seed cs)" "concat cs = []" by blast
      with header_inv [of r body seed cs N r1] assms(1) False True h None \<open>out = []\<close>
      show ?thesis by (auto simp: auth_inv_def split: if_splits)
    next
      case nz: False
      with h None assms(1) False show ?thesis by (auto simp: auth_inv_def)
    qed
    show ?thesis
    proof (cases "at_end r1")
      case True
      with assms(2) False st h None i1 show ?thesis by (auto simp: Read_def)
    next
      case ne: False
      obtain v where v: "verifier r1 = Some v" using i1 ne by (auto simp: auth_inv_def)
      show ?thesis
      proof (cases "remaining r1 = 1")
        case True
        with assms(2) False st h None ne v have "readVerifiedLastByte plen v r1 = (r', o', e)" by (simp add: Read_def)
        from last_byte_inv [of seed N body r1 out, OF _ ne True v this] i1 False show ?thesis by auto
      next
        case n1: False
        define t where "t = (let t = min (int plen) (remaining r1) in if t = remaining r1 then t - 1 else t)"
        have "read_data (nat t) avail r1 = (r', o', e)"
          using assms(2) False st h None ne v n1 by (simp add: Read_def t_def Let_def)
        moreover have "int (nat t) < remaining r1" using i1 ne n1 by (auto simp: t_def Let_def)
        ultimately show ?thesis using read_data_inv [of seed N body r1 out "nat t" avail] i1 ne n1 False by auto
      qed
    qed
  qed
qed

lemma not_end_short:
  "auth_inv seed N body r out \<Longrightarrow> \<not> at_end r \<Longrightarrow> 0 < N \<Longrightarrow> int (length out) < N"
  by (cases "remaining r = 0") (auto simp: auth_inv_def)

lemma inv_bounded: "auth_inv seed N body r out \<Longrightarrow> 0 \<le> N \<Longrightarrow> int (length out) \<le> N"
  by (auto simp: auth_inv_def simp flip: concat_eq_Nil_conv split: if_splits)

lemma reads_inv:
  assumes "auth_inv seed N body r out" and "reads rs r = (r', o', e)"
  shows "(0 \<le> N \<longrightarrow> int (length (out @ o')) \<le> N)
         \<and> (e = Some EOF \<or> 0 < N \<and> int (length (out @ o')) = N \<longrightarrow> verified_end seed body r' (out @ o'))"
  using assms
proof (induction rs arbitrary: r out o')
  case Nil
  then have "int (length out) \<le> N" if "0 \<le> N" using that inv_bounded by blast
  moreover have "verified_end seed body r out" if "0 < N" "int (length out) = N"
    using that Nil.prems(1) not_end_short [OF Nil.prems(1)] by (cases "at_end r") (auto simp: auth_inv_def)
  ultimately show ?case using Nil.prems(2) by auto
next
  case (Cons x rs)
  obtain plen avail where x: "x = (plen, avail)" by fastforce
  obtain r1 o1 e1 where R: "Read plen avail r = (r1, o1, e1)" by (metis prod_cases3)
  note step = Read_inv [OF Cons.prems(1) R]
  show ?case
  proof (cases e1)
    case None
    obtain r2 o2 e2 where "reads rs r1 = (r2, o2, e2)" by (metis prod_cases3)
    with Cons.IH [of r1 "out @ o1" o2] step None Cons.prems(2) R x show ?thesis by auto
  next
    case (Some y)
    with Cons.prems(2) R x have r: "r' = r1" "o' = o1" "e = Some y" by auto
    show ?thesis
    proof (cases "y = EOF")
      case True
      with step Some r show ?thesis using inv_bounded [of seed N body r1 out] by (auto simp: auth_inv_def)
    next
      case False
      with step Some have "o1 = []" "\<not> at_end r" by auto
      with r False not_end_short [OF Cons.prems(1)] inv_bounded [OF Cons.prems(1)] show ?thesis by auto
    qed
  qed
qed

section \<open>What a well-formed body decodes to\<close>

fun show_hex :: "nat \<Rightarrow> string" where
  "show_hex n = (if n < 16 then [hex_digit n] else show_hex (n div 16) @ [hex_digit (n mod 16)])"

declare show_hex.simps [simp del]

definition crlf :: string where "crlf = [CHR 0x0D, CHR 0x0A]"

definition frame_line :: "ChunkVerifier option \<Rightarrow> string \<Rightarrow> string" where
  "frame_line sv d =
     show_hex (length d)
     @ (case sv of None \<Rightarrow> [] | Some v \<Rightarrow> '';chunk-signature='' @ chunk_signature v (sha256 d))"

text \<open>What a client sends for the chunks: signed along the chain from the seed, or only framed.\<close>

fun enc :: "ChunkVerifier option \<Rightarrow> string list \<Rightarrow> string" where
  "enc sv [] = frame_line sv [] @ crlf"
| "enc sv (d # ds) = frame_line sv d @ crlf @ d @ crlf @ enc (map_option (\<lambda>v. advance v d) sv) ds"

definition hex_char :: "char \<Rightarrow> bool" where
  "hex_char c \<longleftrightarrow> (let n = of_char c :: nat in 48 \<le> n \<and> n \<le> 57 \<or> 97 \<le> n \<and> n \<le> 102)"

lemma hex_char_digit: "d < 16 \<Longrightarrow> hex_char (hex_digit d)"
  by (auto simp: hex_digit_def hex_char_def Let_def)

lemma show_hex_chars: "c \<in> set (show_hex n) \<Longrightarrow> hex_char c"
proof (induction n rule: show_hex.induct)
  case (1 n)
  then show ?case
    by (cases "n < 16") (subst (asm) (2) show_hex.simps; auto intro: hex_char_digit)+
qed

lemma hex_char_neq:
  "hex_char c \<Longrightarrow> c \<noteq> CHR '';'' \<and> c \<noteq> CHR 0x0A \<and> c \<noteq> CHR 0x0D \<and> c \<noteq> CHR ''-'' \<and> c \<noteq> CHR ''+''"
  by (auto simp: hex_char_def Let_def)

lemma show_hex_not_Nil [simp]: "show_hex n \<noteq> []"
  by (subst show_hex.simps) simp

lemma length_show_hex: "n < 16 ^ Suc k \<Longrightarrow> length (show_hex n) \<le> Suc k"
proof (induction k arbitrary: n)
  case 0
  then show ?case by (subst show_hex.simps) simp
next
  case (Suc k)
  show ?case
  proof (cases "n < 16")
    case True
    then show ?thesis by (subst show_hex.simps) simp
  next
    case False
    have "n div 16 < 16 ^ Suc k" using Suc.prems by (simp add: less_mult_imp_div_less)
    from Suc.IH [OF this] False show ?thesis by (subst show_hex.simps) simp
  qed
qed

lemma digit_val_hex: "d < 16 \<Longrightarrow> digit_val (hex_digit d) = Some d"
  by (simp add: hex_digit_def digit_val_def Let_def)

lemma parse_digits_show_hex: "n < 2 ^ 64 \<Longrightarrow> parse_digits 16 0 (show_hex n) = NumOk n"
proof (induction n rule: show_hex.induct)
  case (1 n)
  show ?case
  proof (cases "n < 16")
    case True
    then show ?thesis by (subst show_hex.simps) (simp add: digit_val_hex)
  next
    case False
    then have "parse_digits 16 0 (show_hex (n div 16)) = NumOk (n div 16)"
      using 1 by (meson div_le_dividend le_less_trans)
    from parse_digits_append [OF this, of "[hex_digit (n mod 16)]"] False "1.prems"
    show ?thesis by (subst show_hex.simps) (simp add: digit_val_hex)
  qed
qed

lemma ParseInt_show_hex: "n < 2 ^ 63 \<Longrightarrow> ParseInt (show_hex n) 16 = (int n, True)"
proof -
  assume n: "n < 2 ^ 63"
  obtain c cs where c: "show_hex n = c # cs" by (cases "show_hex n") auto
  then have "c \<noteq> CHR ''-''" "c \<noteq> CHR ''+''" using show_hex_chars [of c n] hex_char_neq by auto
  then show ?thesis using n c parse_digits_show_hex [of n]
    by (simp add: ParseInt_def ParseUint_def signed_result_def)
qed

lemma TrimSpace_chars:
  "\<forall>c \<in> set s. 48 \<le> (of_char c :: nat) \<and> (of_char c :: nat) \<le> 122 \<Longrightarrow> s \<noteq> [] \<Longrightarrow> TrimSpace s = s"
  by (rule TrimSpace_printable) (fastforce dest: hd_in_set last_in_set)+

lemma TrimSpace_hex: "TrimSpace (show_hex n) = show_hex n"
  by (intro TrimSpace_chars) (auto dest!: show_hex_chars simp: hex_char_def Let_def)

lemma readLine_line:
  "CHR 0x0A \<notin> set m \<Longrightarrow> length line + length m \<le> 256
   \<Longrightarrow> readLine e line (m @ CHR 0x0A # s) = (s, Inr (TrimRight (CHR 0x0D) (line @ m)))"
  by (induction m arbitrary: line) auto

lemma chunk_signature_chars: "c \<in> set (chunk_signature v x) \<Longrightarrow> hex_char c"
  using nat_of_char_less_256
  by (fastforce simp: chunk_signature_def EncodeToString_def less_mult_imp_div_less intro: hex_char_digit)

lemma length_chunk_signature [simp]: "length (chunk_signature v x) = 64"
  by (simp add: chunk_signature_def hmacSHA256_def Let_def)

lemma Cut_frame_line:
  "\<exists>f. Cut (frame_line sv d) (CHR '';'') =
     (show_hex (length d), case sv of None \<Rightarrow> [] | Some v \<Rightarrow> ''chunk-signature='' @ chunk_signature v (sha256 d), f)"
proof -
  have "CHR '';'' \<notin> set (show_hex (length d))" using show_hex_chars hex_char_neq by blast
  then have "Cut (show_hex (length d)) (CHR '';'') = (show_hex (length d), [], False)"
    and "Cut (show_hex (length d) @ CHR '';'' # t) (CHR '';'') = (show_hex (length d), t, True)" for t
    by (simp_all add: Cut_append) (simp add: Cut_def IndexByte_None [THEN iffD2])
  then show ?thesis by (cases sv) (auto simp: frame_line_def)
qed

lemma frame_extension:
  "chunkSignatureExtension (''chunk-signature='' @ chunk_signature v x) = Some (chunk_signature v x)"
proof -
  let ?s = "''chunk-signature='' @ chunk_signature v x"
  have "CHR '';'' \<notin> set ?s" using chunk_signature_chars hex_char_neq by fastforce
  moreover have "chunk_signature v x \<noteq> []" using length_chunk_signature [of v x] by (metis list.size(3) zero_neq_numeral)
  then have "hex_char (last ?s)" using chunk_signature_chars [of "last (chunk_signature v x)" v x] by simp
  then have "TrimSpace ?s = ?s" by (intro TrimSpace_printable) (auto simp: hex_char_def Let_def)
  ultimately show ?thesis by (simp add: chunkSignatureExtension_def Split_no_sep TrimPrefix_def)
qed

lemma TrimRight_line: "s \<noteq> [] \<Longrightarrow> last s \<noteq> c \<Longrightarrow> TrimRight c (s @ [c]) = s"
  by (cases s rule: rev_cases) (auto simp: TrimRight_def)

lemma readLine_frame:
  assumes "length d < 2 ^ 63"
  shows "readLine e [] (frame_line sv d @ crlf @ s) = (s, Inr (frame_line sv d))"
proof -
  have c: "c \<noteq> CHR 0x0A \<and> c \<noteq> CHR 0x0D" if "c \<in> set (frame_line sv d)" for c
    using that show_hex_chars [of c "length d"] chunk_signature_chars [of c _ "sha256 d"] hex_char_neq [of c]
    by (auto simp: frame_line_def split: option.splits)
  have "length d < 16 ^ Suc 15" using assms by (rule less_trans) simp
  from length_show_hex [OF this] have len: "length (frame_line sv d) \<le> 100"
    by (auto simp: frame_line_def split: option.splits)
  have ne: "frame_line sv d \<noteq> []" by (simp add: frame_line_def)
  have "readLine e [] ((frame_line sv d @ [CHR 0x0D]) @ CHR 0x0A # s) = (s, Inr (TrimRight (CHR 0x0D) ([] @ frame_line sv d @ [CHR 0x0D])))"
    using c len by (intro readLine_line) auto
  with c ne show ?thesis by (simp add: crlf_def TrimRight_line)
qed

text \<open>
  Where a reader of such a body stands, with the bytes it still has to deliver: at the end, before a frame,
  or inside a chunk of which \<open>pre\<close> is out and \<open>post\<close> is not. \<open>w\<close> says whether it verifies.
\<close>

inductive standing :: "bool \<Rightarrow> string \<Rightarrow> awsChunkedReader \<Rightarrow> bool" for w where
  standing_end: "\<lbrakk>sticky r = None; at_end r\<rbrakk> \<Longrightarrow> standing w [] r"
| standing_frame:
    "\<lbrakk>sticky r = None; \<not> at_end r; remaining r = 0; input r = enc sv ds @ tail;
      \<forall>d \<in> set ds. d \<noteq> [] \<and> length d < 2 ^ 63; verifier r = (if w then sv else None); w \<longrightarrow> sv \<noteq> None;
      undeclared r = - 1 \<or> w \<and> undeclared r = int (length (concat ds))\<rbrakk>
     \<Longrightarrow> standing w (concat ds) r"
| standing_data:
    "\<lbrakk>sticky r = None; \<not> at_end r; post \<noteq> []; remaining r = int (length post);
      input r = post @ crlf @ enc (map_option (\<lambda>v. advance v (pre @ post)) sv) ds @ tail;
      \<forall>d \<in> set ds. d \<noteq> [] \<and> length d < 2 ^ 63; verifier r = (if w then sv else None); w \<longrightarrow> sv \<noteq> None;
      w \<longrightarrow> chunkData r = pre \<and> chunkSig r = chunk_signature (the sv) (sha256 (pre @ post));
      undeclared r = - 1 \<or> w \<and> undeclared r = int (length (concat ds))\<rbrakk>
     \<Longrightarrow> standing w (post @ concat ds) r"

lemma VerifyChunk_own: "VerifyChunk v (chunk_signature v (sha256 d)) (sha256 d) = (advance v d, None)"
  by (simp add: VerifyChunk_def advance_def Let_def)

lemma header_standing:
  assumes "sticky r = None" and "\<not> at_end r" and "input r = enc sv ds @ tail"
    and "\<forall>d \<in> set ds. d \<noteq> [] \<and> length d < 2 ^ 63" and "verifier r = (if w then sv else None)" and "w \<longrightarrow> sv \<noteq> None"
    and "undeclared r = - 1 \<or> w \<and> undeclared r = int (length (concat ds))"
  shows "\<exists>r'. readChunkHeader r = (r', None) \<and> standing w (concat ds) r' \<and> at_end r' = (ds = []) \<and> (ds \<noteq> [] \<longrightarrow> remaining r' > 0)"
proof (cases ds)
  case Nil
  obtain f where cut: "Cut (frame_line sv []) (CHR '';'') =
     (show_hex 0, case sv of None \<Rightarrow> [] | Some v \<Rightarrow> ''chunk-signature='' @ chunk_signature v (sha256 []), f)"
    using Cut_frame_line [of sv "[]"] by auto
  have line: "readLine (input_end r) [] (input r) = (tail, Inr (frame_line sv []))"
    using readLine_frame [of "[]"] assms(3) Nil by simp
  have n: "ParseInt (TrimSpace (show_hex 0)) 16 = (0, True)"
    using ParseInt_show_hex [of 0] TrimSpace_hex [of 0] by simp
  show ?thesis
  proof (cases w)
    case True
    then obtain v where v: "sv = Some v" using assms(6) by auto
    show ?thesis unfolding Nil readChunkHeader_def line
      using cut n v True assms frame_extension VerifyChunk_own [of v "[]"] Nil
      by (auto simp: bind_frame_def Let_def intro: standing_end)
  next
    case False
    show ?thesis unfolding Nil readChunkHeader_def line
      using cut n False assms by (auto simp: Let_def intro: standing_end)
  qed
next
  case (Cons d ds')
  let ?rest = "d @ crlf @ enc (map_option (\<lambda>v. advance v d) sv) ds' @ tail"
  have d: "d \<noteq> []" "length d < 2 ^ 63" and ds': "\<forall>d \<in> set ds'. d \<noteq> [] \<and> length d < 2 ^ 63"
    using assms(4) Cons by auto
  obtain f where cut: "Cut (frame_line sv d) (CHR '';'') =
     (show_hex (length d), case sv of None \<Rightarrow> [] | Some v \<Rightarrow> ''chunk-signature='' @ chunk_signature v (sha256 d), f)"
    using Cut_frame_line [of sv d] by auto
  have line: "readLine (input_end r) [] (input r) = (?rest, Inr (frame_line sv d))"
    using readLine_frame [OF d(2)] assms(3) Cons by simp
  have n: "ParseInt (TrimSpace (show_hex (length d))) 16 = (int (length d), True)"
    using ParseInt_show_hex [OF d(2)] TrimSpace_hex by simp
  have pos: "\<not> int (length d) \<le> 0" using d(1) by simp
  define u where "u = (if w \<and> 0 \<le> undeclared r then undeclared r - int (length d) else undeclared r)"
  let ?r = "r\<lparr>input := ?rest, remaining := int (length d)\<rparr>"
  show ?thesis
  proof (cases w)
    case True
    then obtain v where v: "sv = Some v" using assms(6) by auto
    let ?r1 = "?r\<lparr>undeclared := u, chunkSig := chunk_signature v (sha256 d), chunkData := []\<rparr>"
    have "readChunkHeader r = (?r1, None)"
      unfolding readChunkHeader_def line
      using cut n pos True v assms(5,7) frame_extension Cons by (auto simp: bind_frame_def Let_def u_def)
    moreover have "standing w (d @ concat ds') ?r1"
      using assms(1,2,5,7) d ds' True v Cons by (intro standing_data [where sv = sv and pre = "[]" and tail = tail]) (auto simp: u_def)
    ultimately show ?thesis using Cons d pos assms(2) by auto
  next
    case False
    have "readChunkHeader r = (?r, None)"
      unfolding readChunkHeader_def line using cut n pos False assms(5) by (auto simp: Let_def)
    moreover have "standing w (d @ concat ds') ?r"
      using assms(1,2,5,7) d ds' False by (intro standing_data [where sv = sv and pre = "[]" and tail = tail]) auto
    ultimately show ?thesis using Cons d pos assms(2,7) False by auto
  qed
qed

lemma CRLF_standing: "input r = crlf @ s \<Longrightarrow> readTrailingCRLF r = (r\<lparr>input := s\<rparr>, None)"
  by (simp add: readTrailingCRLF_def crlf_def)

lemma standing_last_byte:
  assumes "standing True rest r" and "\<not> at_end r" and "remaining r = 1" and "0 < plen" and "verifier r = Some v"
  shows "\<exists>r' x rest'. readVerifiedLastByte plen v r = (r', [x], None) \<and> rest = x # rest' \<and> standing True rest' r'"
  using assms(1)
proof cases
  case (standing_data post pre sv ds tail)
  then obtain x where x: "post = [x]" using assms(3) by (cases post) auto
  have v: "sv = Some v" using standing_data assms(5) by simp
  let ?s = "enc (Some (advance v (pre @ [x]))) ds @ tail"
  let ?r1 = "r\<lparr>input := crlf @ ?s, chunkData := pre @ [x]\<rparr>"
  let ?r2 = "r\<lparr>chunkData := pre @ [x], input := ?s, verifier := Some (advance v (pre @ [x])), remaining := 0\<rparr>"
  obtain r3 where r3: "readChunkHeader ?r2 = (r3, None)" "standing True (concat ds) r3"
    using header_standing [of ?r2 "Some (advance v (pre @ [x]))" ds tail True] standing_data by auto
  have "readVerifiedLastByte plen v r = (r3, [x], None)"
    using standing_data x v r3(1) assms(4) VerifyChunk_own [of v "pre @ [x]"] CRLF_standing [of ?r1 ?s]
    by (simp add: readVerifiedLastByte_def)
  then show ?thesis using r3 standing_data x by simp
qed (use assms in auto)

lemma standing_read_data:
  assumes "standing w rest r" and "0 < remaining r" and "\<not> at_end r" and "0 < toRead"
    and "if w then int toRead < remaining r else int toRead \<le> remaining r"
  shows "\<exists>r' o' rest'. read_data toRead avail r = (r', o', None) \<and> o' \<noteq> [] \<and> rest = o' @ rest' \<and> standing w rest' r'"
  using assms(1)
proof cases
  case (standing_data post pre sv ds tail)
  define n where "n = max 1 (min avail toRead)"
  have rem: "remaining r = int (length post)" using standing_data by simp
  have n: "0 < n" "n \<le> toRead" "n \<le> length post" "w \<Longrightarrow> n < length post"
    using assms(4,5) unfolding rem by (auto simp: n_def split: if_splits)
  define o1 post' where "o1 = take n post" and "post' = drop n post"
  have post: "post = o1 @ post'" "length o1 = n" using n by (simp_all add: o1_def post'_def)
  let ?s = "crlf @ enc (map_option (\<lambda>v. advance v (pre @ post)) sv) ds @ tail"
  let ?r = "r\<lparr>input := post' @ ?s, remaining := remaining r - int n, chunkData := if w then pre @ o1 else chunkData r\<rparr>"
  have rd: "read_data toRead avail r =
     (if remaining r - int n = 0 then (case readTrailingCRLF ?r of (r, e) \<Rightarrow> (r, o1, e)) else (?r, o1, None))"
    using standing_data assms(4) n post unfolding read_data_def n_def [symmetric] by (auto simp: Let_def)
  show ?thesis
  proof (cases "post' = []")
    case True
    then have nw: "\<not> w" and z: "remaining r - int n = 0" using n post standing_data by auto
    let ?r1 = "?r\<lparr>input := enc (map_option (\<lambda>v. advance v (pre @ post)) sv) ds @ tail\<rparr>"
    have "readTrailingCRLF ?r = (?r1, None)" using CRLF_standing [of ?r] True by simp
    moreover have "standing w (concat ds) ?r1"
      using standing_data nw z by (intro standing.standing_frame [where tail = tail]) auto
    ultimately show ?thesis using rd z n post standing_data True by auto
  next
    case False
    have "standing w (post' @ concat ds) ?r"
      using standing_data post False
      by (intro standing.standing_data [where pre = "pre @ o1" and sv = sv and tail = tail]) (auto split: if_splits)
    moreover have "remaining r - int n \<noteq> 0" using standing_data post False by auto
    ultimately show ?thesis using rd n post standing_data by auto
  qed
qed (use assms in auto)

lemma standing_Read:
  assumes "standing w rest r" and "0 < plen"
  shows "if rest = [] then \<exists>r'. Read plen avail r = (r', [], Some EOF)
         else \<exists>r' o' rest'. Read plen avail r = (r', o', None) \<and> o' \<noteq> [] \<and> rest = o' @ rest' \<and> standing w rest' r'"
proof -
  have in_chunk: "\<exists>r' o' rest'. Read plen avail r0 = (r', o', None) \<and> o' \<noteq> [] \<and> rest = o' @ rest' \<and> standing w rest' r'"
    if r1: "standing w rest r1" "\<not> at_end r1" "0 < remaining r1" "(verifier r1 = None) = (\<not> w)"
      and r0: "sticky r0 = None" "\<not> at_end r0" "(if remaining r0 = 0 then readChunkHeader r0 else (r0, None)) = (r1, None)"
    for r0 r1
  proof (cases "verifier r1")
    case None
    with r1 r0 assms(2) standing_read_data [of w rest r1 "nat (min (int plen) (remaining r1))" avail]
    show ?thesis by (auto simp: Read_def)
  next
    case (Some v)
    show ?thesis
    proof (cases "remaining r1 = 1")
      case True
      with r1 r0 Some standing_last_byte [of rest r1 plen v] assms(2) show ?thesis by (fastforce simp: Read_def)
    next
      case False
      define t where "t = (let t = min (int plen) (remaining r1) in if t = remaining r1 then t - 1 else t)"
      have "0 < nat t" "int (nat t) < remaining r1" using r1(3) False assms(2) by (auto simp: t_def Let_def)
      moreover have "Read plen avail r0 = read_data (nat t) avail r1"
        using r0 r1(2) Some False by (simp add: Read_def t_def Let_def)
      ultimately show ?thesis using standing_read_data [of w rest r1 "nat t" avail] r1 Some by auto
    qed
  qed
  from assms(1) show ?thesis
  proof cases
    case standing_end
    then show ?thesis by (simp add: Read_def)
  next
    case (standing_frame sv ds tail)
    from header_standing [of r sv ds tail w] standing_frame
    obtain r1 where r1: "readChunkHeader r = (r1, None)" "standing w rest r1" "at_end r1 = (ds = [])" "ds \<noteq> [] \<longrightarrow> 0 < remaining r1"
      by auto
    show ?thesis
    proof (cases "ds = []")
      case True
      with r1 standing_frame show ?thesis by (simp add: Read_def)
    next
      case False
      then have "rest \<noteq> []" using standing_frame by (cases ds) auto
      moreover have "(verifier r1 = None) = (\<not> w)" using r1(2-3) False by cases auto
      ultimately show ?thesis using in_chunk [of r1 r] r1 False standing_frame by simp
    qed
  next
    case (standing_data post pre sv ds tail)
    then show ?thesis using in_chunk [of r r] assms(1) by auto
  qed
qed

lemma standing_reads:
  "standing w rest r \<Longrightarrow> \<forall>(plen, avail) \<in> set rs. 0 < plen \<Longrightarrow> length rest < length rs
   \<Longrightarrow> \<exists>r'. reads rs r = (r', rest, Some EOF)"
proof (induction rs arbitrary: rest r)
  case (Cons x rs)
  obtain plen avail where x: "x = (plen, avail)" by fastforce
  show ?case
  proof (cases "rest = []")
    case True
    with standing_Read [OF Cons.prems(1), of plen avail] Cons.prems(2) x show ?thesis by auto
  next
    case False
    with standing_Read [OF Cons.prems(1), of plen avail] Cons.prems(2) x
    obtain r1 o1 rest1 where 1: "Read plen avail r = (r1, o1, None)" "o1 \<noteq> []" "rest = o1 @ rest1" "standing w rest1 r1"
      by auto
    have "length rest1 < length rs" using 1(2,3) Cons.prems(3) by (cases o1) auto
    from Cons.IH [OF 1(4) _ this] Cons.prems(2) obtain r' where "reads rs r1 = (r', rest1, Some EOF)" by auto
    with 1 x show ?thesis by auto
  qed
qed simp

section \<open>Properties\<close>

lemma standing_start:
  assumes "\<forall>d \<in> set ds. d \<noteq> [] \<and> length d < 2 ^ 63"
    and "vo = None \<or> vo = sv" and "N = - 1 \<or> N = int (length (concat ds))"
  shows "standing (vo \<noteq> None) (concat ds) (newVerifyingAWSChunkedReader (enc sv ds @ tail, e0) vo N)"
  using assms
  by (intro standing_frame [where sv = sv and tail = tail])
    (auto simp: newVerifyingAWSChunkedReader_def newAWSChunkedReader_def Let_def)

text \<open>
  C21: A verifying reader that reports the end of the body, or has delivered all of a declared decoded length,
  has delivered exactly the concatenation of chunks whose signatures chain, each over its data and the
  signature before it, from the seed to a terminal empty chunk, and the signature that ends the chain is one
  the body carries. It never delivers more than the declared length. For every body, every way the input
  arrives and every sequence of buffers.
\<close>

theorem verified_body:
  assumes "reads rs (newVerifyingAWSChunkedReader (body, e0) (Some seed) N) = (r', out, e)"
  shows "(e = Some EOF \<or> 0 < N \<and> int (length out) = N \<longrightarrow> verified_end seed body r' out)
         \<and> (0 \<le> N \<longrightarrow> int (length out) \<le> N)"
proof -
  have "auth_inv seed N body (newVerifyingAWSChunkedReader (body, e0) (Some seed) N) []"
    by (auto simp: auth_inv_def newVerifyingAWSChunkedReader_def newAWSChunkedReader_def intro: exI [of _ "[]"])
  from reads_inv [OF this assms] show ?thesis by auto
qed

definition example_seed :: ChunkVerifier where
  "example_seed = \<lparr>cv_signingKey = ''key'', cv_prefix = ''AWS4-HMAC-SHA256-PAYLOAD'', cv_previous = ''00''\<rparr>"

theorem verified_body_witness:
  "\<exists>r'. reads (replicate 4 (2, 1)) (newVerifyingAWSChunkedReader (enc (Some example_seed) [''ab'', ''c''], None) (Some example_seed) 3)
          = (r', ''abc'', Some EOF)
        \<and> verified_end example_seed (enc (Some example_seed) [''ab'', ''c'']) r' ''abc''"
proof -
  let ?s = "Some example_seed"
  have "standing True (concat [''ab'', ''c'']) (newVerifyingAWSChunkedReader (enc ?s [''ab'', ''c''], None) ?s 3)"
    using standing_start [of "[''ab'', ''c'']" ?s ?s 3 "[]" None] by simp
  from standing_reads [OF this, of "replicate 4 (2, 1)"]
  obtain r' where r: "reads (replicate 4 (2, 1)) (newVerifyingAWSChunkedReader (enc ?s [''ab'', ''c''], None) ?s 3) = (r', ''abc'', Some EOF)"
    by auto
  from verified_body [OF r] r show ?thesis by blast
qed

text \<open>
  C22: Draining a well-formed body gives back the client's bytes and then the end of the body, with any
  sequence of non-empty buffers longer than the content: a signed body under the verifier of its seed, and a
  signed or merely framed body under a reader that does not verify. The declared length is the true one or absent.
\<close>

theorem chunked_round_trip:
  assumes "\<forall>d \<in> set ds. d \<noteq> [] \<and> length d < 2 ^ 63"
    and "vo = None \<or> vo = sv" and "N = - 1 \<or> N = int (length (concat ds))"
    and "\<forall>(plen, avail) \<in> set rs. 0 < plen" and "length (concat ds) < length rs"
  shows "\<exists>r'. reads rs (newVerifyingAWSChunkedReader (enc sv ds @ tail, e0) vo N) = (r', concat ds, Some EOF)"
  using standing_reads [OF standing_start [OF assms(1-3)] assms(4,5)] .

theorem chunked_round_trip_witness:
  "\<exists>r'. reads (replicate 4 (2, 1)) (newVerifyingAWSChunkedReader (enc (Some example_seed) [''ab'', ''c''] @ ''tail'', None) None (- 1))
          = (r', ''abc'', Some EOF)"
  using chunked_round_trip [of "[''ab'', ''c'']" None "Some example_seed" "- 1" "replicate 4 (2, 1)" "''tail''" None] by simp

end
