(* ===== verification/Go_Net.thy ===== *)
theory Go_Net
  imports Go_Url Go_Dates
begin

text \<open>
  The part of \<^verbatim>\<open>net/http\<close>, \<^verbatim>\<open>net/url\<close> and \<^verbatim>\<open>net\<close> the forwarders rely on: responses, the writer of a response,
  copying a body to it, re-reading a URL from its string, and telling addresses from names.
\<close>

named_theorems net_simps \<open>responses and URLs\<close>

section \<open>Responses\<close>

text \<open>A body is its bytes and the error that ends them, if any.\<close>

type_synonym body = "string \<times> err option"

record Response =
  resp_Status :: int
  resp_Header :: header
  resp_Body :: body
  resp_ContentLength :: int

text \<open>
  The writer of a response: the headers set so far, what was committed, the bytes delivered, and how many
  more the connection will take (\<open>None\<close>: any number).
\<close>

record ResponseWriter =
  rw_header :: header
  rw_sent :: "(int \<times> header) option"
  rw_body :: string
  rw_room :: "nat option"

definition WriteHeader :: "int \<Rightarrow> ResponseWriter \<Rightarrow> ResponseWriter" where
  "WriteHeader code w = (if rw_sent w = None then w\<lparr>rw_sent := Some (code, rw_header w)\<rparr> else w)"

definition rw_Write :: "string \<Rightarrow> ResponseWriter \<Rightarrow> ResponseWriter \<times> nat \<times> err option" where
  "rw_Write b w =
     (let w = WriteHeader 200 w;
          taken = (case rw_room w of None \<Rightarrow> b | Some n \<Rightarrow> take n b)
      in (w\<lparr>rw_body := rw_body w @ taken, rw_room := map_option (\<lambda>n. n - length taken) (rw_room w)\<rparr>,
          length taken,
          if length taken < length b then Some (EText ''write: broken pipe'') else None))"

text \<open>\<^verbatim>\<open>io.Copy\<close>: the bytes written, and the error of the writer or else of the reader.\<close>

definition io_Copy :: "body \<Rightarrow> ResponseWriter \<Rightarrow> ResponseWriter \<times> nat \<times> err option" where
  "io_Copy r w =
     (if fst r = [] then (w, 0, snd r)
      else case rw_Write (fst r) w of
             (w, n, Some e) \<Rightarrow> (w, n, Some e)
           | (w, n, None) \<Rightarrow> (w, n, snd r))"

lemma WriteHeader_sent [net_simps]: "rw_sent w = Some x \<Longrightarrow> WriteHeader c w = w"
  by (simp add: WriteHeader_def)

lemma io_Copy_committed [net_simps]: "rw_sent w \<noteq> None \<Longrightarrow> rw_sent (fst (io_Copy r w)) = rw_sent w"
  by (auto simp: io_Copy_def rw_Write_def WriteHeader_def Let_def)

lemma io_Copy_bytes:
  "io_Copy r w = (w', n, e) \<Longrightarrow> \<exists>k. rw_body w' = rw_body w @ take k (fst r) \<and> n = min k (length (fst r)) \<and> (e = None \<longrightarrow> k = length (fst r))"
  by (rule exI [of _ n])
    (auto simp: io_Copy_def rw_Write_def WriteHeader_def Let_def split: option.splits if_splits)

section \<open>Hosts\<close>

definition LastIndex :: "string \<Rightarrow> char \<Rightarrow> int" where
  "LastIndex s c = (case LastIndexByte s c of None \<Rightarrow> - 1 | Some i \<Rightarrow> int i)"

definition validOptionalPort :: "string \<Rightarrow> bool" where
  "validOptionalPort port = (case port of [] \<Rightarrow> True | c # ds \<Rightarrow> c = CHR '':'' \<and> list_all isDigit ds)"

definition removeEmptyPort :: "string \<Rightarrow> string" where
  "removeEmptyPort host =
     (if LastIndex host (CHR '']'') < LastIndex host (CHR '':'') \<and> HasSuffix host '':'' then butlast host else host)"

text \<open>\<^verbatim>\<open>url.Hostname\<close>: the host without its port and brackets.\<close>

definition Hostname :: "string \<Rightarrow> string" where
  "Hostname hostPort =
     (let colon = LastIndex hostPort (CHR '':'');
          host = (if colon \<noteq> - 1 \<and> validOptionalPort (drop (nat colon) hostPort) then take (nat colon) hostPort else hostPort)
      in if HasPrefix host ''['' \<and> HasSuffix host '']'' then butlast (tl host) else host)"

definition host_plain :: "char \<Rightarrow> bool" where
  "host_plain c \<longleftrightarrow> unreserved c \<or> c \<in> set ''!$&()*+,;=:[]<>'' \<or> c = CHR 0x27 \<or> c = CHR 0x22"

text \<open>Whether a host survives being written into a URL and parsed again.\<close>

definition host_reparses :: "string \<Rightarrow> bool" where
  "host_reparses host \<longleftrightarrow>
     list_all (\<lambda>c. host_plain c \<or> c = CHR ''%'' \<or> 128 \<le> (of_char c :: nat)) host
     \<and> (if HasPrefix host ''[''
        then (case LastIndexByte host (CHR '']'') of None \<Rightarrow> False | Some i \<Rightarrow> validOptionalPort (drop (Suc i) host))
        else (case LastIndexByte host (CHR '':'') of None \<Rightarrow> True | Some i \<Rightarrow> validOptionalPort (drop i host)))"

section \<open>Paths\<close>

definition path_plain :: "char \<Rightarrow> bool" where
  "path_plain c \<longleftrightarrow> unreserved c \<or> c \<in> set ''$&+,/:;=@''"

definition escape_path :: "string \<Rightarrow> string" where
  "escape_path s = concat (map (\<lambda>c. if path_plain c then [c] else pct c) s)"

definition validEncoded :: "string \<Rightarrow> bool" where
  "validEncoded s = list_all (\<lambda>c. path_plain c \<or> c \<in> set ''!()*[]%'' \<or> c = CHR 0x27) s"

definition EscapedPath :: "url \<Rightarrow> string" where
  "EscapedPath u =
     (if url_RawPath u \<noteq> [] \<and> validEncoded (url_RawPath u) \<and> unescape False (url_RawPath u) = Some (url_Path u)
      then url_RawPath u
      else if url_Path u = ''*'' then ''*'' else escape_path (url_Path u))"

text \<open>
  \<^verbatim>\<open>url.Parse\<close>, and \<^verbatim>\<open>http.NewRequest\<close>, on the string of a URL with a scheme and a host. The path and query
  come back as they were, up to a leading slash and the raw path; a raw \<^verbatim>\<open>#\<close> ends the query.
\<close>

definition url_reparse :: "url \<Rightarrow> url result" where
  "url_reparse u =
     (let (q, frag, _) = Cut (url_RawQuery u) (CHR ''#'');
          ep = EscapedPath u;
          ep = (if ep \<noteq> [] \<and> hd ep \<noteq> CHR ''/'' then CHR ''/'' # ep else ep)
      in if list_ex (\<lambda>c. (of_char c :: nat) < 32 \<or> c = CHR 0x7F) q then Inl (EText ''net/url: invalid control character in URL'')
         else if \<not> host_reparses (url_Host u) then Inl (EText ''invalid character in host name'')
         else if unescape False frag = None then Inl (EText ''invalid URL escape'')
         else case unescape False ep of
                None \<Rightarrow> Inl (EText ''invalid URL escape'')
              | Some p \<Rightarrow>
                  Inr (u\<lparr>url_Path := p, url_RawPath := (if ep = escape_path p then [] else ep), url_RawQuery := q,
                         url_ForceQuery := (q = [] \<and> (url_ForceQuery u \<or> url_RawQuery u \<noteq> []))\<rparr>))"

definition NewRequest_URL :: "url \<Rightarrow> url result" where
  "NewRequest_URL u =
     (case url_reparse u of Inl e \<Rightarrow> Inl e | Inr u \<Rightarrow> Inr (u\<lparr>url_Host := removeEmptyPort (url_Host u)\<rparr>))"

lemma unescape_escape_path [simp]: "unescape False (escape_path s) = Some s"
proof (induction s)
  case (Cons c s)
  have "path_plain c \<Longrightarrow> c \<noteq> CHR ''%''" by (auto simp: path_plain_def unreserved_def)
  with Cons show ?case using unescape_pct [of False c "escape_path s"] by (auto simp: escape_path_def)
qed (simp add: escape_path_def)

lemma unescape_EscapedPath [simp]: "unescape False (EscapedPath u) = Some (url_Path u)"
  by (simp add: EscapedPath_def)

lemma unescape_slash [simp]: "unescape False (CHR ''/'' # s) = map_option ((#) (CHR ''/'')) (unescape False s)"
  by simp

lemma escape_path_Nil [simp]: "escape_path s = [] \<longleftrightarrow> s = []"
  by (cases s) (auto simp: escape_path_def pct_def)

lemma unescape_Nil [simp]: "unescape p s = Some [] \<longleftrightarrow> s = []"
  by (cases s) (auto split: list.splits option.splits if_splits)

lemma EscapedPath_Nil: "EscapedPath u = [] \<longleftrightarrow> url_Path u = []"
  using unescape_EscapedPath [of u] by (auto simp: EscapedPath_def split: if_splits)

text \<open>A request rebuilt this way asks for the same path.\<close>

lemma NewRequest_URL_path:
  assumes "NewRequest_URL u = Inr u'"
  shows "url_Path u' = (if url_Path u \<noteq> [] \<and> hd (EscapedPath u) \<noteq> CHR ''/'' then CHR ''/'' # url_Path u else url_Path u)"
    and "url_RawQuery u' = fst (Cut (url_RawQuery u) (CHR ''#''))" and "url_Host u' = removeEmptyPort (url_Host u)"
  using assms by (auto simp: NewRequest_URL_def url_reparse_def Let_def EscapedPath_Nil split: prod.splits if_splits option.splits sum.splits)

section \<open>Query strings that do not parse\<close>

definition ParseQuery_fails :: "string \<Rightarrow> bool" where
  "ParseQuery_fails s =
     list_ex (\<lambda>part. part \<noteq> [] \<and>
       (CHR '';'' \<in> set part
        \<or> (let (k, v, _) = Cut part (CHR ''='') in QueryUnescape k = None \<or> QueryUnescape v = None)))
       (Split (CHR ''&'') s)"

section \<open>Addresses\<close>

definition decimal_byte :: "string \<Rightarrow> bool" where
  "decimal_byte s \<longleftrightarrow>
     s \<noteq> [] \<and> list_all isDigit s \<and> (length s = 1 \<or> hd s \<noteq> CHR ''0'') \<and> length s \<le> 3 \<and> digits_val s \<le> 255"

definition parseIPv4 :: "string \<Rightarrow> bool" where
  "parseIPv4 s \<longleftrightarrow> length (Split (CHR ''.'') s) = 4 \<and> list_all decimal_byte (Split (CHR ''.'') s)"

text \<open>
  The fields of an IPv6 address: \<open>room\<close> counts the 16-bit fields still free and \<open>ell\<close> whether the ellipsis
  was seen. A field followed by a dot starts a trailing IPv4 address.
\<close>

fun v6_fields :: "nat \<Rightarrow> bool \<Rightarrow> string \<Rightarrow> bool" where
  "v6_fields 0 ell s = (s = [] \<and> \<not> ell)"
| "v6_fields (Suc room) ell s =
     (let field = takeWhile (\<lambda>c. unhex c \<noteq> None) s; rest = drop (length field) s in
      if field = [] \<or> 4 < length field then False
      else case rest of
             [] \<Rightarrow> (if ell then 0 < room else room = 0)
           | c # t \<Rightarrow>
               if c = CHR ''.'' then
                 (if ell then 1 < room else room = 1) \<and> parseIPv4 s
               else if c \<noteq> CHR '':'' \<or> t = [] then False
               else if hd t = CHR '':'' then
                 \<not> ell \<and> (if tl t = [] then 0 < room else v6_fields room True (tl t))
               else v6_fields room ell t)"

definition parseIPv6 :: "string \<Rightarrow> bool" where
  "parseIPv6 s \<longleftrightarrow>
     (if HasPrefix s ''::'' then drop 2 s = [] \<or> v6_fields 8 True (drop 2 s) else v6_fields 8 False s)"

definition ParseIP :: "string \<Rightarrow> bool" where
  "ParseIP s =
     (case find (\<lambda>c. c = CHR ''.'' \<or> c = CHR '':'' \<or> c = CHR ''%'') s of
        None \<Rightarrow> False
      | Some c \<Rightarrow> if c = CHR ''.'' then parseIPv4 s else if c = CHR '':'' then parseIPv6 s else False)"

end
