(* ===== verification/Key_Unwrapper.thy ===== *)
theory Key_Unwrapper
  imports Go_Crypto
begin

text \<open>
  Derived signing keys sent by the origin (\<^verbatim>\<open>src/auth/key_unwrapper.go\<close>): base64, an authenticated cipher
  keyed by the digest of the proxy's secret, and a JSON list. The cipher of a key and the JSON reader are
  arguments.
\<close>

section \<open>Base64 and hex\<close>

definition b64_val :: "char \<Rightarrow> nat option" where
  "b64_val c =
     (let n = of_char c :: nat in
      if 65 \<le> n \<and> n \<le> 90 then Some (n - 65)
      else if 97 \<le> n \<and> n \<le> 122 then Some (n - 71)
      else if 48 \<le> n \<and> n \<le> 57 then Some (n + 4)
      else if c = CHR ''+'' then Some 62
      else if c = CHR 0x2F then Some 63
      else None)"

text \<open>The bytes of one quantum of four; a shorter last one is padded.\<close>

definition quantum :: "nat option list \<Rightarrow> string option" where
  "quantum vs =
     (if None \<in> set vs then None
      else let v = foldl (\<lambda>a x. a * 64 + the x) 0 (vs @ replicate (4 - length vs) (Some 0))
           in Some (take (length vs - 1) [char_of (v div 65536), char_of (v div 256), char_of v]))"

fun b64_quanta :: "string \<Rightarrow> string option" where
  "b64_quanta [] = Some []"
| "b64_quanta (a # b # c # d # rest) =
     (if d = CHR ''='' \<and> rest = [] then
        (if c = CHR ''='' then quantum [b64_val a, b64_val b] else quantum [b64_val a, b64_val b, b64_val c])
      else case (quantum [b64_val a, b64_val b, b64_val c, b64_val d], b64_quanta rest) of
             (Some x, Some y) \<Rightarrow> Some (x @ y)
           | _ \<Rightarrow> None)"
| "b64_quanta _ = None"

definition base64_DecodeString :: "string \<Rightarrow> string option" where
  "base64_DecodeString s = b64_quanta (filter (\<lambda>c. c \<noteq> CHR 0x0D \<and> c \<noteq> CHR 0x0A) s)"

definition hex_val :: "char \<Rightarrow> nat option" where
  "hex_val c =
     (let n = of_char c :: nat in
      if 48 \<le> n \<and> n \<le> 57 then Some (n - 48)
      else if 97 \<le> n \<and> n \<le> 102 then Some (n - 87)
      else if 65 \<le> n \<and> n \<le> 70 then Some (n - 55) else None)"

fun hex_DecodeString :: "string \<Rightarrow> string option" where
  "hex_DecodeString [] = Some []"
| "hex_DecodeString [c] = None"
| "hex_DecodeString (a # b # s) =
     (case (hex_val a, hex_val b, hex_DecodeString s) of
        (Some h, Some l, Some t) \<Rightarrow> Some (char_of (16 * h + l) # t)
      | _ \<Rightarrow> None)"

lemma hex_val_digit: "d < 16 \<Longrightarrow> hex_val (hex_digit d) = Some d"
  by (simp add: hex_digit_def hex_val_def)

lemma hex_round_trip [simp]: "hex_DecodeString (EncodeToString s) = Some s"
proof (induction s)
  case (Cons c s)
  have "of_char c div 16 < (16::nat)" using nat_of_char_less_256 [of c] by (simp add: less_mult_imp_div_less)
  with Cons show ?case by (simp add: EncodeToString_def hex_val_digit)
qed simp

section \<open>Unwrapping\<close>

record SigningKeyEntry =
  ske_Date :: string
  ske_Region :: string
  ske_SigningKey :: string

text \<open>A cipher opens a nonce and ciphertext under additional data; its tag is 16 bytes.\<close>

type_synonym aead = "string \<Rightarrow> string \<Rightarrow> string \<Rightarrow> string result"

record KeyUnwrapper =
  ku_Open :: aead
  ku_json :: "string \<Rightarrow> SigningKeyEntry list result"

definition NewKeyUnwrapper :: "(string \<Rightarrow> aead) \<Rightarrow> (string \<Rightarrow> SigningKeyEntry list result) \<Rightarrow> string \<Rightarrow> KeyUnwrapper" where
  "NewKeyUnwrapper aes_gcm json proxySecretKey = \<lparr>ku_Open = aes_gcm (sha256 proxySecretKey), ku_json = json\<rparr>"

definition Unwrap :: "KeyUnwrapper \<Rightarrow> string \<Rightarrow> string \<Rightarrow> SigningKeyEntry list result" where
  "Unwrap u headerValue accessKey =
     (case base64_DecodeString headerValue of
        None \<Rightarrow> Inl (EText ''failed to base64 decode signing keys header'')
      | Some raw \<Rightarrow>
          if length raw < 12 + 1 + 16 then
            Inl (EText (''signing keys header too short: '' @ show_nat (length raw) @ '' bytes''))
          else case ku_Open u (take 12 raw) (drop 12 raw) accessKey of
                 Inl e \<Rightarrow> Inl (Errorf ''failed to decrypt signing keys: '' e)
               | Inr plaintext \<Rightarrow>
                   (case ku_json u plaintext of
                      Inl e \<Rightarrow> Inl (Errorf ''failed to parse signing keys JSON: '' e)
                    | Inr entries \<Rightarrow> Inr entries))"

end
