(* ===== verification/Forwarder.thy ===== *)
theory Forwarder
  imports Go_Net Aws_Chunked Key_Unwrapper
begin

text \<open>
  Forwarding to the origin: \<^verbatim>\<open>src/proxy/forwarder.go\<close>, \<^verbatim>\<open>forwarder_signing.go\<close>, \<^verbatim>\<open>forwarder_transparent.go\<close> and
  \<^verbatim>\<open>vhost.go\<close>. The origin behind the HTTP client, and all that happens while it answers, is a function on the
  state of the world; the clock is read from that state. An endpoint is given as \<^verbatim>\<open>url.Parse\<close> reads it.
\<close>

named_theorems forwarding \<open>what a forwarder sends and delivers\<close>

section \<open>Requests\<close>

definition ParseBucketKey :: "Request \<Rightarrow> string \<times> string" where
  "ParseBucketKey r = (case Cut (TrimPrefix (URL_Path r) ''/'') (CHR ''/'') of (bucket, key, _) \<Rightarrow> (bucket, key))"

definition hasNoAuthCredentials :: "Request \<Rightarrow> bool" where
  "hasNoAuthCredentials r \<longleftrightarrow>
     header_get (Header r) ''Authorization'' = [] \<and> values_get (URL_Query r) ''X-Amz-Credential'' = []"

text \<open>A request body on its way out: nothing, bytes, the decoder of an aws-chunked body, or either through a tee.\<close>

datatype out_body = NoBody | Plain body | Decoded awsChunkedReader | Teed out_body

text \<open>
  The HTTP client and the clock. Sending a request changes the world and gives the bytes it read of the
  request's body and the response or an error.
\<close>

record 'w Upstream =
  up_Do :: "Request \<Rightarrow> out_body \<Rightarrow> 'w \<Rightarrow> 'w \<times> string \<times> Response result"
  up_now :: "'w \<Rightarrow> int"

section \<open>Authentication errors (forwarder.go)\<close>

datatype AuthResult = AuthValidated | AuthNotValidated

definition mapAuthError :: "err \<Rightarrow> err" where
  "mapAuthError e =
     EAuth
       (if err_is e ErrSignatureMismatch \<or> err_is e ErrChunkSignatureMismatch then ErrCodeSignatureMismatch
        else if err_is e ErrUnknownAccessKey then ErrCodeInvalidAccessKey
        else if err_is e ErrExpiredRequest then ErrCodeExpiredRequest
        else if err_is e ErrMissingAuth \<or> err_is e ErrInvalidAuthFormat \<or> err_is e ErrUnsupportedAuthScheme
                \<or> err_is e ErrMissingContentHash \<or> err_is e ErrInvalidExpires then ErrCodeMalformedAuth
        else ErrCodeInternal) e"

fun IsAuthError :: "err \<Rightarrow> (auth_code \<times> err) option" where
  "IsAuthError (EAuth c e) = Some (c, e)"
| "IsAuthError (EWrap m es) =
     fold (\<lambda>e r. case r of Some x \<Rightarrow> Some x | None \<Rightarrow> IsAuthError e) es None"
| "IsAuthError _ = None"

section \<open>Executing requests (forwarder.go)\<close>

definition copyHeaders :: "header \<Rightarrow> header \<Rightarrow> header" where
  "copyHeaders dst src =
     foldl (\<lambda>d (k, v). if 11 \<le> length k \<and> EqualFold (take 11 k) ''x-amz-meta-'' then header_put_raw d (ToLower k) v
                       else header_put_raw d k v) dst src"

record ResponseCapture =
  cap_StatusCode :: int
  cap_Headers :: header
  cap_Body :: string
  cap_Complete :: bool

text \<open>What runs on a response before its headers are sent, over the forwarder's own state.\<close>

type_synonym 'a interceptor = "Response \<Rightarrow> 'a \<Rightarrow> 'a \<times> Response"

definition respond :: "Response \<Rightarrow> ResponseWriter \<Rightarrow> ResponseWriter" where
  "respond resp rw = WriteHeader (resp_Status resp) (rw\<lparr>rw_header := copyHeaders (rw_header rw) (resp_Header resp)\<rparr>)"

text \<open>The status and headers, what was read of the request's body, and the transport or copy error.\<close>

definition executeAndStreamWithMeta ::
  "'w Upstream \<Rightarrow> 'a interceptor \<Rightarrow> ResponseWriter \<Rightarrow> Request \<Rightarrow> out_body \<Rightarrow> bool \<Rightarrow> 'a \<times> 'w
   \<Rightarrow> ('a \<times> 'w) \<times> ResponseWriter \<times> string \<times> int \<times> header \<times> err option" where
  "executeAndStreamWithMeta up icpt rw fwdReq body captureMeta st =
     (case up_Do up fwdReq body (snd st) of
        (w, sent, Inl e) \<Rightarrow> ((fst st, w), rw, sent, 0, [], Some e)
      | (w, sent, Inr resp) \<Rightarrow>
          let (a, resp) = icpt resp (fst st);
              (rw, n, copyErr) = io_Copy (resp_Body resp) (respond resp rw)
          in ((a, w), rw, sent, resp_Status resp, if captureMeta then resp_Header resp else [], copyErr))"

definition executeAndStream ::
  "'w Upstream \<Rightarrow> 'a interceptor \<Rightarrow> ResponseWriter \<Rightarrow> Request \<Rightarrow> out_body \<Rightarrow> 'a \<times> 'w
   \<Rightarrow> ('a \<times> 'w) \<times> ResponseWriter \<times> err option" where
  "executeAndStream up icpt rw fwdReq body st =
     (case executeAndStreamWithMeta up icpt rw fwdReq body False st of (st, rw, _, _, _, e) \<Rightarrow> (st, rw, e))"

definition executeAndCapture ::
  "'w Upstream \<Rightarrow> 'a interceptor \<Rightarrow> ResponseWriter \<Rightarrow> Request \<Rightarrow> out_body \<Rightarrow> 'a \<times> 'w
   \<Rightarrow> ('a \<times> 'w) \<times> ResponseWriter \<times> ResponseCapture result" where
  "executeAndCapture up icpt rw fwdReq body st =
     (case up_Do up fwdReq body (snd st) of
        (w, _, Inl e) \<Rightarrow> ((fst st, w), rw, Inl e)
      | (w, _, Inr resp) \<Rightarrow>
          let (a, resp) = icpt resp (fst st);
              (rw, n, readErr) = io_Copy (resp_Body resp) (respond resp rw)
          in ((a, w), rw,
              Inr \<lparr>cap_StatusCode = resp_Status resp, cap_Headers = resp_Header resp,
                   cap_Body = take n (fst (resp_Body resp)), cap_Complete = (readErr = None)\<rparr>))"

definition executeRequest ::
  "'w Upstream \<Rightarrow> 'a interceptor \<Rightarrow> Request \<Rightarrow> out_body \<Rightarrow> 'a \<times> 'w \<Rightarrow> ('a \<times> 'w) \<times> Response result" where
  "executeRequest up icpt fwdReq body st =
     (case up_Do up fwdReq body (snd st) of
        (w, _, Inl e) \<Rightarrow> ((fst st, w), Inl e)
      | (w, _, Inr resp) \<Rightarrow> (case icpt resp (fst st) of (a, resp) \<Rightarrow> ((a, w), Inr resp)))"

text \<open>Requests of the proxy's own, signed with the given credentials and not intercepted.\<close>

definition own_request ::
  "'w Upstream \<Rightarrow> RequestSigner \<Rightarrow> string \<Rightarrow> string \<Rightarrow> string \<Rightarrow> string \<Rightarrow> string \<Rightarrow> header \<Rightarrow> 'w \<Rightarrow> 'w \<times> Response result" where
  "own_request up s method bucket key accessKey secretKey extraHeaders w =
     (case SignObjectRequest s (up_now up w) method bucket key ''UNSIGNED-PAYLOAD'' accessKey secretKey extraHeaders 0 of
        Inl e \<Rightarrow> (w, Inl e)
      | Inr fwdReq \<Rightarrow> (case up_Do up fwdReq NoBody w of (w, _, resp) \<Rightarrow> (w, resp)))"

definition DoFullObjectRequest ::
  "'w Upstream \<Rightarrow> RequestSigner \<Rightarrow> string \<Rightarrow> string \<Rightarrow> string \<Rightarrow> string \<Rightarrow> 'w \<Rightarrow> 'w \<times> Response result" where
  "DoFullObjectRequest up s bucket key accessKey secretKey w = own_request up s ''GET'' bucket key accessKey secretKey [] w"

definition DoObjectDeleteRequest ::
  "'w Upstream \<Rightarrow> RequestSigner \<Rightarrow> string \<Rightarrow> string \<Rightarrow> string \<Rightarrow> string \<Rightarrow> string \<Rightarrow> 'w \<Rightarrow> 'w \<times> Response result" where
  "DoObjectDeleteRequest up s bucket key etag accessKey secretKey w =
     own_request up s ''DELETE'' bucket key accessKey secretKey
       (if etag \<noteq> [] then header_set [] ''If-Match'' etag else []) w"

definition doConditionalRequest ::
  "'w Upstream \<Rightarrow> RequestSigner \<Rightarrow> string \<Rightarrow> string \<Rightarrow> string \<Rightarrow> string \<Rightarrow> string \<Rightarrow> string \<Rightarrow> int \<Rightarrow> string \<Rightarrow> 'w
   \<Rightarrow> 'w \<times> Response result" where
  "doConditionalRequest up s method bucket key accessKey secretKey etag lastModified rangeHeader w =
     (let h = (if etag \<noteq> [] then header_set [] ''If-None-Match'' etag else []);
          h = (if 0 < lastModified then header_set h ''If-Modified-Since'' (FormatTime lastModified) else h);
          h = (if rangeHeader \<noteq> [] then header_set h ''Range'' rangeHeader else h)
      in own_request up s method bucket key accessKey secretKey h w)"

definition DoConditionalGetRequest ::
  "'w Upstream \<Rightarrow> RequestSigner \<Rightarrow> string \<Rightarrow> string \<Rightarrow> string \<Rightarrow> string \<Rightarrow> string \<Rightarrow> int \<Rightarrow> string \<Rightarrow> 'w \<Rightarrow> 'w \<times> Response result" where
  "DoConditionalGetRequest up s bucket key accessKey secretKey etag lastModified rangeHeader =
     doConditionalRequest up s ''GET'' bucket key accessKey secretKey etag lastModified rangeHeader"

definition DoConditionalHeadRequest ::
  "'w Upstream \<Rightarrow> RequestSigner \<Rightarrow> string \<Rightarrow> string \<Rightarrow> string \<Rightarrow> string \<Rightarrow> string \<Rightarrow> int \<Rightarrow> 'w \<Rightarrow> 'w \<times> Response result" where
  "DoConditionalHeadRequest up s bucket key accessKey secretKey etag lastModified =
     doConditionalRequest up s ''HEAD'' bucket key accessKey secretKey etag lastModified []"

section \<open>Virtual hosts (vhost.go)\<close>

definition VHostEndpoint :: "url result \<Rightarrow> string \<Rightarrow> url result" where
  "VHostEndpoint endpoint bucket =
     (if bucket = [] then endpoint
      else case endpoint of
             Inl e \<Rightarrow> endpoint
           | Inr u \<Rightarrow> url_reparse (u\<lparr>url_Host := bucket @ ''.'' @ url_Host u\<rparr>))"

definition SupportsVHost :: "url result \<Rightarrow> bool" where
  "SupportsVHost endpoint =
     (case endpoint of
        Inl _ \<Rightarrow> False
      | Inr u \<Rightarrow> let host = Hostname (url_Host u) in host \<noteq> [] \<and> \<not> ParseIP host \<and> host \<noteq> ''localhost'')"

definition anonymousObjectURL :: "url result \<Rightarrow> string \<Rightarrow> string \<Rightarrow> url option" where
  "anonymousObjectURL endpoint bucket key =
     (let (target, path) =
        (if bucket \<noteq> [] \<and> SupportsVHost endpoint then (VHostEndpoint endpoint bucket, ''/'' @ key)
         else (endpoint, ''/'' @ bucket @ ''/'' @ key))
      in case target of Inl _ \<Rightarrow> None | Inr u \<Rightarrow> Some (u\<lparr>url_Path := path, url_RawQuery := []\<rparr>))"

definition RemoveBucketPrefix :: "string \<Rightarrow> string \<Rightarrow> string" where
  "RemoveBucketPrefix path bucket =
     (if bucket = [] \<or> path = [] then path
      else if \<not> HasPrefix path (''/'' @ bucket) then path
      else let rest = drop (length (''/'' @ bucket)) path in
           if rest = [] then ''/'' else if hd rest \<noteq> CHR ''/'' then path else rest)"

definition DoAnonymousFullObjectRequest ::
  "'w Upstream \<Rightarrow> url result \<Rightarrow> string \<Rightarrow> string \<Rightarrow> 'w \<Rightarrow> 'w \<times> Response result" where
  "DoAnonymousFullObjectRequest up endpoint bucket key w =
     (case anonymousObjectURL endpoint bucket key of
        None \<Rightarrow> (w, Inl (EText ''failed to build anonymous request URL''))
      | Some u \<Rightarrow>
          (case NewRequest_URL u of
             Inl e \<Rightarrow> (w, Inl e)
           | Inr u \<Rightarrow>
               (case up_Do up \<lparr>Method = ''GET'', URL = u, Host = url_Host u, Header = header_set [] ''Host'' (url_Host u),
                               ReqContentLength = 0\<rparr> NoBody w of
                  (w, _, resp) \<Rightarrow> (w, resp))))"

section \<open>Headers of a re-signed request (forwarder.go)\<close>

definition headersForForwardedSigning :: "header \<Rightarrow> bool \<Rightarrow> header" where
  "headersForForwardedSigning headers chunked =
     (if \<not> chunked then headers
      else let h = header_del headers ''X-Amz-Decoded-Content-Length'';
               ce = header_get h ''Content-Encoding''
           in if ce = [] then h
              else let stripped = stripAWSChunkedToken ce
                   in if stripped = [] then header_del h ''Content-Encoding'' else header_set h ''Content-Encoding'' stripped)"

definition prepareForwardedRequest :: "Request \<Rightarrow> out_body \<Rightarrow> int \<Rightarrow> bool \<Rightarrow> Request \<times> out_body" where
  "prepareForwardedRequest fwdReq body contentLength chunked =
     (if chunked then (fwdReq\<lparr>ReqContentLength := contentLength\<rparr>, if contentLength = 0 then NoBody else body)
      else if 0 < contentLength then (fwdReq\<lparr>ReqContentLength := contentLength\<rparr>, body)
      else (fwdReq, body))"

definition ensureAWSChunkedEncoding :: "header \<Rightarrow> header" where
  "ensureAWSChunkedEncoding h =
     (let ce = header_get h ''Content-Encoding'' in
      if ce = [] then header_set h ''Content-Encoding'' ''aws-chunked''
      else if list_ex (\<lambda>part. EqualFold (TrimSpace part) ''aws-chunked'') (Split (CHR '','') ce) then h
      else header_set h ''Content-Encoding'' (''aws-chunked,'' @ ce))"

section \<open>Re-signing (forwarder_signing.go)\<close>

record signingForwarder =
  sf_signer :: RequestSigner
  sf_credStore :: CredentialStore

definition validateRequest :: "signingForwarder \<Rightarrow> int \<Rightarrow> Request \<Rightarrow> ValidatedRequest result" where
  "validateRequest f now r =
     (if header_get (Header r) ''X-Amz-Content-Sha256'' = [] then Inl ErrMissingContentHash
      else Validate (credential_GetSigningKey (sf_credStore f)) now r)"

definition validate :: "signingForwarder \<Rightarrow> int \<Rightarrow> Request \<Rightarrow> (ValidatedRequest \<times> string) result" where
  "validate f now r =
     (case validateRequest f now r of
        Inl e \<Rightarrow> Inl (mapAuthError e)
      | Inr vr \<Rightarrow>
          (case GetSecretKey (sf_credStore f) (vr_AccessKey vr) of
             Inl e \<Rightarrow> Inl (mapAuthError e)
           | Inr secretKey \<Rightarrow> Inr (vr, secretKey)))"

definition signing_chunkVerifier :: "signingForwarder \<Rightarrow> int \<Rightarrow> Request \<Rightarrow> ChunkVerifier result" where
  "signing_chunkVerifier f now r =
     (case validate f now r of Inl e \<Rightarrow> Inl e | Inr (vr, _) \<Rightarrow> Inr (vr_ChunkVerifier vr))"

definition signForward ::
  "signingForwarder \<Rightarrow> int \<Rightarrow> Request \<Rightarrow> out_body \<Rightarrow> string \<Rightarrow> int \<Rightarrow> bool \<Rightarrow> string \<Rightarrow> string \<Rightarrow> (Request \<times> out_body) result" where
  "signForward f now r body bodyHash contentLength chunked accessKey secretKey =
     (let path = (if url_RawQuery (URL r) \<noteq> [] then URL_Path r @ ''?'' @ url_RawQuery (URL r) else URL_Path r) in
      case SignRequest (sf_signer f) now (Method r) path bodyHash accessKey secretKey
             (headersForForwardedSigning (Header r) chunked) 0 of
        Inl e \<Rightarrow> Inl e
      | Inr fwdReq \<Rightarrow> Inr (prepareForwardedRequest fwdReq body contentLength chunked))"

definition forwardError :: "err option \<Rightarrow> err option" where
  "forwardError e =
     (case e of Some x \<Rightarrow> if err_is x ErrChunkSignatureMismatch then Some (mapAuthError x) else Some x | None \<Rightarrow> None)"

text \<open>Reading a decoded body to its end, in buffers of 8 KiB; each read that does not fail takes input.\<close>

definition io_Discard :: "awsChunkedReader \<Rightarrow> err option" where
  "io_Discard r =
     (case reads (replicate (Suc (length (input r))) (8192, 8192)) r of (_, _, e) \<Rightarrow> if e = Some EOF then None else e)"

definition decodeBody ::
  "Request \<Rightarrow> body \<Rightarrow> ValidatedRequest option \<Rightarrow> (out_body \<times> string \<times> int \<times> bool) result" where
  "decodeBody r body vr =
     (case decodeChunkedIfNeeded r body vr of
        (None, bodyHash, contentLength, chunked) \<Rightarrow> Inr (Plain body, bodyHash, contentLength, chunked)
      | (Some d, bodyHash, contentLength, chunked) \<Rightarrow>
          if chunked \<and> contentLength = 0 \<and> streamChunkVerifier r vr \<noteq> None then
            (case forwardError (io_Discard d) of
               Some e \<Rightarrow> Inl e
             | None \<Rightarrow> Inr (Decoded d, bodyHash, contentLength, chunked))
          else Inr (Decoded d, bodyHash, contentLength, chunked))"

text \<open>The request to send: validated, its body decoded, and signed anew.\<close>

definition prepare ::
  "signingForwarder \<Rightarrow> int \<Rightarrow> Request \<Rightarrow> body \<Rightarrow> (out_body \<Rightarrow> out_body)
   \<Rightarrow> (Request \<times> out_body \<times> string \<times> string) result" where
  "prepare f now r body tee =
     (case validate f now r of
        Inl e \<Rightarrow> Inl e
      | Inr (vr, secretKey) \<Rightarrow>
          (case decodeBody r body (Some vr) of
             Inl e \<Rightarrow> Inl e
           | Inr (out, bodyHash, contentLength, chunked) \<Rightarrow>
               (case signForward f now r (tee out) bodyHash contentLength chunked (vr_AccessKey vr) secretKey of
                  Inl e \<Rightarrow> Inl e
                | Inr (fwdReq, out) \<Rightarrow> Inr (fwdReq, out, vr_AccessKey vr, secretKey))))"

definition no_interceptor :: "unit interceptor" where
  "no_interceptor resp a = (a, resp)"

definition signing_Forward ::
  "signingForwarder \<Rightarrow> 'w Upstream \<Rightarrow> ResponseWriter \<Rightarrow> Request \<Rightarrow> body \<Rightarrow> unit \<times> 'w \<Rightarrow> (unit \<times> 'w) \<times> ResponseWriter \<times> err option" where
  "signing_Forward f up rw r body st =
     (case prepare f (up_now up (snd st)) r body id of
        Inl e \<Rightarrow> (st, rw, Some e)
      | Inr (fwdReq, out, _, _) \<Rightarrow>
          (case executeAndStream up no_interceptor rw fwdReq out st of (st, rw, e) \<Rightarrow> (st, rw, forwardError e)))"

definition ForwardTeeingBody ::
  "signingForwarder \<Rightarrow> 'w Upstream \<Rightarrow> ResponseWriter \<Rightarrow> Request \<Rightarrow> body \<Rightarrow> unit \<times> 'w
   \<Rightarrow> (unit \<times> 'w) \<times> ResponseWriter \<times> string \<times> int \<times> header \<times> string \<times> string \<times> err option" where
  "ForwardTeeingBody f up rw r body st =
     (case prepare f (up_now up (snd st)) r body Teed of
        Inl e \<Rightarrow> (st, rw, [], 0, [], [], [], Some e)
      | Inr (fwdReq, out, accessKey, secretKey) \<Rightarrow>
          (case executeAndStreamWithMeta up no_interceptor rw fwdReq out True st of
             (st, rw, teed, status, headers, e) \<Rightarrow> (st, rw, teed, status, headers, accessKey, secretKey, forwardError e)))"

definition signing_ForwardWithCapture ::
  "signingForwarder \<Rightarrow> 'w Upstream \<Rightarrow> ResponseWriter \<Rightarrow> Request \<Rightarrow> body \<Rightarrow> unit \<times> 'w
   \<Rightarrow> (unit \<times> 'w) \<times> ResponseWriter \<times> ResponseCapture result" where
  "signing_ForwardWithCapture f up rw r body st =
     (case prepare f (up_now up (snd st)) r body id of
        Inl e \<Rightarrow> (st, rw, Inl e)
      | Inr (fwdReq, out, _, _) \<Rightarrow>
          (case executeAndCapture up no_interceptor rw fwdReq out st of
             (st, rw, Inl e) \<Rightarrow> (st, rw, Inl (the (forwardError (Some e))))
           | (st, rw, Inr capture) \<Rightarrow> (st, rw, Inr capture)))"

definition signing_ValidateAndGetCredentials ::
  "signingForwarder \<Rightarrow> int \<Rightarrow> Request \<Rightarrow> (AuthResult \<times> string \<times> string) result" where
  "signing_ValidateAndGetCredentials f now r =
     (case validate f now r of Inl e \<Rightarrow> Inl e | Inr (vr, secretKey) \<Rightarrow> Inr (AuthValidated, vr_AccessKey vr, secretKey))"

definition signing_DoRequestWithCreds ::
  "signingForwarder \<Rightarrow> 'w Upstream \<Rightarrow> Request \<Rightarrow> body \<Rightarrow> string \<Rightarrow> string \<Rightarrow> unit \<times> 'w \<Rightarrow> (unit \<times> 'w) \<times> Response result" where
  "signing_DoRequestWithCreds f up r body accessKey secretKey st =
     (let now = up_now up (snd st) in
      case (if header_get (Header r) ''X-Amz-Content-Sha256'' = StreamingPayloadHash
            then (case validate f now r of Inl e \<Rightarrow> Inl e | Inr (vr, _) \<Rightarrow> Inr (Some vr)) else Inr None) of
        Inl e \<Rightarrow> (st, Inl e)
      | Inr vr \<Rightarrow>
          (case decodeBody r body vr of
             Inl e \<Rightarrow> (st, Inl e)
           | Inr (out, bodyHash, contentLength, chunked) \<Rightarrow>
               (case signForward f now r out bodyHash contentLength chunked accessKey secretKey of
                  Inl e \<Rightarrow> (st, Inl e)
                | Inr (fwdReq, out) \<Rightarrow>
                    (case executeRequest up no_interceptor fwdReq out st of
                       (st, Inl e) \<Rightarrow> (st, Inl (the (forwardError (Some e))))
                     | (st, Inr resp) \<Rightarrow> (st, Inr resp)))))"

section \<open>Read requests by their query (revalidation.go, localstore.go)\<close>

definition readRepresentationSelectors :: "string list" where
  "readRepresentationSelectors =
     [''versionId'', ''partNumber'', ''response-cache-control'', ''response-content-disposition'',
      ''response-content-encoding'', ''response-content-language'', ''response-content-type'', ''response-expires'']"

definition isReadRepresentationSelector :: "string \<Rightarrow> bool" where
  "isReadRepresentationSelector name \<longleftrightarrow> name \<in> set readRepresentationSelectors"

definition hasRepresentationSelectors :: "Request \<Rightarrow> bool" where
  "hasRepresentationSelectors r \<longleftrightarrow>
     url_RawQuery (URL r) \<noteq> [] \<and> list_ex (\<lambda>(name, _). isReadRepresentationSelector name) (URL_Query r)"

definition originlessIgnoredParams :: "string list" where
  "originlessIgnoredParams =
     [''x-id'', ''X-Amz-Algorithm'', ''X-Amz-Credential'', ''X-Amz-Date'', ''X-Amz-Expires'', ''X-Amz-SignedHeaders'',
      ''X-Amz-Signature'', ''X-Amz-Security-Token'', ''AWSAccessKeyId'', ''Signature'', ''Expires'']"

definition isReadAuthorizationQuery :: "string \<Rightarrow> bool" where
  "isReadAuthorizationQuery rawQuery \<longleftrightarrow>
     rawQuery = [] \<or>
     \<not> ParseQuery_fails rawQuery \<and>
     list_all (\<lambda>(key, _). isReadRepresentationSelector key
                 \<or> key \<in> set [''X-Amz-Checksum-Mode'', ''x-amz-expected-bucket-owner'', ''x-amz-request-payer'']
                 \<or> key \<in> set originlessIgnoredParams) (ParseQuery rawQuery)"

section \<open>Transparent forwarding (forwarder_transparent.go)\<close>

text \<open>
  Local validation: the expiring maps of learned keys and grants, and the unwrapper of learned keys. Its
  state is the learned keys, the access keys they belong to, and the grants.
\<close>

record ('s, 't, 'u) local_auth =
  la_keys :: "('s, string) lru"
  la_accessKeys :: "('t, unit) lru"
  la_authz :: "('u, unit) lru"
  la_unwrapper :: KeyUnwrapper

type_synonym ('s, 't, 'u) auth_state = "('s \<times> 't) \<times> 'u"

record ('s, 't, 'u) transparentForwarder =
  tf_signer :: RequestSigner
  tf_upstreamEndpoint :: "url result"
  tf_accessKey :: string
  tf_secretKey :: string
  tf_local :: "('s, 't, 'u) local_auth option"

definition isContentEncodingSigned :: "Request \<Rightarrow> bool" where
  "isContentEncodingSigned r =
     (case ParseAuthInfo r of
        Inl _ \<Rightarrow> False
      | Inr authInfo \<Rightarrow> list_ex (\<lambda>h. EqualFold h ''content-encoding'') (SignedHeaders authInfo))"

definition buildTransparentRequest :: "('s, 't, 'u) transparentForwarder \<Rightarrow> int \<Rightarrow> Request \<Rightarrow> Request result" where
  "buildTransparentRequest f now r =
     (let bucket = fst (ParseBucketKey r);
          vhost = (hasNoAuthCredentials r \<and> bucket \<noteq> [] \<and> SupportsVHost (tf_upstreamEndpoint f));
          endpoint = (if vhost then VHostEndpoint (tf_upstreamEndpoint f) bucket else tf_upstreamEndpoint f);
          reqPath = (if vhost then RemoveBucketPrefix (URL_Path r) bucket else URL_Path r);
          rawPath = (if vhost then (if url_RawPath (URL r) \<noteq> [] then RemoveBucketPrefix (url_RawPath (URL r)) bucket else [])
                     else url_RawPath (URL r))
      in case endpoint of
           Inl e \<Rightarrow> Inl (Errorf ''failed to parse endpoint: '' e)
         | Inr base \<Rightarrow>
             (case NewRequest_URL (base\<lparr>url_Path := reqPath, url_RawPath := rawPath, url_RawQuery := url_RawQuery (URL r)\<rparr>) of
                Inl e \<Rightarrow> Inl (Errorf ''failed to create request: '' e)
              | Inr u \<Rightarrow>
                  let h = Header r;
                      h = (if header_get h ''X-Amz-Date'' = [] \<and> header_get h ''Date'' \<noteq> [] then
                             (case ParseHTTPDate (header_get h ''Date'') of
                                Some t \<Rightarrow> header_set h ''X-Amz-Date'' (TimeFormat (fst t, 0))
                              | None \<Rightarrow> h)
                           else h);
                      h = (if IsStreamingPayload (header_get h ''X-Amz-Content-Sha256'') \<and> \<not> isContentEncodingSigned r
                           then ensureAWSChunkedEncoding h else h);
                      p = ComputeProxyHeaders (tf_accessKey f) (tf_secretKey f) now (Host r) (Method r) reqPath;
                      h = header_set h ''X-Tigris-Forwarded-Host'' (ForwardedHost p);
                      h = header_set h ''X-Tigris-Proxy-Access-Key'' (ProxyAccessKey p);
                      h = header_set h ''X-Tigris-Proxy-Timestamp'' (ProxyTimestamp p);
                      h = header_set h ''X-Tigris-Proxy-Signature'' (ProxySignature p)
                  in Inr \<lparr>Method = (if Method r = [] then ''GET'' else Method r), URL = u, Host = url_Host u, Header = h,
                          ReqContentLength = ReqContentLength r\<rparr>))"

definition learnSigningKeys ::
  "('s, 't, 'u) transparentForwarder \<Rightarrow> Request \<Rightarrow> ('s, 't, 'u) auth_state interceptor" where
  "learnSigningKeys f r resp st =
     (let headerVal = header_get (resp_Header resp) ''X-Tigris-Proxy-Signing-Keys'';
          resp = resp\<lparr>resp_Header := header_del (resp_Header resp) ''X-Tigris-Proxy-Signing-Keys''\<rparr>
      in case tf_local f of
           None \<Rightarrow> (st, resp)
         | Some la \<Rightarrow>
             if headerVal = [] \<or> resp_Status resp < 200 \<or> 300 \<le> resp_Status resp then (st, resp)
             else case ParseAuthInfo r of
                    Inl _ \<Rightarrow> (st, resp)
                  | Inr authInfo \<Rightarrow>
                      (case Unwrap (la_unwrapper la) headerVal (AccessKey authInfo) of
                         Inl _ \<Rightarrow> (st, resp)
                       | Inr entries \<Rightarrow>
                           ((foldl (\<lambda>d entry.
                               case hex_DecodeString (ske_SigningKey entry) of
                                 None \<Rightarrow> d
                               | Some keyBytes \<Rightarrow>
                                   derived_Store (la_keys la) (la_accessKeys la) d (AccessKey authInfo)
                                     (ske_Date entry) (ske_Region entry) keyBytes) (fst st) entries, snd st), resp)))"

definition grantReadAuthorization ::
  "('s, 't, 'u) transparentForwarder \<Rightarrow> Request \<Rightarrow> ('s, 't, 'u) auth_state interceptor" where
  "grantReadAuthorization f r resp st =
     (case tf_local f of
        None \<Rightarrow> (st, resp)
      | Some la \<Rightarrow>
          if resp_Status resp < 200 \<or> 300 \<le> resp_Status resp \<or> (Method r \<noteq> ''GET'' \<and> Method r \<noteq> ''HEAD'')
             \<or> \<not> isReadAuthorizationQuery (url_RawQuery (URL r)) then (st, resp)
          else case ParseAuthInfo r of
                 Inl _ \<Rightarrow> (st, resp)
               | Inr authInfo \<Rightarrow>
                   let (bucket, key) = ParseBucketKey r in
                   if bucket = [] \<or> key = [] then (st, resp)
                   else ((fst st, Grant (la_authz la) (snd st) (AccessKey authInfo) bucket), resp))"

definition handleAuthzRevocation ::
  "('s, 't, 'u) transparentForwarder \<Rightarrow> Request \<Rightarrow> ('s, 't, 'u) auth_state interceptor" where
  "handleAuthzRevocation f r resp st =
     (case tf_local f of
        None \<Rightarrow> (st, resp)
      | Some la \<Rightarrow>
          if resp_Status resp \<noteq> 403 then (st, resp)
          else case ParseAuthInfo r of
                 Inl _ \<Rightarrow> (st, resp)
               | Inr authInfo \<Rightarrow>
                   ((fst st, Revoke (la_authz la) (snd st) (AccessKey authInfo) (fst (ParseBucketKey r))), resp))"

definition interceptResponse ::
  "('s, 't, 'u) transparentForwarder \<Rightarrow> Request \<Rightarrow> ('s, 't, 'u) auth_state interceptor" where
  "interceptResponse f r resp st =
     (let (st, resp) = learnSigningKeys f r resp st;
          (st, resp) = grantReadAuthorization f r resp st
      in handleAuthzRevocation f r resp st)"

definition validateLocally ::
  "('s, 't, 'u) transparentForwarder \<Rightarrow> int \<Rightarrow> Request \<Rightarrow> ('s, 't, 'u) auth_state
   \<Rightarrow> ('s, 't, 'u) auth_state \<times> AuthResult result" where
  "validateLocally f now r st =
     (case tf_local f of
        None \<Rightarrow> (st, Inr AuthValidated)
      | Some la \<Rightarrow>
          (case ParseAuthInfo r of
             Inl e \<Rightarrow> (st, if err_is e ErrMissingAuth then Inr AuthNotValidated else Inl (mapAuthError e))
           | Inr authInfo \<Rightarrow>
               if \<not> derived_HasKey (la_accessKeys la) (fst st) (AccessKey authInfo) then (st, Inr AuthNotValidated)
               else case ValidateRequest (derived_GetSigningKey (la_keys la) (fst st)) now r of
                      Inl _ \<Rightarrow> (st, Inr AuthNotValidated)
                    | Inr _ \<Rightarrow>
                        (case IsAuthorized (la_authz la) (snd st) (AccessKey authInfo) (fst (ParseBucketKey r)) of
                           (u, ok) \<Rightarrow> ((fst st, u), Inr (if ok then AuthValidated else AuthNotValidated)))))"

definition transparent_ValidateAndGetCredentials ::
  "('s, 't, 'u) transparentForwarder \<Rightarrow> int \<Rightarrow> Request \<Rightarrow> ('s, 't, 'u) auth_state
   \<Rightarrow> ('s, 't, 'u) auth_state \<times> (AuthResult \<times> string \<times> string) result" where
  "transparent_ValidateAndGetCredentials f now r st =
     (case validateLocally f now r st of
        (st, Inl e) \<Rightarrow> (st, Inl e)
      | (st, Inr result) \<Rightarrow> (st, Inr (result, tf_accessKey f, tf_secretKey f)))"

definition transparent_chunkVerifier ::
  "('s, 't, 'u) transparentForwarder \<Rightarrow> int \<Rightarrow> Request \<Rightarrow> ('s, 't, 'u) auth_state \<Rightarrow> ChunkVerifier option result" where
  "transparent_chunkVerifier f now r st =
     (case tf_local f of
        None \<Rightarrow> Inr None
      | Some la \<Rightarrow>
          (case Validate (derived_GetSigningKey (la_keys la) (fst st)) now r of
             Inl e \<Rightarrow> Inl (mapAuthError e)
           | Inr vr \<Rightarrow> Inr (Some (vr_ChunkVerifier vr))))"

definition transparent_Forward ::
  "('s, 't, 'u) transparentForwarder \<Rightarrow> 'w Upstream \<Rightarrow> ResponseWriter \<Rightarrow> Request \<Rightarrow> body \<Rightarrow> ('s, 't, 'u) auth_state \<times> 'w
   \<Rightarrow> (('s, 't, 'u) auth_state \<times> 'w) \<times> ResponseWriter \<times> err option" where
  "transparent_Forward f up rw r body st =
     (case buildTransparentRequest f (up_now up (snd st)) r of
        Inl e \<Rightarrow> (st, rw, Some e)
      | Inr fwdReq \<Rightarrow> executeAndStream up (interceptResponse f r) rw fwdReq (Plain body) st)"

definition transparent_ForwardWithCapture ::
  "('s, 't, 'u) transparentForwarder \<Rightarrow> 'w Upstream \<Rightarrow> ResponseWriter \<Rightarrow> Request \<Rightarrow> body \<Rightarrow> ('s, 't, 'u) auth_state \<times> 'w
   \<Rightarrow> (('s, 't, 'u) auth_state \<times> 'w) \<times> ResponseWriter \<times> ResponseCapture result" where
  "transparent_ForwardWithCapture f up rw r body st =
     (case buildTransparentRequest f (up_now up (snd st)) r of
        Inl e \<Rightarrow> (st, rw, Inl e)
      | Inr fwdReq \<Rightarrow> executeAndCapture up (interceptResponse f r) rw fwdReq (Plain body) st)"

definition transparent_DoRequestWithCreds ::
  "('s, 't, 'u) transparentForwarder \<Rightarrow> 'w Upstream \<Rightarrow> Request \<Rightarrow> body \<Rightarrow> string \<Rightarrow> string \<Rightarrow> ('s, 't, 'u) auth_state \<times> 'w
   \<Rightarrow> (('s, 't, 'u) auth_state \<times> 'w) \<times> Response result" where
  "transparent_DoRequestWithCreds f up r body accessKey secretKey st =
     (case buildTransparentRequest f (up_now up (snd st)) r of
        Inl e \<Rightarrow> (st, Inl e)
      | Inr fwdReq \<Rightarrow> executeRequest up (interceptResponse f r) fwdReq (Plain body) st)"

section \<open>The interface (forwarder.go)\<close>

record ('a, 'w) RequestForwarder =
  fw_Forward :: "ResponseWriter \<Rightarrow> Request \<Rightarrow> body \<Rightarrow> 'a \<times> 'w \<Rightarrow> ('a \<times> 'w) \<times> ResponseWriter \<times> err option"
  fw_ForwardWithCapture :: "ResponseWriter \<Rightarrow> Request \<Rightarrow> body \<Rightarrow> 'a \<times> 'w \<Rightarrow> ('a \<times> 'w) \<times> ResponseWriter \<times> ResponseCapture result"
  fw_ValidateAndGetCredentials :: "Request \<Rightarrow> 'a \<times> 'w \<Rightarrow> ('a \<times> 'w) \<times> (AuthResult \<times> string \<times> string) result"
  fw_DoRequestWithCreds :: "Request \<Rightarrow> body \<Rightarrow> string \<Rightarrow> string \<Rightarrow> 'a \<times> 'w \<Rightarrow> ('a \<times> 'w) \<times> Response result"
  fw_DoFullObjectRequest :: "string \<Rightarrow> string \<Rightarrow> string \<Rightarrow> string \<Rightarrow> 'w \<Rightarrow> 'w \<times> Response result"
  fw_DoAnonymousFullObjectRequest :: "string \<Rightarrow> string \<Rightarrow> 'w \<Rightarrow> 'w \<times> Response result"
  fw_DoObjectDeleteRequest :: "string \<Rightarrow> string \<Rightarrow> string \<Rightarrow> string \<Rightarrow> string \<Rightarrow> 'w \<Rightarrow> 'w \<times> Response result"
  fw_DoConditionalGetRequest :: "string \<Rightarrow> string \<Rightarrow> string \<Rightarrow> string \<Rightarrow> string \<Rightarrow> int \<Rightarrow> string \<Rightarrow> 'w \<Rightarrow> 'w \<times> Response result"
  fw_DoConditionalHeadRequest :: "string \<Rightarrow> string \<Rightarrow> string \<Rightarrow> string \<Rightarrow> string \<Rightarrow> int \<Rightarrow> 'w \<Rightarrow> 'w \<times> Response result"
  fw_ForwardTeeingBody ::
    "(ResponseWriter \<Rightarrow> Request \<Rightarrow> body \<Rightarrow> 'a \<times> 'w
      \<Rightarrow> ('a \<times> 'w) \<times> ResponseWriter \<times> string \<times> int \<times> header \<times> string \<times> string \<times> err option) option"

text \<open>Both forwarders as that interface; only the signing one can tee a body.\<close>

definition signing_RequestForwarder :: "signingForwarder \<Rightarrow> url result \<Rightarrow> 'w Upstream \<Rightarrow> (unit, 'w) RequestForwarder" where
  "signing_RequestForwarder f endpoint up =
     \<lparr>fw_Forward = signing_Forward f up,
      fw_ForwardWithCapture = signing_ForwardWithCapture f up,
      fw_ValidateAndGetCredentials = (\<lambda>r st. (st, signing_ValidateAndGetCredentials f (up_now up (snd st)) r)),
      fw_DoRequestWithCreds = signing_DoRequestWithCreds f up,
      fw_DoFullObjectRequest = DoFullObjectRequest up (sf_signer f),
      fw_DoAnonymousFullObjectRequest = DoAnonymousFullObjectRequest up endpoint,
      fw_DoObjectDeleteRequest = DoObjectDeleteRequest up (sf_signer f),
      fw_DoConditionalGetRequest = DoConditionalGetRequest up (sf_signer f),
      fw_DoConditionalHeadRequest = DoConditionalHeadRequest up (sf_signer f),
      fw_ForwardTeeingBody = Some (ForwardTeeingBody f up)\<rparr>"

definition transparent_RequestForwarder ::
  "('s, 't, 'u) transparentForwarder \<Rightarrow> 'w Upstream \<Rightarrow> (('s, 't, 'u) auth_state, 'w) RequestForwarder" where
  "transparent_RequestForwarder f up =
     \<lparr>fw_Forward = transparent_Forward f up,
      fw_ForwardWithCapture = transparent_ForwardWithCapture f up,
      fw_ValidateAndGetCredentials =
        (\<lambda>r st. case transparent_ValidateAndGetCredentials f (up_now up (snd st)) r (fst st) of (a, x) \<Rightarrow> ((a, snd st), x)),
      fw_DoRequestWithCreds = transparent_DoRequestWithCreds f up,
      fw_DoFullObjectRequest = DoFullObjectRequest up (tf_signer f),
      fw_DoAnonymousFullObjectRequest = DoAnonymousFullObjectRequest up (tf_upstreamEndpoint f),
      fw_DoObjectDeleteRequest = DoObjectDeleteRequest up (tf_signer f),
      fw_DoConditionalGetRequest = DoConditionalGetRequest up (tf_signer f),
      fw_DoConditionalHeadRequest = DoConditionalHeadRequest up (tf_signer f),
      fw_ForwardTeeingBody = None\<rparr>"

end
