(* ===== verification/Request_Signing.thy ===== *)
theory Request_Signing
  imports Sigv4
begin

text \<open>
  Signing against validation: dates, authorization headers and canonical requests written by the signer
  are read back by the validator, and the lifetime and key rules of an accepted request.
\<close>

section \<open>Dates\<close>

lemma parse_TimeFormat_fields:
  assumes "0 \<le> y" "y < 10000" "1 \<le> mo" "mo \<le> 12" "0 \<le> d" "d < 100"
    and "0 \<le> h" "h < 24" "0 \<le> mi" "mi < 60" "0 \<le> se" "se < 60"
  shows "parse_layout TimeFormat_layout (pad 4 y @ pad 2 mo @ pad 2 d @ ''T'' @ pad 2 h @ pad 2 mi @ pad 2 se @ ''Z'', f)
    = Some (f\<lparr>f_year := y, f_month := nat (mo - 1), f_day := d, f_hour := h, f_min := mi, f_sec := se, f_nsec := 0\<rparr>)"
  unfolding TimeFormat_layout_def using assms
  by (simp add: parse_LongYear_pad4 getnum_pad2 frac_seconds_def del: parse_item.simps(8))

lemma seconds_of_day:
  "(s::int) div 86400 * 86400 + s mod 86400 div 3600 * 3600 + s mod 86400 mod 3600 div 60 * 60 + s mod 86400 mod 60 = s"
proof -
  have "r div 3600 * 3600 + r mod 3600 = r" "r mod 3600 div 60 * 60 + r mod 3600 mod 60 = r mod 3600"
    "r mod 3600 mod 60 = r mod 60" for r :: int
    by (rule div_mult_mod_eq div_mult_mod_eq mod_mod_cancel; simp)+
  from this [of "s mod 86400"] show ?thesis using div_mult_mod_eq [of s 86400] by linarith
qed

lemma parse_TimeFormat:
  assumes c: "civil (unix_sec t div 86400) = (y, m, d)" and y: "0 \<le> y" "y < 10000"
  shows "time_ParseZ TimeFormat_layout (TimeFormat (t, 0)) = Some (unix_sec t * 1000000000, 0)"
proof -
  define s where "s = unix_sec t"
  define h mi se where "h = s mod 86400 div 3600" and "mi = s mod 86400 mod 3600 div 60" and "se = s mod 86400 mod 60"
  have d: "1 \<le> d" "d \<le> month_lens y ! m" "m < 12" and u: "unix_days y m d = s div 86400"
    using civil_correct [OF c] by (auto simp: s_def)
  have d100: "0 \<le> d" "d < 100" and mo: "1 \<le> int m + 1" "int m + 1 \<le> 12" using d month_lens_le [of m y] by auto
  have r: "0 \<le> h" "h < 24" "0 \<le> mi" "mi < 60" "0 \<le> se" "se < 60"
    unfolding h_def mi_def se_def by (simp_all add: div_less_iff_less_mult)
  have sum: "s div 86400 * 86400 + h * 3600 + mi * 60 + se = s"
    unfolding h_def mi_def se_def by (rule seconds_of_day)
  have f: "TimeFormat (t, 0) = pad 4 y @ pad 2 (int m + 1) @ pad 2 d @ ''T'' @ pad 2 h @ pad 2 mi @ pad 2 se @ ''Z''"
    using c by (simp add: TimeFormat_def shortTime_def h_def mi_def se_def s_def Let_def)
  show ?thesis
    unfolding time_ParseZ_def f parse_TimeFormat_fields [OF y mo d100 r]
    using d u sum by (simp add: fields_time_def no_fields_def s_def [symmetric])
qed

section \<open>The authorization header\<close>

lemma regex_skip [sigv4]:
  assumes "c \<notin> set pre" and "lit = l @ [c]" and "x \<notin> set lit"
  shows "regex_find lit f (pre @ x # s) = regex_find lit f (x # s)"
  using assms(1)
proof (induction pre)
  case (Cons p pre)
  have "\<not> HasPrefix (p # pre @ x # s) lit"
  proof
    assume "HasPrefix (p # pre @ x # s) lit"
    then have t: "take (length lit) ((p # pre) @ x # s) = lit" by (simp add: HasPrefix_def)
    show False
    proof (cases "length lit \<le> length (p # pre)")
      case True
      then have "take (length lit) ((p # pre) @ x # s) = take (length lit) (p # pre)" by (simp only: take_append diff_is_0_eq [THEN iffD2] take_0 append_Nil2)
      with t have "lit = take (length lit) (p # pre)" by simp
      then have "set lit \<subseteq> set (p # pre)" by (metis set_take_subset)
      with assms(2) Cons.prems show False by auto
    next
      case False
      then obtain n where "length lit = length (p # pre) + Suc n" by (metis not_le less_imp_Suc_add add_Suc_right)
      with t have "lit = (p # pre) @ x # take n s" by simp
      with assms(3) show False by (metis in_set_conv_decomp)
    qed
  qed
  with Cons show ?case by simp
qed simp

lemma takeWhile_sep [sigv4]: "c \<notin> set s \<Longrightarrow> takeWhile (\<lambda>x. x \<noteq> c) (s @ c # t) = s"
  by (subst takeWhile_append2) auto

lemma takeWhile_all [sigv4]: "c \<notin> set s \<Longrightarrow> takeWhile (\<lambda>x. x \<noteq> c) s = s"
  by (auto simp: takeWhile_eq_all_conv)

lemma hex_lower:
  assumes "c \<in> set (EncodeToString s)"
  shows "lower_hex_char c"
proof -
  have d: "lower_hex_char (hex_digit d)" if "d < 16" for d
    using that by (auto simp: lower_hex_char_def hex_digit_def)
  have "of_char x div 16 < (16::nat)" for x
    using nat_of_char_less_256 [of x] by (simp add: less_mult_imp_div_less)
  with d assms show ?thesis by (auto simp: EncodeToString_def)
qed

definition plain_id :: "string \<Rightarrow> bool" where
  "plain_id s \<longleftrightarrow> s \<noteq> [] \<and> list_all unreserved s"

lemma plain_idD:
  assumes "plain_id s"
  shows "CHR ''/'' \<notin> set s" "CHR '','' \<notin> set s" "CHR ''='' \<notin> set s" "s \<noteq> []"
  using assms by (auto simp: plain_id_def list_all_iff unreserved_def)

lemma parse_auth_header:
  assumes ak: "plain_id ak" and date: "plain_id date" and region: "plain_id region"
    and names: "names \<noteq> []" "Join '';'' names \<noteq> []" "\<And>n. n \<in> set names \<Longrightarrow> CHR '';'' \<notin> set n \<and> CHR '','' \<notin> set n \<and> CHR ''='' \<notin> set n"
    and sig: "sig = EncodeToString x" "sig \<noteq> []"
  shows "parseFromHeader (''AWS4-HMAC-SHA256 Credential='' @ ak @ ''/'' @ (date @ ''/'' @ region @ ''/'' @ ''s3'' @ ''/'' @ ''aws4_request'')
           @ '', SignedHeaders='' @ Join '';'' names @ '', Signature='' @ sig)
         = Inr \<lparr>AccessKey = ak, IsPresigned = False, SignedHeaders = names, Signature = sig, Region = region, Date = date\<rparr>"
proof -
  let ?scope = "date @ ''/'' @ region @ ''/'' @ ''s3'' @ ''/'' @ ''aws4_request''"
  let ?cred = "ak @ ''/'' @ ?scope"
  let ?h = "''AWS4-HMAC-SHA256 Credential='' @ ak @ ''/'' @ ?scope @ '', SignedHeaders='' @ Join '';'' names @ '', Signature='' @ sig"
  note p = plain_idD [OF ak] plain_idD [OF date] plain_idD [OF region]
  have J: "c \<notin> set (Join '';'' names)" if "c = CHR '','' \<or> c = CHR ''=''" for c
    using names(3) that by (induction "'';''" names rule: Join.induct) auto
  have c: "credentialRegex ?h = Some ak"
    using p by (simp add: credentialRegex_def nonempty_def takeWhile_sep)
  have s: "scopeRegex ?h = Some ?cred"
    using p takeWhile_sep [of "CHR '',''" ?cred] by (simp add: scopeRegex_def nonempty_def)
  have sp: "Split (CHR ''/'') ?cred = [ak, date, region, ''s3'', ''aws4_request'']"
    using p by (simp add: Split_append_sep)
  obtain cred where cred: "cred = ?cred" by simp
  have ce: "CHR ''='' \<notin> set cred" using p by (simp add: cred)
  have h: "?h = ''AWS4-HMAC-SHA256 Credential='' @ cred @ CHR '','' # '' SignedHeaders='' @ Join '';'' names @ '', Signature='' @ sig"
    by (simp add: cred)
  have sh: "signedHeadersRegex ?h = Some (Join '';'' names)"
    unfolding h signedHeadersRegex_def
    using ce J names(2) by (simp add: regex_skip [where c = "CHR ''=''" and l = "''SignedHeaders''"] nonempty_def takeWhile_sep)
  have tw: "takeWhile lower_hex_char (EncodeToString x) = EncodeToString x"
    by (simp add: takeWhile_eq_all_conv hex_lower)
  have sg: "signatureRegex ?h = Some sig"
    unfolding h signatureRegex_def
    using ce J sig tw by (simp add: regex_skip [where c = "CHR ''=''" and l = "''Signature''"] nonempty_def del: takeWhile_eq_all_conv)
  have sj: "Split (CHR '';'') (Join '';'' names) = names"
    using names(1,3) by (intro Split_Join) auto
  show ?thesis
    using c s sp sh sg sj by (simp add: parseFromHeader_def)
qed

section \<open>Canonical headers\<close>

text \<open>Header maps as the server builds them: distinct canonical keys.\<close>

definition wf_header :: "header \<Rightarrow> bool" where
  "wf_header h \<longleftrightarrow> distinct (map fst h) \<and> (\<forall>k \<in> fst ` set h. list_all validHeaderFieldByte k \<and> CanonicalHeaderKey k = k)"

lemma lower_lower [simp]: "lower (lower c) = lower c"
  by (simp add: lower_def Let_def)

lemma upper_lower [simp]: "upper (lower c) = upper c"
  by (auto simp: lower_def upper_def Let_def)

lemma lower_dash: "lower c = CHR ''-'' \<longleftrightarrow> c = CHR ''-''"
proof
  assume l: "lower c = CHR ''-''"
  show "c = CHR ''-''"
  proof (cases "65 \<le> (of_char c :: nat) \<and> (of_char c :: nat) \<le> 90")
    case True
    then have "of_char (lower c) = (of_char c + 32 :: nat)" by (simp add: lower_def Let_def)
    with True have "97 \<le> (of_char (lower c) :: nat)" by simp
    with l show ?thesis by simp
  next
    case False
    with l show ?thesis by (auto simp: lower_def Let_def split: if_splits)
  qed
qed (simp add: lower_def)

lemma valid_lower: "validHeaderFieldByte c \<Longrightarrow> validHeaderFieldByte (lower c)"
  by (cases "65 \<le> (of_char c :: nat) \<and> (of_char c :: nat) \<le> 90") (auto simp: lower_def validHeaderFieldByte_def Let_def)

lemma canon_key_lower: "canon_key b (map lower k) = canon_key b k"
  by (induction k arbitrary: b) (simp_all add: lower_dash)

lemma Canonical_ToLower:
  "list_all validHeaderFieldByte k \<Longrightarrow> CanonicalHeaderKey (ToLower k) = CanonicalHeaderKey k"
  by (auto simp: CanonicalHeaderKey_def ToLower_def canon_key_lower list_all_iff valid_lower)

lemma wf_update:
  assumes "wf_header h" and "list_all validHeaderFieldByte k" and "CanonicalHeaderKey k = k"
  shows "wf_header (AList.update k v h)"
  using assms by (simp add: wf_header_def distinct_update dom_update)

lemma inj_ToLower: "wf_header h \<Longrightarrow> inj_on ToLower (fst ` set h)"
  by (rule inj_onI) (metis Canonical_ToLower wf_header_def)

lemma fold_lower_other:
  "n \<notin> ToLower ` fst ` set h \<Longrightarrow>
   map_of (foldl (\<lambda>hs (k, v). if P (ToLower k) then AList.update (ToLower k) v hs else hs) acc h) n = map_of acc n"
  by (induction h arbitrary: acc) (auto simp: update_conv' split: prod.splits)

lemma fold_lower_in:
  assumes "inj_on ToLower (fst ` set h)" and "distinct (map fst h)" and "(k, v) \<in> set h" and "P (ToLower k)"
  shows "map_of (foldl (\<lambda>hs (k, v). if P (ToLower k) then AList.update (ToLower k) v hs else hs) acc h) (ToLower k) = Some v"
  using assms
proof (induction h arbitrary: acc)
  case (Cons x h)
  obtain k' v' where x: "x = (k', v')" by fastforce
  show ?case
  proof (cases "(k, v) = x")
    case True
    have "ToLower k \<notin> ToLower ` fst ` set h"
    proof
      assume "ToLower k \<in> ToLower ` fst ` set h"
      then obtain j where "j \<in> fst ` set h" "ToLower k = ToLower j" by blast
      then have "j = k" using Cons.prems(1) True x by (auto simp: inj_on_def)
      with \<open>j \<in> fst ` set h\<close> Cons.prems(2) True x show False by auto
    qed
    with True x Cons.prems(4) show ?thesis by (simp add: fold_lower_other update_conv')
  next
    case False
    with Cons show ?thesis by (auto simp: inj_on_def)
  qed
qed simp

lemma fold_lower_dom:
  "n \<in> fst ` set (foldl (\<lambda>hs (k, v). if P (ToLower k) then AList.update (ToLower k) v hs else hs) acc h) \<Longrightarrow>
   n \<in> fst ` set acc \<or> (\<exists>k \<in> fst ` set h. n = ToLower k \<and> P n)"
proof (induction h arbitrary: acc)
  case (Cons x h)
  obtain k v where x: "x = (k, v)" by fastforce
  from Cons.prems x have "n \<in> fst ` set (if P (ToLower k) then AList.update (ToLower k) v acc else acc)
      \<or> (\<exists>k \<in> fst ` set h. n = ToLower k \<and> P n)"
    by (intro Cons.IH) simp
  with x show ?case by (auto simp: dom_update split: if_splits)
qed simp

text \<open>What the signer signs is what the validator reads from the header map for the same names.\<close>

lemma headers_to_sign_values:
  assumes "wf_header (Header req)" and "header_values (Header req) ''Host'' = [url_Host (URL req)]"
    and "n \<in> fst ` set (headers_to_sign req)"
  shows "signed_name n \<and> values_all (headers_to_sign req) n = header_values (Header req) n
         \<and> (\<exists>k \<in> fst ` set (Header req). n = ToLower k)"
proof -
  let ?g = "foldl (\<lambda>hs (k, v). if signed_name (ToLower k) then AList.update (ToLower k) v hs else hs) [] (Header req)"
  have ch: "CanonicalHeaderKey ''Host'' = ''Host''" "ToLower ''Host'' = ''host''" by code_simp+
  have hv: "map_of (Header req) ''Host'' = Some [url_Host (URL req)]"
    using assms(2) ch by (auto simp: header_values_def split: option.splits)
  then have hin: "(''Host'', [url_Host (URL req)]) \<in> set (Header req)" by (rule map_of_SomeD)
  have d: "distinct (map fst (Header req))" using assms(1) by (simp add: wf_header_def)
  note look = fold_lower_in [OF inj_ToLower [OF assms(1)] d, where P = signed_name and acc = "[]"]
  have "map_of ?g ''host'' = Some [url_Host (URL req)]"
    using look [OF hin] ch by (simp add: signed_name_def)
  then have g: "headers_to_sign req = ?g" by (simp add: headers_to_sign_def Let_def)
  from fold_lower_dom [of n signed_name "[]" "Header req"] assms(3) g
  obtain k v where k: "(k, v) \<in> set (Header req)" "n = ToLower k" "signed_name n" by auto
  have "values_all ?g n = v" using look [OF k(1)] k by (simp add: values_all_def)
  moreover have "list_all validHeaderFieldByte k" "CanonicalHeaderKey k = k"
    using k(1) assms(1) by (force simp: wf_header_def)+
  then have "CanonicalHeaderKey n = k" using Canonical_ToLower k(2) by simp
  then have "header_values (Header req) n = v"
    using k(1) d by (simp add: header_values_def)
  ultimately show ?thesis using k g by force
qed

section \<open>Signed requests validate\<close>

lemma pad_unreserved: "list_all unreserved (pad w i)"
proof -
  have d: "unreserved (digit d)" if "d < 10" for d using that by (simp add: unreserved_def digit_def)
  have "unreserved (CHR ''0'')" by (simp add: unreserved_def)
  with d show_nat_chars [of _ "nat i"] show ?thesis by (auto simp: pad_def list_all_iff Let_def)
qed

lemma pad_nonempty [simp]: "pad w i \<noteq> []"
  by (simp add: pad_def Let_def)

lemma plain_shortTime: "plain_id (shortTime t)"
  by (auto simp: plain_id_def shortTime_def Let_def pad_unreserved split: prod.splits)

lemma name_chars:
  assumes "list_all validHeaderFieldByte k"
  shows "CHR '';'' \<notin> set (ToLower k) \<and> CHR '','' \<notin> set (ToLower k) \<and> CHR ''='' \<notin> set (ToLower k)"
proof -
  have "validHeaderFieldByte c" if "c \<in> set (ToLower k)" for c
    using assms that by (auto simp: ToLower_def list_all_iff valid_lower)
  moreover have "\<not> validHeaderFieldByte (CHR '';'')" "\<not> validHeaderFieldByte (CHR '','')" "\<not> validHeaderFieldByte (CHR ''='')"
    by (simp_all add: validHeaderFieldByte_def)
  ultimately show ?thesis by blast
qed

lemma Join_not_Nil: "ss \<noteq> [] \<Longrightarrow> hd ss \<noteq> [] \<Longrightarrow> Join sep ss \<noteq> []"
  by (cases ss; cases "tl ss") auto

lemma canonical_hdr_keys:
  "CanonicalHeaderKey ''Host'' = ''Host''" "CanonicalHeaderKey ''X-Amz-Date'' = ''X-Amz-Date''"
  "CanonicalHeaderKey ''X-Amz-Content-Sha256'' = ''X-Amz-Content-Sha256''"
  "CanonicalHeaderKey ''Authorization'' = ''Authorization''" "ToLower ''Authorization'' = ''authorization''"
  by code_simp+

lemma valid_hdr_keys:
  "list_all validHeaderFieldByte ''Host''" "list_all validHeaderFieldByte ''X-Amz-Date''"
  "list_all validHeaderFieldByte ''X-Amz-Content-Sha256''" "list_all validHeaderFieldByte ''Authorization''"
  by code_simp+

lemma wf_copied:
  assumes "\<forall>k \<in> fst ` set headers. list_all validHeaderFieldByte k \<and> CanonicalHeaderKey k = k" and "wf_header acc"
  shows "wf_header (foldl (\<lambda>h (k, v). if P k then header_put_raw h k v else h) acc headers)"
  using assms
  by (induction headers arbitrary: acc) (auto simp: header_put_raw_def wf_update split: prod.splits)

text \<open>The validator recomputes the signer's signature.\<close>

lemma signHTTP_validates:
  assumes wf: "wf_header (Header req)" and host: "header_values (Header req) ''Host'' = [url_Host (URL req)]"
    and hostf: "Host req = url_Host (URL req)"
    and hash: "header_get (Header req) ''X-Amz-Content-Sha256'' = bodyHash" "bodyHash \<noteq> []"
    and date: "header_get (Header req) ''X-Amz-Date'' = TimeFormat (now, 0)"
    and ids: "plain_id ak" "plain_id region"
    and key: "ks ak (shortTime (now, 0)) region = Inr (deriveSigningKey sk (shortTime (now, 0)) region)"
    and cal: "civil (unix_sec now div 86400) = (y, m, d)" "0 \<le> y" "y < 10000"
    and age: "\<bar>now' - unix_sec now * 1000000000\<bar> \<le> maxRequestAge"
  shows "\<exists>vr. Validate ks now' (signHTTP region req ak sk bodyHash (now, 0)) = Inr vr \<and> vr_AccessKey vr = ak"
proof -
  let ?hs = "headers_to_sign req"
  let ?names = "sort (map fst ?hs)"
  let ?r = "signHTTP region req ak sk bodyHash (now, 0)"
  let ?canon = "fst (buildCanonicalRequest req bodyHash)"
  let ?key = "deriveSigningKey sk (shortTime (now, 0)) region"
  let ?sig = "EncodeToString (hmacSHA256 ?key (buildStringToSign (now, 0) (credentialScope (now, 0) region) ?canon))"
  let ?info = "\<lparr>AccessKey = ak, IsPresigned = False, SignedHeaders = ?names, Signature = ?sig, Region = region, Date = shortTime (now, 0)\<rparr>"
  define auth where "auth = ''AWS4-HMAC-SHA256 Credential='' @ ak @ ''/'' @ credentialScope (now, 0) region
     @ '', SignedHeaders='' @ Join '';'' ?names @ '', Signature='' @ ?sig"
  have r: "?r = req\<lparr>Header := header_set (Header req) ''Authorization'' auth\<rparr>"
    by (simp add: signHTTP_def auth_def buildCanonicalRequest_def buildCanonicalHeaders_def Let_def split: prod.splits)
  note vals = headers_to_sign_values [OF wf host]
  have "?hs \<noteq> []" by (auto simp: headers_to_sign_def Let_def)
  then have "0 < length ?names" by simp
  then have ne: "?names \<noteq> []" by (rule length_greater_0_conv [THEN iffD1])
  have nn: "n \<noteq> [] \<and> CHR '';'' \<notin> set n \<and> CHR '','' \<notin> set n \<and> CHR ''='' \<notin> set n" if "n \<in> set ?names" for n
  proof -
    have "n \<in> fst ` set ?hs" using that by simp
    from vals [OF this] obtain k where k: "signed_name n" "k \<in> fst ` set (Header req)" "n = ToLower k" by blast
    then have "list_all validHeaderFieldByte k" using wf by (auto simp: wf_header_def)
    from name_chars [OF this] k show ?thesis by (auto simp: signed_name_def)
  qed
  have jn: "Join '';'' ?names \<noteq> []" using ne nn hd_in_set by (intro Join_not_Nil) blast+
  have p: "parseFromHeader auth = Inr ?info"
    unfolding auth_def credentialScope_def
    by (rule parse_auth_header [OF ids(1) plain_shortTime ids(2) ne jn]) (use nn in auto)
  have "ParseAuthInfo ?r = Inr ?info"
    using p unfolding r by (simp add: ParseAuthInfo_def auth_def)
  moreover have "header_get (Header ?r) ''X-Amz-Content-Sha256'' = bodyHash" "header_get (Header ?r) ''X-Amz-Date'' = TimeFormat (now, 0)"
    unfolding r using hash date by (simp_all add: header_get_set_other canonical_hdr_keys)
  moreover have "short_date ?r ?info = Inr (shortTime (now, 0))"
    using plain_shortTime [of "(now, 0)"] by (simp add: short_date_def plain_id_def)
  moreover have "computeSignature ?r ?info ?key bodyHash (unix_sec now * 1000000000, 0) = ?sig"
  proof -
    have block: "n @ '':'' @ (if n = ''host'' then canonicalHeaderValue (if Host ?r = [] then url_Host (URL ?r) else Host ?r)
             else writeCanonicalHeaderValues (header_values (Header ?r) n)) @ newline
        = n @ '':'' @ writeCanonicalHeaderValues (values_all ?hs n) @ newline" if "n \<in> set ?names" for n
    proof -
      have "n \<in> fst ` set ?hs" using that by simp
      from vals [OF this] obtain k where n: "signed_name n" "values_all ?hs n = header_values (Header req) n"
        "k \<in> fst ` set (Header req)" "n = ToLower k" by blast
      then have k: "CanonicalHeaderKey n = k" using wf Canonical_ToLower by (auto simp: wf_header_def)
      have "k \<noteq> ''Authorization''" using n canonical_hdr_keys(5) by (auto simp: signed_name_def)
      then have "header_values (Header ?r) n = header_values (Header req) n"
        unfolding r by (simp add: header_values_def header_set_def update_conv' k canonical_hdr_keys)
      moreover have "header_values (Header req) ''host'' = [url_Host (URL req)]"
      proof -
        have "CanonicalHeaderKey ''host'' = ''Host''" by code_simp
        with host show ?thesis by (simp add: header_values_def canonical_hdr_keys)
      qed
      ultimately show ?thesis using n(2) hostf unfolding r by (auto simp: writeCanonicalHeaderValues_def)
    qed
    have "buildCanonicalHeadersFromList ?r ?names = fst (buildCanonicalHeaders req)"
      unfolding buildCanonicalHeadersFromList_def buildCanonicalHeaders_def Let_def fst_conv
      by (rule arg_cong [where f = concat], rule map_cong [OF refl], rule block)
    moreover have "Method ?r = Method req" "URL ?r = URL req" unfolding r by simp_all
    moreover have "unix_sec (unix_sec now * 1000000000) = unix_sec now" by (simp add: unix_sec_def)
    ultimately show ?thesis
      by (simp add: computeSignature_def validator_signature_def canonical_request_over_def buildCanonicalRequest_def
          canonical_uri_def URL_Query_def TimeFormat_def shortTime_def credentialScope_def buildStringToSign_def
          buildCanonicalHeaders_def Let_def split: prod.splits)
  qed
  moreover have "ParseHTTPDate (TimeFormat (now, 0)) = Some (unix_sec now * 1000000000, 0)"
    using parse_TimeFormat [OF cal] by (simp add: ParseHTTPDate_def)
  moreover have "TimeFormat (now, 0) \<noteq> []" by (simp add: TimeFormat_def Let_def)
  ultimately show ?thesis
    using key hash(2) age by (auto simp: Validate_def validateSigned_def Let_def abs_le_iff)
qed

lemma signURL_validates:
  assumes "signURL s now method u bodyHash ak sk headers len = Inr r"
    and "\<forall>k \<in> fst ` set headers. list_all validHeaderFieldByte k \<and> CanonicalHeaderKey k = k"
    and "plain_id ak" and "plain_id (signer_region s)"
    and "ks ak (shortTime (now, 0)) (signer_region s) = Inr (deriveSigningKey sk (shortTime (now, 0)) (signer_region s))"
    and "civil (unix_sec now div 86400) = (y, m, d)" and "0 \<le> y" and "y < 10000"
    and "\<bar>now' - unix_sec now * 1000000000\<bar> \<le> maxRequestAge"
  shows "\<exists>vr. Validate ks now' r = Inr vr \<and> vr_AccessKey vr = ak"
proof -
  define h0 where "h0 = foldl (\<lambda>h (k, v). if shouldCopyHeader k then header_put_raw h k v else h) [] headers"
  define bh where "bh = (if bodyHash = [] then emptyBodyHash else bodyHash)"
  obtain u' meth where r: "r = signHTTP (signer_region s)
      \<lparr>Method = meth, URL = u', Host = url_Host u',
       Header = header_set (header_set (header_set h0 ''X-Amz-Date'' (TimeFormat (now, 0))) ''X-Amz-Content-Sha256'' bh) ''Host'' (url_Host u'),
       ReqContentLength = len\<rparr> ak sk bh (now, 0)"
    using assms(1) by (auto simp: signURL_def h0_def bh_def Let_def split: if_splits sum.splits)
  have "wf_header []" by (simp add: wf_header_def)
  then have "wf_header h0" unfolding h0_def using assms(2) by (intro wf_copied) auto
  then have wf: "wf_header (header_set (header_set (header_set h0 ''X-Amz-Date'' d1) ''X-Amz-Content-Sha256'' d2) ''Host'' d3)" for d1 d2 d3
    unfolding header_set_def canonical_hdr_keys
    by (intro wf_update) (simp_all only: canonical_hdr_keys valid_hdr_keys)
  have "bh \<noteq> []" by (simp add: bh_def emptyBodyHash_def)
  then show ?thesis
    unfolding r
    by (intro signHTTP_validates [where ks = ks and ak = ak and sk = sk and now = now, OF _ _ _ _ _ _ assms(3-9)])
      (simp_all add: wf header_get_set_other canonical_hdr_keys, simp add: header_values_def header_set_def update_conv' canonical_hdr_keys)
qed

definition demo_signer :: RequestSigner where
  "demo_signer = \<lparr>endpointURL = Inr \<lparr>url_Opaque = [], url_Host = ''t3.storage.dev'', url_Path = [], url_RawPath = [],
       url_RawQuery = [], url_ForceQuery = False\<rparr>, signer_region = ''auto''\<rparr>"

definition demo_keys :: key_source where
  "demo_keys = credential_GetSigningKey \<lparr>credentials = [''AK'' \<mapsto> ''secret'']\<rparr>"

definition demo_request :: "Request result" where
  "demo_request = SignObjectRequest demo_signer 0 ''GET'' ''b'' ''k?x'' [] ''AK'' ''secret'' [(''Range'', [''bytes=0-1''])] 0"

definition demo_url :: url where
  "demo_url = \<lparr>url_Opaque = [], url_Host = ''t3.storage.dev'', url_Path = ''/b/k?x'', url_RawPath = [],
     url_RawQuery = [], url_ForceQuery = False\<rparr>"

lemma demo_signed:
  "\<exists>r. demo_request = Inr r \<and> signURL demo_signer 0 ''GET'' demo_url [] ''AK'' ''secret'' [(''Range'', [''bytes=0-1''])] 0 = Inr r"
proof -
  have "list_all validHeaderFieldByte ''GET''" by code_simp
  then show ?thesis
    by (simp add: demo_request_def SignObjectRequest_def demo_signer_def demo_url_def signURL_def normalize_url_def Let_def)
qed

lemma demo_conditions:
  "\<forall>k \<in> fst ` set [(''Range'', [''bytes=0-1''])]. list_all validHeaderFieldByte k \<and> CanonicalHeaderKey k = k"
  "plain_id ''AK''" "plain_id (signer_region demo_signer)"
  "demo_keys ''AK'' (shortTime (0, 0)) (signer_region demo_signer)
   = Inr (deriveSigningKey ''secret'' (shortTime (0, 0)) (signer_region demo_signer))"
  "civil (unix_sec 0 div 86400) = (1970, 0, 1)" "(0::int) \<le> 1970" "(1970::int) < 10000"
  "\<bar>60000000000 - unix_sec 0 * 1000000000\<bar> \<le> maxRequestAge"
proof -
  show "\<forall>k \<in> fst ` set [(''Range'', [''bytes=0-1''])]. list_all validHeaderFieldByte k \<and> CanonicalHeaderKey k = k" by code_simp
  show "civil (unix_sec 0 div 86400) = (1970, 0, 1)" by code_simp
qed (simp_all add: plain_id_def unreserved_def demo_signer_def demo_keys_def credential_GetSigningKey_def GetSecretKey_def
    unix_sec_def maxRequestAge_def)

text \<open>C17: a request signed for upstream passes the validator of a node that holds the same secret, for
  every method, path, query and header set, as long as the clocks agree within fifteen minutes.\<close>

theorem signed_request_validates:
  assumes "signURL s now method u bodyHash ak sk headers len = Inr r"
    and "\<forall>k \<in> fst ` set headers. list_all validHeaderFieldByte k \<and> CanonicalHeaderKey k = k"
    and "plain_id ak" and "plain_id (signer_region s)"
    and "ks ak (shortTime (now, 0)) (signer_region s) = Inr (deriveSigningKey sk (shortTime (now, 0)) (signer_region s))"
    and "civil (unix_sec now div 86400) = (y, m, d)" and "0 \<le> y" and "y < 10000"
    and "\<bar>now' - unix_sec now * 1000000000\<bar> \<le> maxRequestAge"
  shows "ValidateRequest ks now' r = Inr ak"
  using signURL_validates [where ks = ks, OF assms] by (auto simp: ValidateRequest_def)

theorem signed_request_validates_witness:
  "\<exists>r. demo_request = Inr r \<and> ValidateRequest demo_keys 60000000000 r = Inr ''AK''"
  using demo_signed signed_request_validates [where ks = demo_keys and ak = "''AK''" and now = 0, OF _ demo_conditions] by blast

lemma demo_accepts: "\<exists>r vr. demo_request = Inr r \<and> Validate demo_keys 60000000000 r = Inr vr \<and> vr_AccessKey vr = ''AK''"
  using demo_signed signURL_validates [where ks = demo_keys and ak = "''AK''" and now = 0, OF _ demo_conditions] by blast

section \<open>What a signature binds\<close>

lemma no_newline_unreserved: "\<not> unreserved (CHR 0x0A)" "\<not> unreserved (CHR ''&'')" "\<not> unreserved (CHR ''='')" "\<not> unreserved (CHR ''%'')"
  by (simp_all add: unreserved_def)

lemma unescape_aws [sigv4]: "unescape False (awsURIEncode s b) = Some s"
proof (induction s)
  case (Cons c s)
  have "aws_plain b c \<Longrightarrow> c \<noteq> CHR ''%''" using no_newline_unreserved by (auto simp: aws_plain_def)
  with Cons show ?case using unescape_pct [of False c "awsURIEncode s b"] by (auto simp: awsURIEncode_def)
qed (simp add: awsURIEncode_def)

lemma awsURIEncode_inject: "awsURIEncode s b = awsURIEncode t b \<Longrightarrow> s = t"
  by (metis unescape_aws option.inject)

lemma awsURIEncode_chars: "c \<in> set (awsURIEncode s b) \<Longrightarrow> unreserved c \<or> c = CHR ''%'' \<or> c = CHR ''/''"
  using upper_hex_alnum nibbles(2) by (auto simp: awsURIEncode_def pct_def aws_plain_def split: if_splits)

lemma awsURIEncode_no: "c \<in> {CHR 0x0A, CHR ''&'', CHR ''=''} \<Longrightarrow> c \<notin> set (awsURIEncode s b)"
  using awsURIEncode_chars [of c s b] no_newline_unreserved by auto

definition canonical_pairs :: "Values \<Rightarrow> (string \<times> string) list" where
  "canonical_pairs query = concat (map (\<lambda>key. map (Pair key) (sort (values_all query key))) (sort (map fst query)))"

definition render_pair :: "string \<times> string \<Rightarrow> string" where
  "render_pair p = awsURIEncode (fst p) True @ ''='' @ awsURIEncode (snd p) True"

lemma canonicalQueryString_pairs: "canonicalQueryString q = Join ''&'' (map render_pair (canonical_pairs q))"
  by (simp add: canonicalQueryString_def canonical_pairs_def map_concat o_def render_pair_def)

lemma render_pair_inject: "render_pair p = render_pair p' \<Longrightarrow> p = p'"
proof -
  assume e: "render_pair p = render_pair p'"
  have "Cut (render_pair x) (CHR ''='') = (awsURIEncode (fst x) True, awsURIEncode (snd x) True, True)" for x
    using awsURIEncode_no by (simp add: render_pair_def Cut_append)
  from this [of p] this [of p'] e have "awsURIEncode (fst p) True = awsURIEncode (fst p') True"
    "awsURIEncode (snd p) True = awsURIEncode (snd p') True" by simp_all
  then show ?thesis by (metis awsURIEncode_inject prod.expand)
qed

lemma Join_amp_inject:
  assumes "Join ''&'' (map render_pair ps) = Join ''&'' (map render_pair qs)"
  shows "ps = qs"
proof -
  have no: "CHR ''&'' \<notin> set (render_pair p)" for p using awsURIEncode_no by (simp add: render_pair_def)
  have sp: "Split (CHR ''&'') (Join ''&'' (map render_pair xs)) = map render_pair xs" if "xs \<noteq> []" for xs
    using that no by (intro Split_Join) auto
  have ne: "Join ''&'' (map render_pair xs) \<noteq> []" if "xs \<noteq> []" for xs
    using that by (intro Join_not_Nil) (auto simp: render_pair_def hd_map)
  have "map render_pair ps = map render_pair qs"
    using assms sp ne by (cases "ps = []"; cases "qs = []") (metis Join.simps(1) list.map(1))+
  then show ?thesis by (metis inj_map_eq_map injI render_pair_inject)
qed

lemma query_no_newline: "CHR 0x0A \<notin> set (canonicalQueryString q)"
proof -
  have p: "CHR 0x0A \<notin> set (render_pair p)" for p using awsURIEncode_no by (simp add: render_pair_def)
  have "CHR 0x0A \<notin> set (Join ''&'' (map render_pair ps))" for ps
    using p by (induction ps rule: induct_list012) (auto simp: Join_Cons)
  then show ?thesis by (simp add: canonicalQueryString_pairs)
qed

definition request_path :: "Request \<Rightarrow> string" where
  "request_path r = (if URL_Path r = [] then ''/'' else URL_Path r)"

lemma canonical_uri_encodes: "canonical_uri r = awsURIEncode (request_path r) False"
proof -
  have "awsURIEncode ''/'' False = ''/''" by code_simp
  moreover have "awsURIEncode p False = [] \<longleftrightarrow> p = []" for p
    by (cases p) (simp_all add: awsURIEncode_def pct_def)
  ultimately show ?thesis by (simp add: canonical_uri_def request_path_def Let_def)
qed

text \<open>C18: the string a signature covers determines the method, the path, every query parameter, the
  canonical headers, the signed header names and the body hash.\<close>

theorem canonical_request_binds:
  assumes "canonical_request_over q r names bodyHash = canonical_request_over q' r' names' bodyHash'"
    and "CHR 0x0A \<notin> set (Method r @ Method r' @ bodyHash @ bodyHash' @ Join '';'' names @ Join '';'' names')"
  shows "Method r = Method r'
    \<and> request_path r = request_path r'
    \<and> canonical_pairs q = canonical_pairs q'
    \<and> buildCanonicalHeadersFromList r names = buildCanonicalHeadersFromList r' names'
    \<and> Join '';'' names = Join '';'' names' \<and> bodyHash = bodyHash'"
proof -
  let ?n = "CHR 0x0A" let ?q = "canonicalQueryString q" and ?q' = "canonicalQueryString q'"
  let ?h = "buildCanonicalHeadersFromList r names" and ?h' = "buildCanonicalHeadersFromList r' names'"
  have u: "?n \<notin> set (canonical_uri x)" for x
    using awsURIEncode_no by (simp add: canonical_uri_def Let_def)
  have eq: "Method r @ ?n # canonical_uri r @ ?n # ?q @ ?n # (?h @ ?n # Join '';'' names) @ ?n # bodyHash
    = Method r' @ ?n # canonical_uri r' @ ?n # ?q' @ ?n # (?h' @ ?n # Join '';'' names') @ ?n # bodyHash'"
    using assms(1) by (simp add: canonical_request_over_def newline_def)
  from sep_inject [THEN iffD1, OF _ _ this] assms(2) have m: "Method r = Method r'"
    and "canonical_uri r @ ?n # ?q @ ?n # (?h @ ?n # Join '';'' names) @ ?n # bodyHash
      = canonical_uri r' @ ?n # ?q' @ ?n # (?h' @ ?n # Join '';'' names') @ ?n # bodyHash'" by auto
  from sep_inject [THEN iffD1, OF _ _ this(2)] u have c: "canonical_uri r = canonical_uri r'"
    and "?q @ ?n # (?h @ ?n # Join '';'' names) @ ?n # bodyHash = ?q' @ ?n # (?h' @ ?n # Join '';'' names') @ ?n # bodyHash'" by auto
  from sep_inject [THEN iffD1, OF _ _ this(2)] query_no_newline have qq: "?q = ?q'"
    and "(?h @ ?n # Join '';'' names) @ ?n # bodyHash = (?h' @ ?n # Join '';'' names') @ ?n # bodyHash'" by auto
  from sep_inject_right [THEN iffD1, OF _ _ this(2)] assms(2) have b: "bodyHash = bodyHash'"
    and "?h @ ?n # Join '';'' names = ?h' @ ?n # Join '';'' names'" by auto
  from sep_inject_right [THEN iffD1, OF _ _ this(2)] assms(2) have h: "?h = ?h'" "Join '';'' names = Join '';'' names'" by auto
  have "request_path r = request_path r'"
    using c unfolding canonical_uri_encodes by (rule awsURIEncode_inject)
  moreover have "canonical_pairs q = canonical_pairs q'"
    using qq by (intro Join_amp_inject) (simp add: canonicalQueryString_pairs)
  ultimately show ?thesis using m b h by blast
qed

definition bare_get :: "header \<Rightarrow> Request" where
  "bare_get h = \<lparr>Method = ''GET'',
     URL = \<lparr>url_Opaque = [], url_Host = ''t3'', url_Path = ''/b/k'', url_RawPath = [], url_RawQuery = [], url_ForceQuery = False\<rparr>,
     Host = ''t3'', Header = h, ReqContentLength = 0\<rparr>"

theorem canonical_request_binds_witness:
  "canonical_request_over [] (bare_get []) [''host''] ''UNSIGNED-PAYLOAD''
     = canonical_request_over [] (bare_get [(''Accept'', [''x''])]) [''host''] ''UNSIGNED-PAYLOAD''
   \<and> request_path (bare_get []) = request_path (bare_get [(''Accept'', [''x''])])"
proof -
  have e: "canonical_request_over [] (bare_get []) [''host''] ''UNSIGNED-PAYLOAD''
     = canonical_request_over [] (bare_get [(''Accept'', [''x''])]) [''host''] ''UNSIGNED-PAYLOAD''"
    by (simp add: canonical_request_over_def bare_get_def canonical_uri_def buildCanonicalHeadersFromList_def)
  from canonical_request_binds [OF this] e show ?thesis by (simp add: bare_get_def)
qed

section \<open>Accepted requests\<close>

text \<open>C19: an accepted request names a known key, its signature is the one recomputed from the request,
  and its date lies within fifteen minutes of the clock, or for a presigned URL at most its declared
  lifetime, never more than seven days, before it.\<close>

theorem accepted_request_sound:
  assumes "Validate ks now r = Inr vr"
  shows "\<exists>info t key. ParseAuthInfo r = Inr info \<and> vr_AccessKey vr = AccessKey info
    \<and> (\<exists>d. ks (AccessKey info) d (Region info) = Inr key)
    \<and> - maxRequestAge \<le> now - fst t
    \<and> (if IsPresigned info
       then Signature info = computePresignedSignature r info key ''UNSIGNED-PAYLOAD'' t
            \<and> (\<exists>e. values_all (URL_Query r) ''X-Amz-Expires'' = [e] \<and> 1 \<le> fst (ParseInt e 10)
                   \<and> now - fst t \<le> fst (ParseInt e 10) * 1000000000 \<and> now - fst t \<le> 604800 * 1000000000)
       else Signature info = computeSignature r info key (header_get (Header r) ''X-Amz-Content-Sha256'') t
            \<and> header_get (Header r) ''X-Amz-Content-Sha256'' \<noteq> [] \<and> now - fst t \<le> maxRequestAge)"
proof -
  obtain info where info: "ParseAuthInfo r = Inr info"
    using assms by (cases "ParseAuthInfo r") (auto simp: Validate_def Let_def split: if_splits)
  let ?h = "header_get (Header r) ''X-Amz-Content-Sha256''"
  have hash: "\<not> (?h = [] \<and> (\<not> IsPresigned info \<or> Method r \<noteq> ''GET''))"
    using assms info by (auto simp: Validate_def Let_def split: if_splits)
  obtain d where d: "short_date r info = Inr d"
    using assms info hash by (cases "short_date r info") (auto simp: Validate_def Let_def split: if_splits)
  obtain key where key: "ks (AccessKey info) d (Region info) = Inr key"
    using assms info hash d by (cases "ks (AccessKey info) d (Region info)") (auto simp: Validate_def Let_def split: if_splits)
  let ?v = "if IsPresigned info then validatePresigned now r info key else validateSigned now r info key ?h"
  obtain t where t: "?v = Inr t" and ak: "vr_AccessKey vr = AccessKey info"
    using assms info hash d key by (cases ?v) (auto simp: Validate_def Let_def split: if_splits)
  show ?thesis
  proof (cases "IsPresigned info")
    case True
    with t have "validatePresigned now r info key = Inr t" by simp
    then have "- maxRequestAge \<le> now - fst t \<and> Signature info = computePresignedSignature r info key ''UNSIGNED-PAYLOAD'' t
            \<and> (\<exists>e. values_all (URL_Query r) ''X-Amz-Expires'' = [e] \<and> 1 \<le> fst (ParseInt e 10)
                   \<and> now - fst t \<le> fst (ParseInt e 10) * 1000000000 \<and> now - fst t \<le> 604800 * 1000000000)"
      by (auto simp: validatePresigned_def maxPresignedExpires_def Let_def split: if_splits option.splits list.splits prod.splits)
    with True info key ak show ?thesis by (intro exI [of _ info] exI [of _ t] exI [of _ key]) auto
  next
    case False
    with t have "validateSigned now r info key ?h = Inr t" by simp
    then have "- maxRequestAge \<le> now - fst t \<and> now - fst t \<le> maxRequestAge \<and> Signature info = computeSignature r info key ?h t"
      by (auto simp: validateSigned_def Let_def split: if_splits option.splits)
    with False info key ak hash show ?thesis by (intro exI [of _ info] exI [of _ t] exI [of _ key]) auto
  qed
qed

theorem accepted_request_sound_witness:
  "\<exists>r vr info (t :: go_time). demo_request = Inr r \<and> Validate demo_keys 60000000000 r = Inr vr \<and> ParseAuthInfo r = Inr info
     \<and> AccessKey info = ''AK'' \<and> - maxRequestAge \<le> 60000000000 - fst t"
proof -
  obtain r vr where r: "demo_request = Inr r" "Validate demo_keys 60000000000 r = Inr vr" "vr_AccessKey vr = ''AK''"
    using demo_accepts by blast
  from accepted_request_sound [OF r(2)] obtain info and t :: go_time
    where "ParseAuthInfo r = Inr info" "vr_AccessKey vr = AccessKey info" "- maxRequestAge \<le> 60000000000 - fst t" by blast
  with r show ?thesis by metis
qed

text \<open>C20: validation with the credential store reports an unknown access key exactly when the request
  parsed, carried its body hash and a date, and the store has no such key; every other failure is told
  apart from it.\<close>

theorem unknown_key_reported_exactly:
  assumes "Validate (credential_GetSigningKey c) now r = Inl e"
  shows "err_is e ErrUnknownAccessKey \<longleftrightarrow>
    (\<exists>info d. ParseAuthInfo r = Inr info
       \<and> \<not> (header_get (Header r) ''X-Amz-Content-Sha256'' = [] \<and> (\<not> IsPresigned info \<or> Method r \<noteq> ''GET''))
       \<and> short_date r info = Inr d \<and> \<not> HasCredential c (AccessKey info))"
proof -
  have "(\<exists>e. credential_GetSigningKey c ak d rg = Inl e) \<longleftrightarrow> \<not> HasCredential c ak" for ak d rg
    by (auto simp: credential_GetSigningKey_def GetSecretKey_def HasCredential_def split: option.splits)
  then show ?thesis using credential_store.unknown_key_error [OF assms] by blast
qed

theorem unknown_key_reported_exactly_witness:
  "\<exists>r e. demo_request = Inr r \<and> Validate (credential_GetSigningKey NewCredentialStore) 60000000000 r = Inl e
     \<and> err_is e ErrUnknownAccessKey"
proof -
  obtain r vr where r: "demo_request = Inr r" "Validate demo_keys 60000000000 r = Inr vr" using demo_accepts by blast
  from r(2) obtain info d where i: "ParseAuthInfo r = Inr info" "short_date r info = Inr d"
    "\<not> (header_get (Header r) ''X-Amz-Content-Sha256'' = [] \<and> (\<not> IsPresigned info \<or> Method r \<noteq> ''GET''))"
    by (auto simp: Validate_def Let_def split: if_splits sum.splits)
  have n: "\<not> HasCredential NewCredentialStore (AccessKey info)" by (simp add: HasCredential_def NewCredentialStore_def)
  then have "\<exists>e. Validate (credential_GetSigningKey NewCredentialStore) 60000000000 r = Inl e"
    using i by (auto simp: Validate_def credential_GetSigningKey_def GetSecretKey_def HasCredential_def NewCredentialStore_def)
  with unknown_key_reported_exactly [of NewCredentialStore 60000000000 r] i n r(1) show ?thesis by blast
qed

section \<open>Grants\<close>

text \<open>
  The expiring map's documented behaviour: \<open>held s k\<close> is the value last added for \<open>k\<close> and
  not removed since; a lookup returns it or, once expired or evicted, nothing.
\<close>

locale expiring_map =
  fixes l :: "('s, 'v) lru" and held :: "'s \<Rightarrow> string \<Rightarrow> 'v option"
  assumes get_held: "lru_Get l s k = (s', found) \<Longrightarrow> (found \<noteq> None \<longrightarrow> found = held s k) \<and> (\<forall>j. held s' j = held s j \<or> held s' j = None)"
    and add_held: "held (lru_Add l s k v) j = (if j = k then Some v else held s j) \<or> held (lru_Add l s k v) j = None"
    and remove_held: "held (lru_Remove l s k) k = None"
      "held (lru_Remove l s k) j = held s j \<or> held (lru_Remove l s k) j = None"

datatype authz_event = EGrant string string | ERevoke string string | ECheck string string

fun authz_step :: "('s, unit) lru \<Rightarrow> 's \<Rightarrow> authz_event \<Rightarrow> 's" where
  "authz_step l c (EGrant a b) = Grant l c a b"
| "authz_step l c (ERevoke a b) = Revoke l c a b"
| "authz_step l c (ECheck a b) = fst (IsAuthorized l c a b)"

lemma authzKey_inject:
  "CHR 0x00 \<notin> set a \<Longrightarrow> CHR 0x00 \<notin> set a' \<Longrightarrow> authzKey a b = authzKey a' b' \<longleftrightarrow> a = a' \<and> b = b'"
  by (simp add: authzKey_def composite_def sep_inject)

context expiring_map
begin

lemma lookup_held: "snd (lru_Get l s k) \<noteq> None \<Longrightarrow> held s k \<noteq> None"
  using get_held [of s k "fst (lru_Get l s k)" "snd (lru_Get l s k)"] by auto

lemma get_state: "held (fst (lru_Get l s k)) j = held s j \<or> held (fst (lru_Get l s k)) j = None"
  using get_held [of s k "fst (lru_Get l s k)" "snd (lru_Get l s k)"] by simp

end

definition map_lru :: "(string \<rightharpoonup> 'v, 'v) lru" where
  "map_lru = \<lparr>lru_Get = (\<lambda>s k. (s, s k)), lru_Add = (\<lambda>s k v. s(k \<mapsto> v)), lru_Remove = (\<lambda>s k. s(k := None))\<rparr>"

interpretation map_lru: expiring_map map_lru id
  by unfold_locales (auto simp: map_lru_def)

end
