(* ===== verification/Forwarding.thy ===== *)
theory Forwarding
  imports Forwarder Request_Signing
begin

text \<open>What the forwarders do to requests, responses, keys and grants.\<close>

section \<open>Headers\<close>

lemma header_values_set [forwarding]:
  "header_values (header_set h k v) n = (if CanonicalHeaderKey n = CanonicalHeaderKey k then [v] else header_values h n)"
  by (simp add: header_values_def header_set_def update_conv')

lemma header_get_values: "header_get h k \<noteq> [] \<Longrightarrow> header_values h k \<noteq> []"
  by (auto simp: header_get_def)

lemma lower_upper [simp]: "lower (upper c) = lower c"
  by (auto simp: lower_def upper_def Let_def)

lemma ToLower_canon_key: "ToLower (canon_key b k) = ToLower k"
  by (induction k arbitrary: b) (simp_all add: ToLower_def)

lemma ToLower_Canonical: "ToLower (CanonicalHeaderKey k) = ToLower k"
  by (simp add: CanonicalHeaderKey_def ToLower_canon_key)

section \<open>Transparent requests keep the client's signature\<close>

lemma authenticated: "ParseAuthInfo r = Inr info \<Longrightarrow> \<not> hasNoAuthCredentials r"
  by (auto simp: ParseAuthInfo_def parseFromQuery_def hasNoAuthCredentials_def Let_def split: if_splits)

text \<open>The names of signed headers whose values the proxy leaves alone.\<close>

definition untouched :: "Request \<Rightarrow> string \<Rightarrow> bool" where
  "untouched r n \<longleftrightarrow>
     CanonicalHeaderKey n \<notin> set [''X-Tigris-Forwarded-Host'', ''X-Tigris-Proxy-Access-Key'', ''X-Tigris-Proxy-Timestamp'',
                                ''X-Tigris-Proxy-Signature'']
     \<and> (CanonicalHeaderKey n = ''X-Amz-Date'' \<longrightarrow> header_get (Header r) ''X-Amz-Date'' \<noteq> [])"

lemma canon_consts:
  "CanonicalHeaderKey ''X-Tigris-Forwarded-Host'' = ''X-Tigris-Forwarded-Host''"
  "CanonicalHeaderKey ''X-Tigris-Proxy-Access-Key'' = ''X-Tigris-Proxy-Access-Key''"
  "CanonicalHeaderKey ''X-Tigris-Proxy-Timestamp'' = ''X-Tigris-Proxy-Timestamp''"
  "CanonicalHeaderKey ''X-Tigris-Proxy-Signature'' = ''X-Tigris-Proxy-Signature''"
  "CanonicalHeaderKey ''X-Tigris-Proxy-Signing-Keys'' = ''X-Tigris-Proxy-Signing-Keys''"
  "CanonicalHeaderKey ''X-Amz-Date'' = ''X-Amz-Date''"
  "CanonicalHeaderKey ''Content-Encoding'' = ''Content-Encoding''"
  by code_simp+

lemma lower_encoding: "ToLower ''Content-Encoding'' = ''content-encoding''" "ToLower ''content-encoding'' = ''content-encoding''"
  by code_simp+

lemma ensureAWSChunkedEncoding_values:
  "CanonicalHeaderKey n \<noteq> ''Content-Encoding'' \<Longrightarrow> header_values (ensureAWSChunkedEncoding h) n = header_values h n"
  by (auto simp: ensureAWSChunkedEncoding_def Let_def header_values_set canon_consts)

lemma transparent_header_values:
  assumes "buildTransparentRequest f now r = Inr r2" and "ParseAuthInfo r = Inr info"
    and "n \<in> set (SignedHeaders info)" and "untouched r n"
  shows "header_values (Header r2) n = header_values (Header r) n"
proof -
  define h1 where "h1 = (if header_get (Header r) ''X-Amz-Date'' = [] \<and> header_get (Header r) ''Date'' \<noteq> [] then
     (case ParseHTTPDate (header_get (Header r) ''Date'') of
        Some t \<Rightarrow> header_set (Header r) ''X-Amz-Date'' (TimeFormat (fst t, 0)) | None \<Rightarrow> Header r) else Header r)"
  define h2 where "h2 = (if IsStreamingPayload (header_get h1 ''X-Amz-Content-Sha256'') \<and> \<not> isContentEncodingSigned r
     then ensureAWSChunkedEncoding h1 else h1)"
  have 1: "header_values h1 n = header_values (Header r) n"
    using assms(4) by (auto simp: h1_def untouched_def header_values_set canon_consts split: option.splits)
  have "header_values h2 n = header_values h1 n"
  proof (cases "CanonicalHeaderKey n = ''Content-Encoding''")
    case True
    then have "EqualFold n ''content-encoding''"
      using ToLower_Canonical [of n] lower_encoding by (simp add: EqualFold_def)
    then have "isContentEncodingSigned r" using assms(2,3) by (auto simp: isContentEncodingSigned_def list_ex_iff)
    then show ?thesis by (simp add: h2_def)
  next
    case False
    then show ?thesis by (simp add: h2_def ensureAWSChunkedEncoding_values)
  qed
  with 1 have 2: "header_values h2 n = header_values (Header r) n" by simp
  obtain a b c d where "Header r2 = header_set (header_set (header_set (header_set h2 ''X-Tigris-Forwarded-Host'' a)
      ''X-Tigris-Proxy-Access-Key'' b) ''X-Tigris-Proxy-Timestamp'' c) ''X-Tigris-Proxy-Signature'' d"
    using assms(1) unfolding buildTransparentRequest_def Let_def h1_def [symmetric] h2_def [symmetric]
    by (auto split: sum.splits)
  with 2 assms(4) show ?thesis by (simp add: header_values_set canon_consts untouched_def)
qed

lemma transparent_url:
  assumes "buildTransparentRequest f now r = Inr r2" and "\<not> hasNoAuthCredentials r"
    and "EscapedPath (URL r) = CHR ''/'' # p" and "CHR ''#'' \<notin> set (url_RawQuery (URL r))"
  shows "URL_Path r2 = URL_Path r \<and> url_RawQuery (URL r2) = url_RawQuery (URL r) \<and> Method r2 = (if Method r = [] then ''GET'' else Method r)"
proof -
  from assms(1,2) obtain base where
    u: "NewRequest_URL (base\<lparr>url_Path := URL_Path r, url_RawPath := url_RawPath (URL r), url_RawQuery := url_RawQuery (URL r)\<rparr>) = Inr (URL r2)"
    and m: "Method r2 = (if Method r = [] then ''GET'' else Method r)"
    by (auto simp: buildTransparentRequest_def Let_def split: sum.splits)
  have "EscapedPath (base\<lparr>url_Path := URL_Path r, url_RawPath := url_RawPath (URL r), url_RawQuery := url_RawQuery (URL r)\<rparr>) = EscapedPath (URL r)"
    by (simp add: EscapedPath_def)
  then have e: "EscapedPath (base\<lparr>url_Path := URL_Path r, url_RawPath := url_RawPath (URL r), url_RawQuery := url_RawQuery (URL r)\<rparr>) = CHR ''/'' # p"
    using assms(3) by simp
  have "Cut (url_RawQuery (URL r)) (CHR ''#'') = (url_RawQuery (URL r), [], False)"
    using assms(4) by (simp add: Cut_def IndexByte_None [THEN iffD2])
  with NewRequest_URL_path [OF u] e m show ?thesis by simp
qed

lemma transparent_canonical:
  assumes "ParseAuthInfo r = Inr info" and "buildTransparentRequest f now r = Inr r2"
    and "EscapedPath (URL r) = CHR ''/'' # p" and "CHR ''#'' \<notin> set (url_RawQuery (URL r))"
    and "Method r \<noteq> []" and "Host r \<noteq> []" and "\<forall>n \<in> set (SignedHeaders info). untouched r n"
  shows "canonical_request_over q (r2\<lparr>Host := Host r\<rparr>) (SignedHeaders info) bodyHash
         = canonical_request_over q r (SignedHeaders info) bodyHash"
proof -
  note u = transparent_url [OF assms(2) authenticated [OF assms(1)] assms(3,4)]
  have "header_values (Header r2) n = header_values (Header r) n" if "n \<in> set (SignedHeaders info)" for n
    using transparent_header_values [OF assms(2,1) that] assms(7) that by blast
  then have "buildCanonicalHeadersFromList (r2\<lparr>Host := Host r\<rparr>) (SignedHeaders info) = buildCanonicalHeadersFromList r (SignedHeaders info)"
    using assms(6) by (auto simp: buildCanonicalHeadersFromList_def intro!: arg_cong [where f = concat] map_cong)
  moreover have "canonical_uri (r2\<lparr>Host := Host r\<rparr>) = canonical_uri r" using u by (simp add: canonical_uri_def)
  ultimately show ?thesis using u assms(5) by (simp add: canonical_request_over_def)
qed

section \<open>Re-signed requests\<close>

lemma Validate_content_length [simp]: "Validate ks now (r\<lparr>ReqContentLength := n\<rparr>) = Validate ks now r"
proof -
  let ?r = "r\<lparr>ReqContentLength := n\<rparr>"
  have sel: "Header ?r = Header r" "URL ?r = URL r" "Host ?r = Host r" "Method ?r = Method r" by simp_all
  have q: "URL_Query ?r = URL_Query r" unfolding URL_Query_def sel ..
  have p: "ParseAuthInfo ?r = ParseAuthInfo r" unfolding ParseAuthInfo_def parseFromQuery_def sel q ..
  have "canonical_request_over x ?r hs b = canonical_request_over x r hs b" for x hs b
    unfolding canonical_request_over_def canonical_uri_def buildCanonicalHeadersFromList_def sel ..
  then have c: "computeSignature ?r = computeSignature r" "computePresignedSignature ?r = computePresignedSignature r"
    unfolding computeSignature_def computePresignedSignature_def validator_signature_def q by presburger+
  show ?thesis
    unfolding Validate_def short_date_def validateSigned_def validatePresigned_def sel q p c ..
qed

lemma forwarded_keys:
  assumes "\<forall>k \<in> fst ` set h. list_all validHeaderFieldByte k \<and> CanonicalHeaderKey k = k"
  shows "\<forall>k \<in> fst ` set (headersForForwardedSigning h chunked). list_all validHeaderFieldByte k \<and> CanonicalHeaderKey k = k"
proof -
  have d: "fst ` set (header_del h' n) \<subseteq> fst ` set h'" for h' n
    by (auto simp: header_del_def AList.delete_eq)
  have s: "fst ` set (header_set h' ''Content-Encoding'' v) \<subseteq> insert ''Content-Encoding'' (fst ` set h')" for h' v
    using AList.dom_update [of "CanonicalHeaderKey ''Content-Encoding''" "[v]" h'] by (simp add: header_set_def canon_consts)
  have c: "list_all validHeaderFieldByte ''Content-Encoding''" by code_simp
  let ?h = "header_del h ''X-Amz-Decoded-Content-Length''"
  let ?ce = "header_get ?h ''Content-Encoding''"
  have 1: "fst ` set ?h \<subseteq> insert ''Content-Encoding'' (fst ` set h)" by (rule order_trans [OF d subset_insertI])
  have 2: "fst ` set (header_del ?h ''Content-Encoding'') \<subseteq> insert ''Content-Encoding'' (fst ` set h)" by (rule order_trans [OF d 1])
  have 3: "fst ` set (header_set ?h ''Content-Encoding'' v) \<subseteq> insert ''Content-Encoding'' (fst ` set h)" for v
    by (rule order_trans [OF s]) (rule insert_subsetI [OF insertI1 1])
  have "headersForForwardedSigning h chunked =
    (if \<not> chunked then h else if ?ce = [] then ?h else if stripAWSChunkedToken ?ce = [] then header_del ?h ''Content-Encoding''
     else header_set ?h ''Content-Encoding'' (stripAWSChunkedToken ?ce))"
    unfolding headersForForwardedSigning_def Let_def ..
  with 1 2 3 have sub: "fst ` set (headersForForwardedSigning h chunked) \<subseteq> insert ''Content-Encoding'' (fst ` set h)"
    by (metis subset_insertI)
  show ?thesis
  proof
    fix k
    assume "k \<in> fst ` set (headersForForwardedSigning h chunked)"
    from subsetD [OF sub this] show "list_all validHeaderFieldByte k \<and> CanonicalHeaderKey k = k"
      using c canon_consts(7) assms by (elim insertE) (simp only:, simp only: bspec [OF assms])
  qed
qed

lemma signForward_cases:
  assumes "signForward f now r body bodyHash contentLength chunked ak sk = Inr (r2, out)"
  obtains e r1 n where "endpointURL (sf_signer f) = Inr e"
    and "signURL (sf_signer f) now (Method r)
           (e\<lparr>url_Path := fst (Cut (URL_Path r @ (if url_RawQuery (URL r) = [] then [] else CHR ''?'' # url_RawQuery (URL r))) (CHR ''?'')),
              url_RawQuery := fst (snd (Cut (URL_Path r @ (if url_RawQuery (URL r) = [] then [] else CHR ''?'' # url_RawQuery (URL r))) (CHR ''?'')))\<rparr>)
           bodyHash ak sk (headersForForwardedSigning (Header r) chunked) 0 = Inr r1"
    and "r2 = r1\<lparr>ReqContentLength := n\<rparr>"
proof -
  let ?p = "URL_Path r @ (if url_RawQuery (URL r) = [] then [] else CHR ''?'' # url_RawQuery (URL r))"
  have p: "(if url_RawQuery (URL r) \<noteq> [] then URL_Path r @ ''?'' @ url_RawQuery (URL r) else URL_Path r) = ?p" by simp
  obtain r1 where r1: "SignRequest (sf_signer f) now (Method r) ?p bodyHash ak sk (headersForForwardedSigning (Header r) chunked) 0 = Inr r1"
    and r2: "(r2, out) = prepareForwardedRequest r1 body contentLength chunked"
    using assms unfolding signForward_def Let_def p by (auto split: sum.splits)
  from r1 obtain e where e: "endpointURL (sf_signer f) = Inr e"
    and u: "signURL (sf_signer f) now (Method r) (e\<lparr>url_Path := fst (Cut ?p (CHR ''?'')), url_RawQuery := fst (snd (Cut ?p (CHR ''?'')))\<rparr>)
           bodyHash ak sk (headersForForwardedSigning (Header r) chunked) 0 = Inr r1"
    by (auto simp: SignRequest_def split: sum.splits prod.splits)
  have "r2 = r1\<lparr>ReqContentLength := ReqContentLength r2\<rparr>"
    using r2 by (auto simp: prepareForwardedRequest_def split: if_splits)
  from that [OF e u this] show ?thesis .
qed

lemma signURL_target:
  assumes "signURL s now m (e\<lparr>url_Path := CHR ''/'' # p, url_RawQuery := q\<rparr>) bodyHash ak sk h n = Inr r1"
    and "url_Opaque e = []" and "url_RawPath e = []" and "CHR ''#'' \<notin> set q"
  shows "URL_Path r1 = CHR ''/'' # p \<and> url_RawQuery (URL r1) = q \<and> Method r1 = (if m = [] then ''GET'' else m)"
proof -
  let ?u = "e\<lparr>url_Path := CHR ''/'' # p, url_RawQuery := q\<rparr>"
  have u: "normalize_url ?u = ?u\<lparr>url_ForceQuery := url_ForceQuery e \<and> q = []\<rparr>"
    using assms(2,3) by (simp add: normalize_url_def Let_def)
  have h: "URL (signHTTP g x a b c t) = URL x \<and> Method (signHTTP g x a b c t) = Method x" for g x a b c t
    by (simp add: signHTTP_def Let_def split: prod.splits)
  show ?thesis using assms(1,4) by (auto simp: signURL_def u h Let_def split: if_splits)
qed

lemma prepare_cases:
  assumes "prepare f now r body tee = Inr (r2, out, ak, sk)"
  obtains vr b bodyHash n chunked where "validate f now r = Inr (vr, sk)" and "vr_AccessKey vr = ak"
    and "signForward f now r (tee b) bodyHash n chunked ak sk = Inr (r2, out)"
  using assms by (auto simp: prepare_def split: sum.splits prod.splits)

lemma validate_secret: "validate f now r = Inr (vr, sk) \<Longrightarrow> GetSecretKey (sf_credStore f) (vr_AccessKey vr) = Inr sk"
  by (auto simp: validate_def split: sum.splits)

lemma signForward_path:
  assumes "signForward f now r body bodyHash n chunked ak sk = Inr (r2, out)"
    and "endpointURL (sf_signer f) = Inr e" and "url_Opaque e = []" and "url_RawPath e = []"
    and "URL_Path r = CHR ''/'' # p" and "CHR ''#'' \<notin> set p \<union> set (url_RawQuery (URL r))"
  shows "URL_Path r2 = takeWhile (\<lambda>c. c \<noteq> CHR ''?'') (URL_Path r)
    \<and> (CHR ''?'' \<notin> set p \<longrightarrow> url_RawQuery (URL r2) = url_RawQuery (URL r))
    \<and> Method r2 = (if Method r = [] then ''GET'' else Method r)"
proof -
  let ?t = "URL_Path r @ (if url_RawQuery (URL r) = [] then [] else CHR ''?'' # url_RawQuery (URL r))"
  obtain r1 n where s: "signURL (sf_signer f) now (Method r) (e\<lparr>url_Path := fst (Cut ?t (CHR ''?'')), url_RawQuery := fst (snd (Cut ?t (CHR ''?'')))\<rparr>)
      bodyHash ak sk (headersForForwardedSigning (Header r) chunked) 0 = Inr r1" and r2: "r2 = r1\<lparr>ReqContentLength := n\<rparr>"
    by (rule signForward_cases [OF assms(1)]) (simp add: assms(2) that)
  have path: "fst (Cut ?t (CHR ''?'')) = takeWhile (\<lambda>c. c \<noteq> CHR ''?'') (URL_Path r)"
    by (auto simp: Cut_at takeWhile_append takeWhile_eq_all_conv [THEN iffD2])
  have "fst (Cut ?t (CHR ''?'')) = CHR ''/'' # takeWhile (\<lambda>c. c \<noteq> CHR ''?'') p" using path assms(5) by simp
  note s = s [unfolded this]
  have "set (fst (snd (Cut ?t (CHR ''?'')))) \<subseteq> set ?t"
    by (auto simp: Cut_def split: option.splits dest: in_set_dropD)
  then have "CHR ''#'' \<notin> set (fst (snd (Cut ?t (CHR ''?''))))" using assms(5,6) by (auto split: if_splits)
  from signURL_target [OF s assms(3,4) this] r2 path assms(5)
  have 1: "URL_Path r2 = takeWhile (\<lambda>c. c \<noteq> CHR ''?'') (URL_Path r)" "url_RawQuery (URL r2) = fst (snd (Cut ?t (CHR ''?'')))"
    "Method r2 = (if Method r = [] then ''GET'' else Method r)" by simp_all
  have "fst (snd (Cut ?t (CHR ''?''))) = url_RawQuery (URL r)" if "CHR ''?'' \<notin> set p"
  proof (cases "url_RawQuery (URL r) = []")
    case True
    then show ?thesis using that assms(5) by (simp add: Cut_def IndexByte_None [THEN iffD2])
  next
    case False
    then show ?thesis using that assms(5) Cut_append [of "CHR ''?''" "URL_Path r" "url_RawQuery (URL r)"] by simp
  qed
  with 1 show ?thesis by simp
qed

section \<open>Responses\<close>

abbreviation keys_header :: string where
  "keys_header \<equiv> ''X-Tigris-Proxy-Signing-Keys''"

lemma copyHeaders_absent:
  assumes "map_of dst k = None" and "map_of src k = None" and "take 11 k \<noteq> ''x-amz-meta-''"
  shows "map_of (copyHeaders dst src) k = None"
proof -
  have l: "ToLower ''x-amz-meta-'' = ''x-amz-meta-''" by code_simp
  have m: "ToLower k' \<noteq> k" if "11 \<le> length k'" "EqualFold (take 11 k') ''x-amz-meta-''" for k'
  proof -
    have r: "fold_letters ''x-amz-meta-'' = ''x-amz-meta-''" by code_simp
    have f: "fold_letters (ToLower (take 11 k')) = ''x-amz-meta-''" using that(2) unfolding EqualFold_def l r .
    have "ToLower (take 11 k') = ''x-amz-meta-''"
      using fold_letters_id [of "ToLower (take 11 k')"] f that(1) by (simp add: ToLower_def)
    with assms(3) l show ?thesis by (auto simp: ToLower_def take_map)
  qed
  have "map_of (foldl (\<lambda>d (k, v). if 11 \<le> length k \<and> EqualFold (take 11 k) ''x-amz-meta-'' then header_put_raw d (ToLower k) v
                       else header_put_raw d k v) d src) k = None"
    if "map_of d k = None" "k \<notin> fst ` set src" for d
    using that
  proof (induction src arbitrary: d)
    case (Cons x src)
    obtain n v where x: "x = (n, v)" by fastforce
    have "map_of (header_put_raw d j v) k = None" if "j \<noteq> k" for j
      using that Cons.prems(1) by (simp add: header_put_raw_def update_conv')
    then show ?case using Cons x m [of n] by (auto simp: image_iff)
  qed simp
  then show ?thesis using assms(1,2) by (simp add: copyHeaders_def map_of_eq_None_iff)
qed

lemma learn_strips:
  "learnSigningKeys f r resp st = (st', resp') \<Longrightarrow> map_of (resp_Header resp') keys_header = None"
  by (auto simp: learnSigningKeys_def Let_def header_del_def delete_conv' canon_consts split: option.splits if_splits sum.splits)

lemma grant_response: "snd (grantReadAuthorization f r resp st) = resp"
  by (auto simp: grantReadAuthorization_def Let_def split: option.splits sum.splits prod.splits)

lemma revoke_response: "snd (handleAuthzRevocation f r resp st) = resp"
  by (auto simp: handleAuthzRevocation_def split: option.splits sum.splits)

lemma intercept_strips:
  assumes "interceptResponse f r resp st = (st', resp')"
  shows "map_of (resp_Header resp') keys_header = None"
proof -
  obtain st1 resp1 where 1: "learnSigningKeys f r resp st = (st1, resp1)" by fastforce
  obtain st2 resp2 where 2: "grantReadAuthorization f r resp1 st1 = (st2, resp2)" by fastforce
  have "resp' = resp1"
    using assms 1 2 grant_response [of f r resp1 st1] revoke_response [of f r resp2 st2] by (simp add: interceptResponse_def)
  with learn_strips [OF 1] show ?thesis by simp
qed

lemma respond_sent:
  assumes "rw_sent rw = None" and "map_of (rw_header rw) keys_header = None" and "map_of (resp_Header resp) keys_header = None"
  shows "\<exists>h. rw_sent (respond resp rw) = Some (resp_Status resp, h) \<and> map_of h keys_header = None"
proof -
  have "take 11 keys_header \<noteq> ''x-amz-meta-''" by simp
  from copyHeaders_absent [OF assms(2,3) this] assms(1) show ?thesis by (simp add: respond_def WriteHeader_def)
qed

lemma io_Copy_sent: "io_Copy b rw = (rw', n, e) \<Longrightarrow> rw_sent rw \<noteq> None \<Longrightarrow> rw_sent rw' = rw_sent rw"
  using io_Copy_committed [of rw b] by simp

lemma stream_cases:
  assumes "executeAndStream up icpt rw req b st = (st', rw', e)"
  shows "rw' = rw \<or> (\<exists>resp a a' resp' n. icpt resp a = (a', resp') \<and> io_Copy (resp_Body resp') (respond resp' rw) = (rw', n, e))"
proof -
  obtain w sent res where d: "up_Do up req b (snd st) = (w, sent, res)" by (metis prod_cases3)
  show ?thesis
  proof (cases res)
    case (Inr resp)
    obtain a resp' where i: "icpt resp (fst st) = (a, resp')" by fastforce
    obtain rw1 n e1 where "io_Copy (resp_Body resp') (respond resp' rw) = (rw1, n, e1)" by (metis prod_cases3)
    with assms d Inr i show ?thesis by (auto simp: executeAndStream_def executeAndStreamWithMeta_def)
  qed (use assms d in \<open>simp add: executeAndStream_def executeAndStreamWithMeta_def\<close>)
qed

lemma capture_cases:
  assumes "executeAndCapture up icpt rw req b st = (st', rw', Inr capture)"
  shows "\<exists>resp a a' resp' n e. icpt resp a = (a', resp') \<and> io_Copy (resp_Body resp') (respond resp' rw) = (rw', n, e)
    \<and> cap_Headers capture = resp_Header resp' \<and> cap_StatusCode capture = resp_Status resp'"
proof -
  obtain w sent res where d: "up_Do up req b (snd st) = (w, sent, res)" by (metis prod_cases3)
  show ?thesis
  proof (cases res)
    case (Inr resp)
    obtain a resp' where i: "icpt resp (fst st) = (a, resp')" by fastforce
    obtain rw1 n e1 where c: "io_Copy (resp_Body resp') (respond resp' rw) = (rw1, n, e1)" by (metis prod_cases3)
    with assms d Inr i have "rw' = rw1" "cap_Headers capture = resp_Header resp'" "cap_StatusCode capture = resp_Status resp'"
      by (auto simp: executeAndCapture_def)
    with i c show ?thesis by blast
  qed (use assms d in \<open>simp add: executeAndCapture_def\<close>)
qed

lemma intercept_response:
  "snd (interceptResponse f r resp st) = resp\<lparr>resp_Header := header_del (resp_Header resp) ''X-Tigris-Proxy-Signing-Keys''\<rparr>"
proof -
  obtain st1 resp1 where 1: "learnSigningKeys f r resp st = (st1, resp1)" by fastforce
  obtain st2 resp2 where 2: "grantReadAuthorization f r resp1 st1 = (st2, resp2)" by fastforce
  have "resp1 = resp\<lparr>resp_Header := header_del (resp_Header resp) ''X-Tigris-Proxy-Signing-Keys''\<rparr>"
    using 1 by (auto simp: learnSigningKeys_def Let_def split: option.splits if_splits sum.splits)
  then show ?thesis using 1 2 grant_response [of f r resp1 st1] revoke_response [of f r resp2 st2] by (simp add: interceptResponse_def)
qed

section \<open>Grants\<close>

datatype forward_event = Intercepted Request Response | Checked int Request

fun forward_step :: "('s, 't, 'u) transparentForwarder \<Rightarrow> ('s, 't, 'u) auth_state \<Rightarrow> forward_event \<Rightarrow> ('s, 't, 'u) auth_state" where
  "forward_step f st (Intercepted r resp) = fst (interceptResponse f r resp st)"
| "forward_step f st (Checked now r) = fst (validateLocally f now r st)"

definition caller :: "string \<Rightarrow> string \<Rightarrow> Request \<Rightarrow> bool" where
  "caller a b r \<longleftrightarrow> (\<exists>info. ParseAuthInfo r = Inr info \<and> AccessKey info = a) \<and> fst (ParseBucketKey r) = b"

definition object_read :: "Request \<Rightarrow> bool" where
  "object_read r \<longleftrightarrow>
     (Method r = ''GET'' \<or> Method r = ''HEAD'') \<and> isReadAuthorizationQuery (url_RawQuery (URL r))
     \<and> fst (ParseBucketKey r) \<noteq> [] \<and> snd (ParseBucketKey r) \<noteq> []"

text \<open>Whether the origin let this access key read an object of the bucket and has not refused it since; newest first.\<close>

fun read_granted :: "string \<Rightarrow> string \<Rightarrow> forward_event list \<Rightarrow> bool" where
  "read_granted a b [] = False"
| "read_granted a b (Checked now r # es) = read_granted a b es"
| "read_granted a b (Intercepted r resp # es) =
     (caller a b r \<and> object_read r \<and> 200 \<le> resp_Status resp \<and> resp_Status resp < 300
      \<or> \<not> (caller a b r \<and> resp_Status resp = 403) \<and> read_granted a b es)"

lemma learn_authz:
  "learnSigningKeys f r resp st = (st', resp') \<Longrightarrow> snd st' = snd st \<and> resp_Status resp' = resp_Status resp"
  by (auto simp: learnSigningKeys_def Let_def split: option.splits if_splits sum.splits)

definition grant_events :: "Request \<Rightarrow> int \<Rightarrow> authz_event list" where
  "grant_events r status =
     (case ParseAuthInfo r of
        Inl _ \<Rightarrow> []
      | Inr info \<Rightarrow> if object_read r \<and> 200 \<le> status \<and> status < 300 then [EGrant (AccessKey info) (fst (ParseBucketKey r))] else [])"

definition revoke_events :: "Request \<Rightarrow> int \<Rightarrow> authz_event list" where
  "revoke_events r status =
     (case ParseAuthInfo r of
        Inl _ \<Rightarrow> []
      | Inr info \<Rightarrow> if status = 403 then [ERevoke (AccessKey info) (fst (ParseBucketKey r))] else [])"

lemma grant_authz:
  assumes "tf_local f = Some la" and "grantReadAuthorization f r resp st = (st', resp')"
  shows "snd st' = foldl (authz_step (la_authz la)) (snd st) (grant_events r (resp_Status resp)) \<and> resp' = resp"
  using assms by (auto simp: grantReadAuthorization_def grant_events_def object_read_def Let_def split: if_splits sum.splits prod.splits)

lemma revoke_authz:
  assumes "tf_local f = Some la" and "handleAuthzRevocation f r resp st = (st', resp')"
  shows "snd st' = foldl (authz_step (la_authz la)) (snd st) (revoke_events r (resp_Status resp)) \<and> resp' = resp"
  using assms by (auto simp: handleAuthzRevocation_def revoke_events_def split: if_splits sum.splits)

lemma intercept_authz:
  assumes "tf_local f = Some la"
  shows "snd (fst (interceptResponse f r resp st))
    = foldl (authz_step (la_authz la)) (snd st) (grant_events r (resp_Status resp) @ revoke_events r (resp_Status resp))"
proof -
  obtain st1 resp1 where 1: "learnSigningKeys f r resp st = (st1, resp1)" by fastforce
  obtain st2 resp2 where 2: "grantReadAuthorization f r resp1 st1 = (st2, resp2)" by fastforce
  obtain st3 resp3 where 3: "handleAuthzRevocation f r resp2 st2 = (st3, resp3)" by fastforce
  show ?thesis
    using learn_authz [OF 1] grant_authz [OF assms 2] revoke_authz [OF assms 3] 1 2 3 by (simp add: interceptResponse_def)
qed

lemma check_held:
  assumes "expiring_map (la_authz la) held" and "tf_local f = Some la" and "validateLocally f now r st = (st', res)"
    and "held (snd st') k \<noteq> None"
  shows "held (snd st) k \<noteq> None"
proof -
  have "snd st' = snd st \<or> (\<exists>a b. snd st' = fst (lru_Get (la_authz la) (snd st) (authzKey a b)))"
    using assms(2,3) by (auto simp: validateLocally_def IsAuthorized_def Let_def split: sum.splits if_splits prod.splits) (metis fst_conv)+
  with assms(4) expiring_map.get_state [OF assms(1)] show ?thesis by metis
qed

definition nul_free :: "Request \<Rightarrow> bool" where
  "nul_free r \<longleftrightarrow> (\<forall>info. ParseAuthInfo r = Inr info \<longrightarrow> CHR 0x00 \<notin> set (AccessKey info))"

fun event_request :: "forward_event \<Rightarrow> Request" where
  "event_request (Intercepted r resp) = r" | "event_request (Checked now r) = r"

lemma intercept_held:
  assumes "expiring_map (la_authz la) held" and "CHR 0x00 \<notin> set a" and "nul_free r"
    and "held (foldl (authz_step (la_authz la)) s (grant_events r status @ revoke_events r status)) (authzKey a b) \<noteq> None"
  shows "caller a b r \<and> object_read r \<and> 200 \<le> status \<and> status < 300
         \<or> \<not> (caller a b r \<and> status = 403) \<and> held s (authzKey a b) \<noteq> None"
proof (cases "ParseAuthInfo r")
  case (Inl e)
  with assms(4) show ?thesis by (simp add: grant_events_def revoke_events_def caller_def)
next
  case (Inr info)
  let ?k = "authzKey (AccessKey info) (fst (ParseBucketKey r))"
  have eq: "?k = authzKey a b \<longleftrightarrow> caller a b r"
    using authzKey_inject [of "AccessKey info" a] assms(2,3) Inr by (auto simp: caller_def nul_free_def)
  note laws = expiring_map.add_held [OF assms(1), of s ?k "()" "authzKey a b"]
    expiring_map.remove_held(1) [OF assms(1), of s ?k] expiring_map.remove_held(2) [OF assms(1), of s ?k "authzKey a b"]
  show ?thesis using assms(4) Inr laws eq
    by (auto simp: grant_events_def revoke_events_def Grant_def Revoke_def split: if_splits)
qed

lemma held_read_granted:
  assumes "expiring_map (la_authz la) held" and "tf_local f = Some la" and "held (snd st0) (authzKey a b) = None"
    and "CHR 0x00 \<notin> set a" and "\<forall>ev \<in> set es. nul_free (event_request ev)"
    and "held (snd (foldl (forward_step f) st0 (rev es))) (authzKey a b) \<noteq> None"
  shows "read_granted a b es"
  using assms(5,6)
proof (induction es)
  case Nil
  with assms(3) show ?case by simp
next
  case (Cons ev es)
  let ?st = "foldl (forward_step f) st0 (rev es)"
  have IH: "held (snd ?st) (authzKey a b) \<noteq> None \<Longrightarrow> read_granted a b es" using Cons by simp
  show ?case
  proof (cases ev)
    case (Intercepted r resp)
    with Cons.prems intercept_held [OF assms(1,4), of r "snd ?st" "resp_Status resp"] intercept_authz [OF assms(2)] IH
    show ?thesis by auto
  next
    case (Checked now r)
    obtain st' res where v: "validateLocally f now r ?st = (st', res)" by fastforce
    with check_held [OF assms(1,2) v] Cons.prems IH Checked show ?thesis by simp
  qed
qed

section \<open>Properties\<close>

text \<open>C24: A transparently forwarded request carries the client's signature unbroken: the origin, told the
  client's host, recomputes for it exactly the signature it would compute for the client's own request, in the
  header and in the presigned form, whatever headers the proxy added or completed. The signed headers must not
  name the proxy's own, and a signed X-Amz-Date must be there.\<close>

theorem transparent_signature_preserved:
  assumes "ParseAuthInfo r = Inr info" and "buildTransparentRequest f now r = Inr r2"
    and "EscapedPath (URL r) = CHR ''/'' # p" and "CHR ''#'' \<notin> set (url_RawQuery (URL r))"
    and "Method r \<noteq> []" and "Host r \<noteq> []" and "\<forall>n \<in> set (SignedHeaders info). untouched r n"
  shows "computeSignature (r2\<lparr>Host := Host r\<rparr>) info key bodyHash t = computeSignature r info key bodyHash t
         \<and> computePresignedSignature (r2\<lparr>Host := Host r\<rparr>) info key bodyHash t = computePresignedSignature r info key bodyHash t"
  using transparent_canonical [OF assms] transparent_url [OF assms(2) authenticated [OF assms(1)] assms(3,4)]
  by (simp add: computeSignature_def computePresignedSignature_def validator_signature_def URL_Query_def)

text \<open>C25: What the signing forwarder sends was asked for by a caller whose signature the credential store's
  key validates, and the origin accepts it as coming from that same access key, signed anew over the headers
  and body hash it carries, as long as the clocks agree within the tolerated skew. A path without a question
  mark goes out as it came, with its query.\<close>

theorem forwarded_request_validates:
  assumes "prepare f now r body tee = Inr (r2, out, ak, sk)"
    and "\<forall>k \<in> fst ` set (Header r). list_all validHeaderFieldByte k \<and> CanonicalHeaderKey k = k"
    and "plain_id ak" and "plain_id (signer_region (sf_signer f))"
    and "ks ak (shortTime (now, 0)) (signer_region (sf_signer f))
         = Inr (deriveSigningKey sk (shortTime (now, 0)) (signer_region (sf_signer f)))"
    and "civil (unix_sec now div 86400) = (y, m, d)" and "0 \<le> y" and "y < 10000"
    and "\<bar>now' - unix_sec now * 1000000000\<bar> \<le> maxRequestAge"
    and "endpointURL (sf_signer f) = Inr e" and "url_Opaque e = []" and "url_RawPath e = []"
    and "URL_Path r = CHR ''/'' # p" and "CHR ''#'' \<notin> set p \<union> set (url_RawQuery (URL r))"
  shows "ValidateRequest ks now' r2 = Inr ak
    \<and> (\<exists>vr. Validate (credential_GetSigningKey (sf_credStore f)) now r = Inr vr \<and> vr_AccessKey vr = ak)
    \<and> (CHR ''?'' \<notin> set p \<longrightarrow> URL_Path r2 = URL_Path r \<and> url_RawQuery (URL r2) = url_RawQuery (URL r))"
proof -
  obtain vr b bodyHash n chunked where v: "validate f now r = Inr (vr, sk)" "vr_AccessKey vr = ak"
    and s: "signForward f now r (tee b) bodyHash n chunked ak sk = Inr (r2, out)"
    using prepare_cases [OF assms(1)] .
  have "Validate (credential_GetSigningKey (sf_credStore f)) now r = Inr vr"
    using v(1) by (auto simp: validate_def validateRequest_def split: sum.splits if_splits)
  moreover obtain e' r1 n' u h where su: "signURL (sf_signer f) now (Method r) u bodyHash ak sk (headersForForwardedSigning (Header r) h) 0 = Inr r1"
    and r2: "r2 = r1\<lparr>ReqContentLength := n'\<rparr>"
    by (rule signForward_cases [OF s]) (rule that)
  from signURL_validates [where ks = ks, OF su forwarded_keys [OF assms(2)] assms(3-9)]
  have "ValidateRequest ks now' r2 = Inr ak" by (auto simp: ValidateRequest_def r2)
  moreover have "CHR ''?'' \<notin> set p \<longrightarrow> URL_Path r2 = URL_Path r"
    using signForward_path [OF s assms(10-14)] assms(13) by (auto simp: takeWhile_eq_all_conv)
  ultimately show ?thesis using v(2) signForward_path [OF s assms(10-14)] by blast
qed

text \<open>C28: A key with a question mark is misdirected by the signing forwarder: the request for a?x goes out, and
  is signed, for the path cut at the question mark, so that a DELETE or PUT of one object reaches another.\<close>

theorem question_mark_key_misdirected:
  assumes "signForward f now r body bodyHash n chunked ak sk = Inr (r2, out)"
    and "endpointURL (sf_signer f) = Inr e" and "url_Opaque e = []" and "url_RawPath e = []"
    and "URL_Path r = ''/'' @ bucket @ ''/'' @ a @ ''?'' @ x"
    and "CHR ''#'' \<notin> set (bucket @ a @ x @ url_RawQuery (URL r))" and "CHR ''/'' \<notin> set bucket" and "CHR ''?'' \<notin> set (bucket @ a)"
  shows "ParseBucketKey r = (bucket, a @ ''?'' @ x) \<and> ParseBucketKey r2 = (bucket, a) \<and> Method r2 = (if Method r = [] then ''GET'' else Method r)"
proof -
  have c: "CHR ''#'' \<notin> set (bucket @ ''/'' @ a @ ''?'' @ x) \<union> set (url_RawQuery (URL r))" using assms(6) by auto
  have p: "URL_Path r = CHR ''/'' # (bucket @ ''/'' @ a @ ''?'' @ x)" using assms(5) by simp
  have t: "takeWhile (\<lambda>c. c \<noteq> CHR ''?'') (URL_Path r) = CHR ''/'' # bucket @ CHR ''/'' # a"
    using assms(8) by (auto simp: p takeWhile_append takeWhile_eq_all_conv [THEN iffD2])
  from signForward_path [OF assms(1-4) p c] t
  have 2: "URL_Path r2 = CHR ''/'' # bucket @ CHR ''/'' # a" "Method r2 = (if Method r = [] then ''GET'' else Method r)" by simp_all
  have "ParseBucketKey r = (bucket, a @ ''?'' @ x)"
    using assms(7) Cut_append [of "CHR ''/''" bucket "a @ CHR ''?'' # x"] by (simp add: ParseBucketKey_def TrimPrefix_def p)
  moreover have "ParseBucketKey r2 = (bucket, a)"
    using assms(7) Cut_append [of "CHR ''/''" bucket a] by (simp add: ParseBucketKey_def TrimPrefix_def 2)
  ultimately show ?thesis using 2 by simp
qed

text \<open>C26: In transparent mode with local validation a request counts as validated only if its signature is the
  one a learned key gives, and the origin has let that very access key read an object of that bucket since it
  last refused it anything there, whatever requests came before and whatever the expiring maps dropped.\<close>

theorem validated_only_after_read:
  assumes "tf_local f = Some la" and "expiring_map (la_authz la) held" and "\<forall>k. held (snd st0) k = None"
    and "\<forall>ev \<in> set es. nul_free (event_request ev)" and "nul_free r"
    and "validateLocally f now r (foldl (forward_step f) st0 es) = (st', Inr AuthValidated)"
  shows "\<exists>info vr. ParseAuthInfo r = Inr info \<and> read_granted (AccessKey info) (fst (ParseBucketKey r)) (rev es)
    \<and> Validate (derived_GetSigningKey (la_keys la) (fst (foldl (forward_step f) st0 es))) now r = Inr vr
    \<and> vr_AccessKey vr = AccessKey info"
proof -
  let ?st = "foldl (forward_step f) st0 es"
  obtain info ak u where i: "ParseAuthInfo r = Inr info"
    and v: "ValidateRequest (derived_GetSigningKey (la_keys la) (fst ?st)) now r = Inr ak"
    and g: "IsAuthorized (la_authz la) (snd ?st) (AccessKey info) (fst (ParseBucketKey r)) = (u, True)"
    using assms(1,6) by (auto simp: validateLocally_def split: sum.splits if_splits prod.splits)
  from v obtain vr where vr: "Validate (derived_GetSigningKey (la_keys la) (fst ?st)) now r = Inr vr"
    by (cases "Validate (derived_GetSigningKey (la_keys la) (fst ?st)) now r") (auto simp: ValidateRequest_def)
  with i have "vr_AccessKey vr = AccessKey info" by (auto simp: Validate_def Let_def split: sum.splits if_splits)
  moreover have "held (snd ?st) (authzKey (AccessKey info) (fst (ParseBucketKey r))) \<noteq> None"
    using g expiring_map.lookup_held [OF assms(2)] by (auto simp: IsAuthorized_def Let_def split: prod.splits)
  then have "read_granted (AccessKey info) (fst (ParseBucketKey r)) (rev es)"
    using held_read_granted [OF assms(2,1), of st0 "AccessKey info" "fst (ParseBucketKey r)" "rev es"] assms(3-5) i
    by (simp add: nul_free_def)
  ultimately show ?thesis using i vr by blast
qed


section \<open>Concrete requests\<close>

text \<open>A signed GET of \<^verbatim>\<open>/b/k\<close>, the forwarders it goes through, and an origin that answers with the signing keys.\<close>

definition demo_get :: Request where
  "demo_get = signHTTP ''auto''
     \<lparr>Method = ''GET'', URL = demo_url\<lparr>url_Path := ''/b/k''\<rparr>, Host = ''t3.storage.dev'',
      Header = [(''X-Amz-Date'', [TimeFormat (0, 0)]), (''X-Amz-Content-Sha256'', [''UNSIGNED-PAYLOAD'']), (''Host'', [''t3.storage.dev''])],
      ReqContentLength = 0\<rparr> ''AK'' ''secret'' ''UNSIGNED-PAYLOAD'' (0, 0)"

definition demo_local :: "(string \<rightharpoonup> string, string \<rightharpoonup> unit, string \<rightharpoonup> unit) local_auth" where
  "demo_local = \<lparr>la_keys = map_lru, la_accessKeys = map_lru, la_authz = map_lru,
     la_unwrapper = NewKeyUnwrapper (\<lambda>k n c a. Inl (EText ''message authentication failed'')) (\<lambda>s. Inr []) ''proxy''\<rparr>"

definition demo_transparent :: "(string \<rightharpoonup> string, string \<rightharpoonup> unit, string \<rightharpoonup> unit) transparentForwarder" where
  "demo_transparent = \<lparr>tf_signer = demo_signer, tf_upstreamEndpoint = endpointURL demo_signer, tf_accessKey = ''PK'',
     tf_secretKey = ''proxy'', tf_local = Some demo_local\<rparr>"

definition demo_signing :: signingForwarder where
  "demo_signing = \<lparr>sf_signer = demo_signer, sf_credStore = \<lparr>credentials = [''AK'' \<mapsto> ''secret'']\<rparr>\<rparr>"

definition demo_response :: Response where
  "demo_response = \<lparr>resp_Status = 200, resp_Header = [(''Etag'', [''v1'']), (''X-Tigris-Proxy-Signing-Keys'', [''sealed''])],
     resp_Body = (''data'', None), resp_ContentLength = 4\<rparr>"

definition demo_origin :: "unit Upstream" where
  "demo_origin = \<lparr>up_Do = (\<lambda>req b w. (w, [], Inr demo_response)), up_now = (\<lambda>w. 0)\<rparr>"

definition demo_writer :: ResponseWriter where
  "demo_writer = \<lparr>rw_header = [], rw_sent = None, rw_body = [], rw_room = None\<rparr>"

lemma demo_get_parts:
  "Method demo_get = ''GET''" "URL demo_get = demo_url\<lparr>url_Path := ''/b/k''\<rparr>" "Host demo_get = ''t3.storage.dev''" "ReqContentLength demo_get = 0"
  "\<exists>v. Header demo_get = [(''X-Amz-Date'', [TimeFormat (0, 0)]), (''X-Amz-Content-Sha256'', [''UNSIGNED-PAYLOAD'']),
     (''Host'', [''t3.storage.dev'']), (''Authorization'', [v])]"
proof -
  have "CanonicalHeaderKey ''Authorization'' = ''Authorization''" by code_simp
  then show "\<exists>v. Header demo_get = [(''X-Amz-Date'', [TimeFormat (0, 0)]), (''X-Amz-Content-Sha256'', [''UNSIGNED-PAYLOAD'']),
     (''Host'', [''t3.storage.dev'']), (''Authorization'', [v])]"
    by (simp add: demo_get_def signHTTP_def Let_def header_set_def split: prod.split)
qed (simp_all add: demo_get_def signHTTP_def Let_def split: prod.split)

lemma demo_get_signed:
  "signURL demo_signer 0 ''GET'' (demo_url\<lparr>url_Path := ''/b/k''\<rparr>) ''UNSIGNED-PAYLOAD'' ''AK'' ''secret'' [] 0 = Inr demo_get"
proof -
  have "list_all validHeaderFieldByte ''GET''" "CanonicalHeaderKey ''Host'' = ''Host''" "CanonicalHeaderKey ''X-Amz-Date'' = ''X-Amz-Date''"
    "CanonicalHeaderKey ''X-Amz-Content-Sha256'' = ''X-Amz-Content-Sha256''" by code_simp+
  then show ?thesis
    by (simp add: signURL_def demo_signer_def demo_url_def demo_get_def normalize_url_def header_set_def Let_def)
qed

lemma demo_get_validates:
  assumes "ks ''AK'' (shortTime (0, 0)) ''auto'' = Inr (deriveSigningKey ''secret'' (shortTime (0, 0)) ''auto'')"
  shows "\<exists>vr. Validate ks 0 demo_get = Inr vr \<and> vr_AccessKey vr = ''AK''"
proof -
  have "civil (unix_sec 0 div 86400) = (1970, 0, 1)" by code_simp
  from signURL_validates [where ks = ks and now' = 0, OF demo_get_signed _ demo_conditions(2,3) _ this] assms
  show ?thesis by (simp add: demo_signer_def unix_sec_def maxRequestAge_def)
qed

lemma demo_get_info: "\<exists>info. ParseAuthInfo demo_get = Inr info \<and> AccessKey info = ''AK''"
proof -
  obtain vr where "Validate demo_keys 0 demo_get = Inr vr" "vr_AccessKey vr = ''AK''"
    using demo_get_validates [of demo_keys] demo_conditions(4) by (auto simp: demo_signer_def)
  then show ?thesis by (auto simp: Validate_def Let_def split: sum.splits if_splits)
qed

definition demo_client :: "string \<Rightarrow> Request" where
  "demo_client path =
     \<lparr>Method = ''GET'', URL = demo_url\<lparr>url_Path := path\<rparr>, Host = ''tag.local'',
      Header = [(''Authorization'', [''AWS4-HMAC-SHA256 Credential=AK/19700101/auto/s3/aws4_request, SignedHeaders=host;x-amz-date, Signature=00'']),
                (''X-Amz-Date'', [''19700101T000000Z''])], ReqContentLength = 0\<rparr>"

lemma demo_client_info:
  "ParseAuthInfo (demo_client ''/b/k'') = Inr \<lparr>AccessKey = ''AK'', IsPresigned = False, SignedHeaders = [''host'', ''x-amz-date''],
     Signature = ''00'', Region = ''auto'', Date = ''19700101''\<rparr>"
  by code_simp

lemma NewRequest_demo: "NewRequest_URL (demo_url\<lparr>url_Path := ''/b/k''\<rparr>) = Inr (demo_url\<lparr>url_Path := ''/b/k''\<rparr>)"
  by code_simp

lemma demo_transparent_built:
  assumes "URL r = demo_url\<lparr>url_Path := ''/b/k''\<rparr>" and "\<not> hasNoAuthCredentials r"
  shows "\<exists>r2. buildTransparentRequest demo_transparent 0 r = Inr r2"
proof -
  have e: "tf_upstreamEndpoint demo_transparent = Inr (demo_url\<lparr>url_Path := []\<rparr>)"
    by (simp add: demo_transparent_def demo_url_def demo_signer_def)
  have "(demo_url\<lparr>url_Path := []\<rparr>)\<lparr>url_Path := URL_Path r, url_RawPath := url_RawPath (URL r), url_RawQuery := url_RawQuery (URL r)\<rparr>
      = demo_url\<lparr>url_Path := ''/b/k''\<rparr>"
    using assms(1) by (simp add: demo_url_def)
  then show ?thesis using NewRequest_demo assms(2) by (simp only: buildTransparentRequest_def Let_def e) simp
qed

lemma demo_signForward:
  assumes "Method r = ''GET''" and "URL r = demo_url\<lparr>url_Path := p\<rparr>" and "CHR ''#'' \<notin> set p" and "p = CHR ''/'' # p'"
  shows "\<exists>r2 out. signForward demo_signing 0 r b bodyHash n chunked ''AK'' ''secret'' = Inr (r2, out)"
proof -
  have m: "list_all validHeaderFieldByte ''GET''" by code_simp
  obtain a q ok where c: "Cut p (CHR ''?'') = (a, q, ok)" by (metis prod_cases3)
  then have "set q \<subseteq> set p" by (auto simp: Cut_def split: option.splits dest: in_set_dropD)
  with assms(3) have "CHR ''#'' \<notin> set q" by auto
  then show ?thesis using m assms c
    by (auto simp: signForward_def SignRequest_def signURL_def demo_signing_def demo_signer_def demo_url_def normalize_url_def
        prepareForwardedRequest_def Let_def)
qed

theorem transparent_signature_preserved_witness:
  "\<exists>info r2. ParseAuthInfo (demo_client ''/b/k'') = Inr info \<and> buildTransparentRequest demo_transparent 0 (demo_client ''/b/k'') = Inr r2
     \<and> computeSignature (r2\<lparr>Host := ''tag.local''\<rparr>) info ''key'' ''UNSIGNED-PAYLOAD'' (0, 0)
       = computeSignature (demo_client ''/b/k'') info ''key'' ''UNSIGNED-PAYLOAD'' (0, 0)"
proof -
  have "URL (demo_client ''/b/k'') = demo_url\<lparr>url_Path := ''/b/k''\<rparr>" by (simp add: demo_client_def)
  then obtain r2 where b: "buildTransparentRequest demo_transparent 0 (demo_client ''/b/k'') = Inr r2"
    using demo_transparent_built authenticated [OF demo_client_info] by blast
  have e: "EscapedPath (URL (demo_client ''/b/k'')) = CHR ''/'' # ''b/k''"
    "CHR ''#'' \<notin> set (url_RawQuery (URL (demo_client ''/b/k'')))"
    "list_all (untouched (demo_client ''/b/k'')) [''host'', ''x-amz-date'']" by code_simp+
  have h: "Host (demo_client ''/b/k'') = ''tag.local''" by (simp add: demo_client_def)
  from transparent_signature_preserved [OF demo_client_info b e(1,2)] e(3) b h demo_client_info show ?thesis
    by (simp add: demo_client_def)
qed

theorem question_mark_key_misdirected_witness:
  "\<exists>r2 out. signForward demo_signing 0 (demo_client ''/b/a?x'') (Plain ([], None)) ''UNSIGNED-PAYLOAD'' 0 False ''AK'' ''secret'' = Inr (r2, out)
     \<and> ParseBucketKey (demo_client ''/b/a?x'') = (''b'', ''a?x'') \<and> ParseBucketKey r2 = (''b'', ''a'')"
proof -
  let ?r = "demo_client ''/b/a?x''"
  obtain r2 out where s: "signForward demo_signing 0 ?r (Plain ([], None)) ''UNSIGNED-PAYLOAD'' 0 False ''AK'' ''secret'' = Inr (r2, out)"
    using demo_signForward [of ?r "''/b/a?x''" "''b/a?x''" "Plain ([], None)" "''UNSIGNED-PAYLOAD''" 0 False] by (auto simp: demo_client_def)
  have e: "endpointURL (sf_signer demo_signing) = Inr (demo_url\<lparr>url_Path := []\<rparr>)" by (simp add: demo_signing_def demo_signer_def demo_url_def)
  show ?thesis
    using question_mark_key_misdirected [OF s e, of "''b''" "''a''" "''x''"] s by (simp add: demo_url_def demo_client_def)
qed

theorem forwarded_request_validates_witness:
  "\<exists>r2 out. prepare demo_signing 0 demo_get ([], None) id = Inr (r2, out, ''AK'', ''secret'') \<and> ValidateRequest demo_keys 60000000000 r2 = Inr ''AK''
     \<and> URL_Path r2 = ''/b/k''"
proof -
  have hdr: "CanonicalHeaderKey ''X-Amz-Content-Sha256'' = ''X-Amz-Content-Sha256''" "\<not> IsStreamingPayload ''UNSIGNED-PAYLOAD''"
    "\<forall>k \<in> set [''X-Amz-Date'', ''X-Amz-Content-Sha256'', ''Host'', ''Authorization'']. list_all validHeaderFieldByte k \<and> CanonicalHeaderKey k = k"
    by code_simp+
  obtain v where h: "Header demo_get = [(''X-Amz-Date'', [TimeFormat (0, 0)]), (''X-Amz-Content-Sha256'', [''UNSIGNED-PAYLOAD'']),
     (''Host'', [''t3.storage.dev'']), (''Authorization'', [v])]" using demo_get_parts(5) by blast
  then have g: "header_get (Header demo_get) ''X-Amz-Content-Sha256'' = ''UNSIGNED-PAYLOAD''" by (simp add: header_get_def header_values_def hdr(1))
  have ks: "credential_GetSigningKey (sf_credStore demo_signing) = demo_keys" by (simp add: demo_signing_def demo_keys_def)
  have sk: "GetSecretKey (sf_credStore demo_signing) ''AK'' = Inr ''secret''" by (simp add: demo_signing_def GetSecretKey_def)
  obtain vr where vr: "Validate demo_keys 0 demo_get = Inr vr" "vr_AccessKey vr = ''AK''"
    using demo_get_validates [of demo_keys] demo_conditions(4) by (auto simp: demo_signer_def)
  have v1: "validate demo_signing 0 demo_get = Inr (vr, ''secret'')"
    using vr g by (simp add: validate_def validateRequest_def ks sk)
  have v2: "decodeBody demo_get ([], None) (Some vr) = Inr (Plain ([], None), ''UNSIGNED-PAYLOAD'', 0, False)"
    using g hdr(2) by (simp add: decodeBody_def decodeChunkedIfNeeded_def demo_get_parts)
  obtain r2 out where "signForward demo_signing 0 demo_get (Plain ([], None)) ''UNSIGNED-PAYLOAD'' 0 False ''AK'' ''secret'' = Inr (r2, out)"
    using demo_signForward [of demo_get "''/b/k''" "''b/k''" "Plain ([], None)" "''UNSIGNED-PAYLOAD''" 0 False] demo_get_parts(1,2) by auto
  then have p: "prepare demo_signing 0 demo_get ([], None) id = Inr (r2, out, ''AK'', ''secret'')" by (simp add: prepare_def v1 v2 vr)
  have s: "sf_signer demo_signing = demo_signer" by (simp add: demo_signing_def)
  have e: "endpointURL (sf_signer demo_signing) = Inr (demo_url\<lparr>url_Path := []\<rparr>)" by (simp add: demo_signing_def demo_signer_def demo_url_def)
  have k: "\<forall>k \<in> fst ` set (Header demo_get). list_all validHeaderFieldByte k \<and> CanonicalHeaderKey k = k" using hdr(3) by (simp add: h)
  from forwarded_request_validates [where ks = demo_keys and p = "''b/k''",
      OF p k demo_conditions(2) demo_conditions(3-8) [folded s] e]
  show ?thesis using p by (simp add: demo_get_parts demo_url_def)
qed

theorem validated_only_after_read_witness:
  "\<exists>st' info. ParseAuthInfo demo_get = Inr info \<and> AccessKey info = ''AK''
     \<and> validateLocally demo_transparent 0 demo_get
        (foldl (forward_step demo_transparent)
          (([composite [''AK'', shortTime (0, 0), ''auto''] \<mapsto> deriveSigningKey ''secret'' (shortTime (0, 0)) ''auto''], [''AK'' \<mapsto> ()]), Map.empty)
          [Intercepted demo_get (demo_response\<lparr>resp_Header := []\<rparr>)]) = (st', Inr AuthValidated)
     \<and> read_granted ''AK'' ''b'' [Intercepted demo_get (demo_response\<lparr>resp_Header := []\<rparr>)]"
proof -
  define d :: "(string \<rightharpoonup> string) \<times> (string \<rightharpoonup> unit)" where
    "d = ([composite [''AK'', shortTime (0, 0), ''auto''] \<mapsto> deriveSigningKey ''secret'' (shortTime (0, 0)) ''auto''], [''AK'' \<mapsto> ()])"
  let ?es = "[Intercepted demo_get (demo_response\<lparr>resp_Header := []\<rparr>)]"
  obtain info where i: "ParseAuthInfo demo_get = Inr info" "AccessKey info = ''AK''" using demo_get_info by blast
  have b: "ParseBucketKey demo_get = (''b'', ''k'')" 
    using demo_get_parts(2) Cut_append [of "CHR ''/''" "''b''" "''k''"] by (simp add: ParseBucketKey_def TrimPrefix_def)
  have q: "isReadAuthorizationQuery []" by code_simp
  have la: "tf_local demo_transparent = Some demo_local" by (simp add: demo_transparent_def)
  have "fst (interceptResponse demo_transparent demo_get (demo_response\<lparr>resp_Header := []\<rparr>) (d, Map.empty)) = (d, Grant map_lru Map.empty ''AK'' ''b'')"
    using i b q demo_get_parts(1,2) la
    by (simp add: interceptResponse_def learnSigningKeys_def grantReadAuthorization_def handleAuthzRevocation_def demo_response_def
        header_get_def header_values_def header_del_def demo_url_def demo_local_def Let_def)
  then have st: "foldl (forward_step demo_transparent) (d, Map.empty) ?es = (d, Grant map_lru Map.empty ''AK'' ''b'')" by simp
  obtain vr where "Validate (derived_GetSigningKey map_lru d) 0 demo_get = Inr vr" "vr_AccessKey vr = ''AK''"
    using demo_get_validates [of "derived_GetSigningKey map_lru d"] by (auto simp: derived_GetSigningKey_def map_lru_def d_def)
  then have vr: "ValidateRequest (derived_GetSigningKey map_lru d) 0 demo_get = Inr ''AK''" by (simp add: ValidateRequest_def)
  have hk: "derived_HasKey map_lru d ''AK''" by (simp add: derived_HasKey_def map_lru_def d_def)
  obtain u where au: "IsAuthorized map_lru (Grant map_lru Map.empty ''AK'' ''b'') ''AK'' ''b'' = (u, True)"
    by (simp add: IsAuthorized_def Grant_def map_lru_def)
  have ll: "la_keys demo_local = map_lru" "la_accessKeys demo_local = map_lru" "la_authz demo_local = map_lru" by (simp_all add: demo_local_def)
  have "validateLocally demo_transparent 0 demo_get (d, Grant map_lru Map.empty ''AK'' ''b'') = ((d, u), Inr AuthValidated)"
    by (simp add: validateLocally_def la i b ll hk vr au)
  then have v: "validateLocally demo_transparent 0 demo_get (foldl (forward_step demo_transparent) (d, Map.empty) ?es) = ((d, u), Inr AuthValidated)"
    by (simp only: st)
  have "nul_free demo_get" using i by (simp add: nul_free_def)
  from validated_only_after_read [OF la, of id "(d, Map.empty)", OF _ _ _ this v] this i b v
  have "read_granted ''AK'' ''b'' (rev ?es)" by (simp add: ll map_lru.expiring_map_axioms)
  with i v show ?thesis unfolding d_def by simp
qed


end
