(* ===== verification/S3_Errors.thy ===== *)
theory S3_Errors
  imports Go_Net Go_Crypto
begin

text \<open>
  The S3 error responses (\<^verbatim>\<open>s3err/errors.go\<close>): the table of codes and the writer of an error document, with
  the escaping of \<^verbatim>\<open>encoding/xml\<close>.
\<close>

section \<open>XML text (encoding/xml)\<close>

definition byte_in :: "nat \<Rightarrow> nat \<Rightarrow> char \<Rightarrow> bool" where
  "byte_in lo hi c \<longleftrightarrow> lo \<le> of_char c \<and> of_char c \<le> hi"

abbreviation cont :: "char \<Rightarrow> bool" where
  "cont \<equiv> byte_in 0x80 0xBF"

text \<open>The width of the rune a string starts with, as \<^verbatim>\<open>utf8.DecodeRune\<close> finds it; 0 for an invalid encoding.\<close>

fun rune_width :: "string \<Rightarrow> nat" where
  "rune_width (a # s) =
     (if byte_in 0 0x7F a then 1
      else case s of
        [] \<Rightarrow> 0
      | b # s \<Rightarrow>
          if byte_in 0xC2 0xDF a then (if cont b then 2 else 0)
          else case s of
            [] \<Rightarrow> 0
          | c # s \<Rightarrow>
              if byte_in 0xE0 0xEF a
              then (if byte_in (if of_char a = (0xE0 :: nat) then 0xA0 else 0x80) (if of_char a = (0xED :: nat) then 0x9F else 0xBF) b \<and> cont c
                    then 3 else 0)
              else if byte_in 0xF0 0xF4 a
              then (case s of
                      [] \<Rightarrow> 0
                    | d # _ \<Rightarrow> if byte_in (if of_char a = (0xF0 :: nat) then 0x90 else 0x80) (if of_char a = (0xF4 :: nat) then 0x8F else 0xBF) b
                                  \<and> cont c \<and> cont d then 4 else 0)
              else 0)"
| "rune_width [] = 0"

definition replacement :: string where
  "replacement = [CHR 0xEF, CHR 0xBF, CHR 0xBD]"

definition escape_byte :: "char \<Rightarrow> string" where
  "escape_byte c =
     (if c = CHR 0x22 then ''&#34;''
      else if c = CHR 0x27 then ''&#39;''
      else if c = CHR ''&'' then ''&amp;''
      else if c = CHR ''<'' then ''&lt;''
      else if c = CHR ''>'' then ''&gt;''
      else if c = CHR 0x09 then ''&#x9;''
      else if c = CHR 0x0A then ''&#xA;''
      else if c = CHR 0x0D then ''&#xD;''
      else if byte_in 0 0x1F c then replacement
      else [c])"

text \<open>\<^verbatim>\<open>xml.EscapeText\<close>: runes outside XML's character range, and bytes that are no rune, become U+FFFD.\<close>

function (sequential) EscapeText :: "string \<Rightarrow> string" where
  "EscapeText [] = []"
| "EscapeText (c # s) =
     (let w = rune_width (c # s) in
      if w \<le> 1 then (if w = 0 then replacement else escape_byte c) @ EscapeText s
      else let rune = take w (c # s)
           in (if rune = [CHR 0xEF, CHR 0xBF, CHR 0xBE] \<or> rune = [CHR 0xEF, CHR 0xBF, CHR 0xBF] then replacement else rune)
              @ EscapeText (drop w (c # s)))"
  by pat_completeness auto
termination
  by (relation "measure length") auto

definition xml_element :: "string \<Rightarrow> string \<Rightarrow> string" where
  "xml_element name content = ''<'' @ name @ ''>'' @ content @ ''</'' @ name @ ''>''"

section \<open>Codes (errors.go)\<close>

type_synonym ErrorCode = string

record errorInfo =
  HTTPStatus :: int
  info_Message :: string

definition errorMap :: "(ErrorCode \<times> errorInfo) list" where
  "errorMap =
    [(''AccessDenied'', \<lparr>HTTPStatus = 403, info_Message = ''Access Denied''\<rparr>),
     (''BucketNotEmpty'', \<lparr>HTTPStatus = 409, info_Message = ''The bucket you tried to delete is not empty''\<rparr>),
     (''BucketAlreadyExists'', \<lparr>HTTPStatus = 409, info_Message = ''The requested bucket name is not available''\<rparr>),
     (''BucketAlreadyOwnedByYou'', \<lparr>HTTPStatus = 409, info_Message = ''Your previous request to create the named bucket succeeded''\<rparr>),
     (''NoSuchBucket'', \<lparr>HTTPStatus = 404, info_Message = ''The specified bucket does not exist''\<rparr>),
     (''NoSuchKey'', \<lparr>HTTPStatus = 404, info_Message = ''The specified key does not exist''\<rparr>),
     (''EntityTooLarge'', \<lparr>HTTPStatus = 400, info_Message = ''Your proposed upload exceeds the maximum allowed size''\<rparr>),
     (''PreconditionFailed'', \<lparr>HTTPStatus = 412, info_Message = ''At least one of the pre-conditions you specified did not hold''\<rparr>),
     (''InvalidDigest'', \<lparr>HTTPStatus = 400, info_Message = ''The Content-MD5 you specified is not valid''\<rparr>),
     (''BadDigest'', \<lparr>HTTPStatus = 400, info_Message = ''The Content-MD5 you specified did not match what we received''\<rparr>),
     (''XAmzContentSHA256Mismatch'', \<lparr>HTTPStatus = 400, info_Message = ''The provided '' @ [CHR 0x27] @ ''x-amz-content-sha256'' @ [CHR 0x27] @ '' header does not match what was computed''\<rparr>),
     (''NoSuchUpload'', \<lparr>HTTPStatus = 404, info_Message = ''The specified multipart upload does not exist''\<rparr>),
     (''InvalidAccessKeyId'', \<lparr>HTTPStatus = 403, info_Message = ''The AWS access key ID you provided does not exist in our records''\<rparr>),
     (''SignatureDoesNotMatch'', \<lparr>HTTPStatus = 403, info_Message = ''The request signature we calculated does not match the signature you provided''\<rparr>),
     (''InvalidBucketName'', \<lparr>HTTPStatus = 400, info_Message = ''The specified bucket is not valid''\<rparr>),
     (''InvalidObjectName'', \<lparr>HTTPStatus = 400, info_Message = ''Object name is not valid''\<rparr>),
     (''InvalidPart'', \<lparr>HTTPStatus = 400, info_Message = ''One or more of the specified parts could not be found''\<rparr>),
     (''InvalidPartNumber'', \<lparr>HTTPStatus = 400, info_Message = ''The part number you specified is not valid''\<rparr>),
     (''InvalidPartOrder'', \<lparr>HTTPStatus = 400, info_Message = ''The list of parts was not in ascending order''\<rparr>),
     (''InternalError'', \<lparr>HTTPStatus = 500, info_Message = ''We encountered an internal error. Please try again.''\<rparr>),
     (''MalformedXML'', \<lparr>HTTPStatus = 400, info_Message = ''The XML you provided was not well-formed''\<rparr>),
     (''MethodNotAllowed'', \<lparr>HTTPStatus = 405, info_Message = ''The specified method is not allowed against this resource''\<rparr>),
     (''NotImplemented'', \<lparr>HTTPStatus = 501, info_Message = ''A header you provided implies functionality that is not implemented''\<rparr>),
     (''RequestTimeout'', \<lparr>HTTPStatus = 400, info_Message = ''Your socket connection to the server was not read from or written to within the timeout period''\<rparr>),
     (''ServiceUnavailable'', \<lparr>HTTPStatus = 503, info_Message = ''Service is unable to handle request''\<rparr>),
     (''SlowDown'', \<lparr>HTTPStatus = 503, info_Message = ''Please reduce your request rate''\<rparr>),
     (''InvalidRequest'', \<lparr>HTTPStatus = 400, info_Message = ''Invalid Request''\<rparr>),
     (''MissingContentLength'', \<lparr>HTTPStatus = 411, info_Message = ''You must provide the Content-Length HTTP header''\<rparr>),
     (''IncompleteBody'', \<lparr>HTTPStatus = 400, info_Message = ''You did not provide the number of bytes specified by the Content-Length HTTP header''\<rparr>),
     (''InvalidRange'', \<lparr>HTTPStatus = 416, info_Message = ''The requested range is not satisfiable''\<rparr>),
     (''AuthorizationHeaderMalformed'', \<lparr>HTTPStatus = 400, info_Message = ''The authorization header is malformed''\<rparr>),
     (''InvalidArgument'', \<lparr>HTTPStatus = 400, info_Message = ''Invalid argument''\<rparr>),
     (''BadContentLength'', \<lparr>HTTPStatus = 400, info_Message = ''The Content-Length you specified is invalid''\<rparr>)]"

record ErrorResponse =
  er_Code :: ErrorCode
  er_Message :: string
  er_Resource :: string
  er_RequestID :: string

text \<open>The document the encoder writes; an empty resource or request identifier is omitted.\<close>

definition xml_Encode :: "ErrorResponse \<Rightarrow> string" where
  "xml_Encode e =
     xml_element ''Error''
       (xml_element ''Code'' (EscapeText (er_Code e)) @ xml_element ''Message'' (EscapeText (er_Message e))
        @ (if er_Resource e = [] then [] else xml_element ''Resource'' (EscapeText (er_Resource e)))
        @ (if er_RequestID e = [] then [] else xml_element ''RequestId'' (EscapeText (er_RequestID e))))"

text \<open>\<open>rand_Read\<close>: the sixteen bytes of entropy, or nothing when the source fails, and then the clock.\<close>

fun show_base36 :: "nat \<Rightarrow> string" where
  "show_base36 n =
     (let d = [''0123456789abcdefghijklmnopqrstuvwxyz'' ! (n mod 36)] in if n < 36 then d else show_base36 (n div 36) @ d)"

declare show_base36.simps [simp del]

definition newRequestID :: "string option \<Rightarrow> int \<Rightarrow> string" where
  "newRequestID entropy now =
     (case entropy of
        None \<Rightarrow> (if now < 0 then ''-'' else []) @ show_base36 (nat \<bar>now\<bar>)
      | Some b \<Rightarrow> map upper (EncodeToString b))"

text \<open>\<open>minted\<close> is the request identifier made from the system's entropy.\<close>

definition WriteErrorWithMessage :: "string \<Rightarrow> ResponseWriter \<Rightarrow> Request \<Rightarrow> ErrorCode \<Rightarrow> string \<Rightarrow> ResponseWriter" where
  "WriteErrorWithMessage minted w r code message =
     (let info = (case map_of errorMap code of Some info \<Rightarrow> info | None \<Rightarrow> \<lparr>HTTPStatus = 500, info_Message = message\<rparr>);
          requestID = header_get (rw_header w) ''X-Amz-Request-Id'';
          (requestID, w) =
            (if requestID = [] then (minted, w\<lparr>rw_header := header_set (rw_header w) ''X-Amz-Request-Id'' minted\<rparr>) else (requestID, w));
          resp = \<lparr>er_Code = code, er_Message = message, er_Resource = URL_Path r, er_RequestID = requestID\<rparr>;
          w = w\<lparr>rw_header := header_set (rw_header w) ''Content-Type'' ''application/xml''\<rparr>;
          w = WriteHeader (HTTPStatus info) w
      in fst (rw_Write (xml_Encode resp) w))"

definition WriteError :: "string \<Rightarrow> ResponseWriter \<Rightarrow> Request \<Rightarrow> ErrorCode \<Rightarrow> ResponseWriter" where
  "WriteError minted w r code =
     (let info = (case map_of errorMap code of Some info \<Rightarrow> info | None \<Rightarrow> \<lparr>HTTPStatus = 500, info_Message = ''Internal Server Error''\<rparr>)
      in WriteErrorWithMessage minted w r code (info_Message info))"

definition WriteInternalError :: "string \<Rightarrow> ResponseWriter \<Rightarrow> Request \<Rightarrow> err \<Rightarrow> ResponseWriter" where
  "WriteInternalError minted w r e = WriteError minted w r ''InternalError''"

section \<open>Properties of the document\<close>

definition markup :: "char set" where
  "markup = {CHR ''<'', CHR ''>'', CHR 0x22, CHR 0x27}"

lemma escape_byte_markup: "set (escape_byte c) \<inter> markup = {}"
  by (simp add: escape_byte_def markup_def replacement_def byte_in_def)

lemma byte_in_high: "byte_in lo u c \<Longrightarrow> 0x80 \<le> lo \<Longrightarrow> c \<notin> markup"
  and not_ascii: "\<not> byte_in 0 0x7F c \<Longrightarrow> c \<notin> markup"
  by (auto simp: byte_in_def markup_def)

lemma rune_markup:
  assumes "1 < rune_width s"
  shows "list_all (\<lambda>c. c \<notin> markup) (take (rune_width s) s)"
proof -
  obtain a b r where s: "s = a # b # r" and a: "\<not> byte_in 0 0x7F a"
    using assms by (cases s rule: rune_width.cases) (auto split: if_splits list.splits)
  note high = not_ascii [OF a]
  show ?thesis
  proof (cases "byte_in 0xC2 0xDF a")
    case True
    then show ?thesis using assms a high byte_in_high [where lo = 128 and c = b] by (simp add: s split: if_splits)
  next
    case False
    with assms a obtain c r' where r: "r = c # r'" by (simp add: s split: list.splits)
    show ?thesis
    proof (cases "byte_in 0xE0 0xEF a")
      case True
      then show ?thesis
        using assms a False high byte_in_high [where lo = 128 and c = c] byte_in_high [where lo = "if of_char a = (0xE0 :: nat) then 0xA0 else 0x80" and c = b]
        by (simp add: s r numeral_3_eq_3 split: if_split_asm)
    next
      case no: False
      with assms a False obtain d r'' where "r' = d # r''" by (simp add: s r split: list.splits if_split_asm)
      with no show ?thesis
        using assms a False high byte_in_high [where lo = 128 and c = c] byte_in_high [where lo = 128 and c = d]
          byte_in_high [where lo = "if of_char a = (0xF0 :: nat) then 0x90 else 0x80" and c = b]
        by (simp add: s r eval_nat_numeral split: if_split_asm)
    qed
  qed
qed

lemma EscapeText_markup: "set (EscapeText s) \<inter> markup = {}"
proof (induction s rule: EscapeText.induct)
  case (2 c s)
  let ?w = "rune_width (c # s)"
  have r: "set replacement \<inter> markup = {}" by (simp add: replacement_def markup_def)
  show ?case
  proof (cases "?w \<le> 1")
    case True
    with 2 r escape_byte_markup [of c] show ?thesis by (simp add: Let_def Int_Un_distrib2 del: rune_width.simps)
  next
    case False
    then have "set (take ?w (c # s)) \<inter> markup = {}" using rune_markup [of "c # s"] by (auto simp: list_all_iff)
    with False 2 r show ?thesis by (simp add: Let_def Int_Un_distrib2 del: rune_width.simps)
  qed
qed simp

lemma errorMap_status: "map_of errorMap code = Some info \<Longrightarrow> 400 \<le> HTTPStatus info \<and> HTTPStatus info < 600"
proof -
  have "list_all (\<lambda>(c, info). 400 \<le> HTTPStatus info \<and> HTTPStatus info < 600) errorMap" by code_simp
  then show "map_of errorMap code = Some info \<Longrightarrow> 400 \<le> HTTPStatus info \<and> HTTPStatus info < 600"
    by (auto simp: list_all_iff dest!: map_of_SomeD)
qed

lemma show_base36_nonempty: "show_base36 n \<noteq> []"
  by (subst show_base36.simps) (simp add: Let_def)

lemma newRequestID_nonempty:
  assumes "case entropy of Some b \<Rightarrow> length b = 16 | None \<Rightarrow> True"
  shows "newRequestID entropy now \<noteq> []"
proof (cases entropy)
  case (Some b)
  with assms have "length (EncodeToString b) = 32" by simp
  then have "EncodeToString b \<noteq> []" by (metis list.size(3) zero_neq_numeral)
  with Some show ?thesis by (simp add: newRequestID_def)
qed (simp add: newRequestID_def show_base36_nonempty)

lemma canonical_error_headers:
  "CanonicalHeaderKey ''X-Amz-Request-Id'' = ''X-Amz-Request-Id''" "CanonicalHeaderKey ''Content-Type'' = ''Content-Type''"
  by code_simp+

definition error_status :: "ErrorCode \<Rightarrow> int" where
  "error_status code = (case map_of errorMap code of Some info \<Rightarrow> HTTPStatus info | None \<Rightarrow> 500)"

lemma error_status_range: "400 \<le> error_status code \<and> error_status code < 600"
  using errorMap_status [of code] by (auto simp: error_status_def split: option.split)

lemma WriteErrorWithMessage_sent:
  assumes "rw_sent w = None" and "rw_room w = None"
  shows "\<exists>id h. rw_sent (WriteErrorWithMessage minted w r code message) = Some (error_status code, h)
    \<and> id = (if header_get (rw_header w) ''X-Amz-Request-Id'' = [] then minted else header_get (rw_header w) ''X-Amz-Request-Id'')
    \<and> header_get h ''X-Amz-Request-Id'' = id \<and> header_get h ''Content-Type'' = ''application/xml''
    \<and> rw_body (WriteErrorWithMessage minted w r code message)
      = rw_body w @ xml_Encode \<lparr>er_Code = code, er_Message = message, er_Resource = URL_Path r, er_RequestID = id\<rparr>"
  using assms
  by (auto simp: WriteErrorWithMessage_def WriteHeader_def rw_Write_def Let_def error_status_def header_get_def header_values_def
      header_set_def update_conv' canonical_error_headers split: option.split)


definition tagged_request :: Request where
  "tagged_request = \<lparr>Method = ''GET'', URL = \<lparr>url_Opaque = [], url_Host = [], url_Path = ''/b/<x>'', url_RawPath = [], url_RawQuery = [],
     url_ForceQuery = False\<rparr>, Host = [], Header = [], ReqContentLength = 0\<rparr>"

definition demo_error :: ResponseWriter where
  "demo_error = WriteError (newRequestID None 36) \<lparr>rw_header = [], rw_sent = None, rw_body = [], rw_room = None\<rparr>
      tagged_request ''NoSuchKey''"


end
