(* ===== verification/Handler_Gate.thy ===== *)
theory Handler_Gate
  imports Go_Base "HOL-Library.Word"
begin

text \<open>
  The admission of request handlers against shutdown (\<^verbatim>\<open>handlers/server.go\<close>): one atomic word holds the number of
  running handlers and, in its top bit, that the server is stopping. Every atomic operation is one step, so that
  handlers, late requests and the stopping goroutine interleave freely.
\<close>

unbundle bit_operations_syntax

section \<open>The atomic word\<close>

definition handlerStoppingBit :: "64 word" where
  "handlerStoppingBit = push_bit 63 1"

definition handlerCountMask :: "64 word" where
  "handlerCountMask = handlerStoppingBit - 1"

record Gate =
  handlerState :: "64 word"
  handlersDone :: bool
  handlerDoneOnce :: bool

definition close_done :: "Gate \<Rightarrow> Gate" where
  "close_done g = (if handlerDoneOnce g then g else g\<lparr>handlerDoneOnce := True, handlersDone := True\<rparr>)"

text \<open>
  The operations with their effect on the word and their verdict: whether the caller is admitted, and whether it
  is left to close the channel.
\<close>

definition enterHandler :: "Gate \<Rightarrow> Gate \<times> bool" where
  "enterHandler g = (let state = handlerState g + 1 in (g\<lparr>handlerState := state\<rparr>, state AND handlerStoppingBit = 0))"

definition leaveHandler :: "Gate \<Rightarrow> Gate \<times> bool" where
  "leaveHandler g =
     (let state = handlerState g + NOT 0
      in (g\<lparr>handlerState := state\<rparr>, state AND handlerStoppingBit \<noteq> 0 \<and> state AND handlerCountMask = 0))"

definition closeHandlerAdmission :: "Gate \<Rightarrow> Gate \<times> bool" where
  "closeHandlerAdmission g =
     (let old = handlerState g in (g\<lparr>handlerState := old OR handlerStoppingBit\<rparr>, old AND handlerCountMask = 0))"

section \<open>Interleaving\<close>

text \<open>
  Where a goroutine is: about to serve, serving, refused and about to leave, about to close the channel, or, for
  one that stops the server, waiting for the handlers and past that wait.
\<close>

datatype phase = Arriving | Serving | Refused | Closing bool | Waiting | Stopped | Left

record gate_state =
  gate :: Gate
  threads :: "nat \<Rightarrow> phase"

definition in_flight :: "gate_state \<Rightarrow> nat set" where
  "in_flight s = {t. threads s t = Serving \<or> threads s t = Refused}"

definition gate_init :: gate_state where
  "gate_init = \<lparr>gate = \<lparr>handlerState = 0, handlersDone = False, handlerDoneOnce = False\<rparr>, threads = (\<lambda>t. Arriving)\<rparr>"

text \<open>Fewer than \<^verbatim>\<open>2^63\<close> requests are in flight at any time.\<close>

inductive gate_step :: "gate_state \<Rightarrow> gate_state \<Rightarrow> bool" where
  gate_enter: "threads s t = Arriving \<Longrightarrow> card (in_flight s) + 1 < 2 ^ 63 \<Longrightarrow> enterHandler (gate s) = (g, ok)
    \<Longrightarrow> gate_step s \<lparr>gate = g, threads = (threads s)(t := if ok then Serving else Refused)\<rparr>"
| gate_leave: "t \<in> in_flight s \<Longrightarrow> leaveHandler (gate s) = (g, fin)
    \<Longrightarrow> gate_step s \<lparr>gate = g, threads = (threads s)(t := if fin then Closing False else Left)\<rparr>"
| gate_stop: "threads s t = Arriving \<Longrightarrow> closeHandlerAdmission (gate s) = (g, idle)
    \<Longrightarrow> gate_step s \<lparr>gate = g, threads = (threads s)(t := if idle then Closing True else Waiting)\<rparr>"
| gate_close: "threads s t = Closing stopping
    \<Longrightarrow> gate_step s \<lparr>gate = close_done (gate s), threads = (threads s)(t := if stopping then Waiting else Left)\<rparr>"
| gate_join: "threads s t = Waiting \<Longrightarrow> handlersDone (gate s) \<Longrightarrow> gate_step s (s\<lparr>threads := (threads s)(t := Stopped)\<rparr>)"

inductive_cases gate_stepE: "gate_step s s'"

section \<open>What the word says\<close>

definition stopping :: "gate_state \<Rightarrow> bool" where
  "stopping s \<longleftrightarrow> bit (handlerState (gate s)) 63"

definition word_is :: "nat \<Rightarrow> bool \<Rightarrow> 64 word \<Rightarrow> bool" where
  "word_is n stop w \<longleftrightarrow> n < 2 ^ 63 \<and> unat w = n + (if stop then 2 ^ 63 else 0)"

lemma stop_exp: "handlerStoppingBit = 2 ^ 63"
  unfolding handlerStoppingBit_def push_bit_eq_mult by (rule mult_1_left)

lemma bit_stop: "bit handlerStoppingBit n \<longleftrightarrow> n = 63"
  unfolding stop_exp bit_exp_iff by auto

lemma stop_bit: "(w AND handlerStoppingBit = 0) \<longleftrightarrow> \<not> bit w 63"
  unfolding stop_exp by (rule and_exp_eq_0_iff_not_bit)

lemma word_is_bit: "word_is n stop w \<Longrightarrow> bit w 63 \<longleftrightarrow> stop"
proof -
  assume w: "word_is n stop w"
  have "bit (unat w) 63 \<longleftrightarrow> bit w 63" by (simp only: bit_unsigned_iff possible_bit_nat simp_thms)
  then have "bit w 63 \<longleftrightarrow> odd (unat w div 2 ^ 63)" by (simp only: bit_iff_odd)
  moreover have "n < 2 ^ 63 \<Longrightarrow> (n + 2 ^ 63) div 2 ^ 63 = (1 :: nat)" by (intro div_nat_eqI) simp_all
  ultimately show ?thesis using w by (cases stop) (simp_all add: word_is_def)
qed

lemma word_is_count: "word_is n stop w \<Longrightarrow> (w AND handlerCountMask = 0) \<longleftrightarrow> n = 0"
proof -
  assume w: "word_is n stop w"
  have "handlerCountMask = mask 63" by (simp add: handlerCountMask_def handlerStoppingBit_def mask_eq_exp_minus_1 push_bit_eq_mult)
  then have "w AND handlerCountMask = take_bit 63 w" by (simp add: take_bit_eq_mask)
  then have "(w AND handlerCountMask = 0) \<longleftrightarrow> unat (take_bit 63 w) = 0" by (simp add: unat_eq_0)
  moreover have "unat (take_bit 63 w) = unat w mod 2 ^ 63" by (rule trans [OF unsigned_take_bit_eq take_bit_eq_mod])
  ultimately show ?thesis using w by (auto simp: word_is_def)
qed

lemma word_is_enter: "word_is n stop w \<Longrightarrow> n + 1 < 2 ^ 63 \<Longrightarrow> word_is (n + 1) stop (w + 1)"
  by (auto simp: word_is_def unat_word_ariths(1) split: if_splits)

lemma word_is_leave: "word_is n stop w \<Longrightarrow> 0 < n \<Longrightarrow> word_is (n - 1) stop (w + NOT 0)"
proof -
  assume w: "word_is n stop w" "0 < n"
  then have "unat (w - 1) = unat w - 1" by (intro unat_minus_one) (auto simp: word_is_def)
  with w show ?thesis by (auto simp: word_is_def)
qed

lemma word_is_stop: "word_is n stop w \<Longrightarrow> word_is n True (w OR handlerStoppingBit)"
proof (cases stop)
  case True
  assume w: "word_is n stop w"
  have "w OR handlerStoppingBit = w"
    using word_is_bit [OF w] True by (intro bit_eqI) (auto simp: bit_or_iff bit_stop)
  with w True show ?thesis by simp
next
  case False
  assume w: "word_is n stop w"
  have "w OR handlerStoppingBit = w + handlerStoppingBit"
    using word_is_bit [OF w] False
    by (intro disjunctive_add [symmetric]) (auto simp: bit_stop)
  with w False show ?thesis by (auto simp: word_is_def handlerStoppingBit_def push_bit_eq_mult unat_word_ariths(1))
qed

section \<open>Joining the handlers\<close>

definition gate_inv :: "gate_state \<Rightarrow> bool" where
  "gate_inv s \<longleftrightarrow>
     finite (in_flight s) \<and> word_is (card (in_flight s)) (stopping s) (handlerState (gate s))
     \<and> handlerDoneOnce (gate s) = handlersDone (gate s)
     \<and> (\<forall>t. threads s t \<in> {Closing True, Closing False, Waiting, Stopped} \<longrightarrow> stopping s)
     \<and> (handlersDone (gate s) \<or> (\<exists>t b. threads s t = Closing b) \<longrightarrow> stopping s \<and> (\<forall>t. threads s t \<noteq> Serving))
     \<and> (stopping s \<longrightarrow> in_flight s = {} \<longrightarrow> handlersDone (gate s) \<or> (\<exists>t b. threads s t = Closing b))
     \<and> (\<forall>t. threads s t = Stopped \<longrightarrow> handlersDone (gate s))"

lemma gate_invI:
  assumes "finite (in_flight s)" and "word_is (card (in_flight s)) (stopping s) (handlerState (gate s))"
    and "handlerDoneOnce (gate s) = handlersDone (gate s)"
    and "\<And>t. threads s t \<in> {Closing True, Closing False, Waiting, Stopped} \<Longrightarrow> stopping s"
    and "\<And>t. handlersDone (gate s) \<or> (\<exists>t b. threads s t = Closing b) \<Longrightarrow> stopping s \<and> threads s t \<noteq> Serving"
    and "stopping s \<Longrightarrow> in_flight s = {} \<Longrightarrow> handlersDone (gate s) \<or> (\<exists>t b. threads s t = Closing b)"
    and "\<And>t. threads s t = Stopped \<Longrightarrow> handlersDone (gate s)"
  shows "gate_inv s"
  using assms unfolding gate_inv_def by blast

lemma gate_invD:
  assumes "gate_inv s"
  shows "finite (in_flight s)" "word_is (card (in_flight s)) (stopping s) (handlerState (gate s))"
    "handlerDoneOnce (gate s) = handlersDone (gate s)"
    "threads s t \<in> {Closing True, Closing False, Waiting, Stopped} \<Longrightarrow> stopping s"
    "handlersDone (gate s) \<Longrightarrow> stopping s \<and> threads s t \<noteq> Serving"
    "threads s u = Closing b \<Longrightarrow> stopping s \<and> threads s t \<noteq> Serving"
    "stopping s \<Longrightarrow> in_flight s = {} \<Longrightarrow> handlersDone (gate s) \<or> (\<exists>t b. threads s t = Closing b)"
    "threads s t = Stopped \<Longrightarrow> handlersDone (gate s)"
  using assms unfolding gate_inv_def by blast+

lemma in_flight_upd:
  "in_flight \<lparr>gate = g, threads = (threads s)(t := p)\<rparr>
   = (if p = Serving \<or> p = Refused then insert t (in_flight s) else in_flight s - {t})"
  by (auto simp: in_flight_def)

lemma gate_inv_init: "gate_inv gate_init"
  by (simp add: gate_inv_def gate_init_def in_flight_def word_is_def stopping_def)

lemma inv_enter:
  assumes "gate_inv s" and "threads s t = Arriving" and "card (in_flight s) + 1 < 2 ^ 63" and "enterHandler (gate s) = (g, ok)"
  shows "gate_inv \<lparr>gate = g, threads = (threads s)(t := if ok then Serving else Refused)\<rparr>" (is "gate_inv ?s")
proof -
  note I = gate_invD [OF assms(1)]
  have t: "t \<notin> in_flight s" using assms(2) by (simp add: in_flight_def)
  from assms(4) have g: "g = gate s\<lparr>handlerState := handlerState (gate s) + 1\<rparr>" "ok = (handlerState g AND handlerStoppingBit = 0)"
    by (auto simp: enterHandler_def Let_def)
  have w: "word_is (card (in_flight s) + 1) (stopping s) (handlerState g)" using word_is_enter [OF I(2) assms(3)] by (simp add: g)
  then have st: "stopping ?s = stopping s" "ok = (\<not> stopping s)" using word_is_bit [OF w] by (simp_all add: stopping_def g(2) stop_bit)
  have i: "in_flight ?s = insert t (in_flight s)" by (auto simp: in_flight_upd)
  show ?thesis
  proof (rule gate_invI)
    fix u
    show "threads ?s u \<in> {Closing True, Closing False, Waiting, Stopped} \<Longrightarrow> stopping ?s" using I(4) [of u] st by (simp split: if_splits)
    show "handlersDone (gate ?s) \<or> (\<exists>t b. threads ?s t = Closing b) \<Longrightarrow> stopping ?s \<and> threads ?s u \<noteq> Serving"
      using I(5) [of u] I(6) [of _ _ u] st by (auto simp: g(1) split: if_splits)
    show "threads ?s u = Stopped \<Longrightarrow> handlersDone (gate ?s)" using I(8) [of u] by (simp add: g(1) split: if_splits)
  qed (use I st w t i in \<open>simp_all add: g(1)\<close>)
qed

lemma inv_leave:
  assumes "gate_inv s" and "t \<in> in_flight s" and "leaveHandler (gate s) = (g, fin)"
  shows "gate_inv \<lparr>gate = g, threads = (threads s)(t := if fin then Closing False else Left)\<rparr>" (is "gate_inv ?s")
proof -
  note I = gate_invD [OF assms(1)]
  have pos: "0 < card (in_flight s)" using assms(2) I(1) card_gt_0_iff by blast
  from assms(3) have g: "g = gate s\<lparr>handlerState := handlerState (gate s) + NOT 0\<rparr>"
    "fin = (handlerState g AND handlerStoppingBit \<noteq> 0 \<and> handlerState g AND handlerCountMask = 0)"
    by (auto simp: leaveHandler_def Let_def)
  have w: "word_is (card (in_flight s) - 1) (stopping s) (handlerState g)" using word_is_leave [OF I(2) pos] by (simp add: g)
  then have st: "stopping ?s = stopping s" "fin = (stopping s \<and> card (in_flight s) - 1 = 0)"
    using word_is_bit [OF w] word_is_count [OF w] by (simp_all add: stopping_def g(2) stop_bit)
  have i: "in_flight ?s = in_flight s - {t}" by (auto simp: in_flight_upd)
  have fin: "fin = (stopping s \<and> in_flight s - {t} = {})"
    using st(2) assms(2) I(1) card_Diff_singleton [of t "in_flight s"] by (metis card_0_eq finite_Diff)
  then have none: "fin \<Longrightarrow> threads s u = Serving \<Longrightarrow> u = t" for u by (auto simp: in_flight_def)
  show ?thesis
  proof (rule gate_invI)
    show "word_is (card (in_flight ?s)) (stopping ?s) (handlerState (gate ?s))"
      using w assms(2) by (simp only: i st(1) card_Diff_singleton) simp
    show "in_flight ?s = {} \<Longrightarrow> handlersDone (gate ?s) \<or> (\<exists>t b. threads ?s t = Closing b)" if "stopping ?s"
      using that fin st(1) i by auto
    fix u
    show "threads ?s u \<in> {Closing True, Closing False, Waiting, Stopped} \<Longrightarrow> stopping ?s" using I(4) [of u] st(1) fin by (simp split: if_splits)
    assume "handlersDone (gate ?s) \<or> (\<exists>t b. threads ?s t = Closing b)"
    then consider "handlersDone (gate s)" | v b where "threads s v = Closing b" | fin by (auto simp: g(1) split: if_splits)
    then have "stopping s \<and> (threads s u = Serving \<longrightarrow> u = t)" using I(5) [of u] I(6) [of _ _ u] fin none [of u] by cases simp_all
    then show "stopping ?s \<and> threads ?s u \<noteq> Serving" unfolding st(1) by auto
  next
    fix u
    show "threads ?s u = Stopped \<Longrightarrow> handlersDone (gate ?s)" using I(8) [of u] by (simp add: g(1) split: if_splits)
  qed (use I i in \<open>simp_all add: g(1)\<close>)
qed

lemma inv_stop:
  assumes "gate_inv s" and "threads s t = Arriving" and "closeHandlerAdmission (gate s) = (g, idle)"
  shows "gate_inv \<lparr>gate = g, threads = (threads s)(t := if idle then Closing True else Waiting)\<rparr>" (is "gate_inv ?s")
proof -
  note I = gate_invD [OF assms(1)]
  from assms(3) have g: "g = gate s\<lparr>handlerState := handlerState (gate s) OR handlerStoppingBit\<rparr>"
    "idle = (handlerState (gate s) AND handlerCountMask = 0)"
    by (auto simp: closeHandlerAdmission_def Let_def)
  have w: "word_is (card (in_flight s)) True (handlerState g)" using word_is_stop [OF I(2)] by (simp add: g)
  then have st: "stopping ?s" using word_is_bit [OF w] by (simp add: stopping_def)
  have i: "in_flight ?s = in_flight s" using assms(2) by (auto simp: in_flight_def)
  have idle: "idle = (in_flight s = {})" using word_is_count [OF I(2)] I(1) by (simp add: g(2))
  then have none: "idle \<Longrightarrow> threads s u \<noteq> Serving" for u by (auto simp: in_flight_def)
  show ?thesis
  proof (rule gate_invI)
    show "in_flight ?s = {} \<Longrightarrow> handlersDone (gate ?s) \<or> (\<exists>t b. threads ?s t = Closing b)" using idle i by auto
    fix u
    show "handlersDone (gate ?s) \<or> (\<exists>t b. threads ?s t = Closing b) \<Longrightarrow> stopping ?s \<and> threads ?s u \<noteq> Serving"
      using I(5) [of u] I(6) [of _ _ u] st none [of u] by (auto simp: g(1) split: if_splits)
    show "threads ?s u = Stopped \<Longrightarrow> handlersDone (gate ?s)" using I(8) [of u] by (simp add: g(1) split: if_splits)
  qed (use I st w i in \<open>simp_all add: g(1)\<close>)
qed

lemma inv_close:
  assumes "gate_inv s" and "threads s t = Closing b"
  shows "gate_inv \<lparr>gate = close_done (gate s), threads = (threads s)(t := if b then Waiting else Left)\<rparr>" (is "gate_inv ?s")
proof -
  note I = gate_invD [OF assms(1)]
  have st: "stopping ?s = stopping s" "handlersDone (close_done (gate s))" "handlerDoneOnce (close_done (gate s))"
    "handlerState (close_done (gate s)) = handlerState (gate s)"
    using I(3) by (auto simp: stopping_def close_done_def)
  have i: "in_flight ?s = in_flight s" using assms(2) by (auto simp: in_flight_def)
  have "stopping s" "threads s u \<noteq> Serving" for u using I(6) [OF assms(2)] by simp_all
  then show ?thesis by (intro gate_invI) (use I(1,2) st i in \<open>simp_all split: if_splits\<close>)
qed

lemma inv_join:
  assumes "gate_inv s" and "threads s t = Waiting" and "handlersDone (gate s)"
  shows "gate_inv (s\<lparr>threads := (threads s)(t := Stopped)\<rparr>)"
proof -
  note I = gate_invD [OF assms(1)]
  have "in_flight (s\<lparr>threads := (threads s)(t := Stopped)\<rparr>) = in_flight s" "stopping (s\<lparr>threads := (threads s)(t := Stopped)\<rparr>) = stopping s"
    using assms(2) by (auto simp: in_flight_def stopping_def)
  then show ?thesis by (intro gate_invI) (use I I(5) [OF assms(3)] assms(3) in \<open>simp_all split: if_splits\<close>)
qed

lemma gate_inv_step: "gate_step s s' \<Longrightarrow> gate_inv s \<Longrightarrow> gate_inv s'"
  by (erule gate_step.cases) (simp_all only: inv_enter inv_leave inv_stop inv_close inv_join)

lemma gate_reachable: "gate_step\<^sup>*\<^sup>* gate_init s \<Longrightarrow> gate_inv s"
  by (induction rule: rtranclp_induct) (auto simp: gate_inv_init intro: gate_inv_step)

lemma done_stable: "gate_step s s' \<Longrightarrow> handlersDone (gate s) \<Longrightarrow> handlersDone (gate s')"
  by (erule gate_step.cases) (auto simp: enterHandler_def leaveHandler_def closeHandlerAdmission_def close_done_def Let_def)

text \<open>C31: A stopped server has no handler running, whatever handlers, late requests and stops interleave: once the
  channel is closed or a stop has got past its wait, no request is being served and none ever will be. And the wait
  ends: a server that is stopping, with nobody in flight and nobody about to close the channel, has it closed.\<close>

theorem handlers_joined:
  assumes "gate_step\<^sup>*\<^sup>* gate_init s" and "gate_step\<^sup>*\<^sup>* s s'"
  shows "(handlersDone (gate s) \<or> threads s t = Stopped \<longrightarrow> threads s' t' \<noteq> Serving)
    \<and> (threads s t = Waiting \<longrightarrow> in_flight s = {} \<longrightarrow> (\<forall>u b. threads s u \<noteq> Closing b) \<longrightarrow> handlersDone (gate s))"
proof -
  note I = gate_invD [OF gate_reachable [OF assms(1)]] and I' = gate_invD [OF gate_reachable [OF rtranclp_trans [OF assms]]]
  have "handlersDone (gate s) \<Longrightarrow> handlersDone (gate s')"
    using assms(2) by (induction rule: rtranclp_induct) (simp_all add: done_stable)
  with I(8) [of t] I'(5) [of t'] have "handlersDone (gate s) \<or> threads s t = Stopped \<longrightarrow> threads s' t' \<noteq> Serving" by blast
  moreover have "threads s t = Waiting \<Longrightarrow> stopping s" using I(4) [of t] by simp
  ultimately show ?thesis using I(7) by blast
qed

definition demo_gate :: "64 word \<Rightarrow> bool \<Rightarrow> phase \<Rightarrow> phase \<Rightarrow> gate_state" where
  "demo_gate w d p q = \<lparr>gate = \<lparr>handlerState = w, handlersDone = d, handlerDoneOnce = d\<rparr>, threads = (\<lambda>t. Arriving)(0 := p, 1 := q)\<rparr>"

lemma demo_gate_upd:
  "(threads (demo_gate w d p q))(0 := p') = threads (demo_gate w d p' q)" "(threads (demo_gate w d p q))(1 := q') = threads (demo_gate w d p q')"
  by (auto simp: demo_gate_def)

lemma demo_gate_run: "gate_step\<^sup>*\<^sup>* gate_init (demo_gate 9223372036854775808 True Left Stopped)"
proof -
  have e: "enterHandler (gate (demo_gate 0 False Arriving Arriving)) = (gate (demo_gate 1 False Serving Arriving), True)"
    "closeHandlerAdmission (gate (demo_gate 1 False Serving Arriving)) = (gate (demo_gate 9223372036854775809 False Serving Waiting), False)"
    "leaveHandler (gate (demo_gate 9223372036854775809 False Serving Waiting)) = (gate (demo_gate 9223372036854775808 False (Closing False) Waiting), True)"
    by (simp_all add: enterHandler_def closeHandlerAdmission_def leaveHandler_def demo_gate_def handlerStoppingBit_def handlerCountMask_def Let_def)
  have f: "in_flight (demo_gate 0 False Arriving Arriving) = {}" "0 \<in> in_flight (demo_gate 9223372036854775809 False Serving Waiting)"
    by (auto simp: in_flight_def demo_gate_def)
  have th: "threads (demo_gate w d p q) 0 = p" "threads (demo_gate w d p q) 1 = q" for w d p q by (simp_all add: demo_gate_def)
  have "gate_step (demo_gate 0 False Arriving Arriving) (demo_gate 1 False Serving Arriving)"
    using gate_enter [OF th(1) _ e(1)] f(1) by (simp add: demo_gate_upd) (simp add: demo_gate_def)
  moreover have "gate_step (demo_gate 1 False Serving Arriving) (demo_gate 9223372036854775809 False Serving Waiting)"
    using gate_stop [OF th(2) e(2)] by (simp add: demo_gate_upd) (simp add: demo_gate_def)
  moreover have "gate_step (demo_gate 9223372036854775809 False Serving Waiting) (demo_gate 9223372036854775808 False (Closing False) Waiting)"
    using gate_leave [OF f(2) e(3)] by (simp add: demo_gate_upd) (simp add: demo_gate_def)
  moreover have "gate_step (demo_gate 9223372036854775808 False (Closing False) Waiting) (demo_gate 9223372036854775808 True Left Waiting)"
    using gate_close [OF th(1) [of 9223372036854775808 False "Closing False" Waiting]] by (simp add: demo_gate_upd) (simp add: demo_gate_def close_done_def)
  moreover have "gate_step (demo_gate 9223372036854775808 True Left Waiting) (demo_gate 9223372036854775808 True Left Stopped)"
    using gate_join [OF th(2) [of 9223372036854775808 True Left Waiting]] by (simp add: demo_gate_upd) (simp add: demo_gate_def)
  moreover have "gate_init = demo_gate 0 False Arriving Arriving" by (auto simp: gate_init_def demo_gate_def)
  ultimately show ?thesis by (simp add: converse_rtranclp_into_rtranclp)
qed

theorem handlers_joined_witness:
  "gate_step\<^sup>*\<^sup>* gate_init (demo_gate 9223372036854775808 True Left Stopped)
   \<and> threads (demo_gate 9223372036854775808 True Left Stopped) 7 \<noteq> Serving"
proof -
  have "threads (demo_gate 9223372036854775808 True Left Stopped) 1 = Stopped" by (simp add: demo_gate_def)
  with handlers_joined [OF demo_gate_run rtranclp.rtrancl_refl, of 1 7] demo_gate_run show ?thesis by blast
qed

end
