(* ===== verification/Object_Meta.thy ===== *)
theory Object_Meta
  imports Go_Http
begin

text \<open>
  Object metadata and cache keys (\<^verbatim>\<open>src/cache/object.go\<close>): the metadata record, its
  construction from response headers and the headers it writes back, the conditional
  request predicates, the JSON row with its disambiguated length, and the keys under which
  metadata, bodies and blocks are stored.

  The clock reading and the JSON codec (\<^verbatim>\<open>goccy/go-json\<close>) are arguments.
\<close>

named_theorems object_keys \<open>shape and injectivity of the cache keys\<close>

section \<open>Metadata\<close>

record BlockSpan =
  First :: int
  Last :: int

record CachedObjectMeta =
  Key :: string
  Bucket :: string
  ETag :: string
  ContentType :: string
  ContentLength :: int
  LastModified :: int
  CacheControl :: string
  StorageClass :: string
  ACL :: string
  ContentEncoding :: string
  ContentDisposition :: string
  ContentLanguage :: string
  Expires :: string
  ServerSideEncryption :: string
  VersionID :: string
  PartsCount :: string
  UserMetadata :: "(string \<times> string) list"
  StatusCode :: int
  BodyUpstream :: bool
  BlockSize :: int
  BlocksComplete :: bool
  RangeBlockSpan :: "BlockSpan option"
  BodyRef :: string
  ContentLengthKnown :: bool
  CachedAt :: int

text \<open>The range loop over the headers that collects the user metadata.\<close>

fun user_metadata :: "header \<Rightarrow> (string \<times> string) list \<Rightarrow> (string \<times> string) list" where
  "user_metadata [] um = um"
| "user_metadata ((k, v) # h) um =
     user_metadata h
       (let lk = ToLower k in
        if HasPrefix lk ''x-amz-meta-'' \<and> v \<noteq> [] then AList.update lk (hd v) um else um)"

definition MetaFromHTTPHeaders :: "int \<Rightarrow> string \<Rightarrow> string \<Rightarrow> int \<Rightarrow> header \<Rightarrow> CachedObjectMeta" where
  "MetaFromHTTPHeaders now bucket key statusCode headers =
     \<lparr>Key = key, Bucket = bucket,
      ETag = header_get headers ''ETag'',
      ContentType = header_get headers ''Content-Type'',
      ContentLength =
        (let cl = header_get headers ''Content-Length'' in
         if cl \<noteq> [] then fst (ParseInt cl 10) else - 1),
      LastModified =
        (let lm = header_get headers ''Last-Modified'' in
         if lm \<noteq> [] then (case ParseTime lm of Some t \<Rightarrow> unix_sec t | None \<Rightarrow> 0) else 0),
      CacheControl = header_get headers ''Cache-Control'',
      StorageClass = header_get headers ''x-amz-storage-class'',
      ACL = header_get headers ''X-Amz-Acl'',
      ContentEncoding = header_get headers ''Content-Encoding'',
      ContentDisposition = header_get headers ''Content-Disposition'',
      ContentLanguage = header_get headers ''Content-Language'',
      Expires = header_get headers ''Expires'',
      ServerSideEncryption = header_get headers ''x-amz-server-side-encryption'',
      VersionID = header_get headers ''x-amz-version-id'',
      PartsCount = header_get headers ''x-amz-mp-parts-count'',
      UserMetadata = user_metadata headers [],
      StatusCode = statusCode,
      BodyUpstream = False, BlockSize = 0, BlocksComplete = False, RangeBlockSpan = None,
      BodyRef = [], ContentLengthKnown = False,
      CachedAt = unix_sec now\<rparr>"

definition WithRangeHeaders :: "int \<Rightarrow> int \<Rightarrow> int \<Rightarrow> header \<Rightarrow> header" where
  "WithRangeHeaders start end' totalSize h =
     (let contentLength = wrap64 (wrap64 (end' - start) + 1);
          h = header_set h ''Content-Length'' (FormatInt contentLength);
          h = header_set h ''Content-Range''
                (''bytes '' @ FormatInt start @ ''-'' @ FormatInt end' @ ''/'' @ FormatInt totalSize)
      in header_set h ''Accept-Ranges'' ''bytes'')"

definition set_nonempty :: "string \<Rightarrow> string \<Rightarrow> header \<Rightarrow> header" where
  "set_nonempty k v h = (if v \<noteq> [] then header_set h k v else h)"

definition write_user_metadata :: "(string \<times> string) list \<Rightarrow> header \<Rightarrow> header" where
  "write_user_metadata um h = fold (\<lambda>(k, v) h. header_put_raw h (ToLower k) [v]) um h"

definition WriteHeaders :: "CachedObjectMeta \<Rightarrow> (header \<Rightarrow> header) list \<Rightarrow> header \<Rightarrow> header" where
  "WriteHeaders m opts h =
     (let h = set_nonempty ''ETag'' (ETag m) h;
          h = set_nonempty ''Content-Type'' (ContentType m) h;
          h = (if 0 \<le> ContentLength m
               then header_set h ''Content-Length'' (FormatInt (ContentLength m)) else h);
          h = (if 0 < LastModified m
               then header_set h ''Last-Modified'' (FormatTime (LastModified m)) else h);
          h = set_nonempty ''Cache-Control'' (CacheControl m) h;
          h = set_nonempty ''x-amz-storage-class'' (StorageClass m) h;
          h = set_nonempty ''X-Amz-Acl'' (ACL m) h;
          h = set_nonempty ''Content-Encoding'' (ContentEncoding m) h;
          h = set_nonempty ''Content-Disposition'' (ContentDisposition m) h;
          h = set_nonempty ''Content-Language'' (ContentLanguage m) h;
          h = set_nonempty ''Expires'' (Expires m) h;
          h = set_nonempty ''x-amz-server-side-encryption'' (ServerSideEncryption m) h;
          h = set_nonempty ''x-amz-version-id'' (VersionID m) h;
          h = set_nonempty ''x-amz-mp-parts-count'' (PartsCount m) h;
          h = write_user_metadata (UserMetadata m) h
      in fold (\<lambda>opt h. opt h) opts h)"

definition IsPublicRead :: "CachedObjectMeta \<Rightarrow> bool" where
  "IsPublicRead m \<longleftrightarrow> ACL m = ''public-read'' \<or> ACL m = ''public-read-write''"

definition IsCacheable :: "CachedObjectMeta \<Rightarrow> int \<Rightarrow> bool" where
  "IsCacheable m maxSize =
     (if ETag m = [] then False
      else let cc = ToLower (CacheControl m) in
        if Contains cc ''no-store'' \<or> Contains cc ''private'' then False
        else if maxSize < ContentLength m then False
        else True)"

section \<open>Entity tags and conditional requests\<close>

definition normalizeETag :: "string \<Rightarrow> string" where
  "normalizeETag etag = Trim (CHR 0x22) (TrimPrefix etag ''W/'')"

definition MatchesETag :: "CachedObjectMeta \<Rightarrow> string \<Rightarrow> bool" where
  "MatchesETag m etag =
     (if etag = [] \<or> ETag m = [] then False
      else if etag = ''*'' then True
      else normalizeETag etag = normalizeETag (ETag m))"

text \<open>The loop over the candidates of a comma-separated list.\<close>

fun match_candidates :: "CachedObjectMeta \<Rightarrow> bool \<Rightarrow> string list \<Rightarrow> bool" where
  "match_candidates m strong [] = False"
| "match_candidates m strong (candidate # cs) =
     (let candidate = TrimSpace candidate in
      if candidate = ''*'' then True
      else if candidate = [] then match_candidates m strong cs
      else if strong \<and> (HasPrefix candidate ''W/'' \<or> HasPrefix (ETag m) ''W/'')
        then match_candidates m strong cs
      else if normalizeETag candidate = normalizeETag (ETag m) then True
      else match_candidates m strong cs)"

definition MatchesETagHeader :: "CachedObjectMeta \<Rightarrow> string \<Rightarrow> bool \<Rightarrow> bool" where
  "MatchesETagHeader m header strong =
     (if header = [] \<or> ETag m = [] then False
      else if header = ''*'' then True
      else match_candidates m strong (Split (CHR '','') header))"

text \<open>\<open>since\<close> is an instant in nanoseconds.\<close>

definition IsModifiedSince :: "CachedObjectMeta \<Rightarrow> int \<Rightarrow> bool" where
  "IsModifiedSince m since =
     (if LastModified m = 0 then True
      else since div 1000000000 * 1000000000 < LastModified m * 1000000000)"

definition etagKeyComponent :: "string \<Rightarrow> string" where
  "etagKeyComponent etag =
     (let weak = HasPrefix etag ''W/''; etag = Trim (CHR 0x22) (TrimPrefix etag ''W/'')
      in if weak then ''W/'' @ etag else etag)"

section \<open>The stored row\<close>

text \<open>Encode stamps the caller's record, so the updated record is returned with the bytes.\<close>

definition Encode ::
  "(CachedObjectMeta \<Rightarrow> string result) \<Rightarrow> CachedObjectMeta \<Rightarrow> CachedObjectMeta \<times> string result" where
  "Encode marshal m = (let m = m\<lparr>ContentLengthKnown := 0 \<le> ContentLength m\<rparr> in (m, marshal m))"

definition DecodeMeta ::
  "(string \<Rightarrow> CachedObjectMeta result) \<Rightarrow> string \<Rightarrow> CachedObjectMeta result" where
  "DecodeMeta unmarshal data =
     (case unmarshal data of
        Inl e \<Rightarrow> Inl e
      | Inr meta \<Rightarrow>
          Inr (if \<not> ContentLengthKnown meta \<and> ContentLength meta = 0
               then meta\<lparr>ContentLength := - 1\<rparr> else meta))"

section \<open>Keys\<close>

definition MakeTombstoneKey :: "string \<Rightarrow> string \<Rightarrow> string" where
  "MakeTombstoneKey bucket key = ''tomb|'' @ bucket @ ''|'' @ key"

definition MakeMetaKey :: "string \<Rightarrow> string \<Rightarrow> string" where
  "MakeMetaKey bucket key = ''meta|'' @ bucket @ ''|'' @ key"

definition BodyDiscriminator :: "CachedObjectMeta \<Rightarrow> string" where
  "BodyDiscriminator m = (if BodyRef m \<noteq> [] then BodyRef m else ETag m)"

definition hex_digit :: "nat \<Rightarrow> char" where
  "hex_digit d = char_of (if d < 10 then 48 + d else 87 + d)"

definition hex_EncodeToString :: "string \<Rightarrow> string" where
  "hex_EncodeToString bs =
     concat (map (\<lambda>c. let n = of_char c :: nat in [hex_digit (n div 16), hex_digit (n mod 16)]) bs)"

fun show_base36 :: "nat \<Rightarrow> string" where
  "show_base36 n = (if n < 36 then [hex_digit n] else show_base36 (n div 36) @ [hex_digit (n mod 36)])"

declare show_base36.simps [simp del]

text \<open>\<open>rand\<close> is what the entropy source returned, \<open>now\<close> the clock in nanoseconds after the epoch.\<close>

definition NewBodyRef :: "string result \<Rightarrow> nat \<Rightarrow> string" where
  "NewBodyRef rand now =
     (case rand of Inl _ \<Rightarrow> ''ref-'' @ show_base36 now | Inr b \<Rightarrow> hex_EncodeToString b)"

definition MakeBodyKey :: "string \<Rightarrow> string \<Rightarrow> string \<Rightarrow> string" where
  "MakeBodyKey bucket key etag =
     (if etag = [] then ''body|'' @ bucket @ ''|'' @ key
      else ''body|'' @ bucket @ ''|'' @ key @ ''|'' @ etagKeyComponent etag)"

definition MakeBlockKey :: "string \<Rightarrow> string \<Rightarrow> string \<Rightarrow> int \<Rightarrow> int \<Rightarrow> string" where
  "MakeBlockKey bucket key etag blockSize blockIdx =
     ''blk|'' @ bucket @ ''|'' @ key @ ''|'' @ etagKeyComponent etag @ ''|''
     @ FormatInt blockSize @ ''|'' @ FormatInt blockIdx"

section \<open>Entity tags: the grammar and the comparison functions\<close>

text \<open>
  RFC 7232: an entity tag is an optional weakness mark and an opaque quoted text. \<open>render\<close>
  prints it; \<open>strong_eq\<close> and \<open>weak_eq\<close> are the two comparison functions of its section 2.3.2.
\<close>

datatype entity_tag = Tag (weak_tag: bool) (opaque: string)

definition render :: "entity_tag \<Rightarrow> string" where
  "render t = (if weak_tag t then ''W/'' else []) @ [CHR 0x22] @ opaque t @ [CHR 0x22]"

definition opaque_ok :: "string \<Rightarrow> bool" where
  "opaque_ok s = list_all (\<lambda>c. let n = of_char c :: nat in 33 \<le> n \<and> n \<le> 126 \<and> n \<noteq> 34
                              \<and> c \<noteq> CHR '','' \<and> c \<noteq> CHR ''|'') s"

definition tag_ok :: "entity_tag \<Rightarrow> bool" where
  "tag_ok t = opaque_ok (opaque t)"

definition weak_eq :: "entity_tag \<Rightarrow> entity_tag \<Rightarrow> bool" where
  "weak_eq a b \<longleftrightarrow> opaque a = opaque b"

definition strong_eq :: "entity_tag \<Rightarrow> entity_tag \<Rightarrow> bool" where
  "strong_eq a b \<longleftrightarrow> \<not> weak_tag a \<and> \<not> weak_tag b \<and> opaque a = opaque b"

text \<open>A header value: the tags separated by a comma and optional blanks.\<close>

fun render_list :: "nat \<Rightarrow> entity_tag list \<Rightarrow> string" where
  "render_list n [] = []"
| "render_list n [t] = render t"
| "render_list n (t # ts) = render t @ '','' @ replicate n (CHR '' '') @ render_list n ts"

subsection \<open>Lemmas on tags\<close>

lemma dropWhile_neq:
  "q \<notin> set s \<Longrightarrow> dropWhile (\<lambda>x. x = q) (s @ t) = (if s = [] then dropWhile (\<lambda>x. x = q) t else s @ t)"
  by (cases s) auto

lemma Trim_quoted: "q \<notin> set s \<Longrightarrow> Trim q (q # s @ [q]) = s"
  using dropWhile_neq [of q "rev s" "[]"] by (simp add: Trim_def dropWhile_neq)

lemma opaque_char:
  assumes "opaque_ok s" and "c \<in> set s"
  shows "(of_char c :: nat) \<noteq> 34 \<and> c \<noteq> CHR '','' \<and> c \<noteq> CHR ''|''"
proof -
  have "\<forall>c \<in> set s. let n = of_char c :: nat in 33 \<le> n \<and> n \<le> 126 \<and> n \<noteq> 34
          \<and> c \<noteq> CHR '','' \<and> c \<noteq> CHR ''|''"
    using assms(1) unfolding opaque_ok_def list_all_iff .
  from bspec [OF this assms(2)] show ?thesis unfolding Let_def by blast
qed

lemma opaque_no_quote: "opaque_ok s \<Longrightarrow> CHR 0x22 \<notin> set s"
  using opaque_char [of s "CHR 0x22"] by auto

lemma opaque_no_comma: "opaque_ok s \<Longrightarrow> CHR '','' \<notin> set s"
  using opaque_char by blast

lemma opaque_no_bar: "opaque_ok s \<Longrightarrow> CHR ''|'' \<notin> set s"
  using opaque_char by blast

lemma render_not_Nil [simp]: "render t \<noteq> []"
  by (simp add: render_def)

lemma HasPrefix_render [simp]: "HasPrefix (render t) ''W/'' = weak_tag t"
  by (simp add: render_def)

lemma TrimPrefix_render [simp]: "TrimPrefix (render t) ''W/'' = CHR 0x22 # opaque t @ [CHR 0x22]"
proof (cases "weak_tag t")
  case True
  then have "render t = ''W/'' @ (CHR 0x22 # opaque t @ [CHR 0x22])" by (simp add: render_def)
  then show ?thesis by (simp only: TrimPrefix_append)
next
  case False
  then show ?thesis by (simp add: render_def TrimPrefix_def)
qed

lemma normalizeETag_render [simp]: "tag_ok t \<Longrightarrow> normalizeETag (render t) = opaque t"
  by (simp add: normalizeETag_def tag_ok_def opaque_no_quote Trim_quoted)

lemma etagKeyComponent_render:
  "tag_ok t \<Longrightarrow> etagKeyComponent (render t) = (if weak_tag t then ''W/'' else []) @ opaque t"
  by (simp add: etagKeyComponent_def tag_ok_def opaque_no_quote Trim_quoted)

lemma drop_seqs_blanks: "drop_seqs ws_seqs (replicate n (CHR '' '') @ s) = drop_seqs ws_seqs s"
proof (induction n)
  case (Suc n)
  have "find (\<lambda>p. p \<noteq> [] \<and> HasPrefix (CHR '' '' # t) p) ws_seqs = Some [CHR '' '']" for t
    by (simp add: ws_seqs_def)
  then show ?case using Suc by (subst drop_seqs.simps) simp
qed simp

lemma TrimSpace_render: "TrimSpace (replicate n (CHR '' '') @ render t) = render t"
proof -
  have "drop_seqs ws_seqs (render t) = render t"
    by (rule drop_seqs_stop) (simp add: ws_seqs_def render_def)
  moreover have "drop_seqs (map rev ws_seqs) (rev (render t)) = rev (render t)"
    by (rule drop_seqs_stop) (simp add: ws_seqs_def render_def)
  ultimately show ?thesis by (simp add: TrimSpace_def drop_seqs_blanks)
qed

lemma render_no_comma: "tag_ok t \<Longrightarrow> CHR '','' \<notin> set (render t)"
  by (simp add: render_def tag_ok_def opaque_no_comma)

lemma Split_render_list:
  assumes "list_all tag_ok (t # ts)"
  shows "Split (CHR '','') (render_list n (t # ts))
         = render t # map (\<lambda>t. replicate n (CHR '' '') @ render t) ts"
  using assms
proof (induction ts arbitrary: t)
  case Nil
  then show ?case by (simp add: Split_no_sep render_no_comma)
next
  case (Cons u us)
  have "Split (CHR '','') (replicate n (CHR '' '') @ v) =
        (case Split (CHR '','') v of y # ys \<Rightarrow> (replicate n (CHR '' '') @ y) # ys | [] \<Rightarrow> [])" for v
    by (induction n) (auto split: list.splits)
  with Cons show ?case by (simp add: Split_append_sep render_no_comma)
qed

lemma match_candidates_tags:
  assumes "tag_ok e" and "ETag m = render e"
    and "\<forall>c \<in> set cs. \<exists>t. tag_ok t \<and> TrimSpace c = render t"
  shows "match_candidates m strong cs
         = (\<exists>t. tag_ok t \<and> render t \<in> TrimSpace ` set cs \<and> (if strong then strong_eq t e else weak_eq t e))"
  using assms(3)
proof (induction cs)
  case (Cons c cs)
  then obtain t where t: "tag_ok t" "TrimSpace c = render t" by auto
  have inj: "render t' = render t \<Longrightarrow> tag_ok t' \<Longrightarrow> t' = t" for t'
    using t(1) by (metis HasPrefix_render entity_tag.expand normalizeETag_render)
  have star: "render t \<noteq> ''*''" by (simp add: render_def)
  show ?case
    using Cons t assms(1,2) star inj
    by (auto simp: Let_def strong_eq_def weak_eq_def)
qed simp

lemma render_inject: "tag_ok t \<Longrightarrow> tag_ok t' \<Longrightarrow> render t = render t' \<longleftrightarrow> t = t'"
  by (metis HasPrefix_render entity_tag.expand normalizeETag_render)

subsection \<open>Lemmas on keys\<close>

lemma etag_component_no_bar: "tag_ok t \<Longrightarrow> CHR ''|'' \<notin> set (etagKeyComponent (render t))"
  by (simp add: etagKeyComponent_render tag_ok_def opaque_no_bar)

text \<open>A strong tag whose text begins with the weakness mark is the only source of collisions.\<close>

definition plain_tag :: "entity_tag \<Rightarrow> bool" where
  "plain_tag t \<longleftrightarrow> tag_ok t \<and> (weak_tag t \<or> \<not> HasPrefix (opaque t) ''W/'')"

lemma etag_component_inject [object_keys]:
  assumes "plain_tag t" and "plain_tag t'"
  shows "etagKeyComponent (render t) = etagKeyComponent (render t') \<longleftrightarrow> t = t'"
  using assms
  by (cases t; cases t') (auto simp: plain_tag_def etagKeyComponent_render)

lemma FormatInt_no_bar: "CHR ''|'' \<notin> set (FormatInt i)"
  by (rule FormatInt_no_char) simp_all

lemma MakeMetaKey_inject [object_keys]:
  assumes "CHR ''|'' \<notin> set b" and "CHR ''|'' \<notin> set b'"
  shows "MakeMetaKey b k = MakeMetaKey b' k' \<longleftrightarrow> b = b' \<and> k = k'"
  using sep_inject [OF assms] by (simp add: MakeMetaKey_def)

lemma MakeTombstoneKey_inject [object_keys]:
  assumes "CHR ''|'' \<notin> set b" and "CHR ''|'' \<notin> set b'"
  shows "MakeTombstoneKey b k = MakeTombstoneKey b' k' \<longleftrightarrow> b = b' \<and> k = k'"
  using sep_inject [OF assms] by (simp add: MakeTombstoneKey_def)

lemma MakeBodyKey_inject [object_keys]:
  assumes "CHR ''|'' \<notin> set b" and "CHR ''|'' \<notin> set b'" and "e \<noteq> []" and "e' \<noteq> []"
    and "CHR ''|'' \<notin> set (etagKeyComponent e)" and "CHR ''|'' \<notin> set (etagKeyComponent e')"
  shows "MakeBodyKey b k e = MakeBodyKey b' k' e'
         \<longleftrightarrow> b = b' \<and> k = k' \<and> etagKeyComponent e = etagKeyComponent e'"
  using sep_inject [OF assms(1,2)] sep_inject_right [OF assms(5,6)] assms(3,4)
  by (simp add: MakeBodyKey_def)

lemma MakeBlockKey_inject [object_keys]:
  assumes "CHR ''|'' \<notin> set b" and "CHR ''|'' \<notin> set b'"
    and "CHR ''|'' \<notin> set (etagKeyComponent e)" and "CHR ''|'' \<notin> set (etagKeyComponent e')"
    and "int64_range s" and "int64_range s'" and "int64_range i" and "int64_range i'"
  shows "MakeBlockKey b k e s i = MakeBlockKey b' k' e' s' i'
         \<longleftrightarrow> b = b' \<and> k = k' \<and> etagKeyComponent e = etagKeyComponent e' \<and> s = s' \<and> i = i'"
proof -
  let ?c = "etagKeyComponent e" and ?c' = "etagKeyComponent e'" and ?F = "FormatInt"
  have "MakeBlockKey b k e s i = MakeBlockKey b' k' e' s' i'
        \<longleftrightarrow> b = b' \<and> k @ CHR ''|'' # ?c @ CHR ''|'' # ?F s @ CHR ''|'' # ?F i
                   = k' @ CHR ''|'' # ?c' @ CHR ''|'' # ?F s' @ CHR ''|'' # ?F i'"
    by (simp add: MakeBlockKey_def sep_inject [OF assms(1,2)])
  also have "\<dots> \<longleftrightarrow> b = b' \<and> k = k' \<and> ?c = ?c' \<and> ?F s = ?F s' \<and> ?F i = ?F i'"
    using sep_inject_right [OF FormatInt_no_bar FormatInt_no_bar,
        of "k @ CHR ''|'' # ?c @ CHR ''|'' # ?F s" i "k' @ CHR ''|'' # ?c' @ CHR ''|'' # ?F s'" i']
      sep_inject_right [OF FormatInt_no_bar FormatInt_no_bar,
        of "k @ CHR ''|'' # ?c" s "k' @ CHR ''|'' # ?c'" s']
      sep_inject_right [OF assms(3,4), of k k']
    by auto
  also have "\<dots> \<longleftrightarrow> b = b' \<and> k = k' \<and> ?c = ?c' \<and> s = s' \<and> i = i'"
    using FormatInt_inject [OF assms(5,6)] FormatInt_inject [OF assms(7,8)] by blast
  finally show ?thesis .
qed

lemma keyspaces_disjoint [object_keys, simp]:
  "MakeMetaKey b k \<noteq> MakeBodyKey b' k' e" "MakeMetaKey b k \<noteq> MakeBlockKey b' k' e s i"
  "MakeMetaKey b k \<noteq> MakeTombstoneKey b' k'" "MakeBodyKey b k e \<noteq> MakeBlockKey b' k' e' s i"
  "MakeBodyKey b k e \<noteq> MakeTombstoneKey b' k'" "MakeBlockKey b k e s i \<noteq> MakeTombstoneKey b' k'"
  by (simp_all add: MakeMetaKey_def MakeBodyKey_def MakeBlockKey_def MakeTombstoneKey_def)

section \<open>Properties\<close>


definition sample_meta :: CachedObjectMeta where
  "sample_meta = MetaFromHTTPHeaders 1700000000000000000 ''b'' ''k'' 200
     [(''Etag'', [render (Tag False ''abc'')]), (''Content-Length'', [''12''])]"




text \<open>the weakness mark is not kept apart from the opaque text: the strong tag whose text is
  W/abc and the weak tag whose text is abc name the same body.\<close>

lemma weak_strong_body_key_collision:
  "MakeBodyKey b k (render (Tag False ''W/abc'')) = MakeBodyKey b k (render (Tag True ''abc''))
   \<and> \<not> strong_eq (Tag False ''W/abc'') (Tag True ''abc'')
   \<and> \<not> weak_eq (Tag False ''W/abc'') (Tag True ''abc'')"
proof -
  have "tag_ok (Tag False ''W/abc'')" and "tag_ok (Tag True ''abc'')" by code_simp+
  then show ?thesis
    by (simp add: MakeBodyKey_def etagKeyComponent_render strong_eq_def weak_eq_def)
qed

text \<open>a stored row gives back the length it was written with: a known zero stays zero and an
  unknown length stays unknown, while a row without the marker whose length is zero is read as
  unknown.\<close>

lemma Encode_DecodeMeta_length:
  assumes codec: "\<And>m data. marshal m = Inr data \<Longrightarrow> unmarshal data = Inr m"
    and enc: "Encode marshal m = (m', Inr data)"
    and legacy: "marshal (m\<lparr>ContentLengthKnown := False, ContentLength := 0\<rparr>) = Inr data'"
  shows "DecodeMeta unmarshal data = Inr m'
    \<and> m' = m\<lparr>ContentLengthKnown := 0 \<le> ContentLength m\<rparr>
    \<and> DecodeMeta unmarshal data' = Inr (m\<lparr>ContentLengthKnown := False, ContentLength := - 1\<rparr>)"
  using codec [OF legacy] enc codec [of m'] by (auto simp: Encode_def DecodeMeta_def Let_def)

text \<open>A codec whose only rows are the ones of a one-byte object and of a legacy one.\<close>

definition toy_marshal :: "CachedObjectMeta \<Rightarrow> string result" where
  "toy_marshal m =
     (if m = sample_meta\<lparr>ContentLengthKnown := True\<rparr> then Inr ''new''
      else if m = sample_meta\<lparr>ContentLengthKnown := False, ContentLength := 0\<rparr> then Inr ''old''
      else Inl (EText ''unsupported value''))"

definition toy_unmarshal :: "string \<Rightarrow> CachedObjectMeta result" where
  "toy_unmarshal data =
     (if data = ''new'' then Inr (sample_meta\<lparr>ContentLengthKnown := True\<rparr>)
      else if data = ''old'' then Inr (sample_meta\<lparr>ContentLengthKnown := False, ContentLength := 0\<rparr>)
      else Inl (EText ''invalid character''))"

lemma ContentLength_sample: "ContentLength sample_meta = 12"
proof -
  have "CanonicalHeaderKey ''Content-Length'' = ''Content-Length''" by code_simp
  moreover have "ParseInt ''12'' 10 = (12, True)"
    by (simp add: ParseInt_def ParseUint_def digit_val_def signed_result_def)
  ultimately show ?thesis
    by (simp add: sample_meta_def MetaFromHTTPHeaders_def header_get_def header_values_def)
qed

lemma Encode_DecodeMeta_length_witness:
  "DecodeMeta toy_unmarshal ''new'' = Inr (sample_meta\<lparr>ContentLengthKnown := True\<rparr>)
   \<and> DecodeMeta toy_unmarshal ''old''
     = Inr (sample_meta\<lparr>ContentLengthKnown := False, ContentLength := - 1\<rparr>)"
proof -
  have codec: "toy_marshal m = Inr data \<Longrightarrow> toy_unmarshal data = Inr m" for m data
    by (auto simp: toy_marshal_def toy_unmarshal_def split: if_splits)
  have enc: "Encode toy_marshal sample_meta = (sample_meta\<lparr>ContentLengthKnown := True\<rparr>, Inr ''new'')"
    by (simp add: Encode_def toy_marshal_def ContentLength_sample)
  have "ContentLengthKnown (sample_meta\<lparr>ContentLengthKnown := False, ContentLength := 0\<rparr>)
        \<noteq> ContentLengthKnown (sample_meta\<lparr>ContentLengthKnown := True\<rparr>)" by simp
  then have "sample_meta\<lparr>ContentLengthKnown := False, ContentLength := 0\<rparr>
        \<noteq> sample_meta\<lparr>ContentLengthKnown := True\<rparr>" by metis
  then have legacy: "toy_marshal (sample_meta\<lparr>ContentLengthKnown := False, ContentLength := 0\<rparr>) = Inr ''old''"
    by (simp add: toy_marshal_def)
  from Encode_DecodeMeta_length [where unmarshal = toy_unmarshal, OF codec enc legacy]
  show ?thesis by blast
qed

end
