(* ===== verification/Http_Server.thy ===== *)
theory Http_Server
  imports S3_Errors Handler_Gate Forwarder Object_Meta
begin

text \<open>
  The HTTP server in front of the service (\<^verbatim>\<open>handlers/server.go\<close>, \<^verbatim>\<open>handlers/errors.go\<close>): the route table, admission
  control, bucket names, content lengths, and how a handler's error becomes a response. The router is a library:
  its matching is a parameter with the documented laws of templates and methods. The service's handlers are a
  record of operations.
\<close>

section \<open>Routes\<close>

datatype endpoint =
    handleHealth | metricsHandler | pprofHandler string
  | handleCompleteMultipartUpload | handleObjectWithQuery | handleInitiateMultipart | handleObjectTagging | handleObjectACL | handleObject
  | handleBucketMultipartUploads | handleListObjectsV2 | handleBucketVersioning | handleBucketACL | handleBucketLifecycle
  | handleBucketPolicy | handleBucketCORS | handleBucketTagging | handleBucketLocation | handleDeleteObjects | handleBucket
  | handleListBuckets

record Route =
  tmpl :: string
  Queries :: "(string \<times> string) list"
  Methods :: "string list"
  MatcherFunc :: "Request \<Rightarrow> bool"
  rt_handler :: endpoint

abbreviation HandleFunc :: "string \<Rightarrow> (string \<times> string) list \<Rightarrow> string list \<Rightarrow> endpoint \<Rightarrow> Route" where
  "HandleFunc t q m h \<equiv> \<lparr>tmpl = t, Queries = q, Methods = m, MatcherFunc = (\<lambda>r. True), rt_handler = h\<rparr>"

definition pprof_routes :: "Route list" where
  "pprof_routes =
     map (\<lambda>n. HandleFunc (''/debug/pprof/'' @ n) [] [] (pprofHandler n))
       [[], ''cmdline'', ''profile'', ''symbol'', ''trace'', ''heap'', ''goroutine'', ''allocs'', ''block'', ''mutex'', ''threadcreate'']"

abbreviation object_tmpl :: string where
  "object_tmpl \<equiv> ''/{bucket}/{object:.+}''"

definition object_routes :: "Route list" where
  "object_routes =
     [\<lparr>tmpl = object_tmpl, Queries = [(''uploadId'', ''{uploadId}'')], Methods = [''POST''],
       MatcherFunc = (\<lambda>r. values_get (URL_Query r) ''partNumber'' = []), rt_handler = handleCompleteMultipartUpload\<rparr>,
      HandleFunc object_tmpl [(''uploadId'', ''{uploadId}'')] [''PUT'', ''POST'', ''DELETE'', ''GET''] handleObjectWithQuery,
      HandleFunc object_tmpl [(''uploads'', [])] [''POST''] handleInitiateMultipart,
      HandleFunc object_tmpl [(''tagging'', [])] [''GET'', ''PUT'', ''DELETE''] handleObjectTagging,
      HandleFunc object_tmpl [(''acl'', [])] [''GET'', ''PUT''] handleObjectACL,
      HandleFunc object_tmpl [] [''GET'', ''HEAD'', ''PUT'', ''DELETE''] handleObject]"

definition bucket_routes :: "string \<Rightarrow> Route list" where
  "bucket_routes p =
     [HandleFunc p [(''uploads'', [])] [''GET''] handleBucketMultipartUploads,
      HandleFunc p [(''list-type'', ''2'')] [''GET''] handleListObjectsV2,
      HandleFunc p [(''versioning'', [])] [''GET'', ''PUT''] handleBucketVersioning,
      HandleFunc p [(''acl'', [])] [''GET'', ''PUT''] handleBucketACL,
      HandleFunc p [(''lifecycle'', [])] [''GET'', ''PUT'', ''DELETE''] handleBucketLifecycle,
      HandleFunc p [(''policy'', [])] [''GET'', ''PUT'', ''DELETE''] handleBucketPolicy,
      HandleFunc p [(''cors'', [])] [''GET'', ''PUT'', ''DELETE''] handleBucketCORS,
      HandleFunc p [(''tagging'', [])] [''GET'', ''PUT'', ''DELETE''] handleBucketTagging,
      HandleFunc p [(''location'', [])] [''GET''] handleBucketLocation,
      HandleFunc p [(''delete'', [])] [''POST''] handleDeleteObjects,
      HandleFunc p [] [''GET'', ''HEAD'', ''PUT'', ''DELETE''] handleBucket]"

definition setupRouter :: "bool \<Rightarrow> Route list" where
  "setupRouter pprofEnabled =
     [HandleFunc ''/health'' [] [''GET''] handleHealth, HandleFunc ''/metrics'' [] [''GET''] metricsHandler]
     @ (if pprofEnabled then pprof_routes else [])
     @ object_routes @ bucket_routes ''/{bucket}'' @ bucket_routes ''/{bucket}/''
     @ [HandleFunc ''/'' [] [''GET''] handleListBuckets]"

text \<open>The router: the route a request matches with the values of its variables, or why there is none.\<close>

datatype mux_err = ErrMethodMismatch | ErrNoRoute

type_synonym vars = "string \<rightharpoonup> string"

type_synonym mux = "Route list \<Rightarrow> Request \<Rightarrow> mux_err + (Route \<times> vars)"

definition isOperationalRoute :: "Route \<Rightarrow> bool" where
  "isOperationalRoute rt \<longleftrightarrow> tmpl rt = ''/health'' \<or> tmpl rt = ''/metrics'' \<or> HasPrefix (tmpl rt) ''/debug/pprof/''"

definition matchesS3Operation :: "mux \<Rightarrow> Route list \<Rightarrow> Request \<Rightarrow> bool" where
  "matchesS3Operation Match rs r =
     (case Match rs r of
        Inr (rt, _) \<Rightarrow> \<not> isOperationalRoute rt
      | Inl ErrNoRoute \<Rightarrow> False
      | Inl ErrMethodMismatch \<Rightarrow>
          list_ex (\<lambda>m. case Match rs (r\<lparr>Method := m\<rparr>) of Inr (rt, _) \<Rightarrow> \<not> isOperationalRoute rt | Inl _ \<Rightarrow> False)
            [''GET'', ''HEAD'', ''PUT'', ''POST'', ''DELETE''])"

text \<open>\<^verbatim>\<open>http.Error\<close>.\<close>

definition http_Error :: "ResponseWriter \<Rightarrow> string \<Rightarrow> int \<Rightarrow> ResponseWriter" where
  "http_Error w text code =
     (let h = header_del (rw_header w) ''Content-Length'';
          h = header_set h ''Content-Type'' ''text/plain; charset=utf-8'';
          h = header_set h ''X-Content-Type-Options'' ''nosniff''
      in fst (rw_Write (text @ [CHR 0x0A]) (WriteHeader code (w\<lparr>rw_header := h\<rparr>))))"

definition rejectShutdownRequest :: "mux \<Rightarrow> Route list \<Rightarrow> string \<Rightarrow> ResponseWriter \<Rightarrow> Request \<Rightarrow> ResponseWriter" where
  "rejectShutdownRequest Match rs minted w r =
     (if matchesS3Operation Match rs r then WriteError minted w r ''ServiceUnavailable''
      else http_Error w ''server is shutting down'' 503)"

section \<open>Errors as responses\<close>

definition WriteAuthError :: "string \<Rightarrow> ResponseWriter \<Rightarrow> Request \<Rightarrow> auth_code \<Rightarrow> ResponseWriter" where
  "WriteAuthError minted w r code =
     WriteError minted w r
       (case code of
          ErrCodeSignatureMismatch \<Rightarrow> ''SignatureDoesNotMatch''
        | ErrCodeInvalidAccessKey \<Rightarrow> ''InvalidAccessKeyId''
        | ErrCodeExpiredRequest \<Rightarrow> ''AccessDenied''
        | ErrCodeMalformedAuth \<Rightarrow> ''AuthorizationHeaderMalformed''
        | ErrCodeInternal \<Rightarrow> ''InternalError'')"

definition handleError :: "string \<Rightarrow> ResponseWriter \<Rightarrow> Request \<Rightarrow> err \<Rightarrow> ResponseWriter" where
  "handleError minted w r e =
     (case IsAuthError e of Some (code, _) \<Rightarrow> WriteAuthError minted w r code | None \<Rightarrow> WriteInternalError minted w r e)"

text \<open>How serving ends: the response is complete, or the connection is cut by a panic.\<close>

datatype served = Completed | Aborted

type_synonym 's service_handler = "ResponseWriter \<Rightarrow> Request \<Rightarrow> body \<Rightarrow> 's \<Rightarrow> 's \<times> ResponseWriter \<times> err option"

definition handleWithError ::
  "string \<Rightarrow> 's service_handler \<Rightarrow> ResponseWriter \<Rightarrow> Request \<Rightarrow> body \<Rightarrow> 's \<Rightarrow> 's \<times> ResponseWriter \<times> served" where
  "handleWithError minted handler w r body s =
     (case handler w r body s of
        (s, w, None) \<Rightarrow> (s, w, Completed)
      | (s, w, Some e) \<Rightarrow> if rw_sent w \<noteq> None then (s, w, Aborted) else (s, handleError minted w r e, Completed))"

section \<open>Checks on a request\<close>

definition alnum :: "char \<Rightarrow> bool" where
  "alnum c \<longleftrightarrow> c \<in> set ''abcdefghijklmnopqrstuvwxyz0123456789''"

definition validBucketNameRegex :: "string \<Rightarrow> bool" where
  "validBucketNameRegex s \<longleftrightarrow>
     2 \<le> length s \<and> alnum (hd s) \<and> list_all (\<lambda>c. alnum c \<or> c = CHR ''.'' \<or> c = CHR ''-'') s \<and> alnum (last s)"

definition validateBucketName :: "vars \<Rightarrow> ErrorCode option" where
  "validateBucketName vs =
     (let bucket = (case vs ''bucket'' of Some b \<Rightarrow> b | None \<Rightarrow> []) in
      if bucket = [] then Some ''InvalidArgument''
      else if length bucket < 3 \<or> 63 < length bucket then Some ''InvalidBucketName''
      else if \<not> validBucketNameRegex bucket then Some ''InvalidBucketName''
      else if Contains bucket ''..'' then Some ''InvalidBucketName''
      else if Contains bucket ''.-'' \<or> Contains bucket ''-.'' then Some ''InvalidBucketName''
      else if Contains bucket ''_'' then Some ''InvalidBucketName''
      else None)"

definition validateContentLength :: "Request \<Rightarrow> ErrorCode option" where
  "validateContentLength r =
     (if IsStreamingPayload (header_get (Header r) ''X-Amz-Content-Sha256'') then
        (let v = header_get (Header r) ''X-Amz-Decoded-Content-Length'' in
         if v = [] then Some ''MissingContentLength''
         else case ParseInt v 10 of (decodedLen, ok) \<Rightarrow> if \<not> ok \<or> decodedLen < 0 then Some ''BadContentLength'' else None)
      else
        (let v = header_get (Header r) ''Content-Length'' in
         if v = [] then Some ''MissingContentLength''
         else case ParseInt v 10 of (contentLength, ok) \<Rightarrow>
                if \<not> ok then Some ''BadContentLength'' else if contentLength < 0 then Some ''BadContentLength'' else None))"

section \<open>Handlers\<close>

record 's ServiceApi =
  HandleGetObject :: "'s service_handler"
  HandleHeadObject :: "'s service_handler"
  HandlePutObject :: "'s service_handler"
  HandleDeleteObject :: "'s service_handler"
  HandleCopyObject :: "'s service_handler"
  HandleCompleteMultipartUpload :: "'s service_handler"
  HandleDeleteObjects :: "'s service_handler"
  HandlePassthrough :: "'s service_handler"
  GetRegion :: string

definition object_handler ::
  "string \<Rightarrow> 's ServiceApi \<Rightarrow> ResponseWriter \<Rightarrow> Request \<Rightarrow> body \<Rightarrow> 's \<Rightarrow> 's \<times> ResponseWriter \<times> served" where
  "object_handler minted api w r body s =
     (if Method r = ''PUT'' \<and> header_get (Header r) ''X-Amz-Copy-Source'' \<noteq> []
      then handleWithError minted (HandleCopyObject api) w r body s
      else case (if Method r = ''PUT'' then validateContentLength r else None) of
             Some code \<Rightarrow> (s, WriteError minted w r code, Completed)
           | None \<Rightarrow>
               if Method r = ''GET'' then handleWithError minted (HandleGetObject api) w r body s
               else if Method r = ''HEAD'' then handleWithError minted (HandleHeadObject api) w r body s
               else if Method r = ''PUT'' then handleWithError minted (HandlePutObject api) w r body s
               else if Method r = ''DELETE'' then handleWithError minted (HandleDeleteObject api) w r body s
               else (s, WriteError minted w r ''MethodNotAllowed'', Completed))"

definition bucket_handler ::
  "string \<Rightarrow> 's ServiceApi \<Rightarrow> ResponseWriter \<Rightarrow> Request \<Rightarrow> body \<Rightarrow> 's \<Rightarrow> 's \<times> ResponseWriter \<times> served" where
  "bucket_handler minted api w r body s =
     (if Method r \<in> set [''GET'', ''HEAD'', ''PUT'', ''DELETE''] then handleWithError minted (HandlePassthrough api) w r body s
      else (s, WriteError minted w r ''MethodNotAllowed'', Completed))"

definition location_handler :: "'s ServiceApi \<Rightarrow> ResponseWriter \<Rightarrow> ResponseWriter" where
  "location_handler api w =
     (let q = [CHR 0x22];
          w = WriteHeader 200 (w\<lparr>rw_header := header_set (rw_header w) ''Content-Type'' ''application/xml''\<rparr>)
      in fst (rw_Write
           (''<?xml version='' @ q @ ''1.0'' @ q @ '' encoding='' @ q @ ''UTF-8'' @ q @ ''?><LocationConstraint xmlns='' @ q
            @ ''http://s3.amazonaws.com/doc/2006-03-01/'' @ q @ ''>'' @ GetRegion api @ ''</LocationConstraint>'') w))"

definition health_handler :: "ResponseWriter \<Rightarrow> ResponseWriter" where
  "health_handler w = fst (rw_Write ''OK'' (WriteHeader 200 w))"

text \<open>
  The handler of an endpoint. All but listing the buckets and the operational ones check the bucket's name first;
  \<open>other\<close> stands for the handlers of the metrics and profiling libraries.
\<close>

definition endpoint_handler ::
  "string \<Rightarrow> 's ServiceApi \<Rightarrow> (endpoint \<Rightarrow> Request \<Rightarrow> ResponseWriter \<Rightarrow> ResponseWriter) \<Rightarrow> endpoint \<Rightarrow> vars
   \<Rightarrow> ResponseWriter \<Rightarrow> Request \<Rightarrow> body \<Rightarrow> 's \<Rightarrow> 's \<times> ResponseWriter \<times> served" where
  "endpoint_handler minted api other h vs w r body s =
     (case h of
        handleHealth \<Rightarrow> (s, health_handler w, Completed)
      | metricsHandler \<Rightarrow> (s, other h r w, Completed)
      | pprofHandler n \<Rightarrow> (s, other h r w, Completed)
      | handleListBuckets \<Rightarrow> handleWithError minted (HandlePassthrough api) w r body s
      | _ \<Rightarrow>
          (case validateBucketName vs of
             Some code \<Rightarrow> (s, WriteError minted w r code, Completed)
           | None \<Rightarrow>
               (case h of
                  handleObject \<Rightarrow> object_handler minted api w r body s
                | handleBucket \<Rightarrow> bucket_handler minted api w r body s
                | handleCompleteMultipartUpload \<Rightarrow> handleWithError minted (HandleCompleteMultipartUpload api) w r body s
                | handleDeleteObjects \<Rightarrow> handleWithError minted (HandleDeleteObjects api) w r body s
                | handleBucketLocation \<Rightarrow> (s, location_handler api w, Completed)
                | _ \<Rightarrow> handleWithError minted (HandlePassthrough api) w r body s)))"

section \<open>Admission\<close>

text \<open>The semaphore: its capacity, when there is one, and how many hold it.\<close>

definition admissionMiddleware ::
  "nat option \<Rightarrow> string \<Rightarrow> Route \<Rightarrow> (ResponseWriter \<Rightarrow> Request \<Rightarrow> 's \<Rightarrow> 's \<times> ResponseWriter \<times> served)
   \<Rightarrow> nat \<Rightarrow> ResponseWriter \<Rightarrow> Request \<Rightarrow> 's \<Rightarrow> nat \<times> 's \<times> ResponseWriter \<times> served" where
  "admissionMiddleware cap minted rt next held w r s =
     (if cap = None \<or> isOperationalRoute rt then (case next w r s of (s, w, e) \<Rightarrow> (held, s, w, e))
      else if held < the cap then (case next w r s of (s, w, e) \<Rightarrow> (held, s, w, e))
      else (held, s, WriteError minted w r ''SlowDown'', Completed))"

section \<open>Serving a request\<close>

record Server =
  admissionCap :: "nat option"
  pprofEnabled :: bool

text \<open>\<open>unmatched\<close> is the router's own answer when no route matches.\<close>

definition ServeHTTP ::
  "mux \<Rightarrow> (mux_err \<Rightarrow> ResponseWriter \<Rightarrow> ResponseWriter) \<Rightarrow> (endpoint \<Rightarrow> Request \<Rightarrow> ResponseWriter \<Rightarrow> ResponseWriter) \<Rightarrow> Server \<Rightarrow> string
   \<Rightarrow> 's ServiceApi \<Rightarrow> nat \<Rightarrow> ResponseWriter \<Rightarrow> Request \<Rightarrow> body \<Rightarrow> 's \<Rightarrow> nat \<times> 's \<times> ResponseWriter \<times> served" where
  "ServeHTTP Match unmatched other srv minted api held w r body s =
     (case Match (setupRouter (pprofEnabled srv)) r of
        Inl e \<Rightarrow> (held, s, unmatched e w, Completed)
      | Inr (rt, vs) \<Rightarrow>
          admissionMiddleware (admissionCap srv) minted rt
            (\<lambda>w r. endpoint_handler minted api other (rt_handler rt) vs w r body) held w r s)"

section \<open>Bucket names\<close>

text \<open>The rule the checks amount to: every dot stands between two letters or digits.\<close>

definition valid_bucket :: "string \<Rightarrow> bool" where
  "valid_bucket b \<longleftrightarrow>
     3 \<le> length b \<and> length b \<le> 63 \<and> alnum (hd b) \<and> alnum (last b) \<and> (\<forall>c \<in> set b. alnum c \<or> c = CHR ''.'' \<or> c = CHR ''-'')
     \<and> (\<forall>i. Suc i < length b \<longrightarrow> b ! i = CHR ''.'' \<longrightarrow> alnum (b ! Suc i))
     \<and> (\<forall>i. Suc i < length b \<longrightarrow> b ! Suc i = CHR ''.'' \<longrightarrow> alnum (b ! i))"

lemma not_alnum: "\<not> alnum (CHR ''.'')" "\<not> alnum (CHR ''-'')" "\<not> alnum (CHR ''_'')" "\<not> alnum (CHR ''|'')"
  by (simp_all add: alnum_def)

lemma Contains_pair: "Contains s [a, b] \<longleftrightarrow> (\<exists>i. Suc i < length s \<and> s ! i = a \<and> s ! Suc i = b)"
proof (induction s)
  case (Cons c s)
  have ex: "(\<exists>i. P i) \<longleftrightarrow> P 0 \<or> (\<exists>i. P (Suc i))" for P :: "nat \<Rightarrow> bool" by (metis not0_implies_Suc)
  have "HasPrefix (c # s) [a, b] \<longleftrightarrow> s \<noteq> [] \<and> c = a \<and> s ! 0 = b" by (cases s) (auto simp: HasPrefix_def)
  then show ?case unfolding ex [of "\<lambda>i. Suc i < length (c # s) \<and> (c # s) ! i = a \<and> (c # s) ! Suc i = b"] by (simp add: Cons)
qed simp

lemma Contains_char: "Contains s [a] \<longleftrightarrow> a \<in> set s"
  by (induction s) (auto simp: HasPrefix_def)

lemma pairs_apart:
  assumes "\<And>j. j < length b \<Longrightarrow> A (b ! j) \<longleftrightarrow> b ! j \<noteq> d \<and> b ! j \<noteq> h"
  shows "\<not> Contains b [d, d] \<and> \<not> Contains b [d, h] \<and> \<not> Contains b [h, d] \<longleftrightarrow>
    (\<forall>i. Suc i < length b \<longrightarrow> b ! i = d \<longrightarrow> A (b ! Suc i)) \<and> (\<forall>i. Suc i < length b \<longrightarrow> b ! Suc i = d \<longrightarrow> A (b ! i))"
proof -
  have "(\<not> (b ! i = d \<and> b ! Suc i = d) \<and> \<not> (b ! i = d \<and> b ! Suc i = h) \<and> \<not> (b ! i = h \<and> b ! Suc i = d))
      = ((b ! i = d \<longrightarrow> A (b ! Suc i)) \<and> (b ! Suc i = d \<longrightarrow> A (b ! i)))" if "Suc i < length b" for i
    using assms [OF that] assms [OF Suc_lessD [OF that]] by auto
  then show ?thesis unfolding Contains_pair by blast
qed

lemma dots_apart:
  assumes "\<forall>c \<in> set b. alnum c \<or> c = CHR ''.'' \<or> c = CHR ''-''"
  shows "\<not> Contains b ''..'' \<and> \<not> Contains b ''.-'' \<and> \<not> Contains b ''-.'' \<longleftrightarrow>
    (\<forall>i. Suc i < length b \<longrightarrow> b ! i = CHR ''.'' \<longrightarrow> alnum (b ! Suc i)) \<and> (\<forall>i. Suc i < length b \<longrightarrow> b ! Suc i = CHR ''.'' \<longrightarrow> alnum (b ! i))"
proof -
  have "alnum (b ! j) \<longleftrightarrow> b ! j \<noteq> CHR ''.'' \<and> b ! j \<noteq> CHR ''-''" if "j < length b" for j
    using bspec [OF assms nth_mem [OF that]] not_alnum(1,2) by auto
  from pairs_apart [of b alnum, OF this] show ?thesis .
qed

lemma validateBucketName_iff: "vs ''bucket'' = Some b \<Longrightarrow> validateBucketName vs = None \<longleftrightarrow> valid_bucket b"
proof -
  assume b: "vs ''bucket'' = Some b"
  have no: "\<forall>c \<in> set b. alnum c \<or> c = CHR ''.'' \<or> c = CHR ''-'' \<Longrightarrow> \<not> Contains b ''_''" using not_alnum(3) by (auto simp: Contains_char)
  show ?thesis
  proof (cases "\<forall>c \<in> set b. alnum c \<or> c = CHR ''.'' \<or> c = CHR ''-''")
    case True
    with dots_apart [OF True] no b show ?thesis by (auto simp: validateBucketName_def valid_bucket_def validBucketNameRegex_def list_all_iff Let_def)
  next
    case False
    then show ?thesis using b by (auto simp: validateBucketName_def valid_bucket_def validBucketNameRegex_def list_all_iff Let_def)
  qed
qed

lemma bucket_check: "validateBucketName [''bucket'' \<mapsto> b] = None \<longleftrightarrow> valid_bucket b"
  by (rule validateBucketName_iff) simp

section \<open>The router's laws\<close>

text \<open>
  What the router documents: it answers with a registered route whose methods include the request's; a template
  without variables matches its own text only; a variable without a pattern is a non-empty segment without a slash.
\<close>

definition checks_bucket :: "endpoint \<Rightarrow> bool" where
  "checks_bucket h =
     (case h of handleHealth \<Rightarrow> False | metricsHandler \<Rightarrow> False | pprofHandler _ \<Rightarrow> False | handleListBuckets \<Rightarrow> False | _ \<Rightarrow> True)"

definition route_class :: "Route \<Rightarrow> bool" where
  "route_class rt \<longleftrightarrow>
     (tmpl rt = ''/{bucket}'' \<or> tmpl rt = ''/{bucket}/'' \<or> tmpl rt = object_tmpl) \<and> checks_bucket (rt_handler rt) \<and> \<not> isOperationalRoute rt
     \<or> tmpl rt = ''/'' \<and> rt_handler rt = handleListBuckets
     \<or> isOperationalRoute rt \<and> CHR ''{'' \<notin> set (tmpl rt)"

lemma all_routes: "list_all route_class (setupRouter p)"
  by (cases p; simp only:) code_simp+

lemma ParseBucketKey_path:
  "URL_Path r = ''/'' @ b @ rest \<Longrightarrow> CHR ''/'' \<notin> set b \<Longrightarrow> rest = [] \<or> hd rest = CHR ''/'' \<Longrightarrow> fst (ParseBucketKey r) = b"
  using Cut_at [of "b @ rest" "CHR ''/''"]
  by (cases rest) (auto simp: ParseBucketKey_def TrimPrefix_def HasPrefix_def takeWhile_append split: prod.splits)

locale mux_laws =
  fixes Match :: mux
  assumes registered: "Match rs r = Inr (rt, vs) \<Longrightarrow> rt \<in> set rs"
    and methods: "Match rs r = Inr (rt, vs) \<Longrightarrow> Methods rt = [] \<or> Method r \<in> set (Methods rt)"
    and literal: "Match rs r = Inr (rt, vs) \<Longrightarrow> CHR ''{'' \<notin> set (tmpl rt) \<Longrightarrow> URL_Path r = tmpl rt"
    and bucket_var: "Match rs r = Inr (rt, vs) \<Longrightarrow> tmpl rt = ''/{bucket}'' @ rest \<Longrightarrow> rest \<in> {[], ''/''}
      \<Longrightarrow> \<exists>b. vs ''bucket'' = Some b \<and> b \<noteq> [] \<and> CHR ''/'' \<notin> set b \<and> URL_Path r = ''/'' @ b @ rest"
    and object_vars: "Match rs r = Inr (rt, vs) \<Longrightarrow> tmpl rt = object_tmpl
      \<Longrightarrow> \<exists>b k. vs ''bucket'' = Some b \<and> b \<noteq> [] \<and> CHR ''/'' \<notin> set b \<and> k \<noteq> [] \<and> URL_Path r = ''/'' @ b @ ''/'' @ k"
begin

lemma route_cases:
  assumes "Match (setupRouter p) r = Inr (rt, vs)"
  obtains (bucket) b where "checks_bucket (rt_handler rt)" "\<not> isOperationalRoute rt" "vs ''bucket'' = Some b" "fst (ParseBucketKey r) = b"
  | (root) "URL_Path r = ''/''" "rt_handler rt = handleListBuckets" "\<not> isOperationalRoute rt"
  | (operational) "isOperationalRoute rt" "URL_Path r = tmpl rt"
proof -
  have "route_class rt" using all_routes registered [OF assms] by (auto simp: list_all_iff)
  then consider "tmpl rt = ''/{bucket}'' @ []" "checks_bucket (rt_handler rt)" "\<not> isOperationalRoute rt"
    | "tmpl rt = ''/{bucket}'' @ ''/''" "checks_bucket (rt_handler rt)" "\<not> isOperationalRoute rt"
    | "tmpl rt = object_tmpl" "checks_bucket (rt_handler rt)" "\<not> isOperationalRoute rt"
    | "tmpl rt = ''/''" "rt_handler rt = handleListBuckets" | "isOperationalRoute rt" "CHR ''{'' \<notin> set (tmpl rt)"
    by (auto simp: route_class_def)
  then show thesis
  proof cases
    case 1
    from bucket_var [OF assms this(1)] obtain b where "vs ''bucket'' = Some b" "CHR ''/'' \<notin> set b" "URL_Path r = ''/'' @ b" by auto
    with 1 show thesis by (intro bucket) (auto simp: ParseBucketKey_path [of _ b "[]"])
  next
    case 2
    from bucket_var [OF assms this(1)] obtain b where "vs ''bucket'' = Some b" "CHR ''/'' \<notin> set b" "URL_Path r = ''/'' @ b @ ''/''" by auto
    with 2 show thesis by (intro bucket) (auto simp: ParseBucketKey_path [of _ b "''/''"])
  next
    case 3
    from object_vars [OF assms this(1)] obtain b k where "vs ''bucket'' = Some b" "CHR ''/'' \<notin> set b" "URL_Path r = ''/'' @ b @ ''/'' @ k" by auto
    with 3 show thesis by (intro bucket) (auto simp: ParseBucketKey_path [of _ b "''/'' @ k"])
  next
    case 4
    with literal [OF assms] show thesis by (intro root) (auto simp: isOperationalRoute_def HasPrefix_def)
  next
    case 5
    with literal [OF assms] show thesis by (intro operational) auto
  qed
qed

end

text \<open>A router with these laws: the first route whose template, query, condition and method match.\<close>

definition tmpl_vars :: "string \<Rightarrow> string \<Rightarrow> vars option" where
  "tmpl_vars t path =
     (let b = takeWhile (\<lambda>c. c \<noteq> CHR ''/'') (tl path); rest = dropWhile (\<lambda>c. c \<noteq> CHR ''/'') (tl path) in
      if CHR ''{'' \<notin> set t then (if path = t then Some Map.empty else None)
      else if HasPrefix path ''/'' \<and> b \<noteq> [] \<and> (t = ''/{bucket}'' \<and> rest = [] \<or> t = ''/{bucket}/'' \<and> rest = ''/'' \<or> t = object_tmpl \<and> 1 < length rest)
      then Some [''bucket'' \<mapsto> b] else None)"

definition query_matches :: "Request \<Rightarrow> string \<times> string \<Rightarrow> bool" where
  "query_matches r q \<longleftrightarrow>
     values_all (URL_Query r) (fst q) \<noteq> [] \<and> (snd q = [] \<or> CHR ''{'' \<in> set (snd q) \<or> values_get (URL_Query r) (fst q) = snd q)"

definition first_match :: mux where
  "first_match rs r =
     (let ok = (\<lambda>rt. tmpl_vars (tmpl rt) (URL_Path r) \<noteq> None \<and> list_all (query_matches r) (Queries rt) \<and> MatcherFunc rt r);
          m = (\<lambda>rt. Methods rt = [] \<or> Method r \<in> set (Methods rt))
      in case find (\<lambda>rt. ok rt \<and> m rt) rs of
           Some rt \<Rightarrow> Inr (rt, the (tmpl_vars (tmpl rt) (URL_Path r)))
         | None \<Rightarrow> Inl (if list_ex ok rs then ErrMethodMismatch else ErrNoRoute))"

lemma tmpl_vars_bucket:
  assumes "tmpl_vars t path = Some vs" and "t \<in> {''/{bucket}'', ''/{bucket}/'', object_tmpl}"
  obtains b rest where "vs ''bucket'' = Some b" "b \<noteq> []" "CHR ''/'' \<notin> set b" "path = ''/'' @ b @ rest"
    "t = ''/{bucket}'' \<and> rest = [] \<or> t = ''/{bucket}/'' \<and> rest = ''/'' \<or> t = object_tmpl \<and> (\<exists>k. k \<noteq> [] \<and> rest = ''/'' @ k)"
proof -
  let ?b = "takeWhile (\<lambda>c. c \<noteq> CHR ''/'') (tl path)" and ?rest = "dropWhile (\<lambda>c. c \<noteq> CHR ''/'') (tl path)"
  have "CHR ''{'' \<in> set t" using assms(2) by auto
  with assms(1) have v: "vs = [''bucket'' \<mapsto> ?b]" "HasPrefix path ''/''" "?b \<noteq> []"
    "t = ''/{bucket}'' \<and> ?rest = [] \<or> t = ''/{bucket}/'' \<and> ?rest = ''/'' \<or> t = object_tmpl \<and> 1 < length ?rest"
    by (auto simp: tmpl_vars_def Let_def split: if_splits)
  have path: "path = ''/'' @ ?b @ ?rest" using v(2) by (cases path) (auto simp: HasPrefix_def)
  have sl: "CHR ''/'' \<notin> set ?b" by (auto dest: set_takeWhileD)
  have "1 < length ?rest \<Longrightarrow> \<exists>k. k \<noteq> [] \<and> ?rest = ''/'' @ k"
    using hd_dropWhile [of "\<lambda>c. c \<noteq> CHR ''/''" "tl path"] by (cases ?rest) auto
  with v(4) show thesis by (intro that [OF _ v(3) sl path]) (use v(1) in auto)
qed

interpretation mux: mux_laws first_match
proof
  fix rs r rt vs
  assume m: "first_match rs r = Inr (rt, vs)"
  then have f: "find (\<lambda>rt. (tmpl_vars (tmpl rt) (URL_Path r) \<noteq> None \<and> list_all (query_matches r) (Queries rt) \<and> MatcherFunc rt r)
      \<and> (Methods rt = [] \<or> Method r \<in> set (Methods rt))) rs = Some rt"
    and vs: "vs = the (tmpl_vars (tmpl rt) (URL_Path r))"
    by (auto simp: first_match_def Let_def split: option.splits)
  from f have ok: "rt \<in> set rs" "tmpl_vars (tmpl rt) (URL_Path r) \<noteq> None" "Methods rt = [] \<or> Method r \<in> set (Methods rt)"
    by (auto simp: find_Some_iff)
  then have t: "tmpl_vars (tmpl rt) (URL_Path r) = Some vs" using vs by auto
  show "rt \<in> set rs" "Methods rt = [] \<or> Method r \<in> set (Methods rt)" using ok by auto
  show "CHR ''{'' \<notin> set (tmpl rt) \<Longrightarrow> URL_Path r = tmpl rt" using t by (auto simp: tmpl_vars_def Let_def split: if_splits)
  show "\<exists>b. vs ''bucket'' = Some b \<and> b \<noteq> [] \<and> CHR ''/'' \<notin> set b \<and> URL_Path r = ''/'' @ b @ rest"
    if "tmpl rt = ''/{bucket}'' @ rest" "rest \<in> {[], ''/''}" for rest
    using that by (elim insertE) (rule tmpl_vars_bucket [OF t]; auto)+
  show "\<exists>b k. vs ''bucket'' = Some b \<and> b \<noteq> [] \<and> CHR ''/'' \<notin> set b \<and> k \<noteq> [] \<and> URL_Path r = ''/'' @ b @ ''/'' @ k"
    if "tmpl rt = object_tmpl"
    by (rule tmpl_vars_bucket [OF t]) (use that in auto)
qed

section \<open>Properties\<close>

lemma operational_bucket_valid:
  assumes "isOperationalRoute rt" and "route_class rt" and "URL_Path r = tmpl rt"
  shows "valid_bucket (fst (ParseBucketKey r))"
proof -
  have "validateBucketName [''bucket'' \<mapsto> ''health''] = None" "validateBucketName [''bucket'' \<mapsto> ''metrics''] = None"
    "validateBucketName [''bucket'' \<mapsto> ''debug''] = None" by code_simp+
  then have v: "valid_bucket ''health''" "valid_bucket ''metrics''" "valid_bucket ''debug''"
    by (simp_all only: bucket_check)
  from assms(1,3) consider "URL_Path r = ''/'' @ ''health'' @ []" | "URL_Path r = ''/'' @ ''metrics'' @ []"
    | rest where "URL_Path r = ''/'' @ ''debug'' @ ''/'' @ rest"
    by (auto simp: isOperationalRoute_def HasPrefix_def) (metis append.assoc append_Cons append_Nil append_take_drop_id)
  then show ?thesis by cases (use v ParseBucketKey_path [of r "''health''" "[]"] ParseBucketKey_path [of r "''metrics''" "[]"]
      ParseBucketKey_path [of r "''debug''"] in auto)
qed

lemma endpoint_refused:
  "checks_bucket h \<Longrightarrow> validateBucketName vs = Some code
   \<Longrightarrow> endpoint_handler minted api other h vs w r body s = (s, WriteError minted w r code, Completed)"
  by (cases h) (simp_all add: checks_bucket_def endpoint_handler_def)

text \<open>C29: No request for a bucket whose name breaks the rules reaches the service: whatever the service's handlers
  would do, the answer is the same and the service's state is untouched. So the cache's row keys never meet a bucket
  with a separator in it, and rows of different objects have different keys.\<close>

theorem only_valid_buckets_served:
  assumes "mux_laws Match" and "URL_Path r \<noteq> ''/''" and "\<not> valid_bucket (fst (ParseBucketKey r))"
    and "ServeHTTP Match unmatched other srv minted api held w r body s = (held', s', w', e)"
    and "valid_bucket b1" and "valid_bucket b2"
  shows "s' = s \<and> ServeHTTP Match unmatched other srv minted api' held w r body s = (held', s', w', e)
    \<and> (MakeMetaKey b1 k1 = MakeMetaKey b2 k2 \<longleftrightarrow> b1 = b2 \<and> k1 = k2)"
proof -
  have bar: "CHR ''|'' \<notin> set b" if "valid_bucket b" for b using that not_alnum(4) by (auto simp: valid_bucket_def)
  have "\<exists>x. \<forall>api. ServeHTTP Match unmatched other srv minted api held w r body s = (held, s, x, Completed)"
  proof (cases "Match (setupRouter (pprofEnabled srv)) r")
    case (Inr m)
    obtain rt vs where m: "Match (setupRouter (pprofEnabled srv)) r = Inr (rt, vs)" using Inr by (cases m) auto
    have rc: "route_class rt" using all_routes mux_laws.registered [OF assms(1) m] by (auto simp: list_all_iff)
    from assms(1) m show ?thesis
    proof (rule mux_laws.route_cases)
      fix b assume b: "checks_bucket (rt_handler rt)" "vs ''bucket'' = Some b" "fst (ParseBucketKey r) = b"
      with assms(3) validateBucketName_iff [of vs b] obtain code where "validateBucketName vs = Some code" by auto
      note refused = endpoint_refused [OF b(1) this]
      show ?thesis
        by (cases "admissionCap srv = None \<or> isOperationalRoute rt \<or> held < the (admissionCap srv)")
          (auto simp: ServeHTTP_def m admissionMiddleware_def refused)
    qed (use assms(2,3) operational_bucket_valid [OF _ rc] in auto)
  qed (simp add: ServeHTTP_def)
  then show ?thesis using assms(4) MakeMetaKey_inject [OF bar [OF assms(5)] bar [OF assms(6)]] by auto
qed


definition echo_api :: "nat ServiceApi" where
  "echo_api =
     (let h = (\<lambda>w r body s. (s + 1, WriteHeader 200 w, None)) in
      \<lparr>HandleGetObject = h, HandleHeadObject = h, HandlePutObject = h, HandleDeleteObject = h, HandleCopyObject = h,
       HandleCompleteMultipartUpload = h, HandleDeleteObjects = h, HandlePassthrough = h, GetRegion = ''auto''\<rparr>)"

definition get_request :: "string \<Rightarrow> Request" where
  "get_request path = \<lparr>Method = ''GET'', URL = \<lparr>url_Opaque = [], url_Host = [], url_Path = path, url_RawPath = [], url_RawQuery = [],
     url_ForceQuery = False\<rparr>, Host = [], Header = [], ReqContentLength = 0\<rparr>"

definition fresh_writer :: ResponseWriter where
  "fresh_writer = \<lparr>rw_header = [], rw_sent = None, rw_body = [], rw_room = None\<rparr>"

abbreviation demo_serve :: "nat ServiceApi \<Rightarrow> nat \<Rightarrow> string \<Rightarrow> nat \<times> nat \<times> ResponseWriter \<times> served" where
  "demo_serve api held path \<equiv>
     ServeHTTP first_match (\<lambda>e w. WriteHeader 404 w) (\<lambda>h r w. w) \<lparr>admissionCap = Some 2, pprofEnabled = True\<rparr> ''ID'' api held fresh_writer
       (get_request path) ([], None) 0"

theorem only_valid_buckets_served_witness:
  "\<exists>w'. demo_serve echo_api 0 ''/a|b/k'' = (0, 0, w', Completed) \<and> demo_serve (echo_api\<lparr>GetRegion := ''x''\<rparr>) 0 ''/a|b/k'' = (0, 0, w', Completed)
     \<and> MakeMetaKey ''abc'' ''k'' \<noteq> MakeMetaKey ''abd'' ''k''"
proof -
  have "validateBucketName [''bucket'' \<mapsto> ''abc''] = None" "validateBucketName [''bucket'' \<mapsto> ''abd''] = None"
    "validateBucketName [''bucket'' \<mapsto> ''a|b''] \<noteq> None" by code_simp+
  then have v: "valid_bucket ''abc''" "valid_bucket ''abd''" "\<not> valid_bucket ''a|b''"
    by (simp_all only: bucket_check not_False_eq_True)
  have p: "URL_Path (get_request ''/a|b/k'') \<noteq> ''/''" "fst (ParseBucketKey (get_request ''/a|b/k'')) = ''a|b''" by code_simp+
  obtain h s' w' e where d: "demo_serve echo_api 0 ''/a|b/k'' = (h, s', w', e)" by (metis prod_cases4)
  have "(case demo_serve echo_api 0 ''/a|b/k'' of (h, s', w', e) \<Rightarrow> h = 0 \<and> e = Completed)" by code_simp
  with d have he: "h = 0" "e = Completed" by simp_all
  from only_valid_buckets_served [OF mux.mux_laws_axioms p(1) _ d v(1,2), of "echo_api\<lparr>GetRegion := ''x''\<rparr>" "''k''" "''k''"] p(2) v(3) d he
  show ?thesis by auto
qed


end
