(* ===== verification/Ocache_Client.thy ===== *)
theory Ocache_Client
  imports Object_Meta
begin

text \<open>
  The storage client (\<^verbatim>\<open>ocache/client.CacheClient\<close>, a third-party package) as a record of
  operations on an abstract world, and the part of its documented behaviour the cache relies on.

  A world \<open>'w\<close> stands for the cluster's storage together with everything else that can change
  between two calls: the clock and the caller's context. An operation may interleave with other
  clients; the laws of \<open>ocache_cas\<close> only bound what a call observed and left behind.
  \<open>ocache_seq\<close> adds what the calls do when nobody else writes. The versioned store at the end
  satisfies both.
\<close>

section \<open>The client\<close>

type_synonym version = "64 word"

text \<open>What a reader yields: its bytes, then an error or the end of the stream.\<close>

type_synonym reader = "string \<times> err option"

text \<open>
  Optional interfaces of the client are optional fields. A stream into a writer returns the bytes the
  writer accepted; a stream from a reader returns the number of bytes that were consumed.
\<close>

record 'w CacheClient =
  cl_Get :: "string \<Rightarrow> 'w \<Rightarrow> 'w \<times> string option \<times> err option"
  cl_Put :: "string \<Rightarrow> string \<Rightarrow> int \<Rightarrow> 'w \<Rightarrow> 'w \<times> err option"
  cl_Delete :: "string \<Rightarrow> 'w \<Rightarrow> 'w \<times> err option"
  cl_GetWithVersion :: "string \<Rightarrow> 'w \<Rightarrow> 'w \<times> string option \<times> version \<times> bool \<times> err option"
  cl_PutIfVersion :: "string \<Rightarrow> string \<Rightarrow> int \<Rightarrow> version \<Rightarrow> 'w \<Rightarrow> 'w \<times> err option"
  cl_DeleteIfVersion :: "string \<Rightarrow> version \<Rightarrow> 'w \<Rightarrow> 'w \<times> err option"
  cl_GetStream :: "string \<Rightarrow> 'w \<Rightarrow> 'w \<times> string \<times> err option"
  cl_GetRangeStream :: "string \<Rightarrow> int \<Rightarrow> int \<Rightarrow> 'w \<Rightarrow> 'w \<times> string \<times> err option"
  cl_PutStream :: "string \<Rightarrow> reader \<Rightarrow> int \<Rightarrow> 'w \<Rightarrow> 'w \<times> int \<times> err option"
  cl_PutStreamSheddable :: "(string \<Rightarrow> reader \<Rightarrow> int \<Rightarrow> 'w \<Rightarrow> 'w \<times> int \<times> err option) option"
  cl_IsOverBudget :: "(err \<Rightarrow> bool) option"
  cl_IsLocal :: "(string \<Rightarrow> bool) option"
  cl_PutBlockBytes :: "(string \<Rightarrow> string \<Rightarrow> int \<Rightarrow> 'w \<Rightarrow> 'w \<times> bool \<times> err option) option"
  w_now :: "'w \<Rightarrow> int"
  w_ctx_err :: "'w \<Rightarrow> err option"

definition isNotFoundError :: "err \<Rightarrow> bool" where
  "isNotFoundError e =
     (let errStr = Error e in
      errStr = ''key not found'' \<or> errStr = ''not found''
      \<or> Contains errStr ''NotFound'' \<or> Contains errStr ''not found'')"

section \<open>Documented behaviour\<close>

text \<open>
  \<open>cv w k\<close> is the version of key \<open>k\<close>: of its live row, or of the fence or fresh observation
  that stands for its absence. No version is ever taken back.
\<close>

definition grows :: "('w \<Rightarrow> string \<Rightarrow> version) \<Rightarrow> 'w \<Rightarrow> 'w \<Rightarrow> bool" where
  "grows cv w w' \<longleftrightarrow> (\<forall>k. cv w k \<le> cv w' k)"

lemma grows_refl [simp]: "grows cv w w"
  by (simp add: grows_def)

lemma grows_trans [trans]: "grows cv w w' \<Longrightarrow> grows cv w' w'' \<Longrightarrow> grows cv w w''"
  by (meson grows_def order_trans)

lemma growsD: "grows cv w w' \<Longrightarrow> cv w k \<le> cv w' k"
  by (simp add: grows_def)

locale ocache_cas =
  fixes cl :: "'w CacheClient" and cv :: "'w \<Rightarrow> string \<Rightarrow> version"
  assumes read_token:
      "cl_GetWithVersion cl k w = (w', d, v, found, e) \<Longrightarrow>
       grows cv w w' \<and> (v = 0 \<or> cv w k \<le> v \<and> v \<le> cv w' k)"
    and put_if:
      "cl_PutIfVersion cl k data ttl v w = (w', e) \<Longrightarrow>
       grows cv w w' \<and> (e = None \<and> v \<noteq> 0 \<longrightarrow> cv w k \<le> v \<and> v < cv w' k)"
    and delete_if:
      "cl_DeleteIfVersion cl k v w = (w', e) \<Longrightarrow>
       grows cv w w' \<and> (e = None \<longrightarrow> cv w k < cv w' k)"
    and delete_never_not_found:
      "cl_DeleteIfVersion cl k v w = (w', Some x) \<Longrightarrow> \<not> isNotFoundError x"
    and stream_grows:
      "cl_PutStream cl k r ttl w = (w', n, e) \<Longrightarrow> grows cv w w'"
    and shed_grows:
      "cl_PutStreamSheddable cl = Some f \<Longrightarrow> f k r ttl w = (w', n, e) \<Longrightarrow> grows cv w w'"

text \<open>
  With nobody else writing: a read returns the live row with its version, a conditional write or
  delete succeeds exactly at the current version (a delete at 0 also when there is no live row), and
  a refused one reports the current version and changes nothing.
\<close>

locale ocache_seq = ocache_cas cl cv
  for cl :: "'w CacheClient" and cv :: "'w \<Rightarrow> string \<Rightarrow> version" +
  fixes live :: "'w \<Rightarrow> string \<Rightarrow> string option"
  assumes seq_get:
      "cl_GetWithVersion cl k w = (w', d, v, found, e) \<Longrightarrow>
       w' = w \<and> e = None \<and> d = live w k \<and> found = (live w k \<noteq> None) \<and> v = cv w k"
    and seq_put:
      "v \<noteq> 0 \<Longrightarrow> cv w k < - 2 \<Longrightarrow> cl_PutIfVersion cl k data ttl v w = (w', e) \<Longrightarrow>
       (if v = cv w k then e = None \<and> live w' = (live w)(k \<mapsto> data)
        else e = Some (ErrVersionMismatch (cv w k)) \<and> w' = w)"
    and seq_delete:
      "cv w k < - 2 \<Longrightarrow> cl_DeleteIfVersion cl k v w = (w', e) \<Longrightarrow>
       (if v = cv w k \<or> v = 0 \<and> live w k = None then e = None \<and> live w' = (live w)(k := None)
        else e = Some (ErrVersionMismatch (cv w k)) \<and> w' = w)"
    and seq_version: "cv w k \<noteq> 0 \<and> cv w k \<le> - 2"

section \<open>A versioned store\<close>

text \<open>
  Rows with their versions; a delete keeps the version as a fence. Versions start at 1 and the last
  two 64-bit values are never handed out. Bodies are plain rows. The clock and the context are fixed.
\<close>

record mem =
  rows :: "string \<Rightarrow> string option"
  vers :: "string \<Rightarrow> version"
  mem_now :: int

definition mem_cv :: "mem \<Rightarrow> string \<Rightarrow> version" where
  "mem_cv m k = max 1 (min (vers m k) (- 2))"

definition mem_bump :: "string \<Rightarrow> string option \<Rightarrow> mem \<Rightarrow> mem \<times> err option" where
  "mem_bump k d m =
     (if mem_cv m k < - 2
      then (m\<lparr>rows := (rows m)(k := d), vers := (vers m)(k := mem_cv m k + 1)\<rparr>, None)
      else (m, Some (EText ''version space exhausted'')))"

definition mem_put_if :: "string \<Rightarrow> string \<Rightarrow> int \<Rightarrow> version \<Rightarrow> mem \<Rightarrow> mem \<times> err option" where
  "mem_put_if k d ttl v m =
     (if v = mem_cv m k \<or> v = 0 \<and> rows m k = None then mem_bump k (Some d) m
      else (m, Some (ErrVersionMismatch (mem_cv m k))))"

definition mem_delete_if :: "string \<Rightarrow> version \<Rightarrow> mem \<Rightarrow> mem \<times> err option" where
  "mem_delete_if k v m =
     (if v = mem_cv m k \<or> v = 0 \<and> rows m k = None then mem_bump k None m
      else (m, Some (ErrVersionMismatch (mem_cv m k))))"

definition mem_put :: "string \<Rightarrow> string \<Rightarrow> mem \<Rightarrow> mem" where
  "mem_put k d m = m\<lparr>rows := (rows m)(k \<mapsto> d)\<rparr>"

definition mem_range :: "string \<Rightarrow> int \<Rightarrow> int \<Rightarrow> string" where
  "mem_range d a b = take (nat (b - a + 1)) (drop (nat a) d)"

definition mem_client :: "mem CacheClient" where
  "mem_client =
     \<lparr>cl_Get = (\<lambda>k m. (m, rows m k, None)),
      cl_Put = (\<lambda>k d ttl m. (mem_put k d m, None)),
      cl_Delete = (\<lambda>k m. (m\<lparr>rows := (rows m)(k := None)\<rparr>, None)),
      cl_GetWithVersion = (\<lambda>k m. (m, rows m k, mem_cv m k, rows m k \<noteq> None, None)),
      cl_PutIfVersion = mem_put_if,
      cl_DeleteIfVersion = mem_delete_if,
      cl_GetStream = (\<lambda>k m. case rows m k of None \<Rightarrow> (m, [], Some (EText ''key not found'')) | Some d \<Rightarrow> (m, d, None)),
      cl_GetRangeStream = (\<lambda>k a b m. case rows m k of None \<Rightarrow> (m, [], None) | Some d \<Rightarrow> (m, mem_range d a b, None)),
      cl_PutStream = (\<lambda>k r ttl m. case r of (d, None) \<Rightarrow> (mem_put k d m, int (length d), None)
                                        | (d, Some e) \<Rightarrow> (m, int (length d), Some e)),
      cl_PutStreamSheddable = None, cl_IsOverBudget = None, cl_IsLocal = None, cl_PutBlockBytes = None,
      w_now = (\<lambda>m. max 1 (min (mem_now m) (2 ^ 62))), w_ctx_err = (\<lambda>_. None)\<rparr>"

lemma mem_cv_range: "mem_cv m k \<noteq> 0 \<and> mem_cv m k \<le> - 2"
proof -
  have "(1::64 word) \<le> - 2" by (simp add: word_le_nat_alt)
  then show ?thesis by (auto simp: mem_cv_def max_def min_def word_gt_0 split: if_splits)
qed

lemma succ_version:
  fixes c :: version
  assumes "c < - 2"
  shows "c < c + 1 \<and> c + 1 \<le> - 2"
proof -
  have "unat c < 18446744073709551614" using assms by (simp add: word_less_nat_alt)
  moreover from this have "unat (c + 1) = unat c + 1" by (simp add: unat_word_ariths)
  ultimately show ?thesis by (simp add: word_less_nat_alt word_le_nat_alt)
qed

lemma one_le_greater: "(c::version) < d \<Longrightarrow> 1 \<le> d"
  by (simp add: word_less_nat_alt word_le_nat_alt)

lemma mem_bump_cv:
  assumes "mem_bump k d m = (m', e)"
  shows "grows mem_cv m m' \<and> (e = None \<longrightarrow> mem_cv m k < mem_cv m' k)"
proof (cases "mem_cv m k < - 2")
  case True
  have up: "mem_cv m k < mem_cv m k + 1" "mem_cv m k + 1 \<le> - 2"
    using succ_version [OF True] by simp_all
  have "1 \<le> mem_cv m k + 1" using up(1) by (rule one_le_greater)
  then have "mem_cv m' k = mem_cv m k + 1"
    using assms True up
    by (auto simp: mem_bump_def mem_cv_def [of m'] max_def min_def)
  moreover have "mem_cv m' j = mem_cv m j" if "j \<noteq> k" for j
    using assms True that by (auto simp: mem_bump_def mem_cv_def)
  ultimately show ?thesis using up(1) unfolding grows_def by (metis order_le_less order_refl)
next
  case False
  with assms show ?thesis by (auto simp: mem_bump_def)
qed

lemma mem_rows_cv: "mem_cv (m\<lparr>rows := r\<rparr>) = mem_cv m"
  by (rule ext) (simp add: mem_cv_def)

lemma mem_texts_found:
  "\<not> isNotFoundError (EText ''version space exhausted'')"
  by code_simp

lemma Contains_append: "Contains (s @ t) p \<Longrightarrow> \<forall>x \<in> set p. x \<notin> set t \<Longrightarrow> p \<noteq> [] \<Longrightarrow> Contains s p"
proof (induction s)
  case Nil
  then have "\<not> Contains t p"
  proof (induction t)
    case (Cons c t)
    then show ?case by (cases p) auto
  qed simp
  with Nil show ?case by simp
next
  case (Cons c s)
  show ?case
  proof (cases "HasPrefix ((c # s) @ t) p")
    case True
    then have "HasPrefix (c # s) p"
      using Cons.prems(2)
    proof (induction p arbitrary: c s)
      case (Cons x xs)
      then show ?case by (cases s; cases xs; cases t) auto
    qed simp
    then show ?thesis by simp
  next
    case False
    with Cons show ?thesis by simp
  qed
qed

lemma mismatch_not_missing: "\<not> isNotFoundError (ErrVersionMismatch v)"
proof -
  let ?t = "''version mismatch: current version ''" and ?n = "show_nat (unat v)"
  have no: "CHR ''o'' \<notin> set ?n" "CHR ''N'' \<notin> set ?n" "CHR ''n'' \<notin> set ?n" "CHR ''t'' \<notin> set ?n" "CHR ''F'' \<notin> set ?n"
    "CHR ''u'' \<notin> set ?n" "CHR ''d'' \<notin> set ?n" "CHR '' '' \<notin> set ?n" "CHR ''f'' \<notin> set ?n"
    by (rule show_nat_no_char; simp)+
  have "\<not> Contains ?t ''NotFound''" "\<not> Contains ?t ''not found''" by code_simp+
  then have "\<not> Contains (?t @ ?n) ''NotFound''" "\<not> Contains (?t @ ?n) ''not found''"
    using Contains_append [of ?t ?n "''NotFound''"] Contains_append [of ?t ?n "''not found''"] no by auto
  then show ?thesis by (simp add: isNotFoundError_def)
qed

interpretation mem_store: ocache_seq mem_client mem_cv rows
proof
  fix k d ttl v w w' e
  assume "cl_PutIfVersion mem_client k d ttl v w = (w', e)"
  then have p: "mem_put_if k d ttl v w = (w', e)" by (simp add: mem_client_def)
  show "grows mem_cv w w' \<and> (e = None \<and> v \<noteq> 0 \<longrightarrow> mem_cv w k \<le> v \<and> v < mem_cv w' k)"
    using p mem_bump_cv [of k "Some d" w w' e] by (auto simp: mem_put_if_def split: if_splits)
  show "if v = mem_cv w k then e = None \<and> rows w' = (rows w)(k \<mapsto> d)
        else e = Some (ErrVersionMismatch (mem_cv w k)) \<and> w' = w" if "v \<noteq> 0" "mem_cv w k < - 2"
    using p that by (auto simp: mem_put_if_def mem_bump_def)
next
  fix k v w w' e
  assume "cl_DeleteIfVersion mem_client k v w = (w', e)"
  then have p: "mem_delete_if k v w = (w', e)" by (simp add: mem_client_def)
  show "grows mem_cv w w' \<and> (e = None \<longrightarrow> mem_cv w k < mem_cv w' k)"
    using p mem_bump_cv [of k None w w' e] by (auto simp: mem_delete_if_def split: if_splits)
  show "if v = mem_cv w k \<or> v = 0 \<and> rows w k = None then e = None \<and> rows w' = (rows w)(k := None)
        else e = Some (ErrVersionMismatch (mem_cv w k)) \<and> w' = w" if "mem_cv w k < - 2"
    using p that by (auto simp: mem_delete_if_def mem_bump_def)
next
  fix k v w w' x
  assume "cl_DeleteIfVersion mem_client k v w = (w', Some x)"
  then show "\<not> isNotFoundError x"
    using mem_texts_found mismatch_not_missing
    by (auto simp: mem_client_def mem_delete_if_def mem_bump_def split: if_splits)
qed (auto simp: mem_client_def mem_cv_range mem_put_def mem_rows_cv grows_def split: prod.splits option.splits)

end
