(* ===== verification/Meta_Coordinator.thy ===== *)
theory Meta_Coordinator
  imports Ocache_Client
begin

text \<open>
  The ordering of writers of one object's metadata key (\<^verbatim>\<open>src/cache/coordinator.go\<close>): the
  interface \<^verbatim>\<open>metaCoordinator\<close> as a locale, and its two implementations, the compare-and-swap
  one over versions and fences and the legacy one over wall-clock tombstones.

  The contract proved for both is the one the proxy relies on: a token read before an invalidation
  completed can never commit afterwards.
\<close>

abbreviation VersionAny :: version where
  "VersionAny \<equiv> - 1"

section \<open>The compare-and-swap coordinator\<close>

type_synonym json_decoder = "string \<Rightarrow> CachedObjectMeta result"

definition cas_getMetaWithVersion ::
  "'w CacheClient \<Rightarrow> json_decoder \<Rightarrow> string \<Rightarrow> string \<Rightarrow> 'w
   \<Rightarrow> 'w \<times> (CachedObjectMeta option \<times> version \<times> bool) result" where
  "cas_getMetaWithVersion cl unmarshal bucket key w =
     (case cl_GetWithVersion cl (MakeMetaKey bucket key) w of
        (w, metaBytes, version, found, Some e) \<Rightarrow>
          if isNotFoundError e then (w, Inr (None, version, False)) else (w, Inl e)
      | (w, metaBytes, version, found, None) \<Rightarrow>
          if \<not> found then (w, Inr (None, version, False))
          else case metaBytes of
                 None \<Rightarrow> (w, Inr (None, version, False))
               | Some data \<Rightarrow>
                   (case DecodeMeta unmarshal data of
                      Inl e \<Rightarrow> (w, Inl e)
                    | Inr meta \<Rightarrow> (w, Inr (Some meta, version, True))))"

text \<open>The unconditional write: at most \<open>n\<close> more attempts.\<close>

fun cas_put_any ::
  "'w CacheClient \<Rightarrow> string \<Rightarrow> string \<Rightarrow> string \<Rightarrow> string \<Rightarrow> int \<Rightarrow> nat \<Rightarrow> 'w \<Rightarrow> 'w \<times> bool result" where
  "cas_put_any cl bucket key metaKey metaBytes ttl 0 w =
     (w, Inl (EText (''meta write for '' @ bucket @ ''/'' @ key @ '' lost 8 consecutive version races'')))"
| "cas_put_any cl bucket key metaKey metaBytes ttl (Suc n) w =
     (case cl_GetWithVersion cl metaKey w of
        (w, _, version, _, err1) \<Rightarrow>
          if (case err1 of None \<Rightarrow> False | Some e \<Rightarrow> \<not> isNotFoundError e) then (w, Inl (the err1))
          else case cl_PutIfVersion cl metaKey metaBytes ttl version w of
                 (w, None) \<Rightarrow> (w, Inr True)
               | (w, Some e) \<Rightarrow>
                   if IsVersionMismatch e = None then (w, Inl e)
                   else cas_put_any cl bucket key metaKey metaBytes ttl n w)"

definition cas_putMeta ::
  "'w CacheClient \<Rightarrow> string \<Rightarrow> string \<Rightarrow> string \<Rightarrow> string \<Rightarrow> int \<Rightarrow> version \<Rightarrow> 'w \<Rightarrow> 'w \<times> bool result" where
  "cas_putMeta cl bucket key metaKey metaBytes ttl expected w =
     (if expected \<noteq> VersionAny then
        (case cl_PutIfVersion cl metaKey metaBytes ttl expected w of
           (w, None) \<Rightarrow> (w, Inr True)
         | (w, Some e) \<Rightarrow> if IsVersionMismatch e \<noteq> None then (w, Inr False) else (w, Inl e))
      else cas_put_any cl bucket key metaKey metaBytes ttl 8 w)"

text \<open>The fenced delete: at most \<open>n\<close> more attempts, the next one at version \<open>expected\<close>.\<close>

fun cas_delete_loop ::
  "'w CacheClient \<Rightarrow> string \<Rightarrow> string \<Rightarrow> nat \<Rightarrow> version \<Rightarrow> 'w \<Rightarrow> 'w \<times> err option" where
  "cas_delete_loop cl bucket key 0 expected w =
     (w, Some (EText (''fenced meta delete for '' @ bucket @ ''/'' @ key @ '' lost 64 consecutive version races'')))"
| "cas_delete_loop cl bucket key (Suc n) expected w =
     (case w_ctx_err cl w of
        Some e \<Rightarrow> (w, Some (Errorf (''fenced meta delete for '' @ bucket @ ''/'' @ key @ '': '') e))
      | None \<Rightarrow>
          case cl_DeleteIfVersion cl (MakeMetaKey bucket key) expected w of
            (w, None) \<Rightarrow> (w, None)
          | (w, Some e) \<Rightarrow>
              case IsVersionMismatch e of
                Some current \<Rightarrow> cas_delete_loop cl bucket key n current w
              | None \<Rightarrow> if isNotFoundError e then (w, None) else (w, Some e))"

definition cas_deleteMeta :: "'w CacheClient \<Rightarrow> string \<Rightarrow> string \<Rightarrow> 'w \<Rightarrow> 'w \<times> err option" where
  "cas_deleteMeta cl bucket key w = cas_delete_loop cl bucket key 64 0 w"

definition cas_deleteMetaIfETag ::
  "'w CacheClient \<Rightarrow> json_decoder \<Rightarrow> string \<Rightarrow> string \<Rightarrow> string \<Rightarrow> 'w \<Rightarrow> 'w \<times> bool result" where
  "cas_deleteMetaIfETag cl unmarshal bucket key staleETag w =
     (case cl_GetWithVersion cl (MakeMetaKey bucket key) w of
        (w, metaBytes, version, found, Some e) \<Rightarrow>
          if isNotFoundError e then (w, Inr False) else (w, Inl e)
      | (w, metaBytes, version, found, None) \<Rightarrow>
          if \<not> found then (w, Inr False)
          else case metaBytes of
                 None \<Rightarrow> (w, Inr False)
               | Some data \<Rightarrow>
                   (case DecodeMeta unmarshal data of
                      Inl e \<Rightarrow> (w, Inl e)
                    | Inr meta \<Rightarrow>
                        if ETag meta \<noteq> staleETag then (w, Inr False)
                        else case cl_DeleteIfVersion cl (MakeMetaKey bucket key) version w of
                               (w, None) \<Rightarrow> (w, Inr True)
                             | (w, Some derr) \<Rightarrow>
                                 if IsVersionMismatch derr \<noteq> None then (w, Inr False)
                                 else (w, Inl (Errorf ''guarded meta delete: '' derr))))"

definition cas_deleteMetaIfVersion ::
  "'w CacheClient \<Rightarrow> string \<Rightarrow> string \<Rightarrow> version \<Rightarrow> 'w \<Rightarrow> 'w \<times> bool result" where
  "cas_deleteMetaIfVersion cl bucket key version w =
     (case cl_DeleteIfVersion cl (MakeMetaKey bucket key) version w of
        (w, None) \<Rightarrow> (w, Inr True)
      | (w, Some derr) \<Rightarrow>
          if IsVersionMismatch derr \<noteq> None then (w, Inr False)
          else if isNotFoundError derr then (w, Inr False)
          else (w, Inl (Errorf ''version-guarded meta delete: '' derr)))"

section \<open>The legacy coordinator\<close>

definition TombstoneTTLSeconds :: "int \<Rightarrow> int" where
  "TombstoneTTLSeconds sizeThreshold =
     (let write = 60;
          write = (if 0 < sizeThreshold \<and> write < go_div sizeThreshold (5 * 1024 * 1024)
                   then go_div sizeThreshold (5 * 1024 * 1024) else write)
      in max (write + 300 + 300) 600)"

text \<open>Big-endian 64-bit integers.\<close>

definition put_uint64 :: "64 word \<Rightarrow> string" where
  "put_uint64 v = map (\<lambda>i. char_of (unat v div 256 ^ (7 - i))) [0..<8]"

definition get_uint64 :: "string \<Rightarrow> 64 word" where
  "get_uint64 s = of_nat (foldl (\<lambda>a c. a * 256 + of_char c) 0 s)"

definition legacy_getMetaWithVersion ::
  "'w CacheClient \<Rightarrow> json_decoder \<Rightarrow> string \<Rightarrow> string \<Rightarrow> 'w
   \<Rightarrow> 'w \<times> (CachedObjectMeta option \<times> version \<times> bool) result" where
  "legacy_getMetaWithVersion cl unmarshal bucket key w =
     (let stamp = word_of_int (w_now cl w) in
      case cl_Get cl (MakeMetaKey bucket key) w of
        (w, metaBytes, Some e) \<Rightarrow> if isNotFoundError e then (w, Inr (None, stamp, False)) else (w, Inl e)
      | (w, None, None) \<Rightarrow> (w, Inr (None, stamp, False))
      | (w, Some data, None) \<Rightarrow>
          (case DecodeMeta unmarshal data of
             Inl e \<Rightarrow> (w, Inl e)
           | Inr meta \<Rightarrow> (w, Inr (Some meta, stamp, True))))"

definition tombstoneTimestamp ::
  "'w CacheClient \<Rightarrow> string \<Rightarrow> string \<Rightarrow> 'w \<Rightarrow> 'w \<times> int result" where
  "tombstoneTimestamp cl bucket key w =
     (case cl_Get cl (MakeTombstoneKey bucket key) w of
        (w, data, Some e) \<Rightarrow>
          if data = None \<and> (case e of EStatus NotFound _ \<Rightarrow> True | _ \<Rightarrow> False) then (w, Inr 0)
          else (w, Inl (Errorf (''read tombstone for '' @ bucket @ ''/'' @ key @ '': '') e))
      | (w, None, None) \<Rightarrow> (w, Inr 0)
      | (w, Some data, None) \<Rightarrow>
          if length data \<noteq> 8
          then (w, Inl (EText (''malformed tombstone for '' @ bucket @ ''/'' @ key @ '': got ''
                               @ FormatInt (int (length data)) @ '' bytes, want 8'')))
          else (w, Inr (sint (get_uint64 data))))"

definition legacy_putMeta ::
  "'w CacheClient \<Rightarrow> string \<Rightarrow> string \<Rightarrow> string \<Rightarrow> string \<Rightarrow> int \<Rightarrow> version \<Rightarrow> 'w \<Rightarrow> 'w \<times> bool result" where
  "legacy_putMeta cl bucket key metaKey metaBytes ttl expected w =
     (if expected = 0 then (w, Inr False)
      else
        let gate = (if expected \<noteq> VersionAny then
                      (case tombstoneTimestamp cl bucket key w of
                         (w, Inl e) \<Rightarrow> (w, Some (Inl e))
                       | (w, Inr ts) \<Rightarrow> if sint expected \<le> ts then (w, Some (Inr False)) else (w, None))
                    else (w, None))
        in case gate of
             (w, Some r) \<Rightarrow> (w, r)
           | (w, None) \<Rightarrow>
               (case cl_Put cl metaKey metaBytes ttl w of
                  (w, Some e) \<Rightarrow> (w, Inl e)
                | (w, None) \<Rightarrow> (w, Inr True)))"

definition writeTombstone :: "'w CacheClient \<Rightarrow> int \<Rightarrow> string \<Rightarrow> string \<Rightarrow> 'w \<Rightarrow> 'w \<times> err option" where
  "writeTombstone cl tombstoneTTL bucket key w =
     cl_Put cl (MakeTombstoneKey bucket key) (put_uint64 (word_of_int (w_now cl w))) tombstoneTTL w"

definition legacy_deleteMeta :: "'w CacheClient \<Rightarrow> int \<Rightarrow> string \<Rightarrow> string \<Rightarrow> 'w \<Rightarrow> 'w \<times> err option" where
  "legacy_deleteMeta cl tombstoneTTL bucket key w =
     (let (w, terr) = writeTombstone cl tombstoneTTL bucket key w;
          errs = (case terr of None \<Rightarrow> [] | Some e \<Rightarrow> [Errorf ''write tombstone: '' e]);
          (w, derr) = cl_Delete cl (MakeMetaKey bucket key) w;
          errs = (case derr of
                    None \<Rightarrow> errs
                  | Some e \<Rightarrow> if isNotFoundError e then errs else errs @ [Errorf ''delete meta: '' e])
      in (w, errors_Join errs))"

definition legacy_deleteMetaIfETag ::
  "'w CacheClient \<Rightarrow> int \<Rightarrow> json_decoder \<Rightarrow> string \<Rightarrow> string \<Rightarrow> string \<Rightarrow> 'w \<Rightarrow> 'w \<times> bool result" where
  "legacy_deleteMetaIfETag cl tombstoneTTL unmarshal bucket key staleETag w =
     (case cl_Get cl (MakeMetaKey bucket key) w of
        (w, metaBytes, Some e) \<Rightarrow> if isNotFoundError e then (w, Inr False) else (w, Inl e)
      | (w, None, None) \<Rightarrow> (w, Inr False)
      | (w, Some data, None) \<Rightarrow>
          (case DecodeMeta unmarshal data of
             Inl e \<Rightarrow> (w, Inl e)
           | Inr meta \<Rightarrow>
               if ETag meta \<noteq> staleETag then (w, Inr False)
               else case legacy_deleteMeta cl tombstoneTTL bucket key w of
                      (w, Some e) \<Rightarrow> (w, Inl e)
                    | (w, None) \<Rightarrow> (w, Inr True)))"

definition legacy_deleteMetaIfVersion ::
  "'w CacheClient \<Rightarrow> string \<Rightarrow> string \<Rightarrow> version \<Rightarrow> 'w \<Rightarrow> 'w \<times> bool result" where
  "legacy_deleteMetaIfVersion cl bucket key version w = (w, Inr False)"

section \<open>The contract\<close>

text \<open>
  \<open>evolves b k\<close> relates two worlds when the second is a later one; \<open>stale b k t\<close> says that
  an invalidation of the object completed after token \<open>t\<close> was read.
\<close>

locale meta_coordinator =
  fixes get :: "string \<Rightarrow> string \<Rightarrow> 'w \<Rightarrow> 'w \<times> (CachedObjectMeta option \<times> version \<times> bool) result"
    and put :: "string \<Rightarrow> string \<Rightarrow> string \<Rightarrow> string \<Rightarrow> int \<Rightarrow> version \<Rightarrow> 'w \<Rightarrow> 'w \<times> bool result"
    and del :: "string \<Rightarrow> string \<Rightarrow> 'w \<Rightarrow> 'w \<times> err option"
    and evolves :: "string \<Rightarrow> string \<Rightarrow> 'w \<Rightarrow> 'w \<Rightarrow> bool"
    and ordered :: "'w \<Rightarrow> version \<Rightarrow> bool"
    and stale :: "string \<Rightarrow> string \<Rightarrow> version \<Rightarrow> 'w \<Rightarrow> bool"
  assumes evolves_trans: "evolves b k w w' \<Longrightarrow> evolves b k w' w'' \<Longrightarrow> evolves b k w w''"
    and fence:
      "get b k w0 = (w1, Inr (m, t, f)) \<Longrightarrow> ordered w0 t \<Longrightarrow> evolves b k w1 w2 \<Longrightarrow>
       del b k w2 = (w3, None) \<Longrightarrow> stale b k t w3"
    and stale_evolves: "stale b k t w \<Longrightarrow> evolves b k w w' \<Longrightarrow> stale b k t w'"
    and stale_refused:
      "stale b k t w \<Longrightarrow> ordered w0 t \<Longrightarrow> put b k (MakeMetaKey b k) data ttl t w = (w', Inr wrote) \<Longrightarrow> \<not> wrote"
begin

text \<open>A populate whose token predates a completed invalidation never becomes visible.\<close>

lemma fenced_populate_lost:
  assumes "get b k w0 = (w1, Inr (m, t, f))" and "ordered w0 t" and "evolves b k w1 w2"
    and "del b k w2 = (w3, None)" and "evolves b k w3 w4"
    and "put b k (MakeMetaKey b k) data ttl t w4 = (w5, Inr wrote)"
  shows "\<not> wrote"
  using stale_refused [OF stale_evolves [OF fence [OF assms(1-4)] assms(5)] assms(2,6)] .

end

section \<open>Compare-and-swap meets the contract\<close>

definition ordered_token :: "version \<Rightarrow> bool" where
  "ordered_token t \<longleftrightarrow> t \<noteq> 0 \<and> t \<noteq> VersionAny"

context ocache_cas
begin

lemma get_token:
  assumes "cas_getMetaWithVersion cl unmarshal b k w = (w', Inr (m, t, f))" and "t \<noteq> 0"
  shows "grows cv w w' \<and> t \<le> cv w' (MakeMetaKey b k)"
proof -
  obtain w1 d v found e where g: "cl_GetWithVersion cl (MakeMetaKey b k) w = (w1, d, v, found, e)"
    by (metis prod_cases5)
  have "w' = w1 \<and> t = v"
    using assms(1) g
    by (auto simp: cas_getMetaWithVersion_def split: option.splits if_splits sum.splits)
  with read_token [OF g] assms(2) show ?thesis by simp
qed

lemma delete_loop:
  "cas_delete_loop cl b k n v w = (w', r) \<Longrightarrow>
   grows cv w w' \<and> (r = None \<longrightarrow> cv w (MakeMetaKey b k) < cv w' (MakeMetaKey b k))"
proof (induction n arbitrary: v w)
  case 0
  then show ?case by auto
next
  case (Suc n)
  show ?case
  proof (cases "w_ctx_err cl w")
    case None
    obtain w1 e where d: "cl_DeleteIfVersion cl (MakeMetaKey b k) v w = (w1, e)" by fastforce
    note law = delete_if [OF d]
    show ?thesis
    proof (cases e)
      case None
      with Suc.prems \<open>w_ctx_err cl w = None\<close> d law show ?thesis by simp
    next
      case (Some x)
      with d have nf: "\<not> isNotFoundError x" using delete_never_not_found by blast
      show ?thesis
      proof (cases "IsVersionMismatch x")
        case (Some c)
        with Suc.prems \<open>w_ctx_err cl w = None\<close> d \<open>e = Some x\<close> have "cas_delete_loop cl b k n c w1 = (w', r)" by simp
        from Suc.IH [OF this] law show ?thesis
          using grows_trans growsD [of cv w w1 "MakeMetaKey b k"] by fastforce
      next
        case None
        with Suc.prems \<open>w_ctx_err cl w = None\<close> d \<open>e = Some x\<close> nf law show ?thesis by auto
      qed
    qed
  next
    case (Some x)
    with Suc.prems show ?thesis by auto
  qed
qed

lemma put_commits:
  assumes "cas_putMeta cl b k mk data ttl t w = (w', Inr True)" and "ordered_token t"
  shows "cv w mk \<le> t"
  using assms put_if [of mk data ttl t w w']
  by (auto simp: cas_putMeta_def ordered_token_def split: prod.splits option.splits if_splits)

end

sublocale ocache_cas \<subseteq> cas: meta_coordinator "cas_getMetaWithVersion cl unmarshal" "cas_putMeta cl" "cas_deleteMeta cl"
  "\<lambda>b k. grows cv" "\<lambda>_. ordered_token" "\<lambda>b k t w. t < cv w (MakeMetaKey b k)" for unmarshal
proof
  fix b k w0 w1 w2 w3 m t f
  assume "cas_getMetaWithVersion cl unmarshal b k w0 = (w1, Inr (m, t, f))" "ordered_token t" "grows cv w1 w2"
    "cas_deleteMeta cl b k w2 = (w3, None)"
  then show "t < cv w3 (MakeMetaKey b k)"
    using get_token [of unmarshal b k w0 w1 m t f] delete_loop [of b k 64 0 w2 w3 None] growsD [of cv w1 w2 "MakeMetaKey b k"]
    by (auto simp: cas_deleteMeta_def ordered_token_def)
next
  fix b k t w w' data ttl wrote
  assume "t < cv w (MakeMetaKey b k)" "ordered_token t" "cas_putMeta cl b k (MakeMetaKey b k) data ttl t w = (w', Inr wrote)"
  then show "\<not> wrote" using put_commits [of b k "MakeMetaKey b k" data ttl t w w'] by (cases wrote) auto
next
  fix b k t w w'
  assume "t < cv w (MakeMetaKey b k)" "grows cv w w'"
  then show "t < cv w' (MakeMetaKey b k)" using growsD order_less_le_trans by metis
qed (auto intro: grows_trans)

section \<open>Tombstones meet the contract\<close>

text \<open>
  What the legacy mode relies on: one clock for all nodes that does not go back, and a store in which
  a tombstone stays readable while populates that started before it may still commit. \<open>tomb w k\<close>
  is the stamp recorded under tombstone key \<open>k\<close>, zero when there is none.
\<close>

definition ages :: "'w CacheClient \<Rightarrow> ('w \<Rightarrow> string \<Rightarrow> int) \<Rightarrow> string \<Rightarrow> 'w \<Rightarrow> 'w \<Rightarrow> bool" where
  "ages cl tomb k w w' \<longleftrightarrow> w_now cl w \<le> w_now cl w' \<and> tomb w k \<le> tomb w' k"

locale ocache_tomb =
  fixes cl :: "'w CacheClient" and tomb :: "'w \<Rightarrow> string \<Rightarrow> int"
  assumes clock: "0 < w_now cl w \<and> w_now cl w < 2 ^ 63 - 1"
    and tomb_get:
      "cl_Get cl k w = (w', d, e) \<Longrightarrow>
       ages cl tomb j w w'
       \<and> (e = None \<longrightarrow> (case d of None \<Rightarrow> tomb w k \<le> 0
                        | Some s \<Rightarrow> length s = 8 \<longrightarrow> tomb w k \<le> sint (get_uint64 s)))
       \<and> (\<forall>m. e = Some (EStatus NotFound m) \<and> d = None \<longrightarrow> tomb w k \<le> 0)"
    and tomb_put:
      "cl_Put cl k s ttl w = (w', e) \<Longrightarrow>
       w_now cl w \<le> w_now cl w'
       \<and> (e = None \<and> length s = 8 \<and> sint (get_uint64 s) \<le> w_now cl w \<longrightarrow> sint (get_uint64 s) \<le> tomb w' k)"
    and tomb_delete:
      "cl_Delete cl k w = (w', e) \<Longrightarrow> j \<noteq> k \<Longrightarrow> ages cl tomb j w w'"
    and tomb_stream:
      "cl_PutStream cl k r ttl w = (w', n, e) \<Longrightarrow> j \<noteq> k \<Longrightarrow> ages cl tomb j w w'"
    and tomb_shed:
      "cl_PutStreamSheddable cl = Some f \<Longrightarrow> f k r ttl w = (w', n, e) \<Longrightarrow> j \<noteq> k \<Longrightarrow> ages cl tomb j w w'"

lemma digit_step: "n div 256 ^ Suc j * 256 + n div 256 ^ j mod 256 = (n div 256 ^ j :: nat)"
  by (metis div_mult2_eq div_mult_mod_eq power_Suc2)

lemma be_digits:
  assumes "n div 256 ^ 8 = (0::nat)" and "m \<le> 8"
  shows "foldl (\<lambda>a c. a * 256 + of_char c) 0 (map (\<lambda>i. char_of (n div 256 ^ (7 - i))) [0..<m]) = n div 256 ^ (8 - m)"
  using assms(2)
proof (induction m)
  case 0
  then show ?case using assms(1) by simp
next
  case (Suc m)
  then have j: "8 - m = Suc (7 - m)" "8 - Suc m = 7 - m" by simp_all
  have "foldl (\<lambda>a c. a * 256 + of_char c) 0 (map (\<lambda>i. char_of (n div 256 ^ (7 - i))) [0..<m]) = n div 256 ^ Suc (7 - m)"
    using Suc j by simp
  then show ?case unfolding j(2) using digit_step [of n "7 - m"] by (simp add: of_char_of del: power_Suc)
qed

lemma get_put_uint64 [simp]: "get_uint64 (put_uint64 v) = v"
proof -
  have "unat v < 2 ^ LENGTH(64)" by (rule unsigned_less)
  then have "unat v div 256 ^ 8 = 0" by simp
  from be_digits [OF this, of 8] show ?thesis by (simp add: get_uint64_def put_uint64_def)
qed

lemma length_put_uint64 [simp]: "length (put_uint64 v) = 8"
  by (simp add: put_uint64_def)

lemma sint_now: "0 < n \<Longrightarrow> n < 2 ^ 63 - 1 \<Longrightarrow> sint (word_of_int n :: 64 word) = n"
  by (simp add: sint_sbintrunc' signed_take_bit_int_eq_self)

context ocache_tomb
begin

lemma legacy_stamp:
  assumes "legacy_getMetaWithVersion cl unmarshal b k w = (w', Inr (m, t, f))"
  shows "sint t = w_now cl w \<and> w_now cl w \<le> w_now cl w'"
proof -
  obtain w1 d e where g: "cl_Get cl (MakeMetaKey b k) w = (w1, d, e)" by (metis prod_cases3)
  have "w' = w1 \<and> t = word_of_int (w_now cl w)"
    using assms g by (auto simp: legacy_getMetaWithVersion_def Let_def split: option.splits if_splits sum.splits)
  then show ?thesis using tomb_get [OF g] clock [of w] sint_now by (simp add: ages_def)
qed

lemma tombstone_written:
  assumes "legacy_deleteMeta cl ttl b k w = (w', None)"
  shows "w_now cl w \<le> tomb w' (MakeTombstoneKey b k)"
proof -
  obtain w1 terr where p: "writeTombstone cl ttl b k w = (w1, terr)" by fastforce
  obtain w2 derr where d: "cl_Delete cl (MakeMetaKey b k) w1 = (w2, derr)" by fastforce
  have w: "w' = w2" and "terr = None"
    using assms p d by (auto simp: legacy_deleteMeta_def errors_Join_def Let_def split: option.splits if_splits)
  then have "w_now cl w \<le> tomb w1 (MakeTombstoneKey b k)"
    using tomb_put [OF p [unfolded writeTombstone_def]] clock [of w] sint_now by simp
  also have "\<dots> \<le> tomb w2 (MakeTombstoneKey b k)"
    using tomb_delete [OF d, of "MakeTombstoneKey b k"] keyspaces_disjoint(3) by (simp add: ages_def not_sym)
  finally show ?thesis using w by simp
qed

lemma tombstone_read:
  assumes "tombstoneTimestamp cl b k w = (w', Inr ts)"
  shows "tomb w (MakeTombstoneKey b k) \<le> ts"
proof -
  obtain w1 d e where g: "cl_Get cl (MakeTombstoneKey b k) w = (w1, d, e)" by (metis prod_cases3)
  show ?thesis
    using assms g tomb_get [OF g]
    by (auto simp: tombstoneTimestamp_def split: option.splits if_splits err.splits grpc_code.splits)
qed

lemma legacy_refused:
  assumes "sint t \<le> tomb w (MakeTombstoneKey b k)" and "ordered_token t"
    and "legacy_putMeta cl b k mk data ttl t w = (w', Inr wrote)"
  shows "\<not> wrote"
proof -
  obtain w1 r where ts: "tombstoneTimestamp cl b k w = (w1, r)" by fastforce
  show ?thesis
  proof (cases r)
    case (Inl e)
    then show ?thesis using assms ts by (simp add: legacy_putMeta_def ordered_token_def)
  next
    case (Inr x)
    then have "sint t \<le> x" using tombstone_read assms(1) ts by fastforce
    then show ?thesis using assms ts Inr by (simp add: legacy_putMeta_def ordered_token_def)
  qed
qed

end

sublocale ocache_tomb \<subseteq> legacy: meta_coordinator "legacy_getMetaWithVersion cl unmarshal" "legacy_putMeta cl"
  "legacy_deleteMeta cl tombstoneTTL" "\<lambda>b k. ages cl tomb (MakeTombstoneKey b k)" "\<lambda>_. ordered_token"
  "\<lambda>b k t w. sint t \<le> tomb w (MakeTombstoneKey b k)" for unmarshal tombstoneTTL
proof
  fix b k w0 w1 w2 w3 m t f
  assume "legacy_getMetaWithVersion cl unmarshal b k w0 = (w1, Inr (m, t, f))"
    "ages cl tomb (MakeTombstoneKey b k) w1 w2" "legacy_deleteMeta cl tombstoneTTL b k w2 = (w3, None)"
  then show "sint t \<le> tomb w3 (MakeTombstoneKey b k)"
    using legacy_stamp tombstone_written by (force simp: ages_def)
qed (auto simp: ages_def dest: legacy_refused)

definition mem_tomb :: "mem \<Rightarrow> string \<Rightarrow> int" where
  "mem_tomb m k = (case rows m k of Some s \<Rightarrow> if length s = 8 then sint (get_uint64 s) else 0 | None \<Rightarrow> 0)"

interpretation mem_plain: ocache_tomb mem_client mem_tomb
  by unfold_locales
    (auto simp: mem_client_def mem_tomb_def mem_put_def ages_def split: option.splits if_splits)

section \<open>Without contention\<close>

lemma minus_two_less: "\<not> (- 1 :: version) < - 2"
  using word_n1_ge [of "- 2"] by (simp only: not_less)

context ocache_seq
begin

lemma delete_quiet:
  assumes "w_ctx_err cl w = None" and "cv w (MakeMetaKey b k) < - 2"
  shows "\<exists>w'. cas_deleteMeta cl b k w = (w', None) \<and> live w' = (live w)(MakeMetaKey b k := None)"
proof -
  let ?k = "MakeMetaKey b k"
  obtain w1 e where d: "cl_DeleteIfVersion cl ?k 0 w = (w1, e)" by fastforce
  obtain w2 e2 where d2: "cl_DeleteIfVersion cl ?k (cv w ?k) w = (w2, e2)" by fastforce
  have n: "(64::nat) = Suc (Suc 62)" by simp
  show ?thesis
    unfolding cas_deleteMeta_def n
    using seq_delete [OF assms(2) d] seq_delete [OF assms(2) d2] assms(1) d d2 seq_version [of w ?k]
    by (cases "live w ?k") (auto simp del: Suc_numeral)
qed

lemma put_get_quiet:
  assumes "cv w (MakeMetaKey b k) < - 2" and "cas_getMetaWithVersion cl unmarshal b k w = (w', Inr (m0, t, f))"
    and "DecodeMeta unmarshal data = Inr meta"
  shows "\<exists>w1 t1. cas_putMeta cl b k (MakeMetaKey b k) data ttl t w' = (w1, Inr True)
         \<and> cas_getMetaWithVersion cl unmarshal b k w1 = (w1, Inr (Some meta, t1, True))"
proof -
  let ?k = "MakeMetaKey b k"
  obtain w0 d v found e where g: "cl_GetWithVersion cl ?k w = (w0, d, v, found, e)" by (metis prod_cases5)
  have t: "w' = w \<and> t = cv w ?k"
    using assms(2) g seq_get [OF g]
    by (auto simp: cas_getMetaWithVersion_def split: option.splits if_splits sum.splits)
  obtain w1 e1 where p: "cl_PutIfVersion cl ?k data ttl (cv w ?k) w = (w1, e1)" by fastforce
  have "cv w ?k \<noteq> 0" "cv w ?k \<noteq> VersionAny"
    using seq_version [of w ?k] assms(1) minus_two_less by auto
  with seq_put [OF _ assms(1) p] t p
  have 1: "cas_putMeta cl b k ?k data ttl t w' = (w1, Inr True)" and l: "live w1 = (live w)(?k \<mapsto> data)"
    by (simp_all add: cas_putMeta_def)
  obtain w2 d2 v2 f2 e2 where g2: "cl_GetWithVersion cl ?k w1 = (w2, d2, v2, f2, e2)" by (metis prod_cases5)
  have "cas_getMetaWithVersion cl unmarshal b k w1 = (w1, Inr (Some meta, v2, True))"
    using seq_get [OF g2] g2 l assms(3) by (simp add: cas_getMetaWithVersion_def)
  with 1 show ?thesis by blast
qed

lemma delete_if_etag_quiet:
  assumes "cv w (MakeMetaKey b k) < - 2"
    and "cas_deleteMetaIfETag cl unmarshal b k stale w = (w', Inr r)"
  shows "r = (\<exists>data meta. live w (MakeMetaKey b k) = Some data \<and> DecodeMeta unmarshal data = Inr meta \<and> ETag meta = stale)
         \<and> live w' = (if r then (live w)(MakeMetaKey b k := None) else live w)"
proof -
  let ?k = "MakeMetaKey b k"
  obtain w0 d v found e where g: "cl_GetWithVersion cl ?k w = (w0, d, v, found, e)" by (metis prod_cases5)
  obtain w1 e1 where dl: "cl_DeleteIfVersion cl ?k (cv w ?k) w = (w1, e1)" by fastforce
  show ?thesis
    using assms(2) g seq_get [OF g] dl seq_delete [OF assms(1) dl]
    by (auto simp: cas_deleteMetaIfETag_def split: option.splits sum.splits if_splits)
qed

end

section \<open>Properties\<close>

text \<open>C15: with nobody else writing, the fenced delete returns without error within its 64 attempts,
  removes the live metadata row and touches no other row.\<close>

theorem fenced_delete_returns:
  assumes "ocache_seq cl cv live" and "w_ctx_err cl w = None" and "cv w (MakeMetaKey b k) < - 2"
  shows "\<exists>w'. cas_deleteMeta cl b k w = (w', None) \<and> live w' = (live w)(MakeMetaKey b k := None)"
  using ocache_seq.delete_quiet [OF assms] .

definition mem0 :: mem where
  "mem0 = \<lparr>rows = [MakeMetaKey ''b'' ''k'' \<mapsto> ''row''], vers = (\<lambda>_. 5), mem_now = 7\<rparr>"

lemma mem0_version: "mem_cv mem0 k < - 2"
  by (simp add: mem_cv_def mem0_def min_def max_def word_less_nat_alt word_le_nat_alt)

theorem fenced_delete_returns_witness:
  "\<exists>w'. cas_deleteMeta mem_client ''b'' ''k'' mem0 = (w', None)
     \<and> rows w' = (rows mem0)(MakeMetaKey ''b'' ''k'' := None)"
  using fenced_delete_returns [OF mem_store.ocache_seq_axioms _ mem0_version] by (simp add: mem_client_def)

text \<open>a populate that reads its token and commits with nobody else writing succeeds, and the
  metadata it wrote is what the next read returns.\<close>

lemma populate_visible:
  assumes "ocache_seq cl cv live" and "cv w (MakeMetaKey b k) < - 2"
    and "cas_getMetaWithVersion cl unmarshal b k w = (w', Inr (m0, t, f))"
    and "DecodeMeta unmarshal data = Inr meta"
  shows "\<exists>w1 t1. cas_putMeta cl b k (MakeMetaKey b k) data ttl t w' = (w1, Inr True)
         \<and> cas_getMetaWithVersion cl unmarshal b k w1 = (w1, Inr (Some meta, t1, True))"
  using ocache_seq.put_get_quiet [OF assms] .

lemma populate_visible_witness:
  "\<exists>w1 t1. cas_putMeta mem_client ''b'' ''x'' (MakeMetaKey ''b'' ''x'') ''new'' 60 5 mem0 = (w1, Inr True)
     \<and> cas_getMetaWithVersion mem_client toy_unmarshal ''b'' ''x'' w1
       = (w1, Inr (Some (sample_meta\<lparr>ContentLengthKnown := True\<rparr>), t1, True))"
proof -
  have "MakeMetaKey ''b'' ''x'' \<noteq> MakeMetaKey ''b'' ''k''" by (simp add: MakeMetaKey_def)
  then have g: "cas_getMetaWithVersion mem_client toy_unmarshal ''b'' ''x'' mem0 = (mem0, Inr (None, 5, False))"
    by (simp add: cas_getMetaWithVersion_def mem_client_def mem0_def mem_cv_def min_def max_def word_le_nat_alt)
  have d: "DecodeMeta toy_unmarshal ''new'' = Inr (sample_meta\<lparr>ContentLengthKnown := True\<rparr>)"
    by (simp add: DecodeMeta_def toy_unmarshal_def)
  from populate_visible [OF mem_store.ocache_seq_axioms mem0_version g d] show ?thesis .
qed

text \<open>with nobody else writing, the guarded delete removes the row exactly when the row it finds
  carries the ETag the caller saw as stale, and otherwise leaves the store as it was.\<close>

lemma guarded_delete_exact:
  assumes "ocache_seq cl cv live" and "cv w (MakeMetaKey b k) < - 2"
    and "cas_deleteMetaIfETag cl unmarshal b k stale w = (w', Inr r)"
  shows "r = (\<exists>data meta. live w (MakeMetaKey b k) = Some data \<and> DecodeMeta unmarshal data = Inr meta \<and> ETag meta = stale)
         \<and> live w' = (if r then (live w)(MakeMetaKey b k := None) else live w)"
  using ocache_seq.delete_if_etag_quiet [OF assms] .

lemma guarded_delete_exact_witness:
  "\<exists>w'. cas_deleteMetaIfETag mem_client (\<lambda>_. Inr sample_meta) ''b'' ''k'' ''other'' mem0 = (w', Inr False)
     \<and> rows w' = rows mem0"
proof -
  have "CanonicalHeaderKey ''ETag'' = ''Etag''" by code_simp
  then have "ETag sample_meta \<noteq> ''other''"
    by (simp add: sample_meta_def MetaFromHTTPHeaders_def header_get_def header_values_def render_def)
  then have g: "cas_deleteMetaIfETag mem_client (\<lambda>_. Inr sample_meta) ''b'' ''k'' ''other'' mem0 = (mem0, Inr False)"
    by (simp add: cas_deleteMetaIfETag_def mem_client_def mem0_def DecodeMeta_def)
  from guarded_delete_exact [OF mem_store.ocache_seq_axioms mem0_version g] g show ?thesis by auto
qed



end
