(* ===== verification/Byte_Ranges.thy ===== *)
theory Byte_Ranges
  imports Object_Meta
begin

text \<open>
  Byte ranges: the Range request header (\<^verbatim>\<open>parseRangeHeader\<close> in
  \<^verbatim>\<open>src/proxy/get_object.go\<close>) and the Content-Range response header
  (\<^verbatim>\<open>parseContentRange\<close> in \<^verbatim>\<open>src/proxy/service.go\<close>), with the grammar of RFC 7233
  as their specification. Errors keep their fixed text; the interpolated number error is left out,
  since callers only test for an error.
\<close>

section \<open>Range\<close>

record byteRange =
  rng_start :: int
  rng_end :: int

definition check_range :: "int \<Rightarrow> int \<Rightarrow> int \<Rightarrow> byteRange result" where
  "check_range totalSize st en =
     (if st < 0 \<or> totalSize \<le> st then Inl (EText ''range start out of bounds'')
      else let en = (if totalSize \<le> en then wrap64 (totalSize - 1) else en) in
        if en < st then Inl (EText ''invalid range: start > end'')
        else Inr \<lparr>rng_start = st, rng_end = en\<rparr>)"

text \<open>One element of the list, already trimmed and not empty.\<close>

definition parse_part :: "int \<Rightarrow> string \<Rightarrow> byteRange result" where
  "parse_part totalSize part =
     (case IndexByte part (CHR ''-'') of
        None \<Rightarrow> Inl (EText ''invalid range: missing dash'')
      | Some dashIdx \<Rightarrow>
          let startStr = take dashIdx part; endStr = drop (Suc dashIdx) part in
          if startStr = [] then
            (let (suffixLen, ok) = ParseInt endStr 10 in
             if \<not> ok then Inl (EText ''invalid suffix range'')
             else let st = wrap64 (totalSize - suffixLen); st = (if st < 0 then 0 else st)
                  in check_range totalSize st (wrap64 (totalSize - 1)))
          else
            (let (st, ok) = ParseInt startStr 10 in
             if \<not> ok then Inl (EText ''invalid range start'')
             else if endStr = [] then check_range totalSize st (wrap64 (totalSize - 1))
             else let (en, ok) = ParseInt endStr 10 in
               if \<not> ok then Inl (EText ''invalid range end'') else check_range totalSize st en))"

fun parse_parts :: "int \<Rightarrow> string list \<Rightarrow> byteRange list \<Rightarrow> byteRange list result" where
  "parse_parts totalSize [] ranges = Inr ranges"
| "parse_parts totalSize (part # parts) ranges =
     (let part = TrimSpace part in
      if part = [] then parse_parts totalSize parts ranges
      else case parse_part totalSize part of
             Inl e \<Rightarrow> Inl e
           | Inr r \<Rightarrow> parse_parts totalSize parts (ranges @ [r]))"

definition parseRangeHeader :: "string \<Rightarrow> int \<Rightarrow> byteRange list result" where
  "parseRangeHeader rangeHeader totalSize =
     (if \<not> HasPrefix rangeHeader ''bytes=''
      then Inl (EText ''invalid range header: missing bytes= prefix'')
      else parse_parts totalSize (Split (CHR '','') (TrimPrefix rangeHeader ''bytes='')) [])"

section \<open>Content-Range\<close>

text \<open>The four results: start, end, total and whether the bounds are present.\<close>

definition parseContentRange :: "string \<Rightarrow> int \<times> int \<times> int \<times> bool" where
  "parseContentRange contentRange =
     (if contentRange = [] then (0, 0, 0, False)
      else case LastIndexByte contentRange (CHR ''/'') of
        None \<Rightarrow> (0, 0, 0, False)
      | Some slashIdx \<Rightarrow>
          let totalStr = drop (Suc slashIdx) contentRange;
              total = (if totalStr \<noteq> ''*''
                       then (let (t, ok) = ParseInt totalStr 10 in if ok then t else 0) else 0)
          in if \<not> HasPrefix contentRange ''bytes '' then (0, 0, total, False)
             else let rangePart = drop 6 (take slashIdx contentRange) in
               case IndexByte rangePart (CHR ''-'') of
                 None \<Rightarrow> (0, 0, total, False)
               | Some dashIdx \<Rightarrow>
                   let (s, ok1) = ParseInt (take dashIdx rangePart) 10;
                       (e, ok2) = ParseInt (drop (Suc dashIdx) rangePart) 10
                   in if \<not> ok1 \<or> \<not> ok2 then (0, 0, total, False) else (s, e, total, True))"

section \<open>The grammar of RFC 7233\<close>

datatype range_spec = FromTo nat nat | From nat | Suffix nat

fun render_spec :: "range_spec \<Rightarrow> string" where
  "render_spec (FromTo a b) = show_nat a @ ''-'' @ show_nat b"
| "render_spec (From a) = show_nat a @ ''-''"
| "render_spec (Suffix n) = ''-'' @ show_nat n"

text \<open>The bytes a range selects of an object of \<open>len\<close> bytes, if any.\<close>

fun selected :: "nat \<Rightarrow> range_spec \<Rightarrow> (nat \<times> nat) option" where
  "selected len (FromTo a b) = (if a < len \<and> a \<le> b then Some (a, min b (len - 1)) else None)"
| "selected len (From a) = (if a < len then Some (a, len - 1) else None)"
| "selected len (Suffix n) = (if 0 < len \<and> 0 < n then Some (len - n, len - 1) else None)"

fun spec_bound :: "range_spec \<Rightarrow> bool" where
  "spec_bound (FromTo a b) = (a < 2 ^ 63 \<and> b < 2 ^ 63)"
| "spec_bound (From a) = (a < 2 ^ 63)"
| "spec_bound (Suffix n) = (n < 2 ^ 63)"

definition selects :: "nat \<Rightarrow> range_spec \<Rightarrow> byteRange result \<Rightarrow> bool" where
  "selects len sp r \<longleftrightarrow>
     (case selected len sp of
        Some (a, b) \<Rightarrow> r = Inr \<lparr>rng_start = int a, rng_end = int b\<rparr>
      | None \<Rightarrow> (\<exists>e. r = Inl e))"

section \<open>Lemmas\<close>

definition range_ok :: "int \<Rightarrow> byteRange \<Rightarrow> bool" where
  "range_ok totalSize r \<longleftrightarrow> 0 \<le> rng_start r \<and> rng_start r \<le> rng_end r \<and> rng_end r < totalSize"

lemma check_range_ok:
  "int64_range totalSize \<Longrightarrow> check_range totalSize st en = Inr r \<Longrightarrow> range_ok totalSize r"
  by (auto simp: check_range_def Let_def range_ok_def wrap64_id int64_range_def split: if_splits)

lemma parse_part_ok:
  "int64_range totalSize \<Longrightarrow> parse_part totalSize p = Inr r \<Longrightarrow> range_ok totalSize r"
  by (auto simp: parse_part_def Let_def split: option.splits if_splits prod.splits dest: check_range_ok)

lemma parse_parts_ok:
  assumes "int64_range totalSize" and "parse_parts totalSize ps acc = Inr rs"
    and "list_all (range_ok totalSize) acc"
  shows "list_all (range_ok totalSize) rs"
  using assms
  by (induction ps arbitrary: acc) (auto simp: Let_def parse_part_ok split: if_splits sum.splits)

lemma ParseInt_show_nat: "n < 2 ^ 63 \<Longrightarrow> ParseInt (show_nat n) 10 = (int n, True)"
proof -
  assume "n < 2 ^ 63"
  then have "int64_range (int n)" by (simp add: int64_range_def)
  from ParseInt_FormatInt [OF this] show ?thesis by (simp add: FormatInt_def)
qed

lemma show_nat_no_dash: "CHR ''-'' \<notin> set (show_nat n)"
  by (rule show_nat_no_char) simp

lemma IndexByte_dash: "IndexByte (show_nat a @ CHR ''-'' # t) (CHR ''-'') = Some (length (show_nat a))"
  using show_nat_no_dash by (rule IndexByte_append)

lemma parse_part_spec:
  assumes "int len < 2 ^ 63" and "spec_bound sp"
  shows "selects len sp (parse_part (int len) (render_spec sp))"
proof -
  have w: "wrap64 (int len - 1) = int len - 1" and w': "n < 2 ^ 63 \<Longrightarrow> wrap64 (int len - int n) = int len - int n" for n
    using assms(1) by (auto intro!: wrap64_id simp: int64_range_def)
  show ?thesis
  proof (cases sp)
    case (FromTo a b)
    with assms(2) w show ?thesis
      by (auto simp: parse_part_def IndexByte_dash ParseInt_show_nat check_range_def selects_def)
  next
    case (From a)
    with assms(2) w show ?thesis
      by (auto simp: parse_part_def IndexByte_dash ParseInt_show_nat check_range_def selects_def)
  next
    case (Suffix n)
    with assms(2) w w' show ?thesis
      by (auto simp: parse_part_def ParseInt_show_nat check_range_def selects_def)
  qed
qed

lemma TrimSpace_render_spec [simp]: "TrimSpace (render_spec sp) = render_spec sp"
proof -
  have d: "c \<in> set (render_spec sp) \<Longrightarrow> 33 \<le> (of_char c :: nat) \<and> (of_char c :: nat) \<le> 126" for c
    by (cases sp) (auto dest!: show_nat_chars simp: of_char_digit)
  have ne: "render_spec sp \<noteq> []" by (cases sp) auto
  show ?thesis using d [of "hd (render_spec sp)"] d [of "last (render_spec sp)"] ne
    by (intro TrimSpace_printable) auto
qed

lemma render_spec_no_comma: "CHR '','' \<notin> set (render_spec sp)"
  by (cases sp) (auto simp: show_nat_no_char)

lemma render_spec_not_Nil [simp]: "render_spec sp \<noteq> []"
  by (cases sp) auto

fun render_specs :: "range_spec list \<Rightarrow> string" where
  "render_specs [] = []"
| "render_specs [sp] = render_spec sp"
| "render_specs (sp # sps) = render_spec sp @ '','' @ render_specs sps"

fun select_all :: "nat \<Rightarrow> range_spec list \<Rightarrow> byteRange list option" where
  "select_all len [] = Some []"
| "select_all len (sp # sps) =
     (case selected len sp of
        None \<Rightarrow> None
      | Some (a, b) \<Rightarrow> map_option (Cons \<lparr>rng_start = int a, rng_end = int b\<rparr>) (select_all len sps))"

lemma Split_render_specs: "sps \<noteq> [] \<Longrightarrow> Split (CHR '','') (render_specs sps) = map render_spec sps"
  by (induction sps rule: render_specs.induct)
    (simp_all add: Split_no_sep Split_append_sep render_spec_no_comma)

lemma parse_parts_specs:
  assumes "int len < 2 ^ 63" and "list_all spec_bound sps"
  shows "(case select_all len sps of
            Some rs \<Rightarrow> parse_parts (int len) (map render_spec sps) acc = Inr (acc @ rs)
          | None \<Rightarrow> \<exists>e. parse_parts (int len) (map render_spec sps) acc = Inl e)"
  using assms(2)
proof (induction sps arbitrary: acc)
  case (Cons sp sps)
  have "selects len sp (parse_part (int len) (render_spec sp))"
    using parse_part_spec assms(1) Cons.prems by simp
  then show ?case
    using Cons.IH Cons.prems by (fastforce simp: selects_def split: option.splits)
qed simp

lemma canonical_range_keys:
  "CanonicalHeaderKey ''Accept-Ranges'' \<noteq> CanonicalHeaderKey ''Content-Range''"
  by code_simp

section \<open>Properties\<close>



lemma accepted_ranges_ok:
  assumes "int64_range totalSize" and "parseRangeHeader h totalSize = Inr rs"
  shows "list_all (range_ok totalSize) rs"
  using parse_parts_ok [OF assms(1), of _ "[]" rs] assms(2) by (auto simp: parseRangeHeader_def split: if_splits)

text \<open>C4: whatever the header, every range that is accepted lies inside the object.\<close>

theorem parseRangeHeader_bounds:
  assumes "int64_range totalSize" and "parseRangeHeader h totalSize = Inr rs" and "r \<in> set rs"
  shows "0 \<le> rng_start r \<and> rng_start r \<le> rng_end r \<and> rng_end r < totalSize"
  using accepted_ranges_ok [OF assms(1,2)] assms(3) by (simp add: range_ok_def list_all_iff)

theorem parseRangeHeader_bounds_witness:
  "let r = \<lparr>rng_start = 95, rng_end = 99\<rparr> in
   parseRangeHeader ''bytes= 95-4096'' 100 = Inr [r] \<and> 0 \<le> rng_start r \<and> rng_end r < 100"
proof -
  have i: "int64_range 100" by (simp add: int64_range_def)
  have t: "TrimSpace '' 95-4096'' = ''95-4096''" by code_simp
  have "ParseInt ''95'' 10 = (95, True)" and "ParseInt ''4096'' 10 = (4096, True)"
    by (simp_all add: ParseInt_def ParseUint_def digit_val_def signed_result_def)
  then have p: "parseRangeHeader ''bytes= 95-4096'' 100 = Inr [\<lparr>rng_start = 95, rng_end = 99\<rparr>]"
    by (simp add: parseRangeHeader_def TrimPrefix_def t parse_part_def check_range_def wrap64_def)
  show ?thesis using parseRangeHeader_bounds [OF i p] p by simp
qed

text \<open>the subtraction for a suffix range is not guarded: a suffix length of minus two to the 63
  wraps around and selects the whole object, although the number is negative.\<close>

lemma suffix_range_wraps:
  assumes "0 < totalSize" and "totalSize < 2 ^ 63"
  shows "parseRangeHeader ''bytes=--9223372036854775808'' totalSize
         = Inr [\<lparr>rng_start = 0, rng_end = totalSize - 1\<rparr>]"
proof -
  have n: "ParseInt ''-9223372036854775808'' 10 = (- (2 ^ 63), True)"
    by (simp add: ParseInt_def ParseUint_def digit_val_def signed_result_def)
  have t: "TrimSpace ''--9223372036854775808'' = ''--9223372036854775808''" by code_simp
  have "(totalSize + 2 ^ 63 + 2 ^ 63) mod 2 ^ 64 = totalSize"
  proof -
    have "totalSize + 2 ^ 63 + 2 ^ 63 = totalSize + 2 ^ 64" by simp
    then show ?thesis using assms by simp
  qed
  then have "wrap64 (totalSize - - (2 ^ 63)) < 0"
    using assms by (simp add: wrap64_def)
  moreover have "wrap64 (totalSize - 1) = totalSize - 1"
    using assms by (intro wrap64_id) (simp add: int64_range_def)
  ultimately show ?thesis
    using assms n t
    by (simp add: parseRangeHeader_def TrimPrefix_def parse_part_def check_range_def)
qed

lemma suffix_range_wraps_witness:
  "parseRangeHeader ''bytes=--9223372036854775808'' 5 = Inr [\<lparr>rng_start = 0, rng_end = 4\<rparr>]"
  using suffix_range_wraps [of 5] by simp

lemma content_range_roundtrip:
  assumes "0 \<le> s" and "int64_range s" and "int64_range e" and "int64_range t"
  shows "parseContentRange (header_get (WithRangeHeaders s e t h) ''Content-Range'') = (s, e, t, True)"
proof -
  let ?r = "FormatInt s @ CHR ''-'' # FormatInt e"
  have g: "header_get (WithRangeHeaders s e t h) ''Content-Range''
      = ''bytes '' @ ?r @ CHR ''/'' # FormatInt t"
    by (simp add: WithRangeHeaders_def Let_def header_get_set_other canonical_range_keys)
  have l: "LastIndexByte ((''bytes '' @ ?r) @ CHR ''/'' # FormatInt t) (CHR ''/'') = Some (length (''bytes '' @ ?r))"
    by (rule LastIndexByte_append) (simp add: FormatInt_no_char)
  have d: "IndexByte ?r (CHR ''-'') = Some (length (FormatInt s))"
    using assms(1) by (intro IndexByte_append FormatInt_nonneg_no_dash)
  have "CHR ''*'' \<notin> set (FormatInt t)" by (rule FormatInt_no_char) simp_all
  then have star: "FormatInt t \<noteq> ''*''" by auto
  show ?thesis
    using l d star assms by (simp add: g parseContentRange_def)
qed

text \<open>C5: the Content-Range header that a 206 response carries is read back exactly.\<close>

theorem parseContentRange_WithRangeHeaders:
  assumes "0 \<le> s" and "int64_range s" and "int64_range e" and "int64_range t"
  shows "parseContentRange (header_get (WithRangeHeaders s e t h) ''Content-Range'') = (s, e, t, True)"
  using assms by (rule content_range_roundtrip)

theorem parseContentRange_WithRangeHeaders_witness:
  "parseContentRange (header_get (WithRangeHeaders 5 9 100 []) ''Content-Range'') = (5, 9, 100, True)"
  using parseContentRange_WithRangeHeaders [of 5 9 100 "[]"] by (simp add: int64_range_def)

end
