(* ===== verification/Block_Geometry.thy ===== *)
theory Block_Geometry
  imports Byte_Ranges
begin

text \<open>
  Block arithmetic of block-mode entries (\<^verbatim>\<open>src/proxy/block_cache.go\<close>): which blocks an
  object has, which of them cover a byte range, the slice of a block that falls in the range, and
  the span certificate that a range-created entry carries.

  The locale \<open>block_partition\<close> is what the serve paths rely on: covering blocks that meet end
  to end. Its lemma \<open>assemble\<close> shows that the local slices of the covering blocks, in
  order, are exactly the requested bytes.
\<close>

section \<open>Slices of byte strings\<close>

text \<open>The bytes of \<open>xs\<close> from offset \<open>a\<close> to offset \<open>b\<close> inclusive.\<close>

definition slice_of :: "'a list \<Rightarrow> int \<Rightarrow> int \<Rightarrow> 'a list" where
  "slice_of xs a b = take (nat (b - a + 1)) (drop (nat a) xs)"

named_theorems slices \<open>composition of slices\<close>

lemma slice_append [slices]:
  assumes "0 \<le> a" and "a \<le> b + 1" and "b \<le> c"
  shows "slice_of xs a b @ slice_of xs (b + 1) c = slice_of xs a c"
proof -
  have "nat (c - a + 1) = nat (b - a + 1) + nat (c - b)" using assms by simp
  moreover have "nat (b + 1) = nat (b - a + 1) + nat a" using assms by simp
  ultimately show ?thesis by (simp add: slice_of_def take_add)
qed

lemma slice_slice [slices]:
  assumes "0 \<le> a" and "0 \<le> x" and "a + y \<le> b"
  shows "slice_of (slice_of xs a b) x y = slice_of xs (a + x) (a + y)"
proof (cases "x \<le> y + 1")
  case True
  then have "min (nat (y - x + 1)) (nat (b - a + 1) - nat x) = nat (y - x + 1)"
    using assms by simp
  moreover have "nat x + nat a = nat (a + x)" using assms by simp
  ultimately show ?thesis by (simp add: slice_of_def drop_take take_take)
next
  case False
  then show ?thesis by (simp add: slice_of_def)
qed

lemma length_slice [slices]:
  assumes "0 \<le> a" and "a \<le> b + 1" and "b < int (length xs)"
  shows "length (slice_of xs a b) = nat (b - a + 1)"
proof -
  have "nat (b - a + 1) \<le> length xs - nat a" using assms by linarith
  then show ?thesis by (simp add: slice_of_def)
qed

lemma slice_full [simp]: "slice_of xs 0 (int (length xs) - 1) = xs"
  by (simp add: slice_of_def)

lemma slice_empty [simp]: "b < a \<Longrightarrow> slice_of xs a b = []"
  by (simp add: slice_of_def)

section \<open>Blocks\<close>

definition blockBounds :: "int \<Rightarrow> int \<Rightarrow> int \<Rightarrow> int \<times> int" where
  "blockBounds i blockSize contentLength =
     (let start = wrap64 (i * blockSize);
          end' = wrap64 (wrap64 (start + blockSize) - 1);
          end' = (if wrap64 (contentLength - 1) < end' then wrap64 (contentLength - 1) else end')
      in (start, end'))"

definition coveringBlocks :: "int \<Rightarrow> int \<Rightarrow> int \<Rightarrow> int \<times> int" where
  "coveringBlocks s e blockSize = (go_div s blockSize, go_div e blockSize)"

definition blockLocalRange :: "int \<Rightarrow> int \<Rightarrow> int \<Rightarrow> int \<Rightarrow> int \<Rightarrow> int \<times> int" where
  "blockLocalRange i start end' blockSize contentLength =
     (let (bStart, bEnd) = blockBounds i blockSize contentLength
      in (wrap64 (max start bStart - bStart), wrap64 (min end' bEnd - bStart)))"

definition touchedBlocks :: "string \<Rightarrow> int \<Rightarrow> int \<Rightarrow> int list" where
  "touchedBlocks rangeHeader totalSize blockSize =
     (case parseRangeHeader rangeHeader totalSize of
        Inl _ \<Rightarrow> []
      | Inr ranges \<Rightarrow>
          if length ranges \<noteq> 1 then []
          else let (b0, bK) = coveringBlocks (rng_start (hd ranges)) (rng_end (hd ranges)) blockSize
               in [b0..bK])"

text \<open>The configuration that decides whether an object is cached in blocks.\<close>

record block_config =
  block_caching :: bool
  block_size :: int

definition isBlockEligibleSize :: "block_config \<Rightarrow> int \<Rightarrow> bool" where
  "isBlockEligibleSize cfg contentLength \<longleftrightarrow>
     block_caching cfg \<and> 0 < block_size cfg \<and> block_size cfg \<le> contentLength"

definition maxRangeBlockFanout :: int where
  "maxRangeBlockFanout = 32"

fun consecutive :: "int list \<Rightarrow> bool" where
  "consecutive (x # y # ys) = (y = wrap64 (x + 1) \<and> consecutive (y # ys))"
| "consecutive _ = True"

definition blockSpanForRange :: "CachedObjectMeta \<Rightarrow> int list \<Rightarrow> BlockSpan option" where
  "blockSpanForRange meta touched =
     (if BlockSize meta \<le> 0 \<or> ContentLength meta \<le> 0 \<or> touched = []
         \<or> maxRangeBlockFanout < int (length touched) then None
      else let lastBlock = go_div (wrap64 (ContentLength meta - 1)) (BlockSize meta) in
        if hd touched < 0 \<or> lastBlock < last touched then None
        else if \<not> consecutive touched then None
        else if wrap64 (wrap64 (last touched - hd touched) + 1) \<noteq> int (length touched) then None
        else Some \<lparr>First = hd touched, Last = last touched\<rparr>)"

definition certifiedRangeBlockSpanCovers :: "CachedObjectMeta \<Rightarrow> int \<Rightarrow> int \<Rightarrow> bool" where
  "certifiedRangeBlockSpanCovers meta b0 bK =
     (case RangeBlockSpan meta of
        None \<Rightarrow> False
      | Some span \<Rightarrow>
          if ETag meta = [] \<or> BlockSize meta \<le> 0 \<or> ContentLength meta \<le> 0 \<or> b0 < 0 \<or> bK < b0 then False
          else let lastBlock = go_div (wrap64 (ContentLength meta - 1)) (BlockSize meta) in
            if First span < 0 \<or> Last span < First span \<or> lastBlock < Last span
               \<or> maxRangeBlockFanout < wrap64 (wrap64 (Last span - First span) + 1) then False
            else First span \<le> b0 \<and> bK \<le> Last span)"

section \<open>Assembly\<close>

text \<open>
  The bytes stored for block \<open>i\<close> of an object, and what a serve reads of it for a range: the local
  slice of the stored block.
\<close>

locale block_partition =
  fixes bounds :: "int \<Rightarrow> int \<Rightarrow> int \<Rightarrow> int \<times> int"
    and covering :: "int \<Rightarrow> int \<Rightarrow> int \<Rightarrow> int \<times> int"
    and fits :: "int \<Rightarrow> int \<Rightarrow> bool"
  assumes covers:
      "fits bs cl \<Longrightarrow> 0 \<le> s \<Longrightarrow> s \<le> e \<Longrightarrow> e < cl \<Longrightarrow> covering s e bs = (b0, bK) \<Longrightarrow>
       b0 \<le> bK \<and> fst (bounds b0 bs cl) \<le> s \<and> e \<le> snd (bounds bK bs cl)"
    and touches:
      "fits bs cl \<Longrightarrow> 0 \<le> s \<Longrightarrow> s \<le> e \<Longrightarrow> e < cl \<Longrightarrow> covering s e bs = (b0, bK) \<Longrightarrow>
       b0 \<le> i \<Longrightarrow> i \<le> bK \<Longrightarrow>
       0 \<le> fst (bounds i bs cl) \<and> fst (bounds i bs cl) \<le> e \<and> s \<le> snd (bounds i bs cl)
       \<and> fst (bounds i bs cl) \<le> snd (bounds i bs cl) \<and> snd (bounds i bs cl) < cl"
    and adjacent:
      "fits bs cl \<Longrightarrow> 0 \<le> s \<Longrightarrow> s \<le> e \<Longrightarrow> e < cl \<Longrightarrow> covering s e bs = (b0, bK) \<Longrightarrow>
       b0 \<le> i \<Longrightarrow> i < bK \<Longrightarrow> fst (bounds (i + 1) bs cl) = snd (bounds i bs cl) + 1"
begin

definition stored_block :: "string \<Rightarrow> int \<Rightarrow> int \<Rightarrow> string" where
  "stored_block obj bs i =
     slice_of obj (fst (bounds i bs (int (length obj)))) (snd (bounds i bs (int (length obj))))"

definition local_slice :: "string \<Rightarrow> int \<Rightarrow> int \<Rightarrow> int \<Rightarrow> int \<Rightarrow> string" where
  "local_slice obj bs s e i =
     (let (bStart, bEnd) = bounds i bs (int (length obj))
      in slice_of (stored_block obj bs i) (max s bStart - bStart) (min e bEnd - bStart))"

lemma local_slice_eq:
  assumes "0 \<le> fst (bounds i bs (int (length obj)))"
  shows "local_slice obj bs s e i
         = slice_of obj (max s (fst (bounds i bs (int (length obj))))) (min e (snd (bounds i bs (int (length obj)))))"
  using assms
  by (auto simp: local_slice_def stored_block_def slice_slice split: prod.splits)

lemma assemble_from:
  assumes fit: "fits bs (int (length obj))" "0 \<le> s" "s \<le> e" "e < int (length obj)"
    and cov: "covering s e bs = (b0, bK)" and "b0 \<le> i" and "i \<le> bK"
  shows "concat (map (local_slice obj bs s e) [i..bK])
         = slice_of obj (max s (fst (bounds i bs (int (length obj))))) e"
  using assms(6,7)
proof (induction "nat (bK - i)" arbitrary: i)
  case 0
  then have "i = bK" by simp
  then show ?case
    using covers [OF fit cov] touches [OF fit cov, of bK]
    by (simp add: local_slice_eq min_absorb1)
next
  case (Suc n)
  let ?B = "\<lambda>i. bounds i bs (int (length obj))"
  from Suc have i: "i < bK" "b0 \<le> i" by auto
  have adj: "fst (?B (i + 1)) = snd (?B i) + 1"
    using adjacent [OF fit cov i(2,1)] .
  have t: "0 \<le> fst (?B i)" "s \<le> snd (?B i)" "fst (?B (i + 1)) \<le> e" "fst (?B i) \<le> snd (?B i)"
    using touches [OF fit cov, of i] touches [OF fit cov, of "i + 1"] i by auto
  have IH: "concat (map (local_slice obj bs s e) [i + 1..bK]) = slice_of obj (max s (fst (?B (i + 1)))) e"
    using Suc(1) [of "i + 1"] Suc(2-4) i(1) by simp
  have m: "max s (fst (?B (i + 1))) = snd (?B i) + 1" "min e (snd (?B i)) = snd (?B i)"
    using t adj by auto
  have "slice_of obj (max s (fst (?B i))) (snd (?B i)) @ slice_of obj (snd (?B i) + 1) e
        = slice_of obj (max s (fst (?B i))) e"
    using t adj fit(2) by (intro slice_append) auto
  then show ?case
    using IH t i m by (simp add: upto_rec1 local_slice_eq)
qed

lemma assemble:
  assumes "fits bs (int (length obj))" and "0 \<le> s" and "s \<le> e" and "e < int (length obj)"
    and "covering s e bs = (b0, bK)"
  shows "concat (map (local_slice obj bs s e) [b0..bK]) = slice_of obj s e"
proof -
  have "max s (fst (bounds b0 bs (int (length obj)))) = s"
    using covers [OF assms] by simp
  then show ?thesis
    using assemble_from [OF assms order_refl] covers [OF assms] by simp
qed

end

text \<open>The arithmetic of the code stays inside 64 bits when length and block size fit together.\<close>

definition block_fits :: "int \<Rightarrow> int \<Rightarrow> bool" where
  "block_fits bs cl \<longleftrightarrow> 0 < bs \<and> 0 \<le> cl \<and> cl + bs \<le> 2 ^ 63"

lemma wrap64_nonneg: "0 \<le> x \<Longrightarrow> x < 2 ^ 63 \<Longrightarrow> wrap64 x = x"
  by (rule wrap64_id) (simp add: int64_range_def)

lemma block_end_wrap:
  assumes "0 \<le> x" and "x + bs \<le> 2 ^ 63" and "0 < bs"
  shows "wrap64 (wrap64 (x + bs) - 1) = x + bs - 1"
proof (cases "x + bs = 2 ^ 63")
  case True
  then show ?thesis by (simp add: wrap64_def)
next
  case False
  then show ?thesis using assms by (simp add: wrap64_nonneg)
qed

lemma blockBounds_eq:
  assumes "block_fits bs cl" and "0 \<le> i" and "i * bs < cl"
  shows "blockBounds i bs cl = (i * bs, min (i * bs + bs - 1) (cl - 1))"
proof -
  define x where "x = i * bs"
  have "0 \<le> x" "x < cl" "0 < bs" "cl + bs \<le> 2 ^ 63"
    using assms by (auto simp: block_fits_def x_def)
  then have "wrap64 x = x" "wrap64 (cl - 1) = cl - 1" "wrap64 (wrap64 (x + bs) - 1) = x + bs - 1"
    by (auto intro!: wrap64_nonneg block_end_wrap)
  then show ?thesis by (simp add: blockBounds_def Let_def min_def flip: x_def)
qed

lemma covering_index:
  assumes "0 < bs" and "0 \<le> s" and "s \<le> e" and "coveringBlocks s e bs = (b0, bK)"
  shows "b0 = s div bs \<and> bK = e div bs \<and> 0 \<le> b0 \<and> b0 \<le> bK"
  using assms by (auto simp: coveringBlocks_def go_div_nonneg zdiv_mono1 pos_imp_zdiv_nonneg_iff)

lemma block_index_less:
  assumes "0 < bs" and "i \<le> e div bs" shows "i * bs \<le> (e::int)"
proof -
  have "i * bs \<le> e div bs * bs" using assms by (simp add: mult_right_mono)
  also have "\<dots> \<le> e" using assms(1) by (simp add: minus_mod_eq_div_mult [symmetric])
  finally show ?thesis .
qed

lemma block_index_greater:
  assumes "0 < bs" and "s div bs \<le> i" shows "(s::int) \<le> i * bs + bs - 1"
proof -
  have "s div bs * bs \<le> i * bs" using assms by (simp add: mult_right_mono)
  moreover have "s = s div bs * bs + s mod bs" by simp
  moreover have "s mod bs < bs" using assms by simp
  ultimately show ?thesis by linarith
qed

interpretation blk: block_partition blockBounds coveringBlocks block_fits
proof
  fix bs cl s e b0 bK i :: int
  assume fit: "block_fits bs cl" and s: "0 \<le> s" "s \<le> e" "e < cl" and cov: "coveringBlocks s e bs = (b0, bK)"
  have bs: "0 < bs" using fit by (simp add: block_fits_def)
  note ix = covering_index [OF bs s(1,2) cov]
  have eq: "blockBounds i bs cl = (i * bs, min (i * bs + bs - 1) (cl - 1))" if "b0 \<le> i" "i \<le> bK" for i
  proof (rule blockBounds_eq [OF fit])
    show "0 \<le> i" using that ix by simp
    show "i * bs < cl" using block_index_less [OF bs, of i e] that ix s(3) by simp
  qed
  have lo: "i * bs \<le> e" if "i \<le> bK" for i using block_index_less [OF bs, of i e] that ix by simp
  have hi: "s \<le> i * bs + bs - 1" if "b0 \<le> i" for i using block_index_greater [OF bs, of s i] that ix by simp
  show "b0 \<le> bK \<and> fst (blockBounds b0 bs cl) \<le> s \<and> e \<le> snd (blockBounds bK bs cl)"
    using ix s eq [of b0] eq [of bK] block_index_less [OF bs, of b0 s] block_index_greater [OF bs, of e bK] by simp
  show "0 \<le> fst (blockBounds i bs cl) \<and> fst (blockBounds i bs cl) \<le> e \<and> s \<le> snd (blockBounds i bs cl)
        \<and> fst (blockBounds i bs cl) \<le> snd (blockBounds i bs cl) \<and> snd (blockBounds i bs cl) < cl" if "b0 \<le> i" "i \<le> bK"
    using eq [OF that] lo [OF that(2)] hi [OF that(1)] s ix that bs by simp
  show "fst (blockBounds (i + 1) bs cl) = snd (blockBounds i bs cl) + 1" if "b0 \<le> i" "i < bK"
    using eq [of i] eq [of "i + 1"] that lo [of "i + 1"] s by (simp add: distrib_right min_def)
qed

section \<open>The span certificate\<close>

lemma consecutive_upto: "minInt64 \<le> a \<Longrightarrow> b < 2 ^ 63 \<Longrightarrow> consecutive [a..b]"
proof (induction "nat (b - a)" arbitrary: a)
  case 0
  then show ?case by (cases "a = b") (simp_all add: upto.simps)
next
  case (Suc n)
  then have "consecutive [a + 1..b]" by simp
  moreover have "[a..b] = a # (a + 1) # [a + 2..b]" and "[a + 1..b] = (a + 1) # [a + 2..b]"
    using Suc(2) by (simp_all add: upto_rec1 add.commute)
  moreover have "wrap64 (a + 1) = a + 1"
    using Suc by (intro wrap64_id) (simp add: int64_range_def)
  ultimately show ?case by simp
qed

lemma last_upto: "a \<le> b \<Longrightarrow> last [a..b] = (b::int)"
  by (simp add: upto_rec2)

lemma hd_upto: "a \<le> b \<Longrightarrow> hd [a..b] = (a::int)"
  by (simp add: upto_rec1)

lemma touchedBlocks_interval:
  assumes "touchedBlocks h cl bs = t" and "t \<noteq> []" and "0 < bs" and "int64_range cl"
  shows "\<exists>b0 bK. t = [b0..bK] \<and> 0 \<le> b0 \<and> b0 \<le> bK \<and> bK \<le> (cl - 1) div bs \<and> 0 < cl"
proof -
  from assms(1,2) obtain r where r: "parseRangeHeader h cl = Inr [r]"
    and t: "t = (let (b0, bK) = coveringBlocks (rng_start r) (rng_end r) bs in [b0..bK])"
    by (auto simp: touchedBlocks_def length_Suc_conv split: sum.splits if_splits)
  have ok: "range_ok cl r"
    using parse_parts_ok [OF assms(4), of _ "[]" "[r]"] r
    by (auto simp: parseRangeHeader_def split: if_splits)
  then have "rng_end r div bs \<le> (cl - 1) div bs"
    using assms(3) by (intro zdiv_mono1) (simp_all add: range_ok_def)
  moreover obtain b0 bK where c: "coveringBlocks (rng_start r) (rng_end r) bs = (b0, bK)" by fastforce
  moreover have "0 \<le> rng_start r" "rng_start r \<le> rng_end r" "0 < cl" using ok by (auto simp: range_ok_def)
  ultimately have "t = [b0..bK]" "0 \<le> b0" "b0 \<le> bK" "bK \<le> (cl - 1) div bs" "0 < cl"
    using covering_index [OF assms(3) _ _ c] t by auto
  then show ?thesis by blast
qed

section \<open>Properties\<close>

text \<open>C6: a byte range served from blocks is exactly the requested bytes: the local slices of the
  covering blocks, read in order from blocks that hold what their bounds say, concatenate to the
  bytes of the object from start to end.\<close>

theorem block_assembly_exact:
  fixes obj :: string
  assumes "block_fits bs (int (length obj))" and "0 \<le> s" and "s \<le> e" and "e < int (length obj)"
    and "coveringBlocks s e bs = (b0, bK)"
  shows "concat (map (\<lambda>i. let (bStart, bEnd) = blockBounds i bs (int (length obj));
                            (ls, le) = blockLocalRange i s e bs (int (length obj))
                        in slice_of (slice_of obj bStart bEnd) ls le) [b0..bK])
         = slice_of obj s e"
proof -
  have "(let (bStart, bEnd) = blockBounds i bs (int (length obj));
             (ls, le) = blockLocalRange i s e bs (int (length obj))
         in slice_of (slice_of obj bStart bEnd) ls le) = blk.local_slice obj bs s e i"
    if i: "b0 \<le> i" "i \<le> bK" for i
  proof -
    obtain x y where B: "blockBounds i bs (int (length obj)) = (x, y)" by fastforce
    have "0 \<le> x" "x \<le> e" "s \<le> y" "x \<le> y" "y < int (length obj)" "int (length obj) < 2 ^ 63"
      using blk.touches [OF assms i] B assms(1) by (auto simp: block_fits_def)
    then have "wrap64 (max s x - x) = max s x - x" "wrap64 (min e y - x) = min e y - x"
      using assms(2-4) by (auto intro!: wrap64_nonneg)
    then show ?thesis by (simp add: B blockLocalRange_def blk.local_slice_def blk.stored_block_def)
  qed
  then have "map (\<lambda>i. let (bStart, bEnd) = blockBounds i bs (int (length obj));
                            (ls, le) = blockLocalRange i s e bs (int (length obj))
                        in slice_of (slice_of obj bStart bEnd) ls le) [b0..bK]
             = map (blk.local_slice obj bs s e) [b0..bK]"
    by (intro map_cong) auto
  then show ?thesis using blk.assemble [OF assms] by (simp only:)
qed

theorem block_assembly_exact_witness:
  "concat (map (\<lambda>i. let (bStart, bEnd) = blockBounds i 4 10; (ls, le) = blockLocalRange i 2 8 4 10
                  in slice_of (slice_of ''abcdefghij'' bStart bEnd) ls le) [0..2]) = ''cdefghi''"
proof -
  have f: "block_fits 4 (int (length ''abcdefghij''))" by (simp add: block_fits_def)
  have c: "coveringBlocks 2 8 4 = (0, 2)" by (simp add: coveringBlocks_def go_div_nonneg)
  have "slice_of ''abcdefghij'' 2 8 = ''cdefghi''" by (simp add: slice_of_def numeral_eq_Suc)
  with block_assembly_exact [OF f _ _ _ c] show ?thesis by simp
qed

text \<open>the certificate published for the blocks a range touched is accepted for every request
  inside them, and an accepted certificate never names a block past the object or more blocks than
  the fan-out limit.\<close>

lemma span_certificate:
  assumes "int64_range (ContentLength m)" and "0 < BlockSize m" and "BlockSize m < 2 ^ 63" and "ETag m \<noteq> []"
    and "touchedBlocks h (ContentLength m) (BlockSize m) = t" and "t \<noteq> []"
    and "int (length t) \<le> maxRangeBlockFanout"
  shows "\<exists>sp. blockSpanForRange m t = Some sp
       \<and> (\<forall>b0 bK. certifiedRangeBlockSpanCovers (m\<lparr>RangeBlockSpan := Some sp\<rparr>) b0 bK
            = (hd t \<le> b0 \<and> b0 \<le> bK \<and> bK \<le> last t))
       \<and> Last sp * BlockSize m < ContentLength m"
proof -
  obtain a b where t: "t = [a..b]" "0 \<le> a" "a \<le> b" "b \<le> (ContentLength m - 1) div BlockSize m" "0 < ContentLength m"
    using touchedBlocks_interval [OF assms(5,6,2,1)] by blast
  have cl: "wrap64 (ContentLength m - 1) = ContentLength m - 1"
    using assms(1) t(5) by (intro wrap64_nonneg) (auto simp: int64_range_def)
  have len: "int (length t) = b - a + 1" using t by simp
  have b: "b * BlockSize m \<le> ContentLength m - 1" using block_index_less [OF assms(2) t(4)] .
  have "b \<le> b * BlockSize m" using t assms(2) by (simp add: mult_le_cancel_left1)
  with b assms(1) have "b < 2 ^ 63" by (simp add: int64_range_def)
  moreover have "b - a + 1 \<le> 32" using len assms(7) by (simp add: maxRangeBlockFanout_def)
  ultimately have w: "wrap64 (b - a) = b - a" "wrap64 (b - a + 1) = b - a + 1"
    using t by (auto intro!: wrap64_nonneg)
  have "consecutive t" using consecutive_upto t \<open>b < 2 ^ 63\<close> by simp
  then have sp: "blockSpanForRange m t = Some \<lparr>First = a, Last = b\<rparr>"
    using assms t(2-5) len w cl
    by (simp add: blockSpanForRange_def Let_def t(1) hd_upto last_upto go_div_nonneg)
  have cert: "certifiedRangeBlockSpanCovers (m\<lparr>RangeBlockSpan := Some \<lparr>First = a, Last = b\<rparr>\<rparr>) b0 bK
        = (a \<le> b0 \<and> b0 \<le> bK \<and> bK \<le> b)" for b0 bK
    using assms t(2-5) len w cl
    by (auto simp: certifiedRangeBlockSpanCovers_def Let_def go_div_nonneg)
  show ?thesis using sp cert b t(1-3) by (simp add: hd_upto last_upto)
qed

definition span_meta :: CachedObjectMeta where
  "span_meta = (MetaFromHTTPHeaders 0 ''b'' ''k'' 200 [])\<lparr>ETag := ''e'', ContentLength := 100, BlockSize := 8\<rparr>"

lemma span_certificate_witness:
  "\<exists>sp. blockSpanForRange span_meta [1, 2, 3] = Some sp
      \<and> certifiedRangeBlockSpanCovers (span_meta\<lparr>RangeBlockSpan := Some sp\<rparr>) 2 3
      \<and> \<not> certifiedRangeBlockSpanCovers (span_meta\<lparr>RangeBlockSpan := Some sp\<rparr>) 2 4"
proof -
  have h: "int64_range (ContentLength span_meta)" "0 < BlockSize span_meta" "BlockSize span_meta < 2 ^ 63"
    "ETag span_meta \<noteq> []" "int (length [1::int, 2, 3]) \<le> maxRangeBlockFanout" "[1::int, 2, 3] \<noteq> []"
    by (simp_all add: span_meta_def int64_range_def maxRangeBlockFanout_def)
  have t: "TrimSpace ''10-30'' = ''10-30''" by code_simp
  have "ParseInt ''10'' 10 = (10, True)" and "ParseInt ''30'' 10 = (30, True)"
    by (simp_all add: ParseInt_def ParseUint_def digit_val_def signed_result_def)
  then have "parseRangeHeader ''bytes=10-30'' 100 = Inr [\<lparr>rng_start = 10, rng_end = 30\<rparr>]"
    by (simp add: parseRangeHeader_def TrimPrefix_def t parse_part_def check_range_def)
  moreover have "[1..3::int] = [1, 2, 3]" by code_simp
  ultimately have "touchedBlocks ''bytes=10-30'' (ContentLength span_meta) (BlockSize span_meta) = [1, 2, 3]"
    by (simp add: touchedBlocks_def span_meta_def coveringBlocks_def go_div_nonneg)
  from span_certificate [OF h(1-4) this h(6,5)] obtain sp where
    "blockSpanForRange span_meta [1, 2, 3] = Some sp"
    "\<forall>b0 bK. certifiedRangeBlockSpanCovers (span_meta\<lparr>RangeBlockSpan := Some sp\<rparr>) b0 bK
            = (1 \<le> b0 \<and> b0 \<le> bK \<and> bK \<le> 3)" by auto
  then show ?thesis by simp
qed

end
