(* ===== verification/Cache_Ops.thy ===== *)
theory Cache_Ops
  imports Meta_Coordinator Block_Geometry
begin

text \<open>
  The cache (\<^verbatim>\<open>src/cache/cache.go\<close>): bodies and blocks written first and metadata last, reads by
  metadata then body, invalidation through the coordinator, range reads with the store's quirks, and
  the unary block write. The JSON codec and the message limit of the store's client are fields of the
  cache record.
\<close>

section \<open>The cache record\<close>

datatype coordinator = LegacyCoordinator int | CasCoordinator

record 'w Cache =
  client :: "'w CacheClient"
  defaultTTL :: int
  enabled :: bool
  closed :: bool
  coord :: coordinator
  maxDiskUsage :: int
  json_marshal :: "CachedObjectMeta \<Rightarrow> string result"
  json_unmarshal :: json_decoder
  msg_limit :: int

record cache_config =
  cfg_TTL_seconds :: int
  cfg_enabled :: bool
  cfg_legacy :: bool
  cfg_SizeThreshold :: int
  cfg_MaxDiskUsageBytes :: int

definition NewCacheWithClient ::
  "'w CacheClient \<Rightarrow> (CachedObjectMeta \<Rightarrow> string result) \<Rightarrow> json_decoder \<Rightarrow> int \<Rightarrow> cache_config option \<Rightarrow> 'w Cache" where
  "NewCacheWithClient cl marshal unmarshal limit cfg =
     (let ttl = (case cfg of Some c \<Rightarrow> if 0 < cfg_TTL_seconds c then cfg_TTL_seconds c else 86400 | None \<Rightarrow> 86400);
          legacy = (case cfg of Some c \<Rightarrow> cfg_legacy c | None \<Rightarrow> True);
          sizeThreshold = (case cfg of Some c \<Rightarrow> cfg_SizeThreshold c | None \<Rightarrow> 0)
      in \<lparr>client = cl, defaultTTL = ttl, enabled = (case cfg of Some c \<Rightarrow> cfg_enabled c | None \<Rightarrow> True),
          closed = False,
          coord = (if legacy then LegacyCoordinator (TombstoneTTLSeconds sizeThreshold) else CasCoordinator),
          maxDiskUsage = (case cfg of Some c \<Rightarrow> cfg_MaxDiskUsageBytes c | None \<Rightarrow> 0),
          json_marshal = marshal, json_unmarshal = unmarshal, msg_limit = limit\<rparr>)"

definition IsEnabled :: "'w Cache \<Rightarrow> bool" where
  "IsEnabled c \<longleftrightarrow> enabled c \<and> \<not> closed c"

text \<open>Closing does not stop reads that are under way; it only flips the flag. A second close is a no-op.\<close>

definition Close :: "('w \<Rightarrow> 'w \<times> err option) \<Rightarrow> 'w Cache \<Rightarrow> 'w \<Rightarrow> 'w Cache \<times> 'w \<times> err option" where
  "Close client_Close c w = (if closed c \<or> \<not> enabled c then (c, w, None) else (c\<lparr>closed := True\<rparr>, client_Close w))"

text \<open>The calls through the coordinator interface.\<close>

definition coord_getMetaWithVersion ::
  "'w Cache \<Rightarrow> string \<Rightarrow> string \<Rightarrow> 'w \<Rightarrow> 'w \<times> (CachedObjectMeta option \<times> version \<times> bool) result" where
  "coord_getMetaWithVersion c bucket key w =
     (case coord c of
        LegacyCoordinator _ \<Rightarrow> legacy_getMetaWithVersion (client c) (json_unmarshal c) bucket key w
      | CasCoordinator \<Rightarrow> cas_getMetaWithVersion (client c) (json_unmarshal c) bucket key w)"

definition putMetaVersioned ::
  "'w Cache \<Rightarrow> string \<Rightarrow> string \<Rightarrow> string \<Rightarrow> string \<Rightarrow> int \<Rightarrow> version \<Rightarrow> 'w \<Rightarrow> 'w \<times> bool result" where
  "putMetaVersioned c bucket key metaKey metaBytes ttl expected w =
     (case coord c of
        LegacyCoordinator _ \<Rightarrow> legacy_putMeta (client c) bucket key metaKey metaBytes ttl expected w
      | CasCoordinator \<Rightarrow> cas_putMeta (client c) bucket key metaKey metaBytes ttl expected w)"

definition deleteMetaFenced :: "'w Cache \<Rightarrow> string \<Rightarrow> string \<Rightarrow> 'w \<Rightarrow> 'w \<times> err option" where
  "deleteMetaFenced c bucket key w =
     (case coord c of
        LegacyCoordinator ttl \<Rightarrow> legacy_deleteMeta (client c) ttl bucket key w
      | CasCoordinator \<Rightarrow> cas_deleteMeta (client c) bucket key w)"

section \<open>Writing\<close>

text \<open>\<open>putBody\<close> returns the number of bytes the store consumed of the reader.\<close>

definition putBody :: "'w Cache \<Rightarrow> string \<Rightarrow> reader \<Rightarrow> int \<Rightarrow> 'w \<Rightarrow> 'w \<times> int \<times> err option" where
  "putBody c key r ttlSeconds w =
     (case cl_PutStreamSheddable (client c) of
        None \<Rightarrow> cl_PutStream (client c) key r ttlSeconds w
      | Some put \<Rightarrow>
          (case put key r ttlSeconds w of
             (w, n, None) \<Rightarrow> (w, n, None)
           | (w, n, Some e) \<Rightarrow>
               if err_is e ErrPopulateShed then (w, n, Some e)
               else (case cl_IsOverBudget (client c) of
                       Some over \<Rightarrow> if over e then (w, n, Some ErrPopulateShed) else (w, n, Some e)
                     | None \<Rightarrow> (w, n, Some e))))"

definition ttl_or_default :: "'w Cache \<Rightarrow> int \<Rightarrow> int" where
  "ttl_or_default c ttl = (if ttl = 0 then defaultTTL c else ttl)"

definition PutWithMeta ::
  "'w Cache \<Rightarrow> string \<Rightarrow> string \<Rightarrow> CachedObjectMeta \<Rightarrow> string \<Rightarrow> int \<Rightarrow> 'w \<Rightarrow> 'w \<times> err option" where
  "PutWithMeta c bucket key meta body ttl w =
     (if \<not> IsEnabled c \<or> ETag meta = [] then (w, None)
      else
        let ttl = ttl_or_default c ttl; metaKey = MakeMetaKey bucket key; bodyKey = MakeBodyKey bucket key (ETag meta)
        in case snd (Encode (json_marshal c) meta) of
             Inl e \<Rightarrow> (w, Some e)
           | Inr metaBytes \<Rightarrow>
               (case cl_Put (client c) bodyKey body ttl w of
                  (w, Some e) \<Rightarrow> (w, Some e)
                | (w, None) \<Rightarrow>
                    (case putMetaVersioned c bucket key metaKey metaBytes ttl VersionAny w of
                       (w, Inl e) \<Rightarrow> (w, Some e)
                     | (w, Inr _) \<Rightarrow> (w, None))))"

definition PutWithMetaStreamIfVersion ::
  "'w Cache \<Rightarrow> string \<Rightarrow> string \<Rightarrow> CachedObjectMeta \<Rightarrow> reader \<Rightarrow> int \<Rightarrow> version \<Rightarrow> 'w \<Rightarrow> 'w \<times> bool result" where
  "PutWithMetaStreamIfVersion c bucket key meta body ttl expected w =
     (if \<not> IsEnabled c then (w, Inr False)
      else if ETag meta = [] then (w, Inr False)
      else
        let ttl = ttl_or_default c ttl; metaKey = MakeMetaKey bucket key; bodyKey = MakeBodyKey bucket key (ETag meta)
        in case snd (Encode (json_marshal c) meta) of
             Inl e \<Rightarrow> (w, Inl e)
           | Inr metaBytes \<Rightarrow>
               (case putBody c bodyKey body ttl w of
                  (w, counted, Some e) \<Rightarrow> (w, Inl e)
                | (w, counted, None) \<Rightarrow>
                    if 0 \<le> ContentLength meta \<and> counted \<noteq> ContentLength meta
                    then (w, Inl (EWrap (Error ErrBodyLengthMismatch @ '': wrote '' @ FormatInt counted
                                         @ '' bytes, Content-Length '' @ FormatInt (ContentLength meta))
                                        [ErrBodyLengthMismatch]))
                    else putMetaVersioned c bucket key metaKey metaBytes ttl expected w))"

definition PutBodyStream :: "'w Cache \<Rightarrow> string \<Rightarrow> string \<Rightarrow> string \<Rightarrow> reader \<Rightarrow> int \<Rightarrow> 'w \<Rightarrow> 'w \<times> err option" where
  "PutBodyStream c bucket key discriminator r ttl w =
     (if \<not> IsEnabled c then (w, None)
      else let ttl = (if ttl \<le> 0 then defaultTTL c else ttl);
               (w, _, e) = putBody c (MakeBodyKey bucket key discriminator) r ttl w
           in (w, e))"

definition DeleteBody :: "'w Cache \<Rightarrow> string \<Rightarrow> string \<Rightarrow> string \<Rightarrow> 'w \<Rightarrow> 'w \<times> err option" where
  "DeleteBody c bucket key discriminator w =
     (if \<not> IsEnabled c then (w, None) else cl_Delete (client c) (MakeBodyKey bucket key discriminator) w)"

definition PutMetaIfVersion ::
  "'w Cache \<Rightarrow> string \<Rightarrow> string \<Rightarrow> CachedObjectMeta \<Rightarrow> int \<Rightarrow> version \<Rightarrow> 'w \<Rightarrow> 'w \<times> bool result" where
  "PutMetaIfVersion c bucket key meta ttl expected w =
     (if \<not> IsEnabled c \<or> ETag meta = [] then (w, Inr False)
      else case snd (Encode (json_marshal c) meta) of
             Inl e \<Rightarrow> (w, Inl e)
           | Inr metaBytes \<Rightarrow>
               putMetaVersioned c bucket key (MakeMetaKey bucket key) metaBytes (ttl_or_default c ttl) expected w)"

section \<open>Reading\<close>

definition GetMetaWithVersion ::
  "'w Cache \<Rightarrow> string \<Rightarrow> string \<Rightarrow> 'w \<Rightarrow> 'w \<times> (CachedObjectMeta option \<times> version \<times> bool) result" where
  "GetMetaWithVersion c bucket key w =
     (if \<not> IsEnabled c then (w, Inr (None, 0, False)) else coord_getMetaWithVersion c bucket key w)"

definition GetMeta :: "'w Cache \<Rightarrow> string \<Rightarrow> string \<Rightarrow> 'w \<Rightarrow> 'w \<times> CachedObjectMeta option result" where
  "GetMeta c bucket key w =
     (if \<not> IsEnabled c then (w, Inr None)
      else case cl_Get (client c) (MakeMetaKey bucket key) w of
             (w, _, Some e) \<Rightarrow> if isNotFoundError e then (w, Inr None) else (w, Inl e)
           | (w, None, None) \<Rightarrow> (w, Inr None)
           | (w, Some data, None) \<Rightarrow> (w, map_sum id Some (DecodeMeta (json_unmarshal c) data)))"

text \<open>The bytes that reached the writer, and the error.\<close>

definition GetBodyStream :: "'w Cache \<Rightarrow> string \<Rightarrow> string \<Rightarrow> string \<Rightarrow> 'w \<Rightarrow> 'w \<times> string \<times> err option" where
  "GetBodyStream c bucket key etag w =
     (if \<not> IsEnabled c then (w, [], Some ErrCacheDisabled)
      else case cl_GetStream (client c) (MakeBodyKey bucket key etag) w of
             (w, out, Some e) \<Rightarrow> (w, out, Some (if isNotFoundError e then ErrNotFound else e))
           | (w, out, None) \<Rightarrow> (w, out, None))"

text \<open>\<open>sink\<close> is what one call of the writer accepts of its argument.\<close>

definition getRangeStreamByKey ::
  "'w Cache \<Rightarrow> string \<Rightarrow> int \<Rightarrow> int \<Rightarrow> (string \<Rightarrow> string \<times> err option) \<Rightarrow> 'w \<Rightarrow> 'w \<times> string \<times> err option" where
  "getRangeStreamByKey c cacheKey start end' sink w =
     (if start = 0 \<and> end' = 0 then
        (case cl_GetRangeStream (client c) cacheKey 0 1 w of
           (w, buf, Some e) \<Rightarrow> (w, [], Some (if isNotFoundError e then ErrNotFound else e))
         | (w, buf, None) \<Rightarrow>
             if buf = [] then (w, [], Some ErrNotFound)
             else let (out, e) = sink (take 1 buf) in (w, out, e))
      else
        (case cl_GetRangeStream (client c) cacheKey start end' w of
           (w, out, Some e) \<Rightarrow> (w, out, Some (if isNotFoundError e then ErrNotFound else e))
         | (w, out, None) \<Rightarrow>
             let written = int (length out) in
             if written = 0 then (w, out, Some ErrNotFound)
             else if 0 \<le> start \<and> start \<le> end' then
               (let want = wrap64 (wrap64 (end' - start) + 1) in
                if 0 < want \<and> written < want
                then (w, out, Some (EWrap (''cache range short read: got '' @ FormatInt written @ '' of ''
                                           @ FormatInt want @ '' bytes: '' @ Error UnexpectedEOF) [UnexpectedEOF]))
                else if 0 < want \<and> want < written
                then (w, out, Some (EText (''cache range over-read: got '' @ FormatInt written
                                           @ '' bytes, want '' @ FormatInt want)))
                else (w, out, None))
             else (w, out, None)))"

definition GetRangeStream ::
  "'w Cache \<Rightarrow> string \<Rightarrow> string \<Rightarrow> string \<Rightarrow> int \<Rightarrow> int \<Rightarrow> (string \<Rightarrow> string \<times> err option) \<Rightarrow> 'w \<Rightarrow> 'w \<times> string \<times> err option" where
  "GetRangeStream c bucket key etag start end' sink w =
     (if \<not> IsEnabled c then (w, [], Some ErrCacheDisabled)
      else getRangeStreamByKey c (MakeBodyKey bucket key etag) start end' sink w)"

definition GetBlockRangeStream ::
  "'w Cache \<Rightarrow> string \<Rightarrow> string \<Rightarrow> string \<Rightarrow> int \<Rightarrow> int \<Rightarrow> int \<Rightarrow> int \<Rightarrow> (string \<Rightarrow> string \<times> err option) \<Rightarrow> 'w
   \<Rightarrow> 'w \<times> string \<times> err option" where
  "GetBlockRangeStream c bucket key etag blockSize blockIdx start end' sink w =
     (if \<not> IsEnabled c then (w, [], Some ErrCacheDisabled)
      else getRangeStreamByKey c (MakeBlockKey bucket key etag blockSize blockIdx) start end' sink w)"

text \<open>A writer that takes everything: \<^verbatim>\<open>io.Discard\<close>, a buffer.\<close>

definition accept_all :: "string \<Rightarrow> string \<times> err option" where
  "accept_all s = (s, None)"

definition probe :: "'w Cache \<Rightarrow> string \<Rightarrow> 'w \<Rightarrow> 'w \<times> bool result" where
  "probe c cacheKey w =
     (case getRangeStreamByKey c cacheKey 0 0 accept_all w of
        (w, _, None) \<Rightarrow> (w, Inr True)
      | (w, _, Some e) \<Rightarrow> if err_is e ErrNotFound then (w, Inr False) else (w, Inl e))"

definition BodyExistsErr :: "'w Cache \<Rightarrow> string \<Rightarrow> string \<Rightarrow> string \<Rightarrow> 'w \<Rightarrow> 'w \<times> bool result" where
  "BodyExistsErr c bucket key etag w =
     (if \<not> IsEnabled c \<or> etag = [] then (w, Inr False) else probe c (MakeBodyKey bucket key etag) w)"

definition BlockExistsErr :: "'w Cache \<Rightarrow> string \<Rightarrow> string \<Rightarrow> string \<Rightarrow> int \<Rightarrow> int \<Rightarrow> 'w \<Rightarrow> 'w \<times> bool result" where
  "BlockExistsErr c bucket key etag blockSize blockIdx w =
     (if \<not> IsEnabled c \<or> etag = [] then (w, Inr False)
      else probe c (MakeBlockKey bucket key etag blockSize blockIdx) w)"

definition BlockExists :: "'w Cache \<Rightarrow> string \<Rightarrow> string \<Rightarrow> string \<Rightarrow> int \<Rightarrow> int \<Rightarrow> 'w \<Rightarrow> 'w \<times> bool" where
  "BlockExists c bucket key etag blockSize blockIdx w =
     (case BlockExistsErr c bucket key etag blockSize blockIdx w of (w, Inr p) \<Rightarrow> (w, p) | (w, Inl _) \<Rightarrow> (w, False))"

definition Has :: "'w Cache \<Rightarrow> string \<Rightarrow> string \<Rightarrow> 'w \<Rightarrow> 'w \<times> bool" where
  "Has c bucket key w =
     (if \<not> IsEnabled c then (w, False)
      else case cl_Get (client c) (MakeMetaKey bucket key) w of (w, d, e) \<Rightarrow> (w, e = None \<and> d \<noteq> None))"

definition IsBlockLocal :: "'w Cache \<Rightarrow> string \<Rightarrow> string \<Rightarrow> string \<Rightarrow> int \<Rightarrow> int \<Rightarrow> bool \<times> bool" where
  "IsBlockLocal c bucket key etag blockSize blockIdx =
     (case cl_IsLocal (client c) of
        None \<Rightarrow> (False, False)
      | Some f \<Rightarrow> (f (MakeBlockKey bucket key etag blockSize blockIdx), True))"

section \<open>Invalidating\<close>

definition DeleteWithMeta :: "'w Cache \<Rightarrow> string \<Rightarrow> string \<Rightarrow> 'w \<Rightarrow> 'w \<times> err option" where
  "DeleteWithMeta c bucket key w =
     (if \<not> IsEnabled c then (w, None)
      else case deleteMetaFenced c bucket key w of
             (w, None) \<Rightarrow> (w, None)
           | (w, Some e) \<Rightarrow> (w, errors_Join [Errorf ''delete meta: '' e]))"

definition Delete :: "'w Cache \<Rightarrow> string \<Rightarrow> string \<Rightarrow> 'w \<Rightarrow> 'w \<times> err option" where
  "Delete c bucket key w = (if \<not> IsEnabled c then (w, None) else DeleteWithMeta c bucket key w)"

definition DeleteMetaIfVersion :: "'w Cache \<Rightarrow> string \<Rightarrow> string \<Rightarrow> version \<Rightarrow> 'w \<Rightarrow> 'w \<times> bool result" where
  "DeleteMetaIfVersion c bucket key version w =
     (if \<not> IsEnabled c then (w, Inr False)
      else case coord c of
             LegacyCoordinator _ \<Rightarrow> legacy_deleteMetaIfVersion (client c) bucket key version w
           | CasCoordinator \<Rightarrow> cas_deleteMetaIfVersion (client c) bucket key version w)"

definition DeleteIfETag :: "'w Cache \<Rightarrow> string \<Rightarrow> string \<Rightarrow> string \<Rightarrow> 'w \<Rightarrow> 'w \<times> bool result" where
  "DeleteIfETag c bucket key staleETag w =
     (if \<not> IsEnabled c then (w, Inr False)
      else case coord c of
             LegacyCoordinator ttl \<Rightarrow> legacy_deleteMetaIfETag (client c) ttl (json_unmarshal c) bucket key staleETag w
           | CasCoordinator \<Rightarrow> cas_deleteMetaIfETag (client c) (json_unmarshal c) bucket key staleETag w)"

section \<open>Blocks\<close>

function protoVarintSize :: "nat \<Rightarrow> nat" where
  "protoVarintSize v = (if 128 \<le> v then Suc (protoVarintSize (v div 128)) else 1)"
  by auto
termination
  by (relation "measure id") auto

declare protoVarintSize.simps [simp del]

text \<open>A \<^verbatim>\<open>uint64\<close> conversion of a signed value.\<close>

definition uint64_of :: "int \<Rightarrow> nat" where
  "uint64_of i = nat (i mod 2 ^ 64)"

definition unaryPutRequestSize :: "string \<Rightarrow> string \<Rightarrow> int \<Rightarrow> int" where
  "unaryPutRequestSize key data ttlSeconds =
     (if key \<noteq> [] then 1 + int (protoVarintSize (length key)) + int (length key) else 0)
     + (if ttlSeconds \<noteq> 0 then 1 + int (protoVarintSize (uint64_of ttlSeconds)) else 0)
     + (if data \<noteq> [] then 1 + int (protoVarintSize (length data)) + int (length data) else 0)"

definition canPutBlockUnaryForLimit :: "string \<Rightarrow> string \<Rightarrow> int \<Rightarrow> int \<Rightarrow> bool" where
  "canPutBlockUnaryForLimit key data ttlSeconds limit \<longleftrightarrow> unaryPutRequestSize key data ttlSeconds \<le> limit"

definition PutBlock ::
  "'w Cache \<Rightarrow> string \<Rightarrow> string \<Rightarrow> string \<Rightarrow> int \<Rightarrow> int \<Rightarrow> string \<Rightarrow> int \<Rightarrow> 'w \<Rightarrow> 'w \<times> err option" where
  "PutBlock c bucket key etag blockSize blockIdx data ttl w =
     (if \<not> IsEnabled c \<or> etag = [] then (w, None)
      else
        let ttl = ttl_or_default c ttl;
            blockKey = MakeBlockKey bucket key etag blockSize blockIdx;
            unary = (if canPutBlockUnaryForLimit blockKey data ttl (msg_limit c)
                     then (case cl_PutBlockBytes (client c) of
                             None \<Rightarrow> (w, None)
                           | Some put \<Rightarrow>
                               (case put blockKey data ttl w of
                                  (w, handled, e) \<Rightarrow> if handled \<or> e \<noteq> None then (w, Some e) else (w, None)))
                     else (w, None))
        in case unary of
             (w, Some e) \<Rightarrow> (w, e)
           | (w, None) \<Rightarrow> (case putBody c blockKey (data, None) ttl w of (w, _, e) \<Rightarrow> (w, e)))"

definition PutBlockStream ::
  "'w Cache \<Rightarrow> string \<Rightarrow> string \<Rightarrow> string \<Rightarrow> int \<Rightarrow> int \<Rightarrow> reader \<Rightarrow> int \<Rightarrow> 'w \<Rightarrow> 'w \<times> err option" where
  "PutBlockStream c bucket key etag blockSize blockIdx r ttl w =
     (if \<not> IsEnabled c \<or> etag = [] then (w, None)
      else case putBody c (MakeBlockKey bucket key etag blockSize blockIdx) r (ttl_or_default c ttl) w of
             (w, _, e) \<Rightarrow> (w, e))"

section \<open>The cache over a coordinator\<close>

text \<open>
  What the populates of one cache rely on: its coordinator meets the contract, and writing a body
  does not undo a fence.
\<close>

locale cache_store =
  meta_coordinator "coord_getMetaWithVersion c" "putMetaVersioned c" "deleteMetaFenced c" evolves ordered stale
  for c :: "'w Cache" and evolves ordered stale +
  assumes body_evolves: "putBody c (MakeBodyKey b' k' d) r ttl w = (w', n, e) \<Longrightarrow> evolves b k w w'"
begin

lemma populate_lost:
  assumes "IsEnabled c" and "GetMetaWithVersion c b k w0 = (w1, Inr (m, t, f))" and "ordered w0 t"
    and "evolves b k w1 w2" and "Delete c b k w2 = (w3, None)" and "evolves b k w3 w4"
    and "PutWithMetaStreamIfVersion c b k meta body ttl t w4 = (w5, Inr wrote)"
  shows "\<not> wrote"
proof (cases "ETag meta = []")
  case True
  with assms show ?thesis by (simp add: PutWithMetaStreamIfVersion_def)
next
  case False
  have g: "coord_getMetaWithVersion c b k w0 = (w1, Inr (m, t, f))"
    using assms(1,2) by (simp add: GetMetaWithVersion_def)
  have d: "deleteMetaFenced c b k w2 = (w3, None)"
    using assms(1,5) by (auto simp: Delete_def DeleteWithMeta_def errors_Join_def split: prod.splits option.splits)
  obtain w n e where p: "putBody c (MakeBodyKey b k (ETag meta)) body (ttl_or_default c ttl) w4 = (w, n, e)"
    by (metis prod_cases3)
  have ev: "evolves b k w3 w" using evolves_trans assms(6) body_evolves [OF p] by blast
  show ?thesis
    using assms(1,7) False p fenced_populate_lost [OF g assms(3,4) d ev]
    by (auto simp: PutWithMetaStreamIfVersion_def Let_def split: sum.splits option.splits if_splits)
qed

lemma meta_commit_lost:
  assumes "IsEnabled c" and "GetMetaWithVersion c b k w0 = (w1, Inr (m, t, f))" and "ordered w0 t"
    and "evolves b k w1 w2" and "Delete c b k w2 = (w3, None)" and "evolves b k w3 w4"
    and "PutMetaIfVersion c b k meta ttl t w4 = (w5, Inr wrote)"
  shows "\<not> wrote"
proof -
  have g: "coord_getMetaWithVersion c b k w0 = (w1, Inr (m, t, f))"
    using assms(1,2) by (simp add: GetMetaWithVersion_def)
  have d: "deleteMetaFenced c b k w2 = (w3, None)"
    using assms(1,5) by (auto simp: Delete_def DeleteWithMeta_def errors_Join_def split: prod.splits option.splits)
  show ?thesis
    using assms(1,7) fenced_populate_lost [OF g assms(3,4) d assms(6)]
    by (auto simp: PutMetaIfVersion_def split: sum.splits if_splits)
qed

end

locale cas_cache = ocache_cas "client c" cv
  for c :: "'w Cache" and cv +
  assumes coord_cas: "coord c = CasCoordinator"

locale legacy_cache = ocache_tomb "client c" tomb
  for c :: "'w Cache" and tomb +
  fixes tombstoneTTL
  assumes coord_legacy: "coord c = LegacyCoordinator tombstoneTTL"

lemma putBody_cases:
  assumes "putBody c k r ttl w = (w', n, e)"
  shows "(\<exists>e'. cl_PutStream (client c) k r ttl w = (w', n, e'))
         \<or> (\<exists>f e'. cl_PutStreamSheddable (client c) = Some f \<and> f k r ttl w = (w', n, e'))"
proof (cases "cl_PutStreamSheddable (client c)")
  case None
  with assms show ?thesis by (simp add: putBody_def)
next
  case (Some f)
  obtain w1 n1 e1 where "f k r ttl w = (w1, n1, e1)" by (metis prod_cases3)
  with assms Some show ?thesis by (auto simp: putBody_def split: option.splits if_splits)
qed

sublocale cas_cache \<subseteq> store: cache_store c "\<lambda>b k. grows cv" "\<lambda>_. ordered_token" "\<lambda>b k t w. t < cv w (MakeMetaKey b k)"
proof -
  have g: "coord_getMetaWithVersion c = cas_getMetaWithVersion (client c) (json_unmarshal c)"
    and p: "putMetaVersioned c = cas_putMeta (client c)"
    and d: "deleteMetaFenced c = cas_deleteMeta (client c)"
    by (intro ext; simp add: coord_getMetaWithVersion_def putMetaVersioned_def deleteMetaFenced_def coord_cas)+
  have body: "grows cv w w'" if "putBody c key r ttl w = (w', n, e)" for key r ttl w w' n e
    using putBody_cases [OF that] by (elim disjE exE conjE) (rule stream_grows shed_grows; assumption)+
  show "cache_store c (\<lambda>b k. grows cv) (\<lambda>_. ordered_token) (\<lambda>b k t w. t < cv w (MakeMetaKey b k))"
    unfolding cache_store_def cache_store_axioms_def g p d
    using cas.meta_coordinator_axioms body by blast
qed

lemma body_key_not_tombstone: "MakeTombstoneKey b k \<noteq> MakeBodyKey b' k' d"
  by (simp add: MakeTombstoneKey_def MakeBodyKey_def etagKeyComponent_def)

sublocale legacy_cache \<subseteq> store: cache_store c "\<lambda>b k. ages (client c) tomb (MakeTombstoneKey b k)" "\<lambda>_. ordered_token"
  "\<lambda>b k t w. sint t \<le> tomb w (MakeTombstoneKey b k)"
proof -
  have g: "coord_getMetaWithVersion c = legacy_getMetaWithVersion (client c) (json_unmarshal c)"
    and p: "putMetaVersioned c = legacy_putMeta (client c)"
    and d: "deleteMetaFenced c = legacy_deleteMeta (client c) tombstoneTTL"
    by (intro ext; simp add: coord_getMetaWithVersion_def putMetaVersioned_def deleteMetaFenced_def coord_legacy)+
  have body: "ages (client c) tomb j w w'" if "putBody c key r ttl w = (w', n, e)" "j \<noteq> key" for key r ttl w w' n e j
    using putBody_cases [OF that(1)] that(2) by (elim disjE exE conjE) (rule tomb_stream tomb_shed; assumption)+
  show "cache_store c (\<lambda>b k. ages (client c) tomb (MakeTombstoneKey b k)) (\<lambda>_. ordered_token)
          (\<lambda>b k t w. sint t \<le> tomb w (MakeTombstoneKey b k))"
    unfolding cache_store_def cache_store_axioms_def g p d
    using legacy.meta_coordinator_axioms body [OF _ body_key_not_tombstone] by blast
qed

context cas_cache
begin

lemmas cas_populate_lost = store.populate_lost
lemmas cas_meta_commit_lost = store.meta_commit_lost

end

context legacy_cache
begin

lemmas legacy_populate_lost = store.populate_lost

end

text \<open>The cache over the versioned store.\<close>

definition mem_cache :: "coordinator \<Rightarrow> mem Cache" where
  "mem_cache co =
     \<lparr>client = mem_client, defaultTTL = 86400, enabled = True, closed = False, coord = co, maxDiskUsage = 0,
      json_marshal = toy_marshal, json_unmarshal = toy_unmarshal, msg_limit = 67108864\<rparr>"

lemma mem_cache_simps [simp]:
  "client (mem_cache co) = mem_client" "coord (mem_cache co) = co" "IsEnabled (mem_cache co)"
  "json_marshal (mem_cache co) = toy_marshal" "json_unmarshal (mem_cache co) = toy_unmarshal"
  by (simp_all add: mem_cache_def IsEnabled_def)

interpretation mem_cas: cas_cache "mem_cache CasCoordinator" mem_cv
  by (simp add: cas_cache_def cas_cache_axioms_def mem_store.ocache_cas_axioms)

interpretation mem_legacy: legacy_cache "mem_cache (LegacyCoordinator 660)" mem_tomb 660
  by (simp add: legacy_cache_def legacy_cache_axioms_def mem_plain.ocache_tomb_axioms)

section \<open>Bytes in and out\<close>

text \<open>
  With nobody else writing: a stream that ends cleanly stores its bytes and reports how many were
  read (the embedded store takes an unexpected end of file for the end of a short value, see
  \<^verbatim>\<open>cachePipeReadError\<close> in \<^verbatim>\<open>proxy/caching.go\<close>), reads return the live row, and a range read delivers a prefix of the requested bytes, empty
  only when there is nothing at its first offset. A read of a row that is present never fails with a
  not-found error.
\<close>

locale ocache_bytes = ocache_seq cl cv live
  for cl :: "'w CacheClient" and cv live +
  assumes seq_stream:
      "cl_PutStream cl k r ttl w = (w', n, e) \<Longrightarrow>
       (\<forall>j. cv w' j = cv w j \<and> (j \<noteq> k \<longrightarrow> live w' j = live w j)) \<and>
       (e = None \<longrightarrow> snd r \<in> {None, Some UnexpectedEOF} \<and> n = int (length (fst r)) \<and> live w' = (live w)(k \<mapsto> fst r))"
    and seq_sheddable: "cl_PutStreamSheddable cl = None"
    and seq_plain_get: "cl_Get cl k w = (w', d, e) \<Longrightarrow> w' = w \<and> (e = None \<longrightarrow> d = live w k) \<and> (e \<noteq> None \<longrightarrow> live w k = None)"
    and seq_get_stream:
      "cl_GetStream cl k w = (w', out, e) \<Longrightarrow> live w k = Some row \<Longrightarrow> w' = w \<and> out = row \<and> e = None"
    and seq_range:
      "cl_GetRangeStream cl k a b w = (w', out, e) \<Longrightarrow> 0 \<le> a \<Longrightarrow> a \<le> b \<Longrightarrow>
       (case live w k of
          None \<Rightarrow> out = []
        | Some d \<Rightarrow> (\<forall>x. e = Some x \<longrightarrow> \<not> isNotFoundError x \<and> \<not> err_is x ErrNotFound)
                    \<and> (\<exists>n. out = take n (slice_of d a b)) \<and> (e = None \<and> a < int (length d) \<longrightarrow> out \<noteq> []))"

interpretation mem_bytes: ocache_bytes mem_client mem_cv rows
proof
  fix k a b w w' out e
  assume r: "cl_GetRangeStream mem_client k a b w = (w', out, e)" and ab: "0 \<le> a" "a \<le> b"
  show "case rows w k of None \<Rightarrow> out = []
        | Some d \<Rightarrow> (\<forall>x. e = Some x \<longrightarrow> \<not> isNotFoundError x \<and> \<not> err_is x ErrNotFound)
                    \<and> (\<exists>n. out = take n (slice_of d a b)) \<and> (e = None \<and> a < int (length d) \<longrightarrow> out \<noteq> [])"
  proof (cases "rows w k")
    case None
    with r show ?thesis by (auto simp: mem_client_def)
  next
    case (Some d)
    then have o: "out = slice_of d a b" "e = None" using r by (auto simp: mem_client_def mem_range_def slice_of_def)
    have "\<exists>n. slice_of d a b = take n (slice_of d a b)" by (rule exI [of _ "length (slice_of d a b)"]) simp
    moreover have "a < int (length d) \<Longrightarrow> slice_of d a b \<noteq> []" using ab by (auto simp: slice_of_def)
    ultimately show ?thesis using Some o by simp
  qed
qed (auto simp: mem_client_def mem_put_def mem_rows_cv split: prod.splits option.splits)

context ocache_bytes
begin

lemma putBody_stream:
  assumes "client c = cl"
  shows "putBody c k r ttl w = cl_PutStream cl k r ttl w"
  using assms by (simp add: putBody_def seq_sheddable)

lemma range_exact:
  assumes "client c = cl" and "0 \<le> a" and "a \<le> b" and "b < 2 ^ 63 - 1"
    and "getRangeStreamByKey c k a b accept_all w = (w', out, None)"
  shows "\<exists>d. live w k = Some d \<and> out = slice_of d a b \<and> b < int (length d)"
proof (cases "b = 0")
  case True
  obtain w1 buf e where r: "cl_GetRangeStream cl k 0 1 w = (w1, buf, e)" by (metis prod_cases3)
  have a: "a = 0" using assms(2,3) True by simp
  have buf: "e = None" "buf \<noteq> []" and out: "out = take 1 buf"
    using assms(1,5) True a r by (auto simp: getRangeStreamByKey_def accept_all_def split: option.splits if_splits)
  from seq_range [OF r] buf obtain d n where d: "live w k = Some d" "buf = take n (slice_of d 0 1)"
    by (auto split: option.splits)
  then have n: "n \<noteq> 0" "d \<noteq> []" using buf(2) by (auto simp: slice_of_def)
  then have "out = slice_of d 0 0" using out d(2) by (cases d) (auto simp: slice_of_def min_def)
  with d n True a show ?thesis by simp
next
  case False
  obtain w1 buf e where r: "cl_GetRangeStream cl k a b w = (w1, buf, e)" by (metis prod_cases3)
  let ?want = "b - a + 1"
  have w: "wrap64 (wrap64 (b - a) + 1) = ?want" using assms(2-4) by (simp add: wrap64_id int64_range_def)
  have e: "e = None" "out = buf" "buf \<noteq> []" "int (length buf) = ?want"
    using assms(1,2,3,5) False r w
    by (auto simp: getRangeStreamByKey_def Let_def split: option.splits if_splits)
  from seq_range [OF r assms(2,3)] e obtain d n where d: "live w k = Some d" "buf = take n (slice_of d a b)"
    by (auto split: option.splits)
  have "int (length buf) \<le> int (length (slice_of d a b))" using d(2) by simp
  moreover have "length (slice_of d a b) \<le> nat ?want" by (simp add: slice_of_def)
  ultimately have l: "length (slice_of d a b) = nat ?want" using e(4) assms(3) by simp
  then have "buf = slice_of d a b" using d(2) e(4) assms(3) by (metis (no_types, lifting) length_take min.cobounded1 nat_int take_all_iff min_def)
  moreover have "b < int (length d)" using l assms(2,3) by (simp add: slice_of_def min_def split: if_splits)
  ultimately show ?thesis using d(1) e(2) by blast
qed

lemma probe_exact:
  assumes "client c = cl" and "probe c k w = (w', Inr p)"
  shows "p = (\<exists>d. live w k = Some d \<and> d \<noteq> [])"
proof -
  obtain w1 buf e where r: "cl_GetRangeStream cl k 0 1 w = (w1, buf, e)" by (metis prod_cases3)
  have "0 \<le> (0::int)" "0 \<le> (1::int)" by simp_all
  note law = seq_range [OF r this]
  have p: "p = (e = None \<and> buf \<noteq> [])" and ne: "\<And>x. e = Some x \<Longrightarrow> isNotFoundError x \<or> err_is x ErrNotFound"
    using assms r
    by (auto simp: probe_def getRangeStreamByKey_def accept_all_def split: option.splits if_splits)
  show ?thesis
  proof (cases "live w k")
    case None
    with law p show ?thesis by simp
  next
    case (Some d)
    have "e = None" using law Some ne by (cases e) auto
    with law Some p show ?thesis by (cases d) (auto simp: slice_of_def)
  qed
qed

lemma populate_read_back:
  assumes "client c = cl" and "coord c = CasCoordinator" and "IsEnabled c" and "ETag meta \<noteq> []"
    and "cv w (MakeMetaKey b k) < - 2" and "t = cv w (MakeMetaKey b k)"
    and "Encode (json_marshal c) meta = (meta', Inr data)" and "DecodeMeta (json_unmarshal c) data = Inr stored"
    and "PutWithMetaStreamIfVersion c b k meta r ttl t w = (w1, res)"
  shows "if res = Inr True
         then snd r \<in> {None, Some UnexpectedEOF} \<and> (0 \<le> ContentLength meta \<longrightarrow> int (length (fst r)) = ContentLength meta)
              \<and> GetMeta c b k w1 = (w1, Inr (Some stored))
              \<and> GetBodyStream c b k (ETag meta) w1 = (w1, fst r, None)
         else live w1 (MakeMetaKey b k) = live w (MakeMetaKey b k)"
proof -
  let ?m = "MakeMetaKey b k" and ?b = "MakeBodyKey b k (ETag meta)"
  obtain w2 n e where s: "cl_PutStream cl ?b r (ttl_or_default c ttl) w = (w2, n, e)" by (metis prod_cases3)
  note st = seq_stream [OF s]
  have ne: "?m \<noteq> ?b" by (rule keyspaces_disjoint)
  have cv2: "cv w2 ?m = cv w ?m" and live2: "live w2 ?m = live w ?m" using st ne by auto
  have res: "(res, w1) = (case e of Some x \<Rightarrow> (Inl x, w2)
      | None \<Rightarrow> if 0 \<le> ContentLength meta \<and> n \<noteq> ContentLength meta then (res, w2)
        else (let (w', r') = cas_putMeta cl b k ?m data (ttl_or_default c ttl) t w2 in (r', w')))"
    and short: "e = None \<Longrightarrow> 0 \<le> ContentLength meta \<and> n \<noteq> ContentLength meta \<Longrightarrow> res \<noteq> Inr True"
    using assms s
    by (auto simp: PutWithMetaStreamIfVersion_def putBody_stream putMetaVersioned_def split: option.splits if_splits prod.splits)
  obtain w3 e3 where p: "cl_PutIfVersion cl ?m data (ttl_or_default c ttl) t w2 = (w3, e3)" by fastforce
  have t: "t \<noteq> 0" "t \<noteq> VersionAny" "cv w2 ?m < - 2"
    using seq_version [of w ?m] assms(5,6) minus_two_less cv2 by auto
  from seq_put [OF t(1,3) p] have "e3 = None" and l3: "live w3 = (live w2)(?m \<mapsto> data)"
    using assms(6) cv2 by simp_all
  then have put: "cas_putMeta cl b k ?m data (ttl_or_default c ttl) t w2 = (w3, Inr True)"
    using p t by (simp add: cas_putMeta_def)
  show ?thesis
  proof (cases "e = None \<and> \<not> (0 \<le> ContentLength meta \<and> n \<noteq> ContentLength meta)")
    case False
    then have "w1 = w2 \<and> res \<noteq> Inr True" using res short by (auto split: option.splits if_splits)
    with live2 show ?thesis by simp
  next
    case True
    then have r: "res = Inr True" "w1 = w3" using res put by auto
    have lb: "live w3 ?b = Some (fst r)" and lm: "live w3 ?m = Some data" using l3 st True ne not_sym [OF ne] by auto
    obtain w4 d e4 where g: "cl_Get cl ?m w3 = (w4, d, e4)" by (metis prod_cases3)
    have gm: "GetMeta c b k w3 = (w3, Inr (Some stored))"
      using seq_plain_get [OF g] g lm assms by (auto simp: GetMeta_def split: option.splits)
    obtain w5 out e5 where gs: "cl_GetStream cl ?b w3 = (w5, out, e5)" by (metis prod_cases3)
    have "GetBodyStream c b k (ETag meta) w3 = (w3, fst r, None)"
      using seq_get_stream [OF gs lb] gs assms by (simp add: GetBodyStream_def)
    with gm r st True show ?thesis by auto
  qed
qed

end

section \<open>The unary block write\<close>

text \<open>
  The protobuf encoding of the request (varints in groups of seven bits, length-delimited fields 1
  and 3, varint field 2, and a true boolean in field \<open>f\<close>), as a reference for the size
  computed without encoding.
\<close>

function varint :: "nat \<Rightarrow> string" where
  "varint v = (if 128 \<le> v then char_of (v mod 128 + 128) # varint (v div 128) else [char_of v])"
  by auto
termination
  by (relation "measure id") auto

declare varint.simps [simp del]

definition PutRequest_bytes :: "string \<Rightarrow> string \<Rightarrow> int \<Rightarrow> string" where
  "PutRequest_bytes key data ttl =
     (if key \<noteq> [] then char_of (10::nat) # varint (length key) @ key else [])
     @ (if ttl \<noteq> 0 then char_of (16::nat) # varint (uint64_of ttl) else [])
     @ (if data \<noteq> [] then char_of (26::nat) # varint (length data) @ data else [])"

definition bool_field :: "nat \<Rightarrow> string" where
  "bool_field f = varint (8 * f) @ [char_of (1::nat)]"

lemma length_varint: "length (varint v) = protoVarintSize v"
proof (induction v rule: protoVarintSize.induct)
  case (1 v)
  then show ?case by (simp add: varint.simps [of v] protoVarintSize.simps [of v])
qed

lemma protoVarintSize_bound: "v < 128 ^ n \<Longrightarrow> 0 < n \<Longrightarrow> protoVarintSize v \<le> n"
proof (induction n arbitrary: v)
  case (Suc n)
  show ?case
  proof (cases "v < 128")
    case True
    then show ?thesis by (simp add: protoVarintSize.simps [of v])
  next
    case False
    then have "v div 128 < 128 ^ n" using Suc.prems(1) by (simp add: div_less_iff_less_mult mult.commute)
    moreover have "0 < n" using False Suc.prems(1) by (cases n) auto
    ultimately have "protoVarintSize (v div 128) \<le> n" by (rule Suc.IH)
    with False show ?thesis by (simp add: protoVarintSize.simps [of v])
  qed
qed simp

lemma length_PutRequest_bytes: "int (length (PutRequest_bytes key data ttl)) = unaryPutRequestSize key data ttl"
  by (simp add: PutRequest_bytes_def unaryPutRequestSize_def length_varint)

text \<open>Writing a staged block at its remote owner (\<^verbatim>\<open>src/cache/remote_block.go\<close>); the router, its hop
  counter and the owner's answer are arguments.\<close>

record PutResponse =
  resp_Success :: bool
  resp_Shed :: bool
  resp_Error :: string

record 'w RemoteBlockRouter =
  rt_IsLocal :: "string \<Rightarrow> bool"
  rt_IncrementHopCount :: "'w \<Rightarrow> 'w \<times> err option"
  rt_Route :: "string \<Rightarrow> 'w \<Rightarrow> 'w \<times> err option"
  rt_PutObject :: "string \<Rightarrow> string \<Rightarrow> int \<Rightarrow> 'w \<Rightarrow> 'w \<times> PutResponse option \<times> err option"

definition PutRemoteBlockBytes ::
  "int \<Rightarrow> 'w RemoteBlockRouter \<Rightarrow> string \<Rightarrow> string \<Rightarrow> int \<Rightarrow> 'w \<Rightarrow> 'w \<times> bool \<times> err option" where
  "PutRemoteBlockBytes limit router key data ttlSeconds w =
     (if \<not> canPutBlockUnaryForLimit key data ttlSeconds limit \<or> rt_IsLocal router key then (w, False, None)
      else case rt_IncrementHopCount router w of
             (w, Some e) \<Rightarrow> (w, True, Some e)
           | (w, None) \<Rightarrow>
               (case rt_Route router key w of
                  (w, Some e) \<Rightarrow> (w, True, Some e)
                | (w, None) \<Rightarrow>
                    (case rt_PutObject router key data ttlSeconds w of
                       (w, _, Some e) \<Rightarrow> (w, True, Some e)
                     | (w, None, None) \<Rightarrow> (w, True, None)
                     | (w, Some resp, None) \<Rightarrow>
                         if resp_Success resp then (w, True, None)
                         else if resp_Shed resp then (w, True, Some ErrPopulateShed)
                         else (w, True, Some (EText (''put failed: '' @ resp_Error resp))))))"

section \<open>Properties\<close>


lemma sample_ETag: "ETag sample_meta \<noteq> []"
proof -
  have "CanonicalHeaderKey ''ETag'' = ''Etag''" by code_simp
  then show ?thesis
    by (simp add: sample_meta_def MetaFromHTTPHeaders_def header_get_def header_values_def render_def)
qed

lemma sample_Encode: "Encode toy_marshal sample_meta = (sample_meta\<lparr>ContentLengthKnown := True\<rparr>, Inr ''new'')"
  by (simp add: Encode_def toy_marshal_def ContentLength_sample)

lemma mem0_token: "GetMetaWithVersion (mem_cache CasCoordinator) ''b'' ''x'' mem0 = (mem0, Inr (None, 5, False))"
proof -
  have "MakeMetaKey ''b'' ''x'' \<noteq> MakeMetaKey ''b'' ''k''" by (simp add: MakeMetaKey_def)
  then show ?thesis
    by (simp add: GetMetaWithVersion_def coord_getMetaWithVersion_def cas_getMetaWithVersion_def mem_client_def mem0_def
        mem_cv_def min_def max_def word_le_nat_alt)
qed

definition mem1 :: mem where
  "mem1 = fst (mem_bump (MakeMetaKey ''b'' ''x'') None mem0)"

lemma mem1_delete: "Delete (mem_cache CasCoordinator) ''b'' ''x'' mem0 = (mem1, None)"
proof -
  have k: "MakeMetaKey ''b'' ''x'' \<noteq> MakeMetaKey ''b'' ''k''" by (simp add: MakeMetaKey_def)
  have n: "(64::nat) = Suc 63" by simp
  have "mem_delete_if (MakeMetaKey ''b'' ''x'') 0 mem0 = (mem1, None)"
    using k mem0_version [of "MakeMetaKey ''b'' ''x''"] by (simp add: mem_delete_if_def mem1_def mem_bump_def) (simp add: mem0_def)
  then show ?thesis
    unfolding Delete_def DeleteWithMeta_def deleteMetaFenced_def
    by (simp add: cas_deleteMeta_def n mem_client_def del: Suc_numeral)
qed

lemma mem1_cv: "mem_cv (mem_put k d mem1) (MakeMetaKey ''b'' ''x'') = 6"
  using mem0_version [of "MakeMetaKey ''b'' ''x''"]
  by (simp add: mem_put_def mem_rows_cv mem1_def mem_bump_def)
    (simp add: mem_cv_def mem0_def min_def max_def word_le_nat_alt)



definition mem2 :: mem where
  "mem2 = (let m = mem_put (MakeTombstoneKey ''b'' ''x'') (put_uint64 7) mem0
           in m\<lparr>rows := (rows m)(MakeMetaKey ''b'' ''x'' := None)\<rparr>)"

lemma mem2_delete: "Delete (mem_cache (LegacyCoordinator 660)) ''b'' ''x'' mem0 = (mem2, None)"
  by (simp add: Delete_def DeleteWithMeta_def deleteMetaFenced_def legacy_deleteMeta_def writeTombstone_def
      mem_client_def mem2_def mem0_def errors_Join_def Let_def)

lemma mem2_token:
  "GetMetaWithVersion (mem_cache (LegacyCoordinator 660)) ''b'' ''x'' mem0 = (mem0, Inr (None, 7, False))"
proof -
  have "MakeMetaKey ''b'' ''x'' \<noteq> MakeMetaKey ''b'' ''k''" by (simp add: MakeMetaKey_def)
  then show ?thesis
    by (simp add: GetMetaWithVersion_def coord_getMetaWithVersion_def legacy_getMetaWithVersion_def mem_client_def mem0_def)
qed




text \<open>C14: a range read of a body or block that reports success delivered exactly the requested bytes of
  the stored row; a short, over-long or empty delivery is always an error.\<close>

theorem range_read_exact:
  assumes "ocache_bytes (client c) cv live" and "0 \<le> a" and "a \<le> b" and "b < 2 ^ 63 - 1"
    and "getRangeStreamByKey c k a b accept_all w = (w', out, None)"
  shows "\<exists>d. live w k = Some d \<and> out = slice_of d a b \<and> b < int (length d)"
  using ocache_bytes.range_exact [OF assms(1) refl assms(2-)] .

theorem range_read_exact_witness:
  "getRangeStreamByKey (mem_cache CasCoordinator) (MakeMetaKey ''b'' ''k'') 0 0 accept_all mem0 = (mem0, ''r'', None)
   \<and> rows mem0 (MakeMetaKey ''b'' ''k'') = Some ''row'' \<and> ''r'' = slice_of ''row'' 0 0"
proof -
  have r: "getRangeStreamByKey (mem_cache CasCoordinator) (MakeMetaKey ''b'' ''k'') 0 0 accept_all mem0 = (mem0, ''r'', None)"
    by (simp add: getRangeStreamByKey_def accept_all_def mem_client_def mem0_def mem_range_def)
  from range_read_exact [of "mem_cache CasCoordinator" mem_cv rows, OF _ _ _ _ r] r mem_bytes.ocache_bytes_axioms
  show ?thesis by (simp add: mem0_def)
qed

text \<open>a presence probe that answers without an error says exactly whether a block with at least one
  byte is stored; it never takes a failed read for an absent block.\<close>

lemma block_probe_exact:
  assumes "ocache_bytes (client c) cv live" and "IsEnabled c" and "etag \<noteq> []"
    and "BlockExistsErr c bucket key etag blockSize blockIdx w = (w', Inr p)"
  shows "p = (\<exists>d. live w (MakeBlockKey bucket key etag blockSize blockIdx) = Some d \<and> d \<noteq> [])"
  using ocache_bytes.probe_exact [OF assms(1) refl, of "MakeBlockKey bucket key etag blockSize blockIdx" w w' p] assms(2-)
  by (simp add: BlockExistsErr_def)

lemma block_probe_exact_witness:
  "BlockExistsErr (mem_cache CasCoordinator) ''b'' ''k'' ''e'' 4 0 mem0 = (mem0, Inr False)
   \<and> \<not> (\<exists>d. rows mem0 (MakeBlockKey ''b'' ''k'' ''e'' 4 0) = Some d \<and> d \<noteq> [])"
proof -
  have r: "BlockExistsErr (mem_cache CasCoordinator) ''b'' ''k'' ''e'' 4 0 mem0 = (mem0, Inr False)"
    by (simp add: BlockExistsErr_def probe_def getRangeStreamByKey_def accept_all_def mem_client_def mem0_def
        not_sym [OF keyspaces_disjoint(2)])
  from block_probe_exact [of "mem_cache CasCoordinator" mem_cv rows, OF _ _ _ r] r mem_bytes.ocache_bytes_axioms
  show ?thesis by simp
qed

text \<open>The size computed for a unary block write is the length of the encoded request, which is
  never more than 33 bytes over the key and the data.\<close>

lemma unary_size_is_encoded_length:
  "unaryPutRequestSize key data ttl = int (length (PutRequest_bytes key data ttl))
   \<and> (length key < 2 ^ 63 \<longrightarrow> length data < 2 ^ 63
       \<longrightarrow> unaryPutRequestSize key data ttl \<le> int (length key) + int (length data) + 33)"
proof -
  have u: "uint64_of ttl < 128 ^ 10" unfolding uint64_of_def by (simp add: nat_less_iff)
  have "length key < 2 ^ 63 \<Longrightarrow> length key < 128 ^ 10" "length data < 2 ^ 63 \<Longrightarrow> length data < 128 ^ 10" by simp_all
  then show ?thesis
    using protoVarintSize_bound [of "length key" 10] protoVarintSize_bound [of "length data" 10] protoVarintSize_bound [OF u]
    by (auto simp: length_PutRequest_bytes) (auto simp: unaryPutRequestSize_def)
qed

text \<open>The request a remote block write sends also carries the shed flag, which the size check does
  not count: a request at the message limit passes the check and is longer than the limit.\<close>

lemma shed_flag_over_limit:
  assumes "0 < f" and "unaryPutRequestSize key data ttl = limit"
  shows "canPutBlockUnaryForLimit key data ttl limit
         \<and> limit < int (length (PutRequest_bytes key data ttl @ bool_field f))"
  using assms length_PutRequest_bytes [of key data ttl]
  by (simp add: canPutBlockUnaryForLimit_def bool_field_def)

end
