(* ===== verification/Service_Base.thy ===== *)
theory Service_Base
  imports Forwarder Cache_Ops Byte_Budget
begin

text \<open>
  The proxy service (\<^verbatim>\<open>proxy/service.go\<close>, \<^verbatim>\<open>proxy/lifecycle.go\<close>): its parts, its shared state, the
  admission of detached work, and the small helpers its handlers share. The state holds the forwarder's state, the
  world (store, upstream, clock), the populate limits, the in-flight markers and the tasks handed to the workers.
  Every call on the world may include what other processes did meanwhile.
\<close>

section \<open>Configuration and parts\<close>

record svc_config =
  cfg_budget :: budget_config
  SizeThreshold :: int
  TTL_Seconds :: int
  ParquetOptimization :: bool
  MetaOnWrite :: bool
  PopulateShedReject :: bool
  ForwardsTransparently :: bool

text \<open>
  What a detached goroutine will do: the function it runs and the values it captured.
\<close>

datatype bg_task =
    BlockPopulate string string string string CachedObjectMeta "int list"
  | Promote string string string version
  | FooterPrefetch string string string string CachedObjectMeta string
  | FooterWarm string string string string string
  | MetaFromHead string string string string string
  | FullFetch string string string string bool populatePriority version
  | TeeWrite string string string string string string int
  | LateWriter string string CachedObjectMeta body version int bool
  | Retier string string string string CachedObjectMeta version
  | MarkerUpgrade string string string string string
  | CleanupDelete string string string string string

text \<open>
  The service's parts: its forwarder (and the chunk verification of one that validates locally), cache and
  configuration; the clock, the random source and the two expiring sets it remembers work in; and the choices the
  environment makes for it (which of two ready failures a \<^verbatim>\<open>select\<close> sees, whether a write outlives its
  supervisor's deadline, where a stream is cut into the chunks a writer sees).
\<close>

record ('a, 'w) Service =
  forwarder :: "('a, 'w) RequestForwarder"
  s_cache :: "'w Cache"
  s_config :: svc_config
  disk_usage :: "'w \<Rightarrow> rat option"
  s_now :: "'w \<Rightarrow> int"
  footer_Get :: "string \<Rightarrow> 'w \<Rightarrow> 'w \<times> bool"
  footer_Add :: "string \<Rightarrow> 'w \<Rightarrow> 'w"
  mint_id :: "'w \<Rightarrow> string"
  s_select :: "'w \<Rightarrow> bool"
  s_late :: "'w \<Rightarrow> bool"
  s_chunks :: "'w \<Rightarrow> string \<Rightarrow> string list"
  s_rand :: "'w \<Rightarrow> 'w \<times> string result"
  chunk_verifier :: "(Request \<Rightarrow> 'a \<Rightarrow> 'w \<Rightarrow> ChunkVerifier option result) option"
  retier_Get :: "string \<Rightarrow> 'w \<Rightarrow> 'w \<times> bool"
  retier_Add :: "string \<Rightarrow> 'w \<Rightarrow> 'w"

abbreviation svc_blockSize :: "('a, 'w) Service \<Rightarrow> int" where
  "svc_blockSize s \<equiv> cfg_BlockSize (cfg_budget (s_config s))"

record ('a, 'w) svc =
  fwd :: 'a
  world :: 'w
  budget :: limits
  active :: "string set"
  tasks :: "bg_task list"
  svc_stopping :: bool
  footer_slots :: semaphore
  retierClaims :: "string \<Rightarrow> int"
  retierInflight :: "string \<Rightarrow> bool option"

text \<open>A request's context: the error it has ended with, seen in a world.\<close>

type_synonym 'w ctx = "'w \<Rightarrow> err option"

definition on_world :: "('w \<Rightarrow> 'w \<times> 'r) \<Rightarrow> ('a, 'w) svc \<Rightarrow> ('a, 'w) svc \<times> 'r" where
  "on_world f st = (case f (world st) of (w, r) \<Rightarrow> (st\<lparr>world := w\<rparr>, r))"

definition on_fwd :: "('a \<times> 'w \<Rightarrow> ('a \<times> 'w) \<times> 'r) \<Rightarrow> ('a, 'w) svc \<Rightarrow> ('a, 'w) svc \<times> 'r" where
  "on_fwd f st = (case f (fwd st, world st) of ((a, w), r) \<Rightarrow> (st\<lparr>fwd := a, world := w\<rparr>, r))"

definition on_limits :: "(limits \<Rightarrow> limits \<times> 'r) \<Rightarrow> ('a, 'w) svc \<Rightarrow> ('a, 'w) svc \<times> 'r" where
  "on_limits f st = (case f (budget st) of (l, r) \<Rightarrow> (st\<lparr>budget := l\<rparr>, r))"

section \<open>Detached work (lifecycle.go)\<close>

text \<open>Work is refused once \<^verbatim>\<open>Stop\<close> has sealed admission.\<close>

definition startBackgroundTask :: "bg_task \<Rightarrow> ('a, 'w) svc \<Rightarrow> ('a, 'w) svc \<times> bool" where
  "startBackgroundTask t st = (if svc_stopping st then (st, False) else (st\<lparr>tasks := tasks st @ [t]\<rparr>, True))"

text \<open>\<^verbatim>\<open>activeBackgroundFetches.LoadOrStore\<close>: whether the marker was there already.\<close>

definition LoadOrStore :: "string \<Rightarrow> ('a, 'w) svc \<Rightarrow> ('a, 'w) svc \<times> bool" where
  "LoadOrStore k st = (st\<lparr>active := insert k (active st)\<rparr>, k \<in> active st)"

definition drop_marker :: "string \<Rightarrow> ('a, 'w) svc \<Rightarrow> ('a, 'w) svc" where
  "drop_marker k st = st\<lparr>active := active st - {k}\<rparr>"

section \<open>Admission\<close>

text \<open>
  A warm-on-write waits for bytes and then for a count slot; its wait is the last look it takes before its
  deadline.
\<close>

definition acquireCacheSlot_warm :: "budget_config \<Rightarrow> rat option \<Rightarrow> int \<Rightarrow> limits \<Rightarrow> limits \<times> bool" where
  "acquireCacheSlot_warm cfg usage weight l =
     (if diskOverBudget cfg usage then (l, False)
      else
        let bytes = (if weight \<le> 0 then Some l
                     else case populateBudget l of
                            None \<Rightarrow> Some l
                          | Some b \<Rightarrow>
                              (case acquireWarm_enter weight b of
                                 None \<Rightarrow> None
                               | Some b \<Rightarrow>
                                   (case acquireWarm_pass True weight b of
                                      WarmTaken b \<Rightarrow> Some (l\<lparr>populateBudget := Some b\<rparr>)
                                    | _ \<Rightarrow> None)))
        in case bytes of
             None \<Rightarrow> (l, False)
           | Some l1 \<Rightarrow> (case warm_slot_try l1 of Some l2 \<Rightarrow> (l2, True) | None \<Rightarrow> (warm_slot_cancel weight l1, False)))"

definition acquireCacheSlot :: "('a, 'w) Service \<Rightarrow> int \<Rightarrow> populatePriority \<Rightarrow> ('a, 'w) svc \<Rightarrow> ('a, 'w) svc \<times> bool" where
  "acquireCacheSlot s weight prio st =
     on_limits
       (case prio of
          priorityReadMiss \<Rightarrow> acquireCacheSlot_readMiss (cfg_budget (s_config s)) (disk_usage s (world st)) weight
        | priorityWarmWrite \<Rightarrow> acquireCacheSlot_warm (cfg_budget (s_config s)) (disk_usage s (world st)) weight) st"

definition release_slot :: "int \<Rightarrow> ('a, 'w) svc \<Rightarrow> ('a, 'w) svc" where
  "release_slot weight st = st\<lparr>budget := releaseCacheSlot weight (budget st)\<rparr>"

definition try_staging :: "int \<Rightarrow> ('a, 'w) svc \<Rightarrow> ('a, 'w) svc \<times> bool" where
  "try_staging weight st = on_limits (on_budget (tryAcquireStaging weight)) st"

definition release_staging :: "int \<Rightarrow> ('a, 'w) svc \<Rightarrow> ('a, 'w) svc" where
  "release_staging weight st =
     st\<lparr>budget := (budget st)\<lparr>populateBudget := map_option (releaseStaging weight) (populateBudget (budget st))\<rparr>\<rparr>"

section \<open>Small helpers (service.go, caching.go)\<close>

definition svc_blockEligible :: "('a, 'w) Service \<Rightarrow> int \<Rightarrow> bool" where
  "svc_blockEligible s contentLength =
     isBlockEligibleSize \<lparr>block_caching = IsBlockCachingEnabled (cfg_budget (s_config s)), block_size = svc_blockSize s\<rparr> contentLength"

text \<open>\<^verbatim>\<open>io.ReadFull\<close> of \<open>n\<close> bytes: the bytes and the rest of the reader, or the error.\<close>

definition io_ReadFull :: "body \<Rightarrow> nat \<Rightarrow> (string \<times> body) result" where
  "io_ReadFull r n =
     (if n \<le> length (fst r) then Inr (take n (fst r), (drop n (fst r), snd r))
      else Inl (case snd r of Some e \<Rightarrow> e | None \<Rightarrow> if fst r = [] then EOF else UnexpectedEOF))"

lemma io_ReadFull_exact: "io_ReadFull r n = Inr (b, r') \<Longrightarrow> b = take n (fst r) \<and> length b = n \<and> fst r' = drop n (fst r) \<and> snd r' = snd r"
  by (auto simp: io_ReadFull_def split: if_splits)

definition set_header :: "string \<Rightarrow> string \<Rightarrow> ResponseWriter \<Rightarrow> ResponseWriter" where
  "set_header k v w = w\<lparr>rw_header := header_set (rw_header w) k v\<rparr>"

text \<open>The headers of a stored object, a status, and nothing else yet.\<close>

definition write_meta_headers :: "CachedObjectMeta \<Rightarrow> (header \<Rightarrow> header) list \<Rightarrow> ResponseWriter \<Rightarrow> ResponseWriter" where
  "write_meta_headers meta opts w = w\<lparr>rw_header := WriteHeaders meta opts (rw_header w)\<rparr>"

definition writeCacheStatus :: "ResponseWriter \<Rightarrow> string \<Rightarrow> ResponseWriter" where
  "writeCacheStatus w status = set_header ''X-Cache'' status w"

definition hasNoCacheHeaders :: "header \<Rightarrow> bool" where
  "hasNoCacheHeaders h =
     (let cc = header_get h ''Cache-Control'' in Contains cc ''no-store'' \<or> Contains cc ''private'')"

definition isWithinSizeThreshold :: "('a, 'w) Service \<Rightarrow> int \<Rightarrow> bool" where
  "isWithinSizeThreshold s contentLength = (if contentLength \<le> 0 then True else contentLength \<le> SizeThreshold (s_config s))"

text \<open>Invalidating an entry only while it still carries the stale validator; the outcome is only recorded.\<close>

definition invalidateStaleMeta :: "('a, 'w) Service \<Rightarrow> string \<Rightarrow> string \<Rightarrow> string \<Rightarrow> ('a, 'w) svc \<Rightarrow> ('a, 'w) svc" where
  "invalidateStaleMeta s bucket key staleETag st = fst (on_world (DeleteIfETag (s_cache s) bucket key staleETag) st)"

text \<open>What the helpers leave alone.\<close>

lemma on_world_frame [simp]:
  "fwd (fst (on_world f st)) = fwd st" "budget (fst (on_world f st)) = budget st" "active (fst (on_world f st)) = active st"
  "tasks (fst (on_world f st)) = tasks st" "svc_stopping (fst (on_world f st)) = svc_stopping st"
  "footer_slots (fst (on_world f st)) = footer_slots st"
  by (simp_all add: on_world_def split: prod.splits)

lemma on_limits_world [simp]: "world (fst (on_limits f st)) = world st"
  by (simp add: on_limits_def split: prod.splits)

lemma admission_world [simp]:
  "world (fst (acquireCacheSlot s weight prio st)) = world st" "world (release_slot weight st) = world st"
  "world (fst (try_staging weight st)) = world st" "world (release_staging weight st) = world st"
  "world (fst (startBackgroundTask t st)) = world st" "world (fst (LoadOrStore k st)) = world st" "world (drop_marker k st) = world st"
  by (simp_all add: acquireCacheSlot_def release_slot_def try_staging_def release_staging_def startBackgroundTask_def LoadOrStore_def
      drop_marker_def)

end
