(* ===== verification/Block_Fetch.thy ===== *)
theory Block_Fetch
  imports Service_Base
begin

text \<open>
  Reading and fetching single blocks of a block-mode entry (\<^verbatim>\<open>proxy/block_cache.go\<close>): the cache reads into exact
  buffers, the validated upstream fetch of one aligned block, fetching several with the priority of stale signals,
  recovering a missing block during a serve, and splitting a full body into blocks. The coalescing of concurrent
  fetches of one block is in \<open>Block_Flight\<close>; here the caller runs its fetch to the end.
\<close>

section \<open>Errors\<close>

definition errBlocksMostlyAbsent :: err where
  "errBlocksMostlyAbsent = EWrap (''too many absent blocks: '' @ Error ErrBlockStreamDegraded) [ErrBlockStreamDegraded]"

definition stale_signal :: "err \<Rightarrow> bool" where
  "stale_signal e \<longleftrightarrow> err_is e ErrBlockETagMismatch \<or> err_is e ErrBlockUpstreamGone"

definition blockReadSliceError :: "int \<Rightarrow> err \<Rightarrow> err" where
  "blockReadSliceError idx e =
     EWrap (''block '' @ FormatInt idx @ '' read failed ('' @ Error e @ ''): '' @ Error ErrBlockStreamDegraded) [e, ErrBlockStreamDegraded]"

section \<open>Cache reads\<close>

definition getBlockRangeStream ::
  "('a, 'w) Service \<Rightarrow> string \<Rightarrow> string \<Rightarrow> CachedObjectMeta \<Rightarrow> int \<Rightarrow> int \<Rightarrow> int \<Rightarrow> ('a, 'w) svc \<Rightarrow> ('a, 'w) svc \<times> string \<times> err option" where
  "getBlockRangeStream s bucket key meta idx localStart localEnd st =
     on_world (GetBlockRangeStream (s_cache s) bucket key (ETag meta) (BlockSize meta) idx localStart localEnd accept_all) st"

definition probeBlock ::
  "('a, 'w) Service \<Rightarrow> string \<Rightarrow> string \<Rightarrow> CachedObjectMeta \<Rightarrow> int \<Rightarrow> ('a, 'w) svc \<Rightarrow> ('a, 'w) svc \<times> bool result" where
  "probeBlock s bucket key meta idx st = on_world (BlockExistsErr (s_cache s) bucket key (ETag meta) (BlockSize meta) idx) st"

text \<open>The number of bytes of a block's local range.\<close>

definition slice_len :: "int \<Rightarrow> int \<Rightarrow> int" where
  "slice_len localStart localEnd = wrap64 (wrap64 (localEnd - localStart) + 1)"

text \<open>
  The read through a \<^verbatim>\<open>sliceWriter\<close> over a buffer of the exact length: more bytes than fit fail the read, fewer are
  a short read.
\<close>

definition sliced_read ::
  "('a, 'w) Service \<Rightarrow> string \<Rightarrow> string \<Rightarrow> CachedObjectMeta \<Rightarrow> int \<Rightarrow> int \<Rightarrow> int \<Rightarrow> ('a, 'w) svc \<Rightarrow> ('a, 'w) svc \<times> string \<times> err option" where
  "sliced_read s bucket key meta idx localStart localEnd st =
     (let n = nat (slice_len localStart localEnd) in
      case getBlockRangeStream s bucket key meta idx localStart localEnd st of
        (st, out, e) \<Rightarrow> if n < length out then (st, take n out, Some ErrShortBuffer) else (st, out, e))"

definition read_slice ::
  "string \<Rightarrow> ('a, 'w) Service \<Rightarrow> string \<Rightarrow> string \<Rightarrow> CachedObjectMeta \<Rightarrow> int \<Rightarrow> int \<Rightarrow> int \<Rightarrow> ('a, 'w) svc \<Rightarrow> ('a, 'w) svc \<times> string \<times> err option" where
  "read_slice what s bucket key meta idx localStart localEnd st =
     (let n = nat (slice_len localStart localEnd) in
      case sliced_read s bucket key meta idx localStart localEnd st of
        (st, out, e) \<Rightarrow>
          if e = None \<and> length out \<noteq> n
          then (st, out, Some (EText (''block '' @ FormatInt idx @ '' '' @ what @ '': short read '' @ FormatInt (int (length out)) @ '' of ''
                                     @ FormatInt (int n) @ '' bytes'')))
          else (st, out, e))"

definition readCachedBlockSlice ::
  "('a, 'w) Service \<Rightarrow> string \<Rightarrow> string \<Rightarrow> CachedObjectMeta \<Rightarrow> int \<Rightarrow> int \<Rightarrow> int \<Rightarrow> ('a, 'w) svc \<Rightarrow> ('a, 'w) svc \<times> string \<times> err option" where
  "readCachedBlockSlice = read_slice ''stream''"

section \<open>Fetching one block\<close>

text \<open>The checks on the upstream's answer: its bytes, when it is exactly the block of the expected version.\<close>

definition checked_block :: "CachedObjectMeta \<Rightarrow> int \<Rightarrow> int \<Rightarrow> int \<Rightarrow> Response \<Rightarrow> string result" where
  "checked_block meta blockIdx bStart bEnd resp =
     (let blockLen = slice_len bStart bEnd; respETag = header_get (resp_Header resp) ''ETag'';
          pre = ''block '' @ FormatInt blockIdx @ '' fetch: '' in
      if resp_Status resp = 404 then Inl ErrBlockUpstreamGone
      else if resp_Status resp \<noteq> 206 then Inl (EText (pre @ ''unexpected status '' @ FormatInt (resp_Status resp) @ '' (want 206)''))
      else if respETag = [] then Inl (EText (pre @ ''response missing ETag, cannot verify version''))
      else if respETag \<noteq> ETag meta then Inl ErrBlockETagMismatch
      else if resp_ContentLength resp \<noteq> blockLen
      then Inl (EText (pre @ ''content-length '' @ FormatInt (resp_ContentLength resp) @ '', want '' @ FormatInt blockLen))
      else case parseContentRange (header_get (resp_Header resp) ''Content-Range'') of
             (rs, re, _, ok) \<Rightarrow>
               if \<not> ok \<or> rs \<noteq> bStart \<or> re \<noteq> bEnd 
               then Inl (EText (pre @ ''content-range bounds '' @ FormatInt rs @ ''-'' @ FormatInt re @ '' (ok=''
                                @ (if ok then ''true'' else ''false'') @ ''), want '' @ FormatInt bStart @ ''-'' @ FormatInt bEnd))
               else case io_ReadFull (resp_Body resp) (nat blockLen) of
                      Inl e \<Rightarrow> Inl (EWrap (pre @ ''short body ('' @ Error e @ ''), want '' @ FormatInt blockLen @ '' bytes'') [e])
                    | Inr (buf, _) \<Rightarrow> Inr buf)"

text \<open>
  The fetch: what a waiting assembler gets (the bytes, or nothing when another writer was first), and the outcome of
  the cache write. A remote owner gets the bytes after the assembler; the order does not show here.
\<close>

definition runBlockFetch ::
  "('a, 'w) Service \<Rightarrow> string \<Rightarrow> string \<Rightarrow> string \<Rightarrow> string \<Rightarrow> CachedObjectMeta \<Rightarrow> int \<Rightarrow> bool \<Rightarrow> ('a, 'w) svc
   \<Rightarrow> ('a, 'w) svc \<times> string option result \<times> err option" where
  "runBlockFetch s bucket key accessKey secretKey meta blockIdx knownMissing st =
     (case (if knownMissing then (st, Inr False) else probeBlock s bucket key meta blockIdx st) of
        (st, Inr True) \<Rightarrow> (st, Inr None, None)
      | (st, _) \<Rightarrow>
          (let (bStart, bEnd) = blockBounds blockIdx (BlockSize meta) (ContentLength meta);
               reserveWeight = populateWeight (cfg_budget (s_config s)) (budget st) (slice_len bStart bEnd)
           in case acquireCacheSlot s reserveWeight priorityReadMiss st of
                (st, False) \<Rightarrow> (st, Inl ErrCachePopulateDeclined, Some ErrCachePopulateDeclined)
              | (st, True) \<Rightarrow>
                  (case on_world (fw_DoConditionalGetRequest (forwarder s) bucket key accessKey secretKey [] 0
                                   (''bytes='' @ FormatInt bStart @ ''-'' @ FormatInt bEnd)) st of
                     (st, Inl e) \<Rightarrow> (release_slot reserveWeight st, Inl e, Some e)
                   | (st, Inr resp) \<Rightarrow>
                       (case checked_block meta blockIdx bStart bEnd resp of
                          Inl e \<Rightarrow> (release_slot reserveWeight st, Inl e, Some e)
                        | Inr blockBuf \<Rightarrow>
                            (case on_world (PutBlock (s_cache s) bucket key (ETag meta) (BlockSize meta) blockIdx blockBuf
                                             (TTL_Seconds (s_config s))) st of
                               (st, perr) \<Rightarrow>
                                 (let st = release_slot reserveWeight st;
                                      (local, known) = IsBlockLocal (s_cache s) bucket key (ETag meta) (BlockSize meta) blockIdx in
                                  if \<not> known \<or> local
                                  then (case perr of
                                          Some e \<Rightarrow> if \<not> err_is e ErrPopulateShed then (st, Inl e, Some e) else (st, Inr (Some blockBuf), Some e)
                                        | None \<Rightarrow> (st, Inr (Some blockBuf), None))
                                  else (st, Inr (Some blockBuf), perr)))))))"

definition fetchOneBlock ::
  "('a, 'w) Service \<Rightarrow> 'w ctx \<Rightarrow> string \<Rightarrow> string \<Rightarrow> string \<Rightarrow> string \<Rightarrow> CachedObjectMeta \<Rightarrow> int \<Rightarrow> ('a, 'w) svc \<Rightarrow> ('a, 'w) svc \<times> err option" where
  "fetchOneBlock s ctx bucket key accessKey secretKey meta blockIdx st =
     (case ctx (world st) of
        Some e \<Rightarrow> (st, Some e)
      | None \<Rightarrow>
          if svc_stopping st then (st, Some CtxCanceled)
          else case runBlockFetch s bucket key accessKey secretKey meta blockIdx False st of (st, _, e) \<Rightarrow> (st, e))"

definition fetchOneBlockForAssembly ::
  "('a, 'w) Service \<Rightarrow> string \<Rightarrow> string \<Rightarrow> string \<Rightarrow> string \<Rightarrow> CachedObjectMeta \<Rightarrow> int \<Rightarrow> ('a, 'w) svc
   \<Rightarrow> ('a, 'w) svc \<times> string option result" where
  "fetchOneBlockForAssembly s bucket key accessKey secretKey meta blockIdx st =
     (if svc_stopping st then (st, Inl CtxCanceled)
      else case runBlockFetch s bucket key accessKey secretKey meta blockIdx True st of (st, data, _) \<Rightarrow> (st, data))"

section \<open>Fetching several blocks\<close>

text \<open>The first error of either kind is kept; stale signals go before transient failures.\<close>

definition first_err :: "err option \<Rightarrow> err \<Rightarrow> err option" where
  "first_err old e = (case old of None \<Rightarrow> Some e | Some _ \<Rightarrow> old)"

fun fetch_blocks ::
  "('a, 'w) Service \<Rightarrow> 'w ctx \<Rightarrow> string \<Rightarrow> string \<Rightarrow> string \<Rightarrow> string \<Rightarrow> CachedObjectMeta \<Rightarrow> int list \<Rightarrow> err option \<Rightarrow> err option \<Rightarrow> ('a, 'w) svc
   \<Rightarrow> ('a, 'w) svc \<times> err option \<times> err option \<times> bool" where
  "fetch_blocks s ctx bucket key ak sk meta [] stale transient st = (st, stale, transient, False)"
| "fetch_blocks s ctx bucket key ak sk meta (i # is) stale transient st =
     (if ctx (world st) \<noteq> None then (st, stale, transient, True)
      else case fetchOneBlock s ctx bucket key ak sk meta i st of
             (st, None) \<Rightarrow> fetch_blocks s ctx bucket key ak sk meta is stale transient st
           | (st, Some e) \<Rightarrow>
               if stale_signal e then fetch_blocks s ctx bucket key ak sk meta is (first_err stale e) transient st
               else fetch_blocks s ctx bucket key ak sk meta is stale (first_err transient e) st)"

definition fetchBlocksToCache ::
  "('a, 'w) Service \<Rightarrow> 'w ctx \<Rightarrow> string \<Rightarrow> string \<Rightarrow> string \<Rightarrow> string \<Rightarrow> CachedObjectMeta \<Rightarrow> int list \<Rightarrow> ('a, 'w) svc
   \<Rightarrow> ('a, 'w) svc \<times> err option" where
  "fetchBlocksToCache s ctx bucket key ak sk meta blockIdxs st =
     (if blockIdxs = [] then (st, None)
      else case fetch_blocks s ctx bucket key ak sk meta blockIdxs None None st of
             (st, Some e, _, _) \<Rightarrow> (invalidateStaleMeta s bucket key (ETag meta) st, Some e)
           | (st, None, transient, canceled) \<Rightarrow> (st, if canceled then ctx (world st) else transient))"

fun fetch_leases ::
  "('a, 'w) Service \<Rightarrow> string \<Rightarrow> string \<Rightarrow> string \<Rightarrow> string \<Rightarrow> CachedObjectMeta \<Rightarrow> int list \<Rightarrow> (int \<times> string) list \<Rightarrow> err option \<Rightarrow> err option
   \<Rightarrow> ('a, 'w) svc \<Rightarrow> ('a, 'w) svc \<times> (int \<times> string) list \<times> err option \<times> err option" where
  "fetch_leases s bucket key ak sk meta [] leases stale transient st = (st, leases, stale, transient)"
| "fetch_leases s bucket key ak sk meta (i # is) leases stale transient st =
     (case fetchOneBlockForAssembly s bucket key ak sk meta i st of
        (st, Inl e) \<Rightarrow>
          if stale_signal e then fetch_leases s bucket key ak sk meta is leases (first_err stale e) transient st
          else fetch_leases s bucket key ak sk meta is leases stale (first_err transient e) st
      | (st, Inr None) \<Rightarrow> fetch_leases s bucket key ak sk meta is leases stale transient st
      | (st, Inr (Some data)) \<Rightarrow> fetch_leases s bucket key ak sk meta is (leases @ [(i, data)]) stale transient st)"

definition fetchBlocksForAssembly ::
  "('a, 'w) Service \<Rightarrow> string \<Rightarrow> string \<Rightarrow> string \<Rightarrow> string \<Rightarrow> CachedObjectMeta \<Rightarrow> int list \<Rightarrow> ('a, 'w) svc
   \<Rightarrow> ('a, 'w) svc \<times> (int \<times> string) list result" where
  "fetchBlocksForAssembly s bucket key ak sk meta blockIdxs st =
     (case fetch_leases s bucket key ak sk meta blockIdxs [] None None st of
        (st, leases, Some e, _) \<Rightarrow> (invalidateStaleMeta s bucket key (ETag meta) st, Inl e)
      | (st, leases, None, Some e) \<Rightarrow> (st, Inl e)
      | (st, leases, None, None) \<Rightarrow> (st, Inr leases))"

section \<open>Recovering a missing block during a serve\<close>

text \<open>\<open>left\<close> is how many absent blocks the serve may still fetch, when it is capped.\<close>

definition recoverMissingBlockSlice ::
  "('a, 'w) Service \<Rightarrow> 'w ctx \<Rightarrow> string \<Rightarrow> string \<Rightarrow> string \<Rightarrow> string \<Rightarrow> CachedObjectMeta \<Rightarrow> int \<Rightarrow> int \<Rightarrow> int \<Rightarrow> int option \<Rightarrow> ('a, 'w) svc
   \<Rightarrow> ('a, 'w) svc \<times> string result \<times> int option" where
  "recoverMissingBlockSlice s ctx bucket key ak sk meta idx localStart localEnd left st =
     (case readCachedBlockSlice s bucket key meta idx localStart localEnd st of
        (st, out, None) \<Rightarrow> (st, Inr out, left)
      | (st, out, Some rerr) \<Rightarrow>
          if \<not> err_is rerr ErrNotFound then (st, Inl (blockReadSliceError idx rerr), left)
          else if (case left of Some n \<Rightarrow> n \<le> 0 | None \<Rightarrow> False) then (st, Inl errBlocksMostlyAbsent, left)
          else
            let left = map_option (\<lambda>n. n - 1) left in
            case fetchBlocksToCache s ctx bucket key ak sk meta [idx] st of
              (st, Some ferr) \<Rightarrow>
                if stale_signal ferr then (st, Inl ferr, left)
                else (st, Inl (EWrap (''block '' @ FormatInt idx @ '' inline fetch failed ('' @ Error ferr @ ''): '' @ Error ErrBlockStreamDegraded)
                               [ferr, ErrBlockStreamDegraded]), left)
            | (st, None) \<Rightarrow>
                (case readCachedBlockSlice s bucket key meta idx localStart localEnd st of
                   (st, out, None) \<Rightarrow> (st, Inr out, left)
                 | (st, out, Some rerr) \<Rightarrow>
                     (st, Inl (EWrap (''block '' @ FormatInt idx @ '' unreadable after fetch ('' @ Error rerr @ ''): ''
                                @ Error ErrBlockStreamDegraded) [rerr, ErrBlockStreamDegraded]), left)))"

definition readBlockSlice ::
  "('a, 'w) Service \<Rightarrow> 'w ctx \<Rightarrow> string \<Rightarrow> string \<Rightarrow> string \<Rightarrow> string \<Rightarrow> CachedObjectMeta \<Rightarrow> int \<Rightarrow> int \<Rightarrow> int \<Rightarrow> int option \<Rightarrow> ('a, 'w) svc
   \<Rightarrow> ('a, 'w) svc \<times> string result \<times> int option" where
  "readBlockSlice s ctx bucket key ak sk meta idx localStart localEnd left st =
     (case readCachedBlockSlice s bucket key meta idx localStart localEnd st of
        (st, out, None) \<Rightarrow> (st, Inr out, left)
      | (st, out, Some rerr) \<Rightarrow>
          if err_is rerr ErrNotFound then recoverMissingBlockSlice s ctx bucket key ak sk meta idx localStart localEnd left st
          else (st, Inl (blockReadSliceError idx rerr), left))"

section \<open>Presence of the covering blocks\<close>

fun probe_blocks ::
  "('a, 'w) Service \<Rightarrow> string \<Rightarrow> string \<Rightarrow> CachedObjectMeta \<Rightarrow> int \<Rightarrow> int list \<Rightarrow> int list \<Rightarrow> ('a, 'w) svc \<Rightarrow> ('a, 'w) svc \<times> int list result" where
  "probe_blocks s bucket key meta fanout [] missing st = (st, Inr missing)"
| "probe_blocks s bucket key meta fanout (i # is) missing st =
     (case probeBlock s bucket key meta i st of
        (st, Inl e) \<Rightarrow> (st, Inl e)
      | (st, Inr True) \<Rightarrow> probe_blocks s bucket key meta fanout is missing st
      | (st, Inr False) \<Rightarrow>
          (let missing = missing @ [i] in
           if 0 < fanout \<and> fanout < int (length missing) then (st, Inl ErrBlockAssemblyWouldAmplify)
           else probe_blocks s bucket key meta fanout is missing st))"

definition ensureBlocksCached ::
  "('a, 'w) Service \<Rightarrow> 'w ctx \<Rightarrow> string \<Rightarrow> string \<Rightarrow> string \<Rightarrow> string \<Rightarrow> CachedObjectMeta \<Rightarrow> int \<Rightarrow> int \<Rightarrow> bool \<Rightarrow> int \<Rightarrow> ('a, 'w) svc
   \<Rightarrow> ('a, 'w) svc \<times> err option" where
  "ensureBlocksCached s ctx bucket key ak sk meta b0 bK bailIfMostlyMissing maxFetchFanout st =
     (case probe_blocks s bucket key meta maxFetchFanout [b0..bK] [] st of
        (st, Inl e) \<Rightarrow> (st, Some e)
      | (st, Inr missing) \<Rightarrow>
          (let total = wrap64 (wrap64 (bK - b0) + 1) in
           if bailIfMostlyMissing \<and> total < int (length missing) * 2 then (st, Some ErrBlockAssemblyWouldAmplify)
           else if missing = [] then (st, None)
           else fetchBlocksToCache s ctx bucket key ak sk meta missing st))"

end
