(* ===== verification/Parquet_Footer.thy ===== *)
theory Parquet_Footer
  imports Block_Fetch
begin

text \<open>
  Publishing block-mode entries after their blocks (\<^verbatim>\<open>proxy/block_cache.go\<close>), and warming the metadata blocks of
  parquet files (\<^verbatim>\<open>proxy/block_cache_parquet.go\<close>): which blocks the metadata spans, read from the file's own
  trailer, and the read-triggered and write-triggered tasks that fetch them.
\<close>

section \<open>Block-mode metadata (block_cache.go)\<close>

definition buildBlockMeta :: "('a, 'w) Service \<Rightarrow> 'w \<Rightarrow> string \<Rightarrow> string \<Rightarrow> header \<Rightarrow> int \<Rightarrow> CachedObjectMeta" where
  "buildBlockMeta s w bucket key respHeader totalSize =
     (MetaFromHTTPHeaders (s_now s w) bucket key 200 respHeader)\<lparr>ContentLength := totalSize, BlockSize := svc_blockSize s\<rparr>"

text \<open>An entry established meanwhile wins; the commit is under the token read before the blocks were fetched.\<close>

definition finalizeBlockModeMeta ::
  "('a, 'w) Service \<Rightarrow> string \<Rightarrow> string \<Rightarrow> CachedObjectMeta \<Rightarrow> version \<Rightarrow> ('a, 'w) svc \<Rightarrow> ('a, 'w) svc" where
  "finalizeBlockModeMeta s bucket key meta expected st =
     (case on_world (GetMeta (s_cache s) bucket key) st of
        (st, Inr (Some _)) \<Rightarrow> st
      | (st, _) \<Rightarrow> fst (on_world (PutMetaIfVersion (s_cache s) bucket key meta (TTL_Seconds (s_config s)) expected) st))"

definition populateBlockMode ::
  "('a, 'w) Service \<Rightarrow> 'w ctx \<Rightarrow> string \<Rightarrow> string \<Rightarrow> string \<Rightarrow> string \<Rightarrow> CachedObjectMeta \<Rightarrow> int list \<Rightarrow> ('a, 'w) svc \<Rightarrow> ('a, 'w) svc" where
  "populateBlockMode s ctx bucket key accessKey secretKey meta touched st =
     (case on_world (GetMetaWithVersion (s_cache s) bucket key) st of
        (st, Inl _) \<Rightarrow> st
      | (st, Inr (_, expected, _)) \<Rightarrow>
          (case fetchBlocksToCache s ctx bucket key accessKey secretKey meta touched st of
             (st, Some _) \<Rightarrow> st
           | (st, None) \<Rightarrow>
               finalizeBlockModeMeta s bucket key (meta\<lparr>RangeBlockSpan := blockSpanForRange meta touched\<rparr>) expected st))"

definition triggerBlockModePopulate ::
  "string \<Rightarrow> string \<Rightarrow> string \<Rightarrow> string \<Rightarrow> CachedObjectMeta \<Rightarrow> int list \<Rightarrow> ('a, 'w) svc \<Rightarrow> ('a, 'w) svc" where
  "triggerBlockModePopulate bucket key accessKey secretKey meta touched st =
     (if maxRangeBlockFanout < int (length touched) then st
      else fst (startBackgroundTask (BlockPopulate bucket key accessKey secretKey meta touched) st))"

section \<open>The trailer (block_cache_parquet.go)\<close>

abbreviation parquetTrailerSize :: int where
  "parquetTrailerSize \<equiv> 8"

definition isParquetKey :: "string \<Rightarrow> bool" where
  "isParquetKey key = HasSuffix (ToLower key) ''.parquet''"

definition LittleEndian_Uint32 :: "string \<Rightarrow> nat" where
  "LittleEndian_Uint32 b = of_char (b ! 0) + 256 * (of_char (b ! 1) + 256 * (of_char (b ! 2) + 256 * of_char (b ! 3)))"

definition parseParquetTrailer :: "string \<Rightarrow> int \<Rightarrow> int option" where
  "parseParquetTrailer buf contentLength =
     (if drop 4 buf \<noteq> ''PAR1'' then None
      else let footerLen = int (LittleEndian_Uint32 buf) in
        if footerLen \<le> 0 \<or> contentLength - parquetTrailerSize < footerLen then None else Some footerLen)"

text \<open>The declared length when it is valid, or whether the negative answer is stable.\<close>

definition readParquetFooterLength ::
  "('a, 'w) Service \<Rightarrow> string \<Rightarrow> string \<Rightarrow> CachedObjectMeta \<Rightarrow> ('a, 'w) svc \<Rightarrow> ('a, 'w) svc \<times> (bool + int)" where
  "readParquetFooterLength s bucket key meta st =
     (let tailBlock = go_div (ContentLength meta - 1) (BlockSize meta);
          blockStart = wrap64 (tailBlock * BlockSize meta);
          trailerStart = ContentLength meta - parquetTrailerSize in
      if trailerStart < blockStart then (st, Inl True)
      else
        let localStart = trailerStart - blockStart in
        case readCachedBlockSlice s bucket key meta tailBlock localStart (localStart + parquetTrailerSize - 1) st of
          (st, _, Some _) \<Rightarrow> (st, Inl False)
        | (st, buf, None) \<Rightarrow> (st, case parseParquetTrailer buf (ContentLength meta) of None \<Rightarrow> Inl True | Some n \<Rightarrow> Inr n))"

definition parquetFooterLength ::
  "('a, 'w) Service \<Rightarrow> string \<Rightarrow> string \<Rightarrow> CachedObjectMeta \<Rightarrow> string \<Rightarrow> ('a, 'w) svc \<Rightarrow> ('a, 'w) svc \<times> (bool + int)" where
  "parquetFooterLength s bucket key meta trailer st =
     (if int (length trailer) = parquetTrailerSize
      then (st, case parseParquetTrailer trailer (ContentLength meta) of None \<Rightarrow> Inl True | Some n \<Rightarrow> Inr n)
      else readParquetFooterLength s bucket key meta st)"

definition maxParquetFooterPrefetchBlocks :: int where
  "maxParquetFooterPrefetchBlocks = 32"

definition parquetFooterBlocks :: "CachedObjectMeta \<Rightarrow> int \<Rightarrow> bool \<Rightarrow> int list" where
  "parquetFooterBlocks meta footerLen tailServedByCaller =
     (let tailBlock = go_div (ContentLength meta - 1) (BlockSize meta);
          lastWanted = (if tailServedByCaller then tailBlock - 1 else tailBlock);
          firstBlock = go_div (ContentLength meta - parquetTrailerSize - footerLen) (BlockSize meta);
          firstBlock = (if firstBlock < 0 then 0 else firstBlock) in
      if lastWanted < firstBlock then []
      else
        let firstBlock = (if maxParquetFooterPrefetchBlocks < lastWanted - firstBlock + 1
                          then lastWanted - maxParquetFooterPrefetchBlocks + 1 else firstBlock)
        in [firstBlock..lastWanted])"

section \<open>Fetching the metadata blocks\<close>

fun absent_blocks ::
  "('a, 'w) Service \<Rightarrow> string \<Rightarrow> string \<Rightarrow> CachedObjectMeta \<Rightarrow> int list \<Rightarrow> ('a, 'w) svc \<Rightarrow> ('a, 'w) svc \<times> int list" where
  "absent_blocks s bucket key meta [] st = (st, [])"
| "absent_blocks s bucket key meta (i # is) st =
     (case probeBlock s bucket key meta i st of
        (st, p) \<Rightarrow> (case absent_blocks s bucket key meta is st of
                        (st, rest) \<Rightarrow> (st, if p = Inr True then rest else i # rest)))"

definition ensureParquetFooterBlocks ::
  "('a, 'w) Service \<Rightarrow> 'w ctx \<Rightarrow> string \<Rightarrow> string \<Rightarrow> string \<Rightarrow> string \<Rightarrow> CachedObjectMeta \<Rightarrow> int \<Rightarrow> bool \<Rightarrow> ('a, 'w) svc \<Rightarrow> ('a, 'w) svc \<times> bool" where
  "ensureParquetFooterBlocks s ctx bucket key accessKey secretKey meta footerLen tailServedByCaller st =
     (let blocks = parquetFooterBlocks meta footerLen tailServedByCaller in
      if blocks = [] then (st, True)
      else case absent_blocks s bucket key meta blocks st of
             (st, absent) \<Rightarrow>
               if absent = [] then (st, True)
               else case fetchBlocksToCache s ctx bucket key accessKey secretKey meta absent st of (st, e) \<Rightarrow> (st, e = None))"

definition prefetchParquetFooterBlocks ::
  "('a, 'w) Service \<Rightarrow> 'w ctx \<Rightarrow> string \<Rightarrow> string \<Rightarrow> string \<Rightarrow> string \<Rightarrow> CachedObjectMeta \<Rightarrow> string \<Rightarrow> ('a, 'w) svc \<Rightarrow> ('a, 'w) svc \<times> bool" where
  "prefetchParquetFooterBlocks s ctx bucket key accessKey secretKey meta trailer st =
     (case parquetFooterLength s bucket key meta trailer st of
        (st, Inl settled) \<Rightarrow> (st, settled)
      | (st, Inr footerLen) \<Rightarrow> ensureParquetFooterBlocks s ctx bucket key accessKey secretKey meta footerLen True st)"

section \<open>The read trigger\<close>

definition parquetFooterPrefetchWanted :: "('a, 'w) Service \<Rightarrow> string \<Rightarrow> CachedObjectMeta \<Rightarrow> int \<Rightarrow> int \<Rightarrow> bool" where
  "parquetFooterPrefetchWanted s key meta servedStart servedEnd \<longleftrightarrow>
     ParquetOptimization (s_config s) \<and> 0 < BlockSize meta \<and> parquetTrailerSize < ContentLength meta \<and> isParquetKey key
     \<and> servedStart \<le> ContentLength meta - parquetTrailerSize \<and> ContentLength meta - 1 \<le> servedEnd"

definition footer_version_key :: "string \<Rightarrow> string \<Rightarrow> CachedObjectMeta \<Rightarrow> string" where
  "footer_version_key bucket key meta = bucket @ ''/'' @ key @ ''/'' @ ETag meta"

text \<open>\<open>served\<close> is \<open>None\<close> when the caller no longer holds the bytes.\<close>

definition maybePrefetchParquetFooter ::
  "('a, 'w) Service \<Rightarrow> string \<Rightarrow> string \<Rightarrow> string \<Rightarrow> string \<Rightarrow> CachedObjectMeta \<Rightarrow> int \<Rightarrow> int \<Rightarrow> string option \<Rightarrow> ('a, 'w) svc \<Rightarrow> ('a, 'w) svc" where
  "maybePrefetchParquetFooter s bucket key accessKey secretKey meta servedStart servedEnd served st =
     (if \<not> parquetFooterPrefetchWanted s key meta servedStart servedEnd then st
      else
        let trailer = (case served of
                         None \<Rightarrow> []
                       | Some b \<Rightarrow> if int (length b) = servedEnd - servedStart + 1
                                   then take 8 (drop (nat (ContentLength meta - parquetTrailerSize - servedStart)) b) else []);
            versionKey = footer_version_key bucket key meta
        in case on_world (footer_Get s versionKey) st of
             (st, True) \<Rightarrow> st
           | (st, False) \<Rightarrow>
               (case sem_try (footer_slots st) of
                  None \<Rightarrow> st
                | Some sl \<Rightarrow>
                    (let release = (\<lambda>st. st\<lparr>footer_slots := sem_recv (footer_slots st)\<rparr>); st = st\<lparr>footer_slots := sl\<rparr>;
                         dedupKey = ''pq:'' @ versionKey in
                     case LoadOrStore dedupKey st of
                       (st, True) \<Rightarrow> release st
                     | (st, False) \<Rightarrow>
                         (case startBackgroundTask (FooterPrefetch bucket key accessKey secretKey meta trailer) st of
                            (st, True) \<Rightarrow> st
                          | (st, False) \<Rightarrow> release (drop_marker dedupKey st)))))"

text \<open>The task, and what it gives back when it ends.\<close>

definition run_FooterPrefetch ::
  "('a, 'w) Service \<Rightarrow> 'w ctx \<Rightarrow> string \<Rightarrow> string \<Rightarrow> string \<Rightarrow> string \<Rightarrow> CachedObjectMeta \<Rightarrow> string \<Rightarrow> ('a, 'w) svc \<Rightarrow> ('a, 'w) svc" where
  "run_FooterPrefetch s ctx bucket key accessKey secretKey meta trailer st =
     (let versionKey = footer_version_key bucket key meta in
      case prefetchParquetFooterBlocks s ctx bucket key accessKey secretKey meta trailer st of
        (st, done_scan) \<Rightarrow>
          (let st = (if done_scan then st\<lparr>world := footer_Add s versionKey (world st)\<rparr> else st);
               st = drop_marker (''pq:'' @ versionKey) st
           in st\<lparr>footer_slots := sem_recv (footer_slots st)\<rparr>))"

section \<open>The write trigger\<close>

definition warmParquetFooterOnWriteWithETag ::
  "('a, 'w) Service \<Rightarrow> Request \<Rightarrow> string \<Rightarrow> string \<Rightarrow> string \<Rightarrow> ('a, 'w) svc \<Rightarrow> ('a, 'w) svc" where
  "warmParquetFooterOnWriteWithETag s r bucket key writtenETag st =
     (if \<not> ParquetOptimization (s_config s) \<or> \<not> IsEnabled (s_cache s) then st
      else if \<not> IsBlockCachingEnabled (cfg_budget (s_config s)) \<or> svc_blockSize s \<le> 0 then st
      else if \<not> isParquetKey key then st
      else case on_fwd (fw_ValidateAndGetCredentials (forwarder s) r) st of
             (st, Inl _) \<Rightarrow> st
           | (st, Inr (_, accessKey, secretKey)) \<Rightarrow>
               if accessKey = [] \<or> secretKey = [] then st
               else
                 let dedupKey = ''pqw:'' @ bucket @ ''/'' @ key in
                 case LoadOrStore dedupKey st of
                   (st, True) \<Rightarrow> st
                 | (st, False) \<Rightarrow>
                     (case startBackgroundTask (FooterWarm bucket key accessKey secretKey writtenETag) st of
                        (st, True) \<Rightarrow> st
                      | (st, False) \<Rightarrow> drop_marker dedupKey st))"

definition compatibleParquetFooterMeta :: "('a, 'w) Service \<Rightarrow> CachedObjectMeta option \<Rightarrow> string \<Rightarrow> bool" where
  "compatibleParquetFooterMeta s meta writtenETag =
     (case meta of
        None \<Rightarrow> False
      | Some m \<Rightarrow> writtenETag \<noteq> [] \<and> ETag m = writtenETag \<and> 0 < BlockSize m \<and> BlockSize m = svc_blockSize s
                  \<and> BlockSize m \<le> ContentLength m \<and> IsCacheable m (SizeThreshold (s_config s)))"

definition readParquetTrailerFromUpstream ::
  "('a, 'w) Service \<Rightarrow> string \<Rightarrow> string \<Rightarrow> string \<Rightarrow> string \<Rightarrow> ('a, 'w) svc \<Rightarrow> ('a, 'w) svc \<times> (CachedObjectMeta \<times> int) option" where
  "readParquetTrailerFromUpstream s bucket key accessKey secretKey st =
     (case on_world (fw_DoConditionalGetRequest (forwarder s) bucket key accessKey secretKey [] 0 ''bytes=-8'') st of
        (st, Inl _) \<Rightarrow> (st, None)
      | (st, Inr resp) \<Rightarrow>
          (st,
           if resp_Status resp \<noteq> 206 then None
           else case parseContentRange (header_get (resp_Header resp) ''Content-Range'') of
                  (first, last', contentLength, hasBounds) \<Rightarrow>
                    if \<not> hasBounds \<or> contentLength \<le> parquetTrailerSize then None
                    else if first \<noteq> contentLength - parquetTrailerSize \<or> last' \<noteq> contentLength - 1 then None
                    else if header_get (resp_Header resp) ''ETag'' = [] then None
                    else if \<not> svc_blockEligible s contentLength then None
                    else
                      let meta = buildBlockMeta s (world st) bucket key (resp_Header resp) contentLength in
                      if \<not> IsCacheable meta (SizeThreshold (s_config s)) then None
                      else case io_ReadFull (resp_Body resp) 8 of
                             Inl _ \<Rightarrow> None
                           | Inr (buf, _) \<Rightarrow> map_option (Pair meta) (parseParquetTrailer buf contentLength)))"

definition warmParquetFooterBlocks ::
  "('a, 'w) Service \<Rightarrow> 'w ctx \<Rightarrow> string \<Rightarrow> string \<Rightarrow> string \<Rightarrow> string \<Rightarrow> string \<Rightarrow> ('a, 'w) svc \<Rightarrow> ('a, 'w) svc" where
  "warmParquetFooterBlocks s ctx bucket key accessKey secretKey writtenETag st =
     (case on_world (GetMetaWithVersion (s_cache s) bucket key) st of
        (st, Inl _) \<Rightarrow> st
      | (st, Inr (existing, expected, found)) \<Rightarrow>
          if found \<and> \<not> compatibleParquetFooterMeta s existing writtenETag then st
          else case readParquetTrailerFromUpstream s bucket key accessKey secretKey st of
                 (st, None) \<Rightarrow> st
               | (st, Some (meta, footerLen)) \<Rightarrow>
                   if writtenETag \<noteq> [] \<and> ETag meta \<noteq> writtenETag then st
                   else if found \<and> (case existing of None \<Rightarrow> False
                                      | Some m \<Rightarrow> ETag m \<noteq> ETag meta \<or> ContentLength m \<noteq> ContentLength meta \<or> BlockSize m \<noteq> BlockSize meta) then st
                   else case ensureParquetFooterBlocks s ctx bucket key accessKey secretKey meta footerLen False st of
                          (st, False) \<Rightarrow> st
                        | (st, True) \<Rightarrow> if found then st else finalizeBlockModeMeta s bucket key meta expected st)"

definition run_FooterWarm ::
  "('a, 'w) Service \<Rightarrow> 'w ctx \<Rightarrow> string \<Rightarrow> string \<Rightarrow> string \<Rightarrow> string \<Rightarrow> string \<Rightarrow> ('a, 'w) svc \<Rightarrow> ('a, 'w) svc" where
  "run_FooterWarm s ctx bucket key accessKey secretKey writtenETag st =
     drop_marker (''pqw:'' @ bucket @ ''/'' @ key) (warmParquetFooterBlocks s ctx bucket key accessKey secretKey writtenETag st)"

section \<open>The blocks of the metadata\<close>

text \<open>C35: The blocks chosen for a parquet file's metadata are, in order, exactly the blocks that hold a byte of the
  metadata or of the trailer after it, but for the tail block when the caller has served it, and only the last 32 of
  them when there are more.\<close>

theorem footer_blocks_exact:
  fixes meta footerLen tailServed
  defines "blocks \<equiv> parquetFooterBlocks meta footerLen tailServed"
    and "last' \<equiv> (ContentLength meta - 1) div BlockSize meta - (if tailServed then 1 else 0)"
  assumes "0 < BlockSize meta" and "0 < footerLen" and "footerLen \<le> ContentLength meta - parquetTrailerSize"
  shows "sorted_wrt (<) blocks \<and> length blocks \<le> 32
    \<and> (i \<in> set blocks \<longleftrightarrow>
         i \<le> last' \<and> last' - 32 < i \<and> (\<exists>p. ContentLength meta - parquetTrailerSize - footerLen \<le> p \<and> p < ContentLength meta \<and> p div BlockSize meta = i))"
proof -
  let ?bs = "BlockSize meta" and ?cl = "ContentLength meta"
  define lo where "lo = ?cl - parquetTrailerSize - footerLen"
  have lo: "0 \<le> lo" "lo < ?cl" using assms(4,5) by (auto simp: lo_def)
  have d: "go_div (?cl - 1) ?bs = (?cl - 1) div ?bs" "go_div lo ?bs = lo div ?bs" "0 \<le> lo div ?bs"
    using assms(3) lo by (simp_all add: go_div_nonneg pos_imp_zdiv_nonneg_iff)
  have b: "blocks = [max (lo div ?bs) (last' - 31)..last']"
    using d unfolding blocks_def parquetFooterBlocks_def Let_def maxParquetFooterPrefetchBlocks_def last'_def lo_def [symmetric]
    by (auto simp: max_def intro!: arg_cong2 [where f = upto])
  have spans: "(\<exists>p. lo \<le> p \<and> p < ?cl \<and> p div ?bs = i) \<longleftrightarrow> lo div ?bs \<le> i \<and> i \<le> (?cl - 1) div ?bs"
  proof
    assume "\<exists>p. lo \<le> p \<and> p < ?cl \<and> p div ?bs = i"
    then show "lo div ?bs \<le> i \<and> i \<le> (?cl - 1) div ?bs" using assms(3) by (auto intro!: zdiv_mono1)
  next
    assume i: "lo div ?bs \<le> i \<and> i \<le> (?cl - 1) div ?bs"
    have g: "lo \<le> i * ?bs + ?bs - 1" using block_index_greater [OF assms(3) conjunct1 [OF i]] .
    have l: "i * ?bs \<le> ?cl - 1" using block_index_less [OF assms(3) conjunct2 [OF i]] .
    define p where "p = max lo (i * ?bs)"
    have "i * ?bs \<le> p" "p < i * ?bs + ?bs" "lo \<le> p" "p < ?cl" using g l lo assms(3) by (auto simp: p_def)
    moreover from this have "p div ?bs = i" using assms(3) by (intro int_div_pos_eq [where r = "p - i * ?bs"]) (auto simp: mult.commute)
    ultimately show "\<exists>p. lo \<le> p \<and> p < ?cl \<and> p div ?bs = i" by blast
  qed
  have "last' \<le> (?cl - 1) div ?bs" by (simp add: last'_def)
  moreover have "sorted_wrt (<) [a..b]" for a b :: int by (rule sorted_wrt_upto)
  ultimately show ?thesis unfolding lo_def [symmetric] spans b by (auto simp: max_def)
qed

theorem footer_blocks_exact_witness:
  "9 \<in> set (parquetFooterBlocks (span_meta\<lparr>ContentLength := 100, BlockSize := 10\<rparr>) 12 False)
   \<and> 7 \<notin> set (parquetFooterBlocks (span_meta\<lparr>ContentLength := 100, BlockSize := 10\<rparr>) 12 False)"
proof -
  let ?m = "span_meta\<lparr>ContentLength := 100, BlockSize := 10\<rparr>"
  have h: "0 < BlockSize ?m" "(0::int) < 12" "12 \<le> ContentLength ?m - parquetTrailerSize" by simp_all
  have p: "\<exists>p::int. 80 \<le> p \<and> p < 100 \<and> p div 10 = 9" by (rule exI [of _ 90]) simp
  have q: "\<not> (80 \<le> p \<and> p < 100 \<and> p div 10 = (7::int))" for p :: int by auto
  show ?thesis using footer_blocks_exact [OF h, of False 9] footer_blocks_exact [OF h, of False 7] p q by simp
qed

end
