(* ===== verification/Cache_Populate.thy ===== *)
theory Cache_Populate
  imports Parquet_Footer
begin

text \<open>
  Populating the cache from whole objects (\<^verbatim>\<open>proxy/caching.go\<close>, \<^verbatim>\<open>proxy/write_through.go\<close>,
  \<^verbatim>\<open>proxy/meta_on_write.go\<close>, the block splitter of \<^verbatim>\<open>proxy/block_cache.go\<close>): the background fetch and its
  reservation, the write-through of a teed upload, metadata established after a write, and the Cache-Control scan
  that keeps an upload out of the cache.
\<close>

section \<open>Cache-Control\<close>

text \<open>
  The rest of a directive after its name: commas in a quoted value do not end it, an escaped quote stays in it. The
  result starts after the comma that ended the directive.
\<close>

fun scan_directive :: "bool \<Rightarrow> bool \<Rightarrow> string \<Rightarrow> string" where
  "scan_directive quoted escaped [] = []"
| "scan_directive quoted escaped (c # cs) =
     (if c = CHR 0x5C then scan_directive quoted (if quoted then \<not> escaped else escaped) cs
      else if c = CHR 0x22 then scan_directive (if \<not> escaped then \<not> quoted else quoted) False cs
      else if c = CHR '','' then (if \<not> quoted then cs else scan_directive quoted escaped cs)
      else scan_directive quoted False cs)"

lemma scan_directive_length: "length (scan_directive q e s) \<le> length s"
  by (induction s arbitrary: q e) (auto simp: le_SucI)

lemma scan_directive_shrinks: "s \<noteq> [] \<Longrightarrow> length (scan_directive q e s) < length s"
  by (cases s) (auto simp: le_imp_less_Suc scan_directive_length)

abbreviation directive_sep :: "char \<Rightarrow> bool" where
  "directive_sep c \<equiv> c = CHR '','' \<or> c = CHR '' '' \<or> c = CHR 0x09"

abbreviation name_end :: "char \<Rightarrow> bool" where
  "name_end c \<equiv> c = CHR ''='' \<or> directive_sep c"

function no_cache_scan :: "string \<Rightarrow> bool" where
  "no_cache_scan s =
     (if s = [] then False
      else
        let s = dropWhile directive_sep s;
            name = takeWhile (\<lambda>c. \<not> name_end c) s;
            rest = dropWhile (\<lambda>c. \<not> name_end c) s
        in EqualFold name ''no-store'' \<or> EqualFold name ''private'' \<or> no_cache_scan (scan_directive False False rest))"
  by auto
termination
proof (relation "measure length")
  fix s x xa xb
  assume "s \<noteq> []" and x: "x = dropWhile directive_sep s" and xb: "xb = dropWhile (\<lambda>c. \<not> name_end c) x"
  have "length xb \<le> length s" unfolding xb x by (meson length_dropWhile_le order_trans)
  with \<open>s \<noteq> []\<close> show "(scan_directive False False xb, s) \<in> measure length"
    using scan_directive_shrinks [of xb False False] by (cases "xb = []") auto
qed simp

declare no_cache_scan.simps [simp del]

definition hasNoCacheDirectives :: "string list \<Rightarrow> bool" where
  "hasNoCacheDirectives cacheControls = list_ex no_cache_scan cacheControls"

section \<open>Splitting a stream into blocks (block_cache.go)\<close>

text \<open>Each block is read to its exact length before it is written; the result is the rest of the stream.\<close>

fun put_blocks ::
  "('a, 'w) Service \<Rightarrow> string \<Rightarrow> string \<Rightarrow> CachedObjectMeta \<Rightarrow> int \<Rightarrow> int list \<Rightarrow> body \<Rightarrow> ('a, 'w) svc \<Rightarrow> ('a, 'w) svc \<times> body result" where
  "put_blocks s bucket key meta ttl [] r st = (st, Inr r)"
| "put_blocks s bucket key meta ttl (idx # idxs) r st =
     (let (bStart, bEnd) = blockBounds idx (BlockSize meta) (ContentLength meta);
          want = slice_len bStart bEnd
      in case io_ReadFull r (nat want) of
           Inl e \<Rightarrow> (st, Inl (EWrap (''block split: block '' @ FormatInt idx @ '' short read ('' @ Error e
                                   @ '') - upstream body shorter than Content-Length '' @ FormatInt (ContentLength meta)) [e]))
         | Inr (buf, r) \<Rightarrow>
             (case on_world (PutBlockStream (s_cache s) bucket key (ETag meta) (BlockSize meta) idx (buf, None) ttl) st of
                (st, Some e) \<Rightarrow> (st, Inl e)
              | (st, None) \<Rightarrow> put_blocks s bucket key meta ttl idxs r st))"

definition putBlocksFromStream ::
  "('a, 'w) Service \<Rightarrow> string \<Rightarrow> string \<Rightarrow> CachedObjectMeta \<Rightarrow> body \<Rightarrow> int \<Rightarrow> version \<Rightarrow> ('a, 'w) svc \<Rightarrow> ('a, 'w) svc \<times> bool result" where
  "putBlocksFromStream s bucket key meta r ttl expected st =
     (let lastBlock = go_div (wrap64 (ContentLength meta - 1)) (BlockSize meta) in
      case put_blocks s bucket key meta ttl [0..lastBlock] r st of
        (st, Inl e) \<Rightarrow> (st, Inl e)
      | (st, Inr r) \<Rightarrow>
          if io_ReadFull r 1 \<noteq> Inl EOF
          then (st, Inl (EText (''block split: upstream body longer than Content-Length '' @ FormatInt (ContentLength meta))))
          else on_world (PutMetaIfVersion (s_cache s) bucket key (meta\<lparr>BlocksComplete := True\<rparr>) ttl expected) st)"

section \<open>The background fetch (caching.go)\<close>

text \<open>The cache writer: blocks for an object of block size or more, one body otherwise.\<close>

definition cache_writer ::
  "('a, 'w) Service \<Rightarrow> string \<Rightarrow> string \<Rightarrow> CachedObjectMeta \<Rightarrow> body \<Rightarrow> version \<Rightarrow> bool \<Rightarrow> ('a, 'w) svc \<Rightarrow> ('a, 'w) svc \<times> err option" where
  "cache_writer s bucket key meta r expected blockMode st =
     (let ttl = TTL_Seconds (s_config s) in
      case (if blockMode then putBlocksFromStream s bucket key (meta\<lparr>BlockSize := svc_blockSize s\<rparr>) r ttl expected st
            else on_world (PutWithMetaStreamIfVersion (s_cache s) bucket key meta r ttl expected) st) of
        (st, Inl e) \<Rightarrow> (st, Some e)
      | (st, Inr _) \<Rightarrow> (st, None))"

text \<open>
  The write runs in its own task and holds the reservation until it returns. The supervisor waits for it up to the
  write deadline; a write that is still running then goes on alone.
\<close>

definition fetch_write ::
  "('a, 'w) Service \<Rightarrow> string \<Rightarrow> string \<Rightarrow> CachedObjectMeta \<Rightarrow> body \<Rightarrow> version \<Rightarrow> bool \<Rightarrow> int \<Rightarrow> ('a, 'w) svc \<Rightarrow> ('a, 'w) svc \<times> err option" where
  "fetch_write s bucket key meta r expected blockMode weight st =
     (if svc_stopping st then (release_slot weight st, Some CtxCanceled)
      else if s_late s (world st)
      then (fst (startBackgroundTask (LateWriter bucket key meta r expected weight blockMode) st), Some (EText ''cache write timeout''))
      else case cache_writer s bucket key meta r expected blockMode st of (st, e) \<Rightarrow> (release_slot weight st, e))"

text \<open>A write past its deadline: the reader ends with the context's error once the deadline has closed it.\<close>

definition contextBoundReader :: "nat option \<Rightarrow> body \<Rightarrow> body" where
  "contextBoundReader ended r = (case ended of None \<Rightarrow> r | Some n \<Rightarrow> (take n (fst r), Some CtxDeadlineExceeded))"

definition run_LateWriter ::
  "('a, 'w) Service \<Rightarrow> nat option \<Rightarrow> string \<Rightarrow> string \<Rightarrow> CachedObjectMeta \<Rightarrow> body \<Rightarrow> version \<Rightarrow> int \<Rightarrow> bool \<Rightarrow> ('a, 'w) svc \<Rightarrow> ('a, 'w) svc" where
  "run_LateWriter s ended bucket key meta r expected weight blockMode st =
     release_slot weight (fst (cache_writer s bucket key meta (contextBoundReader ended r) expected blockMode st))"

text \<open>
  Block representation needs a scratch buffer on top of the reservation held: a read miss gives up without it, a
  warm-on-write gives back what it holds and waits for both together.
\<close>

definition fetch_store ::
  "('a, 'w) Service \<Rightarrow> string \<Rightarrow> string \<Rightarrow> populatePriority \<Rightarrow> CachedObjectMeta \<Rightarrow> body \<Rightarrow> version \<Rightarrow> int \<Rightarrow> ('a, 'w) svc \<Rightarrow> ('a, 'w) svc \<times> err option" where
  "fetch_store s bucket key prio meta r expected weight st =
     (if \<not> svc_blockEligible s (ContentLength meta) then fetch_write s bucket key meta r expected False weight st
      else
        let scratch = svc_blockSize s; combined = wrap64 (weight + scratch) in
        case on_limits (tryAcquireCacheBytes scratch prio) st of
          (st, True) \<Rightarrow> fetch_write s bucket key meta r expected True combined st
        | (st, False) \<Rightarrow>
            if prio = priorityWarmWrite
            then (case acquireCacheSlot s combined priorityWarmWrite (release_slot weight st) of
                    (st, False) \<Rightarrow> (st, Some ErrCachePopulateDeclined)
                  | (st, True) \<Rightarrow> fetch_write s bucket key meta r expected True combined st)
            else (release_slot weight st, Some ErrCachePopulateDeclined))"

text \<open>What the answer allows: public-read is inferred only from a fetch without credentials.\<close>

definition fetched_headers :: "bool \<Rightarrow> header \<Rightarrow> header" where
  "fetched_headers anonymous h =
     (if anonymous \<and> header_get h ''X-Amz-Acl'' = [] then header_set h ''X-Amz-Acl'' ''public-read'' else h)"

definition fetch_answer ::
  "('a, 'w) Service \<Rightarrow> string \<Rightarrow> string \<Rightarrow> bool \<Rightarrow> populatePriority \<Rightarrow> version \<Rightarrow> int \<Rightarrow> Response \<Rightarrow> ('a, 'w) svc \<Rightarrow> ('a, 'w) svc \<times> err option" where
  "fetch_answer s bucket key anonymous prio expected weight resp st =
     (if resp_Status resp \<noteq> 200
      then (release_slot weight st,
            Some (if anonymous \<and> resp_Status resp = 403 then ErrCachePopulateDeclined
                  else EText (''unexpected status '' @ FormatInt (resp_Status resp) @ '' for background fetch'')))
      else if 0 < resp_ContentLength resp \<and> SizeThreshold (s_config s) < resp_ContentLength resp then (release_slot weight st, None)
      else if hasNoCacheHeaders (resp_Header resp) then (release_slot weight st, None)
      else
        let meta = MetaFromHTTPHeaders (s_now s (world st)) bucket key (resp_Status resp) (fetched_headers anonymous (resp_Header resp))
        in if \<not> IsCacheable meta (SizeThreshold (s_config s)) then (release_slot weight st, None)
           else fetch_store s bucket key prio meta (resp_Body resp) expected weight st)"

definition fetchFullObjectToCache ::
  "('a, 'w) Service \<Rightarrow> string \<Rightarrow> string \<Rightarrow> string \<Rightarrow> string \<Rightarrow> bool \<Rightarrow> populatePriority \<Rightarrow> version \<Rightarrow> ('a, 'w) svc \<Rightarrow> ('a, 'w) svc \<times> err option" where
  "fetchFullObjectToCache s bucket key accessKey secretKey anonymous prio expected st =
     (let weight = backgroundPopulateWeight (budget st) in
      case acquireCacheSlot s weight prio st of
        (st, False) \<Rightarrow> (st, Some ErrCachePopulateDeclined)
      | (st, True) \<Rightarrow>
          (case on_world (if anonymous then fw_DoAnonymousFullObjectRequest (forwarder s) bucket key
                          else fw_DoFullObjectRequest (forwarder s) bucket key accessKey secretKey) st of
             (st, Inl e) \<Rightarrow> (release_slot weight st, Some e)
           | (st, Inr resp) \<Rightarrow> fetch_answer s bucket key anonymous prio expected weight resp st))"

definition backgroundFetchKey :: "string \<Rightarrow> string \<Rightarrow> version \<Rightarrow> string" where
  "backgroundFetchKey bucket key expected = ''bg:'' @ bucket @ ''/'' @ key @ ''|'' @ FormatInt (uint expected)"

definition triggerBackgroundCacheFetch ::
  "string \<Rightarrow> string \<Rightarrow> string \<Rightarrow> string \<Rightarrow> bool \<Rightarrow> populatePriority \<Rightarrow> version \<Rightarrow> ('a, 'w) svc \<Rightarrow> ('a, 'w) svc" where
  "triggerBackgroundCacheFetch bucket key accessKey secretKey anonymous prio expected st =
     (let bcastKey = backgroundFetchKey bucket key expected in
      case LoadOrStore bcastKey st of
        (st, True) \<Rightarrow> st
      | (st, False) \<Rightarrow>
          (case startBackgroundTask (FullFetch bucket key accessKey secretKey anonymous prio expected) st of
             (st, True) \<Rightarrow> st
           | (st, False) \<Rightarrow> drop_marker bcastKey st))"

definition run_FullFetch ::
  "('a, 'w) Service \<Rightarrow> string \<Rightarrow> string \<Rightarrow> string \<Rightarrow> string \<Rightarrow> bool \<Rightarrow> populatePriority \<Rightarrow> version \<Rightarrow> ('a, 'w) svc \<Rightarrow> ('a, 'w) svc" where
  "run_FullFetch s bucket key accessKey secretKey anonymous prio expected st =
     drop_marker (backgroundFetchKey bucket key expected)
       (fst (fetchFullObjectToCache s bucket key accessKey secretKey anonymous prio expected st))"

section \<open>Warm-on-write (service.go)\<close>

definition warmToken :: "('a, 'w) Service \<Rightarrow> string \<Rightarrow> string \<Rightarrow> ('a, 'w) svc \<Rightarrow> ('a, 'w) svc \<times> version option" where
  "warmToken s bucket key st =
     (case on_world (GetMetaWithVersion (s_cache s) bucket key) st of
        (st, Inl _) \<Rightarrow> (st, None)
      | (st, Inr (_, version, _)) \<Rightarrow> (st, Some version))"

definition warmOnWrite :: "('a, 'w) Service \<Rightarrow> Request \<Rightarrow> string \<Rightarrow> string \<Rightarrow> ('a, 'w) svc \<Rightarrow> ('a, 'w) svc" where
  "warmOnWrite s r bucket key st =
     (if \<not> WarmOnWrite (cfg_budget (s_config s)) \<or> \<not> IsEnabled (s_cache s) then st
      else if IsTiered (cfg_budget (s_config s)) then st
      else if hasNoAuthCredentials r
      then (case warmToken s bucket key st of
              (st, None) \<Rightarrow> st
            | (st, Some warmTok) \<Rightarrow> triggerBackgroundCacheFetch bucket key [] [] True priorityWarmWrite warmTok st)
      else case on_fwd (fw_ValidateAndGetCredentials (forwarder s) r) st of
             (st, Inl _) \<Rightarrow> st
           | (st, Inr (_, accessKey, secretKey)) \<Rightarrow>
               if accessKey = [] \<or> secretKey = [] then st
               else case warmToken s bucket key st of
                      (st, None) \<Rightarrow> st
                    | (st, Some warmTok) \<Rightarrow>
                        triggerBackgroundCacheFetch bucket key accessKey secretKey False priorityWarmWrite warmTok st)"

section \<open>Writing through (write_through.go)\<close>

text \<open>A writer that keeps the first \<open>cap\<close> bytes, records that more came, and never fails.\<close>

record cappedBuffer =
  cb_buf :: string
  cb_cap :: int
  overflowed :: bool

definition capped_Write :: "string \<Rightarrow> cappedBuffer \<Rightarrow> cappedBuffer" where
  "capped_Write p c =
     (if overflowed c then c
      else
        let room = cb_cap c - int (length (cb_buf c)) in
        if int (length p) \<le> room then c\<lparr>cb_buf := cb_buf c @ p\<rparr>
        else c\<lparr>cb_buf := (if 0 < room then cb_buf c @ take (nat room) p else cb_buf c), overflowed := True\<rparr>)"

text \<open>How the upload is cut into writes does not matter.\<close>

lemma capped_Write_append: "capped_Write (p @ q) c = capped_Write q (capped_Write p c)"
proof (cases "overflowed c")
  case False
  define n where "n = nat (cb_cap c - int (length (cb_buf c)))"
  have "capped_Write p c = (if length p \<le> n \<and> int (length p) \<le> cb_cap c - int (length (cb_buf c)) then c\<lparr>cb_buf := cb_buf c @ p\<rparr>
      else c\<lparr>cb_buf := cb_buf c @ take n p, overflowed := True\<rparr>)" for p
    using False by (auto simp: capped_Write_def n_def Let_def)
  moreover have "nat (cb_cap c - int (length (cb_buf c @ p))) = n - length p" by (simp add: n_def)
  ultimately show ?thesis using False by (auto simp: capped_Write_def Let_def n_def)
qed (simp add: capped_Write_def)

record teeState =
  ts_buf :: cappedBuffer
  ts_respHeaders :: header
  ts_statusCode :: int
  ts_weight :: int
  ts_accessKey :: string
  ts_secretKey :: string

definition teeObjectSize :: "Request \<Rightarrow> int" where
  "teeObjectSize r =
     (let dcl = header_get (Header r) ''X-Amz-Decoded-Content-Length'' in
      case ParseInt dcl 10 of (n, ok) \<Rightarrow> if dcl \<noteq> [] \<and> ok \<and> 0 < n then n else ReqContentLength r)"

definition tee_eligible :: "('a, 'w) Service \<Rightarrow> Request \<Rightarrow> bool" where
  "tee_eligible s r =
     (let size = teeObjectSize r in
      fw_ForwardTeeingBody (forwarder s) \<noteq> None \<and> WarmOnWrite (cfg_budget (s_config s)) \<and> IsEnabled (s_cache s)
      \<and> \<not> hasNoAuthCredentials r \<and> 0 < size \<and> size < svc_blockSize s \<and> size \<le> SizeThreshold (s_config s))"

text \<open>
  The forward of a \<^verbatim>\<open>PutObject\<close>, with the tee when the object qualifies and the budget admits it: the tee, whether the
  request's own policy keeps it out of the cache, and the error.
\<close>

definition forwardPutMaybeTee ::
  "('a, 'w) Service \<Rightarrow> ResponseWriter \<Rightarrow> Request \<Rightarrow> body \<Rightarrow> ('a, 'w) svc
   \<Rightarrow> ('a, 'w) svc \<times> ResponseWriter \<times> teeState option \<times> bool \<times> err option" where
  "forwardPutMaybeTee s rw r body st =
     (let cacheControls = header_values (Header r) ''Cache-Control'';
          plain = (\<lambda>rejects st. case on_fwd (fw_Forward (forwarder s) rw r body) st of (st, rw, e) \<Rightarrow> (st, rw, None, rejects, e))
      in if WarmOnWrite (cfg_budget (s_config s)) \<and> IsEnabled (s_cache s) \<and> cacheControls \<noteq> [] \<and> hasNoCacheDirectives cacheControls
         then plain True st
         else if \<not> tee_eligible s r then plain False st
         else
           let size = teeObjectSize r in
           case acquireCacheSlot s size priorityReadMiss st of
             (st, False) \<Rightarrow> plain False st
           | (st, True) \<Rightarrow>
               (case on_fwd (the (fw_ForwardTeeingBody (forwarder s)) rw r body) st of
                  (st, rw, teed, status, headers, accessKey, secretKey, e) \<Rightarrow>
                    (st, rw,
                     Some \<lparr>ts_buf = capped_Write teed \<lparr>cb_buf = [], cb_cap = size, overflowed = False\<rparr>, ts_respHeaders = headers,
                           ts_statusCode = status, ts_weight = size, ts_accessKey = accessKey, ts_secretKey = secretKey\<rparr>,
                     False, e)))"

definition writeThroughCache :: "string \<Rightarrow> string \<Rightarrow> teeState \<Rightarrow> ('a, 'w) svc \<Rightarrow> ('a, 'w) svc \<times> bool" where
  "writeThroughCache bucket key ts st =
     (let putETag = header_get (ts_respHeaders ts) ''ETag'' in
      if overflowed (ts_buf ts) \<or> putETag = [] \<or> ts_accessKey ts = [] \<or> ts_secretKey ts = []
      then (release_slot (ts_weight ts) st, False)
      else case startBackgroundTask
                  (TeeWrite bucket key putETag (cb_buf (ts_buf ts)) (ts_accessKey ts) (ts_secretKey ts) (ts_weight ts)) st of
             (st, True) \<Rightarrow> (st, True)
           | (st, False) \<Rightarrow> (release_slot (ts_weight ts) st, False))"

datatype teeOutcome = teeCached | teeNotCacheable | teeFallbackWarm | teeShed

text \<open>The body is cached only under metadata the origin's own answer gives for exactly the version that was sent.\<close>

definition cacheTeedBodyFromHead ::
  "('a, 'w) Service \<Rightarrow> string \<Rightarrow> string \<Rightarrow> string \<Rightarrow> string \<Rightarrow> string \<Rightarrow> string \<Rightarrow> ('a, 'w) svc \<Rightarrow> ('a, 'w) svc \<times> teeOutcome" where
  "cacheTeedBodyFromHead s bucket key putETag body accessKey secretKey st =
     (case on_world (GetMetaWithVersion (s_cache s) bucket key) st of
        (st, Inl _) \<Rightarrow> (st, teeFallbackWarm)
      | (st, Inr (_, expected, _)) \<Rightarrow>
          (case on_world (fw_DoConditionalHeadRequest (forwarder s) bucket key accessKey secretKey [] 0) st of
             (st, Inl _) \<Rightarrow> (st, teeFallbackWarm)
           | (st, Inr resp) \<Rightarrow>
               if resp_Status resp \<noteq> 200 then (st, teeFallbackWarm)
               else if header_get (resp_Header resp) ''ETag'' \<noteq> putETag then (st, teeFallbackWarm)
               else
                 let meta = MetaFromHTTPHeaders (s_now s (world st)) bucket key 200 (resp_Header resp) in
                 if \<not> IsCacheable meta (SizeThreshold (s_config s)) then (st, teeNotCacheable)
                 else if ContentLength meta \<noteq> int (length body) then (st, teeFallbackWarm)
                 else case on_world (PutWithMetaStreamIfVersion (s_cache s) bucket key meta (body, None) (TTL_Seconds (s_config s)) expected) st of
                        (st, Inl e) \<Rightarrow> (st, if err_is e ErrPopulateShed then teeShed else teeFallbackWarm)
                      | (st, Inr wrote) \<Rightarrow> (st, if wrote then teeCached else teeFallbackWarm)))"

definition run_TeeWrite ::
  "('a, 'w) Service \<Rightarrow> string \<Rightarrow> string \<Rightarrow> string \<Rightarrow> string \<Rightarrow> string \<Rightarrow> string \<Rightarrow> int \<Rightarrow> ('a, 'w) svc \<Rightarrow> ('a, 'w) svc" where
  "run_TeeWrite s bucket key putETag body accessKey secretKey weight st =
     release_slot weight
       (case cacheTeedBodyFromHead s bucket key putETag body accessKey secretKey st of
          (st, outcome) \<Rightarrow>
            if outcome \<noteq> teeFallbackWarm then st
            else case warmToken s bucket key st of
                   (st, None) \<Rightarrow> st
                 | (st, Some warmTok) \<Rightarrow>
                     triggerBackgroundCacheFetch bucket key accessKey secretKey False priorityWarmWrite warmTok st)"

section \<open>Metadata on write (meta_on_write.go, tiered.go)\<close>

definition headObjectMeta ::
  "('a, 'w) Service \<Rightarrow> string \<Rightarrow> string \<Rightarrow> string \<Rightarrow> string \<Rightarrow> string \<Rightarrow> ('a, 'w) svc \<Rightarrow> ('a, 'w) svc \<times> CachedObjectMeta option" where
  "headObjectMeta s bucket key accessKey secretKey expectETag st =
     (case on_world (fw_DoConditionalHeadRequest (forwarder s) bucket key accessKey secretKey [] 0) st of
        (st, Inl _) \<Rightarrow> (st, None)
      | (st, Inr resp) \<Rightarrow>
          if resp_Status resp \<noteq> 200 \<or> header_get (resp_Header resp) ''ETag'' \<noteq> expectETag then (st, None)
          else (st, Some ((MetaFromHTTPHeaders (s_now s (world st)) bucket key 200 (resp_Header resp))\<lparr>ETag := expectETag\<rparr>)))"

definition establishBlockMetaFromHead ::
  "('a, 'w) Service \<Rightarrow> string \<Rightarrow> string \<Rightarrow> string \<Rightarrow> string \<Rightarrow> string \<Rightarrow> ('a, 'w) svc \<Rightarrow> ('a, 'w) svc" where
  "establishBlockMetaFromHead s bucket key accessKey secretKey writtenETag st =
     (case on_world (GetMetaWithVersion (s_cache s) bucket key) st of
        (st, Inl _) \<Rightarrow> st
      | (st, Inr (_, expected, found)) \<Rightarrow>
          if found then st
          else case headObjectMeta s bucket key accessKey secretKey writtenETag st of
                 (st, None) \<Rightarrow> st
               | (st, Some meta) \<Rightarrow>
                   if \<not> IsCacheable meta (SizeThreshold (s_config s)) then st
                   else if \<not> svc_blockEligible s (ContentLength meta) then st
                   else finalizeBlockModeMeta s bucket key (meta\<lparr>BlockSize := svc_blockSize s\<rparr>) expected st)"

definition cacheBlockMetaOnWrite :: "('a, 'w) Service \<Rightarrow> Request \<Rightarrow> string \<Rightarrow> string \<Rightarrow> string \<Rightarrow> ('a, 'w) svc \<Rightarrow> ('a, 'w) svc" where
  "cacheBlockMetaOnWrite s r bucket key writtenETag st =
     (if \<not> MetaOnWrite (s_config s) \<or> \<not> IsEnabled (s_cache s) then st
      else if \<not> IsBlockCachingEnabled (cfg_budget (s_config s)) \<or> svc_blockSize s \<le> 0 then st
      else if writtenETag = [] then st
      else case on_fwd (fw_ValidateAndGetCredentials (forwarder s) r) st of
             (st, Inl _) \<Rightarrow> st
           | (st, Inr (_, accessKey, secretKey)) \<Rightarrow>
               if accessKey = [] \<or> secretKey = [] then st
               else
                 let dedupKey = ''meta:'' @ bucket @ ''/'' @ key in
                 case LoadOrStore dedupKey st of
                   (st, True) \<Rightarrow> st
                 | (st, False) \<Rightarrow>
                     (case startBackgroundTask (MetaFromHead bucket key accessKey secretKey writtenETag) st of
                        (st, True) \<Rightarrow> st
                      | (st, False) \<Rightarrow> drop_marker dedupKey st))"

definition run_MetaFromHead :: "('a, 'w) Service \<Rightarrow> string \<Rightarrow> string \<Rightarrow> string \<Rightarrow> string \<Rightarrow> string \<Rightarrow> ('a, 'w) svc \<Rightarrow> ('a, 'w) svc" where
  "run_MetaFromHead s bucket key accessKey secretKey writtenETag st =
     drop_marker (''meta:'' @ bucket @ ''/'' @ key) (establishBlockMetaFromHead s bucket key accessKey secretKey writtenETag st)"

end
