(* ===== verification/Block_Serve.thy ===== *)
theory Block_Serve
  imports Parquet_Footer S3_Errors
begin

text \<open>
  Serving full objects and ranges from block-mode entries (\<^verbatim>\<open>proxy/block_cache.go\<close>): the committed streams with
  their salvage from upstream, and the serve paths that stage bytes before committing. Counters are left out.
\<close>

section \<open>Committed streams\<close>

definition maxInlineFetchesPerServe :: int where
  "maxInlineFetchesPerServe = 2"

text \<open>
  A block read straight into the client's connection: how many bytes were written, and whether the error is the
  client's.
\<close>

definition stream_to_client ::
  "('a, 'w) Service \<Rightarrow> string \<Rightarrow> string \<Rightarrow> CachedObjectMeta \<Rightarrow> int \<Rightarrow> int \<Rightarrow> int \<Rightarrow> ResponseWriter \<Rightarrow> ('a, 'w) svc
   \<Rightarrow> ('a, 'w) svc \<times> ResponseWriter \<times> nat \<times> bool \<times> err option" where
  "stream_to_client s bucket key meta idx localStart localEnd rw st =
     (case getBlockRangeStream s bucket key meta idx localStart localEnd st of
        (st, out, e) \<Rightarrow>
          if out = [] then (st, rw, 0, False, e)
          else case rw_Write out rw of
                 (rw, n, Some we) \<Rightarrow> (st, rw, n, True, Some we)
               | (rw, n, None) \<Rightarrow> (st, rw, n, False, e))"

fun sequential_blocks ::
  "('a, 'w) Service \<Rightarrow> 'w ctx \<Rightarrow> string \<Rightarrow> string \<Rightarrow> string \<Rightarrow> string \<Rightarrow> CachedObjectMeta \<Rightarrow> int \<Rightarrow> int \<Rightarrow> int list \<Rightarrow> int \<Rightarrow> ResponseWriter \<Rightarrow> ('a, 'w) svc
   \<Rightarrow> ('a, 'w) svc \<times> ResponseWriter \<times> err option" where
  "sequential_blocks s ctx bucket key ak sk meta start end' [] left rw st = (st, rw, None)"
| "sequential_blocks s ctx bucket key ak sk meta start end' (i # is) left rw st =
     (case blockLocalRange i start end' (BlockSize meta) (ContentLength meta) of
        (localStart, localEnd) \<Rightarrow>
          (let finish = (\<lambda>(st, rw, n, clientErr, berr) left.
                 case berr of
                   None \<Rightarrow> sequential_blocks s ctx bucket key ak sk meta start end' is left rw st
                 | Some e \<Rightarrow>
                     if clientErr then (st, rw, Some e)
                     else (st, rw, Some (EWrap (''block '' @ FormatInt i @ '' stream failed ('' @ Error e @ ''): '' @ Error ErrBlockStreamDegraded)
                                          [e, ErrBlockStreamDegraded])))
           in case stream_to_client s bucket key meta i localStart localEnd rw st of
                (st, rw, n, clientErr, berr) \<Rightarrow>
                  if (case berr of Some e \<Rightarrow> err_is e ErrNotFound | None \<Rightarrow> False) \<and> n = 0 then
                    (if left \<le> 0 then (st, rw, Some errBlocksMostlyAbsent)
                     else case fetchBlocksToCache s ctx bucket key ak sk meta [i] st of
                            (st, Some ferr) \<Rightarrow>
                              (st, rw, Some (if stale_signal ferr then ferr
                                 else EWrap (''block '' @ FormatInt i @ '' inline fetch failed ('' @ Error ferr @ ''): '' @ Error ErrBlockStreamDegraded)
                                        [ferr, ErrBlockStreamDegraded]))
                          | (st, None) \<Rightarrow> finish (stream_to_client s bucket key meta i localStart localEnd rw st) (left - 1))
                  else finish (st, rw, n, clientErr, berr) left))"

definition streamBlockRangeSequential ::
  "('a, 'w) Service \<Rightarrow> 'w ctx \<Rightarrow> string \<Rightarrow> string \<Rightarrow> string \<Rightarrow> string \<Rightarrow> CachedObjectMeta \<Rightarrow> int \<Rightarrow> int \<Rightarrow> ResponseWriter \<Rightarrow> ('a, 'w) svc
   \<Rightarrow> ('a, 'w) svc \<times> ResponseWriter \<times> err option" where
  "streamBlockRangeSequential s ctx bucket key ak sk meta start end' rw st =
     (case coveringBlocks start end' (BlockSize meta) of
        (b0, bK) \<Rightarrow> sequential_blocks s ctx bucket key ak sk meta start end' [b0..bK] maxInlineFetchesPerServe rw st)"

text \<open>
  The prefetch window: \<open>pending\<close> are the reads under way, in the order of their blocks, with their outcome;
  \<open>rest\<close> are the blocks not read yet. Each block written makes room for one more read.
\<close>

definition start_read ::
  "string \<Rightarrow> ('a, 'w) Service \<Rightarrow> string \<Rightarrow> string \<Rightarrow> CachedObjectMeta \<Rightarrow> int \<Rightarrow> int \<Rightarrow> int \<Rightarrow> ('a, 'w) svc \<Rightarrow> ('a, 'w) svc \<times> int \<times> string \<times> err option" where
  "start_read what s bucket key meta start end' i st =
     (case blockLocalRange i start end' (BlockSize meta) (ContentLength meta) of
        (localStart, localEnd) \<Rightarrow>
          (case read_slice what s bucket key meta i localStart localEnd st of (st, out, e) \<Rightarrow> (st, i, out, e)))"

fun start_reads ::
  "('a, 'w) Service \<Rightarrow> string \<Rightarrow> string \<Rightarrow> CachedObjectMeta \<Rightarrow> int \<Rightarrow> int \<Rightarrow> int list \<Rightarrow> ('a, 'w) svc \<Rightarrow> ('a, 'w) svc \<times> (int \<times> string \<times> err option) list" where
  "start_reads s bucket key meta start end' [] st = (st, [])"
| "start_reads s bucket key meta start end' (i # is) st =
     (case start_read ''stream'' s bucket key meta start end' i st of
        (st, r) \<Rightarrow> (case start_reads s bucket key meta start end' is st of (st, rs) \<Rightarrow> (st, r # rs)))"

function pipelined_blocks ::
  "('a, 'w) Service \<Rightarrow> 'w ctx \<Rightarrow> string \<Rightarrow> string \<Rightarrow> string \<Rightarrow> string \<Rightarrow> CachedObjectMeta \<Rightarrow> int \<Rightarrow> int \<Rightarrow> (int \<times> string \<times> err option) list \<Rightarrow> int list
   \<Rightarrow> int option \<Rightarrow> ResponseWriter \<Rightarrow> ('a, 'w) svc \<Rightarrow> ('a, 'w) svc \<times> ResponseWriter \<times> err option" where
  "pipelined_blocks s ctx bucket key ak sk meta start end' [] rest left rw st = (st, rw, None)"
| "pipelined_blocks s ctx bucket key ak sk meta start end' ((i, out, e) # pending) rest left rw st =
     (case blockLocalRange i start end' (BlockSize meta) (ContentLength meta) of
        (localStart, localEnd) \<Rightarrow>
          (case (case e of
                   None \<Rightarrow> (st, Inr out, left)
                 | Some x \<Rightarrow>
                     if err_is x ErrNotFound then recoverMissingBlockSlice s ctx bucket key ak sk meta i localStart localEnd left st
                     else (st, Inl (blockReadSliceError i x), left)) of
             (st, Inl x, left) \<Rightarrow> (st, rw, Some x)
           | (st, Inr buf, left) \<Rightarrow>
               (case rw_Write buf rw of
                  (rw, n, Some werr) \<Rightarrow> (st, rw, Some werr)
                | (rw, n, None) \<Rightarrow>
                    (case rest of
                       [] \<Rightarrow> pipelined_blocks s ctx bucket key ak sk meta start end' pending [] left rw st
                     | j # rest \<Rightarrow>
                         (case start_read ''stream'' s bucket key meta start end' j st of
                            (st, r) \<Rightarrow> pipelined_blocks s ctx bucket key ak sk meta start end' (pending @ [r]) rest left rw st)))))"
  by pat_completeness auto
termination
  by (relation "measure (\<lambda>(s, ctx, bucket, key, ak, sk, meta, start, end', pending, rest, left, rw, st). length pending + length rest)") auto

definition streamBlockRangePipelined ::
  "('a, 'w) Service \<Rightarrow> 'w ctx \<Rightarrow> string \<Rightarrow> string \<Rightarrow> string \<Rightarrow> string \<Rightarrow> CachedObjectMeta \<Rightarrow> int \<Rightarrow> int \<Rightarrow> nat \<Rightarrow> ResponseWriter \<Rightarrow> ('a, 'w) svc
   \<Rightarrow> ('a, 'w) svc \<times> ResponseWriter \<times> err option" where
  "streamBlockRangePipelined s ctx bucket key ak sk meta start end' window rw st =
     (case coveringBlocks start end' (BlockSize meta) of
        (b0, bK) \<Rightarrow>
          (case start_reads s bucket key meta start end' (take window [b0..bK]) st of
             (st, pending) \<Rightarrow>
               pipelined_blocks s ctx bucket key ak sk meta start end' pending (drop window [b0..bK]) (Some maxInlineFetchesPerServe) rw st))"

text \<open>The rest of a committed response from upstream, uncached.\<close>

definition streamRemainderFromUpstream ::
  "('a, 'w) Service \<Rightarrow> string \<Rightarrow> string \<Rightarrow> string \<Rightarrow> string \<Rightarrow> CachedObjectMeta \<Rightarrow> int \<Rightarrow> int \<Rightarrow> ResponseWriter \<Rightarrow> ('a, 'w) svc
   \<Rightarrow> ('a, 'w) svc \<times> ResponseWriter \<times> err option" where
  "streamRemainderFromUpstream s bucket key ak sk meta absStart absEnd rw st =
     (case on_world (fw_DoConditionalGetRequest (forwarder s) bucket key ak sk [] 0
                      (''bytes='' @ FormatInt absStart @ ''-'' @ FormatInt absEnd)) st of
        (st, Inl e) \<Rightarrow> (st, rw, Some e)
      | (st, Inr resp) \<Rightarrow>
          (let respETag = header_get (resp_Header resp) ''ETag'' in
           if resp_Status resp = 404 then (invalidateStaleMeta s bucket key (ETag meta) st, rw, Some ErrBlockUpstreamGone)
           else if resp_Status resp \<noteq> 206
           then (st, rw, Some (EText (''remainder fetch: unexpected status '' @ FormatInt (resp_Status resp) @ '' (want 206)'')))
           else if respETag = [] then (st, rw, Some (EText ''remainder fetch: response missing ETag, cannot verify version''))
           else if respETag \<noteq> ETag meta then (invalidateStaleMeta s bucket key (ETag meta) st, rw, Some ErrBlockETagMismatch)
           else case parseContentRange (header_get (resp_Header resp) ''Content-Range'') of
                  (rs, re, _, ok) \<Rightarrow>
                    if \<not> ok \<or> rs \<noteq> absStart \<or> re \<noteq> absEnd
                    then (st, rw, Some (EText (''remainder fetch: content-range bounds '' @ FormatInt rs @ ''-'' @ FormatInt re @ '' (ok=''
                                @ (if ok then ''true'' else ''false'') @ ''), want '' @ FormatInt absStart @ ''-'' @ FormatInt absEnd)))
                    else
                      let want = slice_len absStart absEnd in
                      case io_Copy (resp_Body resp) rw of
                        (rw, n, Some e) \<Rightarrow> (st, rw, Some e)
                      | (rw, n, None) \<Rightarrow>
                          (st, rw,
                           if int n \<noteq> want
                           then Some (EText (''remainder fetch: body '' @ FormatInt (int n) @ '' bytes, want '' @ FormatInt want)) else None)))"

text \<open>The largest prefetch window, of at least two blocks, whose bytes can be staged.\<close>

fun pick_window :: "('a, 'w) Service \<Rightarrow> int \<Rightarrow> int list \<Rightarrow> ('a, 'w) svc \<Rightarrow> ('a, 'w) svc \<times> int option" where
  "pick_window s bs [] st = (st, None)"
| "pick_window s bs (window # ws) st =
     (case try_staging (stagingWeight (cfg_budget (s_config s)) (wrap64 (window * bs))) st of
        (st, True) \<Rightarrow> (st, Some window)
      | (st, False) \<Rightarrow> pick_window s bs ws st)"

definition stream_from_cache ::
  "('a, 'w) Service \<Rightarrow> 'w ctx \<Rightarrow> string \<Rightarrow> string \<Rightarrow> string \<Rightarrow> string \<Rightarrow> CachedObjectMeta \<Rightarrow> int \<Rightarrow> int \<Rightarrow> ResponseWriter \<Rightarrow> ('a, 'w) svc
   \<Rightarrow> ('a, 'w) svc \<times> ResponseWriter \<times> err option" where
  "stream_from_cache s ctx bucket key ak sk meta start end' rw st =
     (case coveringBlocks start end' (BlockSize meta) of
        (b0, bK) \<Rightarrow>
          if b0 = bK then streamBlockRangeSequential s ctx bucket key ak sk meta start end' rw st
          else
            let requested = min (wrap64 (wrap64 (bK - b0) + 1)) maxRangeBlockFanout in
            case pick_window s (BlockSize meta) (rev [2..requested]) st of
              (st, None) \<Rightarrow> streamBlockRangeSequential s ctx bucket key ak sk meta start end' rw st
            | (st, Some window) \<Rightarrow>
                (case streamBlockRangePipelined s ctx bucket key ak sk meta start end' (nat window) rw st of
                   (st, rw, e) \<Rightarrow>
                     (release_staging (stagingWeight (cfg_budget (s_config s)) (wrap64 (window * BlockSize meta))) st, rw, e)))"

definition streamBlockRangeWithFooterRange ::
  "('a, 'w) Service \<Rightarrow> 'w ctx \<Rightarrow> string \<Rightarrow> string \<Rightarrow> string \<Rightarrow> string \<Rightarrow> CachedObjectMeta \<Rightarrow> int \<Rightarrow> int \<Rightarrow> int \<Rightarrow> int \<Rightarrow> ResponseWriter \<Rightarrow> ('a, 'w) svc
   \<Rightarrow> ('a, 'w) svc \<times> ResponseWriter \<times> err option" where
  "streamBlockRangeWithFooterRange s ctx bucket key ak sk meta start end' footerStart footerEnd rw st =
     (let delivered = length (rw_body rw) in
      case stream_from_cache s ctx bucket key ak sk meta start end' rw st of
        (st, rw, None) \<Rightarrow> (maybePrefetchParquetFooter s bucket key ak sk meta footerStart footerEnd None st, rw, None)
      | (st, rw, Some e) \<Rightarrow>
          (let absStart = start + (int (length (rw_body rw)) - int delivered) in
           if err_is e ErrBlockStreamDegraded \<and> ctx (world st) = None \<and> absStart \<le> end' then
             (case streamRemainderFromUpstream s bucket key ak sk meta absStart end' rw st of
                (st, rw, Some re) \<Rightarrow> (st, rw, Some re)
              | (st, rw, None) \<Rightarrow>
                  (if err_is e errBlocksMostlyAbsent then invalidateStaleMeta s bucket key (ETag meta) st else st, rw, None))
           else (st, rw, Some e)))"

definition streamBlockRange ::
  "('a, 'w) Service \<Rightarrow> 'w ctx \<Rightarrow> string \<Rightarrow> string \<Rightarrow> string \<Rightarrow> string \<Rightarrow> CachedObjectMeta \<Rightarrow> int \<Rightarrow> int \<Rightarrow> ResponseWriter \<Rightarrow> ('a, 'w) svc
   \<Rightarrow> ('a, 'w) svc \<times> ResponseWriter \<times> err option" where
  "streamBlockRange s ctx bucket key ak sk meta start end' rw st =
     streamBlockRangeWithFooterRange s ctx bucket key ak sk meta start end' start end' rw st"

section \<open>Committing a response\<close>

definition commit_range :: "CachedObjectMeta \<Rightarrow> int \<Rightarrow> int \<Rightarrow> ResponseWriter \<Rightarrow> ResponseWriter" where
  "commit_range meta start end' rw =
     WriteHeader 206 (writeCacheStatus (write_meta_headers meta [WithRangeHeaders start end' (ContentLength meta)] rw) ''HIT'')"

definition commit_full :: "CachedObjectMeta \<Rightarrow> ResponseWriter \<Rightarrow> ResponseWriter" where
  "commit_full meta rw = WriteHeader (StatusCode meta) (writeCacheStatus (write_meta_headers meta [] rw) ''HIT'')"

definition writeRangeNotSatisfiable :: "('a, 'w) Service \<Rightarrow> Request \<Rightarrow> CachedObjectMeta \<Rightarrow> ResponseWriter \<Rightarrow> ('a, 'w) svc \<Rightarrow> ResponseWriter" where
  "writeRangeNotSatisfiable s r meta rw st =
     WriteError (mint_id s (world st))
       (writeCacheStatus (set_header ''Content-Range'' (''bytes */'' @ FormatInt (ContentLength meta)) rw) ''HIT'') r ''InvalidRange''"

section \<open>Assembled ranges\<close>

text \<open>The first pass over the covering blocks: the slice of each, or \<open>None\<close> for a block that is missing.\<close>

fun assemble_pass ::
  "('a, 'w) Service \<Rightarrow> string \<Rightarrow> string \<Rightarrow> CachedObjectMeta \<Rightarrow> int \<Rightarrow> int \<Rightarrow> int list \<Rightarrow> ('a, 'w) svc \<Rightarrow> ('a, 'w) svc \<times> (int \<times> string option) list result" where
  "assemble_pass s bucket key meta start end' [] st = (st, Inr [])"
| "assemble_pass s bucket key meta start end' (i # is) st =
     (case start_read ''assembly'' s bucket key meta start end' i st of
        (st, _, out, e) \<Rightarrow>
          if (case e of Some x \<Rightarrow> \<not> err_is x ErrNotFound | None \<Rightarrow> False) then (st, Inl (the e))
          else case assemble_pass s bucket key meta start end' is st of
                 (st, Inl x) \<Rightarrow> (st, Inl x)
               | (st, Inr parts) \<Rightarrow> (st, Inr ((i, if e = None then Some out else None) # parts)))"

text \<open>The second pass: a fetched block from its lease, one that another writer stored by reading it again.\<close>

definition reread_block ::
  "('a, 'w) Service \<Rightarrow> string \<Rightarrow> string \<Rightarrow> CachedObjectMeta \<Rightarrow> int \<Rightarrow> int \<Rightarrow> int \<Rightarrow> ('a, 'w) svc \<Rightarrow> ('a, 'w) svc \<times> string result" where
  "reread_block s bucket key meta i localStart localEnd st =
     (let n = slice_len localStart localEnd in
      case sliced_read s bucket key meta i localStart localEnd st of
        (st, out, e) \<Rightarrow>
          if e \<noteq> None \<or> int (length out) \<noteq> n then
            (st, Inl (EText (''block '' @ FormatInt i @ '' assembly: fetched block unreadable (err=''
               @ (case e of None \<Rightarrow> ''<nil>'' | Some x \<Rightarrow> Error x) @ '', '' @ FormatInt (int (length out)) @ '' of ''
               @ FormatInt n @ '' bytes)'')))
          else (st, Inr out))"

fun fill_missing ::
  "('a, 'w) Service \<Rightarrow> string \<Rightarrow> string \<Rightarrow> CachedObjectMeta \<Rightarrow> int \<Rightarrow> int \<Rightarrow> (int \<times> string) list \<Rightarrow> (int \<times> string option) list \<Rightarrow> ('a, 'w) svc
   \<Rightarrow> ('a, 'w) svc \<times> string result" where
  "fill_missing s bucket key meta start end' leases [] st = (st, Inr [])"
| "fill_missing s bucket key meta start end' leases ((i, part) # parts) st =
     (case (case part of
              Some out \<Rightarrow> (st, Inr out)
            | None \<Rightarrow>
                (case blockLocalRange i start end' (BlockSize meta) (ContentLength meta) of
                   (localStart, localEnd) \<Rightarrow>
                     (case map_of leases i of
                        Some data \<Rightarrow> (st, Inr (slice_of data localStart localEnd))
                      | None \<Rightarrow>
                          reread_block s bucket key meta i localStart localEnd st))) of
        (st, Inl e) \<Rightarrow> (st, Inl e)
      | (st, Inr out) \<Rightarrow>
          (case fill_missing s bucket key meta start end' leases parts st of
             (st, Inl e) \<Rightarrow> (st, Inl e)
           | (st, Inr bytes) \<Rightarrow> (st, Inr (out @ bytes))))"

definition assemble_range ::
  "('a, 'w) Service \<Rightarrow> string \<Rightarrow> string \<Rightarrow> string \<Rightarrow> string \<Rightarrow> CachedObjectMeta \<Rightarrow> byteRange \<Rightarrow> ('a, 'w) svc \<Rightarrow> ('a, 'w) svc \<times> string result" where
  "assemble_range s bucket key ak sk meta rng st =
     (case coveringBlocks (rng_start rng) (rng_end rng) (BlockSize meta) of
        (b0, bK) \<Rightarrow>
          (case assemble_pass s bucket key meta (rng_start rng) (rng_end rng) [b0..bK] st of
             (st, Inl e) \<Rightarrow> (st, Inl e)
           | (st, Inr parts) \<Rightarrow>
               (let missing = map fst (filter (\<lambda>p. snd p = None) parts) in
                case (if missing = [] then (st, Inr []) else fetchBlocksForAssembly s bucket key ak sk meta missing st) of
                  (st, Inl e) \<Rightarrow> (st, Inl e)
                | (st, Inr leases) \<Rightarrow> fill_missing s bucket key meta (rng_start rng) (rng_end rng) leases parts st)))"

definition serveAssembledRange ::
  "('a, 'w) Service \<Rightarrow> string \<Rightarrow> string \<Rightarrow> string \<Rightarrow> string \<Rightarrow> CachedObjectMeta \<Rightarrow> byteRange \<Rightarrow> ResponseWriter \<Rightarrow> ('a, 'w) svc
   \<Rightarrow> ('a, 'w) svc \<times> ResponseWriter \<times> bool \<times> err option" where
  "serveAssembledRange s bucket key ak sk meta rng rw st =
     (case assemble_range s bucket key ak sk meta rng st of
        (st, Inl e) \<Rightarrow> (st, rw, False, Some e)
      | (st, Inr buf) \<Rightarrow>
          (case rw_Write buf (commit_range meta (rng_start rng) (rng_end rng) rw) of
             (rw, n, Some werr) \<Rightarrow> (st, rw, True, Some werr)
           | (rw, n, None) \<Rightarrow>
               (maybePrefetchParquetFooter s bucket key ak sk meta (rng_start rng) (rng_end rng) (Some buf) st, rw, True, None)))"

section \<open>Certified ranges\<close>

text \<open>Writing the staged slices in order.\<close>

fun write_slices :: "string list \<Rightarrow> ResponseWriter \<Rightarrow> ResponseWriter \<times> err option" where
  "write_slices [] rw = (rw, None)"
| "write_slices (b # bs) rw =
     (case rw_Write b rw of
        (rw, n, Some e) \<Rightarrow> (rw, Some e)
      | (rw, n, None) \<Rightarrow> if n \<noteq> length b then (rw, Some ErrShortWrite) else write_slices bs rw)"

text \<open>
  The verdict on the staged reads: all hits, a reason to go through the probes, or an error. When both the first slice
  and a later one failed, \<^verbatim>\<open>select\<close> may see either of them first.
\<close>

datatype staged = AllHit | RetryProbe | StageError "err option"

definition ctx_stopped :: "err \<Rightarrow> bool" where
  "ctx_stopped e \<longleftrightarrow> err_is e CtxCanceled \<or> err_is e CtxDeadlineExceeded"

definition head_verdict :: "int \<Rightarrow> err \<Rightarrow> staged" where
  "head_verdict b0 e =
     (if ctx_stopped e then StageError (Some (blockReadSliceError b0 e))
      else if err_is e ErrNotFound then RetryProbe
      else StageError (Some (blockReadSliceError b0 e)))"

definition tail_verdict :: "int \<Rightarrow> err \<Rightarrow> staged" where
  "tail_verdict i e = (if ctx_stopped e then StageError (Some (blockReadSliceError i e)) else RetryProbe)"

definition failures :: "(int \<Rightarrow> bool) \<Rightarrow> (int \<times> string \<times> err option) list \<Rightarrow> (int \<times> err) list" where
  "failures p rds = [(i, e). (i, out, Some e) \<leftarrow> rds, p i]"

definition staged_verdict :: "err option \<Rightarrow> bool \<Rightarrow> int \<Rightarrow> (int \<times> string \<times> err option) list \<Rightarrow> staged" where
  "staged_verdict ctxErr firstSeen b0 rds =
     (if ctxErr \<noteq> None then StageError ctxErr
      else case (failures (\<lambda>i. i = b0) rds, failures (\<lambda>i. i \<noteq> b0) rds) of
             ([], []) \<Rightarrow> AllHit
           | ((_, e) # _, []) \<Rightarrow> head_verdict b0 e
           | ([], (i, e) # _) \<Rightarrow> tail_verdict i e
           | ((_, e) # _, (i, e') # _) \<Rightarrow> if firstSeen then head_verdict b0 e else tail_verdict i e')"

definition staged_bytes :: "CachedObjectMeta \<Rightarrow> byteRange \<Rightarrow> int list \<Rightarrow> int" where
  "staged_bytes meta rng is =
     foldl (\<lambda>off i. case blockLocalRange i (rng_start rng) (rng_end rng) (BlockSize meta) (ContentLength meta) of
                      (localStart, localEnd) \<Rightarrow> wrap64 (off + slice_len localStart localEnd)) 0 is"

definition serveCertifiedRange ::
  "('a, 'w) Service \<Rightarrow> 'w ctx \<Rightarrow> string \<Rightarrow> string \<Rightarrow> string \<Rightarrow> string \<Rightarrow> CachedObjectMeta \<Rightarrow> byteRange \<Rightarrow> int \<Rightarrow> ResponseWriter \<Rightarrow> ('a, 'w) svc
   \<Rightarrow> ('a, 'w) svc \<times> ResponseWriter \<times> bool \<times> bool \<times> err option" where
  "serveCertifiedRange s ctx bucket key ak sk meta rng weight rw st =
     (case coveringBlocks (rng_start rng) (rng_end rng) (BlockSize meta) of
        (b0, bK) \<Rightarrow>
          (let rangeLen = slice_len (rng_start rng) (rng_end rng); off = staged_bytes meta rng [b0..bK] in
           if off \<noteq> rangeLen then
             (release_staging weight st, rw, False, False,
              Some (EText (''block range assembly: staged '' @ FormatInt off @ '' of '' @ FormatInt rangeLen @ '' bytes'')))
           else case start_reads s bucket key meta (rng_start rng) (rng_end rng) [b0..bK] st of
             (st, rds) \<Rightarrow>
               (case staged_verdict (ctx (world st)) (s_select s (world st)) b0 rds of
                  StageError e \<Rightarrow> (release_staging weight st, rw, False, False, e)
                | RetryProbe \<Rightarrow> (release_staging weight st, rw, False, True, None)
                | AllHit \<Rightarrow>
                    (case write_slices (map (fst \<circ> snd) rds) (commit_range meta (rng_start rng) (rng_end rng) rw) of
                       (rw, Some e) \<Rightarrow> (release_staging weight st, rw, True, False, Some e)
                     | (rw, None) \<Rightarrow>
                         (release_staging weight (maybePrefetchParquetFooter s bucket key ak sk meta (rng_start rng) (rng_end rng) None st),
                          rw, True, False, None)))))"

section \<open>Complete entries\<close>

definition serveCompleteFromBlocks ::
  "('a, 'w) Service \<Rightarrow> 'w ctx \<Rightarrow> string \<Rightarrow> string \<Rightarrow> string \<Rightarrow> string \<Rightarrow> CachedObjectMeta \<Rightarrow> byteRange option \<Rightarrow> ResponseWriter \<Rightarrow> ('a, 'w) svc
   \<Rightarrow> ('a, 'w) svc \<times> ResponseWriter \<times> bool \<times> err option" where
  "serveCompleteFromBlocks s ctx bucket key ak sk meta rng rw st =
     (let start = (case rng of Some r \<Rightarrow> rng_start r | None \<Rightarrow> 0);
          end' = (case rng of Some r \<Rightarrow> rng_end r | None \<Rightarrow> wrap64 (ContentLength meta - 1));
          b0 = fst (coveringBlocks start end' (BlockSize meta));
          blockStart = fst (blockBounds b0 (BlockSize meta) (ContentLength meta));
          (firstLocalStart, firstLocalEnd) = blockLocalRange b0 start end' (BlockSize meta) (ContentLength meta);
          firstAbsEnd = wrap64 (blockStart + firstLocalEnd)
      in case readBlockSlice s ctx bucket key ak sk meta b0 firstLocalStart firstLocalEnd None st of
           (st, Inl e, _) \<Rightarrow> (st, rw, False, Some e)
         | (st, Inr buf, _) \<Rightarrow>
             (case rw_Write buf (case rng of Some _ \<Rightarrow> commit_range meta start end' rw | None \<Rightarrow> commit_full meta rw) of
                (rw, n, Some werr) \<Rightarrow> (st, rw, True, Some werr)
              | (rw, n, None) \<Rightarrow>
                  if n \<noteq> length buf then (st, rw, True, Some ErrShortWrite)
                  else if firstAbsEnd < end' then
                    (case streamBlockRangeWithFooterRange s ctx bucket key ak sk meta (firstAbsEnd + 1) end' start end' rw st of
                       (st, rw, e) \<Rightarrow> (st, rw, True, e))
                  else (st, rw, True, None)))"

section \<open>The serve paths\<close>

text \<open>
  A range is served by the first path that applies: assembled in memory when it is at most a block, certified when the
  entry's certificate spans it, from the block list when the entry is complete, and after probing every block otherwise.
\<close>

definition serve_probed_range ::
  "('a, 'w) Service \<Rightarrow> 'w ctx \<Rightarrow> string \<Rightarrow> string \<Rightarrow> string \<Rightarrow> string \<Rightarrow> CachedObjectMeta \<Rightarrow> byteRange \<Rightarrow> ResponseWriter \<Rightarrow> ('a, 'w) svc
   \<Rightarrow> ('a, 'w) svc \<times> ResponseWriter \<times> bool \<times> err option" where
  "serve_probed_range s ctx bucket key ak sk meta rng rw st =
     (case coveringBlocks (rng_start rng) (rng_end rng) (BlockSize meta) of
        (b0, bK) \<Rightarrow>
          (case ensureBlocksCached s ctx bucket key ak sk meta b0 bK False maxRangeBlockFanout st of
             (st, Some e) \<Rightarrow> (st, rw, False, if err_is e ErrBlockAssemblyWouldAmplify then None else Some e)
           | (st, None) \<Rightarrow>
               (case streamBlockRange s ctx bucket key ak sk meta (rng_start rng) (rng_end rng)
                       (commit_range meta (rng_start rng) (rng_end rng) rw) st of
                  (st, rw, e) \<Rightarrow> (st, rw, True, e))))"

definition serve_complete_range ::
  "('a, 'w) Service \<Rightarrow> 'w ctx \<Rightarrow> string \<Rightarrow> string \<Rightarrow> string \<Rightarrow> string \<Rightarrow> CachedObjectMeta \<Rightarrow> byteRange \<Rightarrow> ResponseWriter \<Rightarrow> ('a, 'w) svc
   \<Rightarrow> ('a, 'w) svc \<times> ResponseWriter \<times> bool \<times> err option" where
  "serve_complete_range s ctx bucket key ak sk meta rng rw st =
     (if BlockSize meta < slice_len (rng_start rng) (rng_end rng) \<and> BlocksComplete meta then
        (let b0 = fst (coveringBlocks (rng_start rng) (rng_end rng) (BlockSize meta));
             (firstStart, firstEnd) = blockLocalRange b0 (rng_start rng) (rng_end rng) (BlockSize meta) (ContentLength meta);
             weight = stagingWeight (cfg_budget (s_config s)) (slice_len firstStart firstEnd) in
         case try_staging weight st of
           (st, False) \<Rightarrow> serve_probed_range s ctx bucket key ak sk meta rng rw st
         | (st, True) \<Rightarrow>
             (case serveCompleteFromBlocks s ctx bucket key ak sk meta (Some rng) rw st of
                (st, res) \<Rightarrow> (release_staging weight st, res)))
      else serve_probed_range s ctx bucket key ak sk meta rng rw st)"

definition serve_certified_range ::
  "('a, 'w) Service \<Rightarrow> 'w ctx \<Rightarrow> string \<Rightarrow> string \<Rightarrow> string \<Rightarrow> string \<Rightarrow> CachedObjectMeta \<Rightarrow> byteRange \<Rightarrow> ResponseWriter \<Rightarrow> ('a, 'w) svc
   \<Rightarrow> ('a, 'w) svc \<times> ResponseWriter \<times> bool \<times> err option" where
  "serve_certified_range s ctx bucket key ak sk meta rng rw st =
     (let rangeLen = slice_len (rng_start rng) (rng_end rng);
          weight = stagingWeight (cfg_budget (s_config s)) rangeLen;
          (b0, bK) = coveringBlocks (rng_start rng) (rng_end rng) (BlockSize meta) in
      if BlockSize meta < rangeLen \<and> b0 < bK \<and> certifiedRangeBlockSpanCovers meta b0 bK then
        (case try_staging weight st of
           (st, False) \<Rightarrow> serve_complete_range s ctx bucket key ak sk meta rng rw st
         | (st, True) \<Rightarrow>
             (case serveCertifiedRange s ctx bucket key ak sk meta rng weight rw st of
                (st, rw', served, retryProbe, e) \<Rightarrow>
                  if served \<or> \<not> retryProbe then (st, rw', served, e)
                  else serve_complete_range s ctx bucket key ak sk meta rng rw st))
      else serve_complete_range s ctx bucket key ak sk meta rng rw st)"

definition serve_small_range ::
  "('a, 'w) Service \<Rightarrow> 'w ctx \<Rightarrow> string \<Rightarrow> string \<Rightarrow> string \<Rightarrow> string \<Rightarrow> CachedObjectMeta \<Rightarrow> byteRange \<Rightarrow> ResponseWriter \<Rightarrow> ('a, 'w) svc
   \<Rightarrow> ('a, 'w) svc \<times> ResponseWriter \<times> bool \<times> err option" where
  "serve_small_range s ctx bucket key ak sk meta rng rw st =
     (let rangeLen = slice_len (rng_start rng) (rng_end rng);
          weight = stagingWeight (cfg_budget (s_config s)) rangeLen in
      if rangeLen \<le> BlockSize meta then
        (case try_staging weight st of
           (st, False) \<Rightarrow> serve_certified_range s ctx bucket key ak sk meta rng rw st
         | (st, True) \<Rightarrow>
             (case serveAssembledRange s bucket key ak sk meta rng rw st of
                (st, res) \<Rightarrow> (release_staging weight st, res)))
      else serve_certified_range s ctx bucket key ak sk meta rng rw st)"

definition serveRangeFromBlockCache ::
  "('a, 'w) Service \<Rightarrow> 'w ctx \<Rightarrow> Request \<Rightarrow> string \<Rightarrow> string \<Rightarrow> string \<Rightarrow> string \<Rightarrow> CachedObjectMeta \<Rightarrow> string \<Rightarrow> ResponseWriter \<Rightarrow> ('a, 'w) svc
   \<Rightarrow> ('a, 'w) svc \<times> ResponseWriter \<times> bool \<times> err option" where
  "serveRangeFromBlockCache s ctx r bucket key ak sk meta rangeHeader rw st =
     (case parseRangeHeader rangeHeader (ContentLength meta) of
        Inr [rng] \<Rightarrow> serve_small_range s ctx bucket key ak sk meta rng rw st
      | _ \<Rightarrow> (st, writeRangeNotSatisfiable s r meta rw st, True, None))"

definition remainingMetaTTL :: "('a, 'w) Service \<Rightarrow> CachedObjectMeta \<Rightarrow> 'w \<Rightarrow> int" where
  "remainingMetaTTL s meta w =
     (if CachedAt meta \<le> 0 then 0
      else let rem = TTL_Seconds (s_config s) - (unix_sec (s_now s w) - CachedAt meta) in if rem \<le> 0 then 0 else rem)"

text \<open>The task that marks an entry complete, under the token read before its blocks were assembled.\<close>

definition run_Promote :: "('a, 'w) Service \<Rightarrow> string \<Rightarrow> string \<Rightarrow> string \<Rightarrow> version \<Rightarrow> ('a, 'w) svc \<Rightarrow> ('a, 'w) svc" where
  "run_Promote s bucket key expectETag promoToken st =
     (case on_world (GetMetaWithVersion (s_cache s) bucket key) st of
        (st, Inr (Some cur, _, True)) \<Rightarrow>
          (if ETag cur \<noteq> expectETag \<or> BlocksComplete cur then st
           else let remaining = remainingMetaTTL s cur (world st) in
             if remaining \<le> 0 then st
             else fst (on_world (PutMetaIfVersion (s_cache s) bucket key (cur\<lparr>BlocksComplete := True\<rparr>) remaining promoToken) st))
      | (st, _) \<Rightarrow> st)"

definition promo_token ::
  "('a, 'w) Service \<Rightarrow> string \<Rightarrow> string \<Rightarrow> CachedObjectMeta \<Rightarrow> ('a, 'w) svc \<Rightarrow> ('a, 'w) svc \<times> version option" where
  "promo_token s bucket key meta st =
     (if BlocksComplete meta then (st, None)
      else case on_world (GetMetaWithVersion (s_cache s) bucket key) st of
             (st, Inr (Some cur, tok, True)) \<Rightarrow> (st, if ETag cur = ETag meta then Some tok else None)
           | (st, _) \<Rightarrow> (st, None))"

definition start_promotion :: "('a, 'w) Service \<Rightarrow> string \<Rightarrow> string \<Rightarrow> CachedObjectMeta \<Rightarrow> version option \<Rightarrow> ('a, 'w) svc \<Rightarrow> ('a, 'w) svc" where
  "start_promotion s bucket key meta promo st =
     (case promo of
        Some tok \<Rightarrow>
          if 0 < remainingMetaTTL s meta (world st) then fst (startBackgroundTask (Promote bucket key (ETag meta) tok) st) else st
      | None \<Rightarrow> st)"

definition serve_probed_full ::
  "('a, 'w) Service \<Rightarrow> 'w ctx \<Rightarrow> string \<Rightarrow> string \<Rightarrow> string \<Rightarrow> string \<Rightarrow> CachedObjectMeta \<Rightarrow> ResponseWriter \<Rightarrow> ('a, 'w) svc
   \<Rightarrow> ('a, 'w) svc \<times> ResponseWriter \<times> bool \<times> err option" where
  "serve_probed_full s ctx bucket key ak sk meta rw st =
     (let lastBlock = go_div (wrap64 (ContentLength meta - 1)) (BlockSize meta) in
      case promo_token s bucket key meta st of
        (st, promo) \<Rightarrow>
          (case ensureBlocksCached s ctx bucket key ak sk meta 0 lastBlock True 0 st of
             (st, Some e) \<Rightarrow>
               if err_is e ErrBlockAssemblyWouldAmplify then (invalidateStaleMeta s bucket key (ETag meta) st, rw, False, None)
               else (st, rw, False, Some e)
           | (st, None) \<Rightarrow>
               (case streamBlockRange s ctx bucket key ak sk meta 0 (wrap64 (ContentLength meta - 1)) (commit_full meta rw)
                       (start_promotion s bucket key meta promo st) of
                  (st, rw, e) \<Rightarrow> (st, rw, True, e))))"

definition serveFullObjectFromBlockCache ::
  "('a, 'w) Service \<Rightarrow> 'w ctx \<Rightarrow> string \<Rightarrow> string \<Rightarrow> string \<Rightarrow> string \<Rightarrow> CachedObjectMeta \<Rightarrow> ResponseWriter \<Rightarrow> ('a, 'w) svc
   \<Rightarrow> ('a, 'w) svc \<times> ResponseWriter \<times> bool \<times> err option" where
  "serveFullObjectFromBlockCache s ctx bucket key ak sk meta rw st =
     (let weight = stagingWeight (cfg_budget (s_config s)) (min (BlockSize meta) (ContentLength meta)) in
      if BlocksComplete meta then
        (case try_staging weight st of
           (st, False) \<Rightarrow> serve_probed_full s ctx bucket key ak sk meta rw st
         | (st, True) \<Rightarrow>
             (case serveCompleteFromBlocks s ctx bucket key ak sk meta None rw st of
                (st, res) \<Rightarrow> (release_staging weight st, res)))
      else serve_probed_full s ctx bucket key ak sk meta rw st)"

end
