(* ===== verification/Block_Exact.thy ===== *)
theory Block_Exact
  imports Block_Serve
begin

text \<open>
  What a block-mode entry serves: exactly bytes of the version its validator names. The store's rows of that version
  are immutable, the upstream answers a range request with bytes of the version its validator names; both are the
  assumptions of the locales here. Every stream and serve path is shown to deliver a prefix of the requested bytes,
  and all of them when it reports success.
\<close>

section \<open>Immutable rows\<close>

text \<open>
  \<open>content\<close> gives the bytes of the rows that never change. Reads of such a row deliver a prefix of the bytes asked for;
  storing its own bytes, and any operation on another row, keeps the store good.
\<close>

locale immutable_rows =
  fixes cl :: "'w CacheClient" and good :: "'w \<Rightarrow> bool" and content :: "string \<Rightarrow> string option"
  assumes row_Get: "good w \<Longrightarrow> cl_Get cl k w = (w', r1) \<Longrightarrow> good w'"
    and row_GetWithVersion: "good w \<Longrightarrow> cl_GetWithVersion cl k w = (w', r2) \<Longrightarrow> good w'"
    and row_Put: "good w \<Longrightarrow> content k = None \<Longrightarrow> cl_Put cl k v ttl w = (w', r3) \<Longrightarrow> good w'"
    and row_PutIfVersion: "good w \<Longrightarrow> content k = None \<Longrightarrow> cl_PutIfVersion cl k v ttl ver w = (w', r4) \<Longrightarrow> good w'"
    and row_Delete: "good w \<Longrightarrow> cl_Delete cl k w = (w', r5) \<Longrightarrow> good w'"
    and row_DeleteIfVersion: "good w \<Longrightarrow> cl_DeleteIfVersion cl k ver w = (w', r6) \<Longrightarrow> good w'"
    and row_range:
      "good w \<Longrightarrow> content k = Some d \<Longrightarrow> 0 \<le> a \<Longrightarrow> a \<le> b \<Longrightarrow> cl_GetRangeStream cl k a b w = (w', out, e)
       \<Longrightarrow> good w' \<and> (\<exists>n. out = take n (slice_of d a b))"
    and row_stream: "good w \<Longrightarrow> content k = Some d \<Longrightarrow> cl_PutStream cl k (d, None) ttl w = (w', r7) \<Longrightarrow> good w'"
    and row_shed: "cl_PutStreamSheddable cl = Some f \<Longrightarrow> good w \<Longrightarrow> content k = Some d \<Longrightarrow> f k (d, None) ttl w = (w', r8) \<Longrightarrow> good w'"
    and row_bytes: "cl_PutBlockBytes cl = Some g \<Longrightarrow> good w \<Longrightarrow> content k = Some d \<Longrightarrow> g k d ttl w = (w', r9) \<Longrightarrow> good w'"
begin

lemma range_read:
  assumes "good w" and "client c = cl" and "content k = Some d" and "0 \<le> a" and "a \<le> b" and "b < int (length d)" and "b < 2 ^ 63 - 1"
    and "getRangeStreamByKey c k a b accept_all w = (w', out, e)"
  shows "good w' \<and> (\<exists>n. out = take n (slice_of d a b)) \<and> (e = None \<longrightarrow> out = slice_of d a b)"
proof (cases "b = 0")
  case True
  obtain w1 buf e1 where r: "cl_GetRangeStream cl k 0 1 w = (w1, buf, e1)" by (metis prod_cases3)
  have a: "a = 0" using assms(4,5) True by simp
  have d: "d \<noteq> []" using assms(6) True by auto
  from row_range [OF assms(1,3) _ _ r] obtain n where g: "good w1" and n: "buf = take n (slice_of d 0 1)" by auto
  have w': "w' = w1" and out: "out = (if e1 = None \<and> buf \<noteq> [] then take 1 buf else [])" and e: "e = None \<Longrightarrow> e1 = None \<and> buf \<noteq> []"
    using assms(2,8) True a r by (auto simp: getRangeStreamByKey_def accept_all_def split: option.splits if_splits)
  have one: "take 1 buf = slice_of d 0 0" if "buf \<noteq> []"
  proof -
    have "n \<noteq> 0" using that n by auto
    then show ?thesis using d unfolding n slice_of_def by (cases d; cases n) simp_all
  qed
  show ?thesis
  proof (cases "e1 = None \<and> buf \<noteq> []")
    case True
    then show ?thesis using g w' out one a \<open>b = 0\<close> by (auto intro!: exI [of _ "length (slice_of d 0 0)"])
  next
    case False
    then show ?thesis using g w' out e by (auto intro!: exI [of _ 0])
  qed
next
  case False
  obtain w1 buf e1 where r: "cl_GetRangeStream cl k a b w = (w1, buf, e1)" by (metis prod_cases3)
  from row_range [OF assms(1,3,4,5) r] obtain n where g: "good w1" and n: "buf = take n (slice_of d a b)" by auto
  have wd: "wrap64 (wrap64 (b - a) + 1) = b - a + 1" using assms(4-7) by (simp add: wrap64_id int64_range_def)
  have w': "w' = w1" "out = buf" and e: "e = None \<Longrightarrow> int (length buf) = b - a + 1"
    using assms(2,4,5,8) False r wd by (auto simp: getRangeStreamByKey_def Let_def split: option.splits if_splits)
  have l: "length (slice_of d a b) = nat (b - a + 1)" using assms(4-6) by (intro length_slice) auto
  have "buf = slice_of d a b" if "int (length buf) = b - a + 1"
  proof -
    have "length (slice_of d a b) \<le> n" using that l unfolding n by simp
    then show ?thesis unfolding n by simp
  qed
  then show ?thesis using g w' n e by auto
qed

lemma putBody_good:
  assumes "good w" and "client c = cl" and "content k = Some d" and "putBody c k (d, None) ttl w = (w', n, e)"
  shows "good w'"
  using putBody_cases [OF assms(4)] unfolding assms(2)
proof (elim disjE exE conjE)
  fix e' assume "cl_PutStream cl k (d, None) ttl w = (w', n, e')"
  then show "good w'" by (rule row_stream [OF assms(1,3)])
next
  fix f e' assume "cl_PutStreamSheddable cl = Some f" and "f k (d, None) ttl w = (w', n, e')"
  then show "good w'" by (rule row_shed [OF _ assms(1,3)])
qed

lemma PutBlock_good:
  assumes "good w" and "client c = cl" and "content (MakeBlockKey b k et bs i) = Some d" and "PutBlock c b k et bs i d ttl w = (w', e)"
  shows "good w'"
proof (cases "\<not> IsEnabled c \<or> et = []")
  case True
  with assms show ?thesis by (auto simp: PutBlock_def)
next
  case False
  let ?k = "MakeBlockKey b k et bs i" and ?t = "ttl_or_default c ttl"
  have body: "good w'" if "good w1" "putBody c ?k (d, None) ?t w1 = (w', n, x)" for w1 n x
    using putBody_good [OF that(1) assms(2,3) that(2)] .
  show ?thesis
  proof (cases "canPutBlockUnaryForLimit ?k d ?t (msg_limit c) \<and> cl_PutBlockBytes cl \<noteq> None")
    case True
    then obtain g where g: "cl_PutBlockBytes cl = Some g" by auto
    obtain w1 h x where p: "g ?k d ?t w = (w1, h, x)" by (metis prod_cases3)
    have "good w1" using row_bytes [OF g assms(1,3) p] .
    then show ?thesis using assms(2,4) False True g p body by (auto simp: PutBlock_def Let_def split: if_splits prod.splits)
  next
    case F: False
    then show ?thesis using assms(1,2,4) False body by (auto simp: PutBlock_def Let_def split: if_splits prod.splits option.splits)
  qed
qed

lemma DeleteIfETag_good:
  assumes "good w" and "client c = cl" and "content (MakeMetaKey b k) = None" and "content (MakeTombstoneKey b k) = None"
    and "DeleteIfETag c b k et w = (w', r)"
  shows "good w'"
proof (cases "IsEnabled c")
  case True
  show ?thesis
  proof (cases "coord c")
    case CasCoordinator
    obtain w1 d v f e where g: "cl_GetWithVersion cl (MakeMetaKey b k) w = (w1, d, v, f, e)" by (metis prod_cases5)
    have g1: "good w1" using row_GetWithVersion [OF assms(1) g] .
    obtain w2 x where dl: "cl_DeleteIfVersion cl (MakeMetaKey b k) v w1 = (w2, x)" by fastforce
    have "good w2" using row_DeleteIfVersion [OF g1 dl] .
    with g1 g dl CasCoordinator True assms(2,5) show ?thesis
      by (auto simp: DeleteIfETag_def cas_deleteMetaIfETag_def split: option.splits if_splits sum.splits)
  next
    case (LegacyCoordinator tt)
    obtain w1 d e where g: "cl_Get cl (MakeMetaKey b k) w = (w1, d, e)" by (metis prod_cases3)
    have g1: "good w1" using row_Get [OF assms(1) g] .
    obtain w2 x where p: "writeTombstone cl tt b k w1 = (w2, x)" by fastforce
    have g2: "good w2" using row_Put [OF g1 assms(4)] p by (auto simp: writeTombstone_def)
    obtain w3 y where dl: "cl_Delete cl (MakeMetaKey b k) w2 = (w3, y)" by fastforce
    have "good w3" using row_Delete [OF g2 dl] .
    with g1 g p dl LegacyCoordinator True assms(2,5) show ?thesis
      by (auto simp: DeleteIfETag_def legacy_deleteMetaIfETag_def legacy_deleteMeta_def Let_def split: option.splits if_splits sum.splits prod.splits)
  qed
qed (use assms in \<open>simp add: DeleteIfETag_def\<close>)

end

section \<open>One version of an object\<close>

text \<open>An upstream answer to a range request carries bytes of the version its validator names.\<close>

definition honest :: "string \<Rightarrow> string \<Rightarrow> Response \<Rightarrow> bool" where
  "honest etag obj resp \<longleftrightarrow>
     (\<forall>rs re total. resp_Status resp = 206 \<longrightarrow> header_get (resp_Header resp) ''ETag'' = etag
        \<longrightarrow> parseContentRange (header_get (resp_Header resp) ''Content-Range'') = (rs, re, total, True)
        \<longrightarrow> 0 \<le> rs \<longrightarrow> rs \<le> re \<longrightarrow> re < int (length obj) \<longrightarrow> (\<exists>n. fst (resp_Body resp) = take n (slice_of obj rs re)))"

lemma on_worldD: "on_world f st = (st', r) \<Longrightarrow> f (world st) = (world st', r) \<and> svc_stopping st' = svc_stopping st"
  by (auto simp: on_world_def split: prod.splits)

locale block_service = immutable_rows "client (s_cache s)" good content
  for s :: "('a, 'w) Service" and good and content +
  fixes bucket key etag obj :: string and bs :: int
  assumes fits: "block_fits bs (int (length obj))"
    and block_content: "0 \<le> i \<Longrightarrow> i * bs < int (length obj) \<Longrightarrow> content (MakeBlockKey bucket key etag bs i) = Some (blk.stored_block obj bs i)"
    and no_content: "content (MakeMetaKey bucket key) = None" "content (MakeTombstoneKey bucket key) = None"
    and upstream: "good w \<Longrightarrow> fw_DoConditionalGetRequest (forwarder s) bucket key ak sk im ims rh w = (w', r)
      \<Longrightarrow> good w' \<and> (\<forall>resp. r = Inr resp \<longrightarrow> honest etag obj resp)"
    and footer: "good w \<Longrightarrow> footer_Get s k w = (w', seen) \<Longrightarrow> good w'"
begin

definition describes :: "CachedObjectMeta \<Rightarrow> bool" where
  "describes meta \<longleftrightarrow> ETag meta = etag \<and> BlockSize meta = bs \<and> ContentLength meta = int (length obj)"

definition has_block :: "int \<Rightarrow> bool" where
  "has_block i \<longleftrightarrow> 0 \<le> i \<and> i * bs < int (length obj)"

abbreviation block :: "int \<Rightarrow> string" where
  "block i \<equiv> blk.stored_block obj bs i"

definition local_ok :: "int \<Rightarrow> int \<Rightarrow> int \<Rightarrow> bool" where
  "local_ok i ls le \<longleftrightarrow> has_block i \<and> 0 \<le> ls \<and> ls \<le> le \<and> le < int (length (block i))"

abbreviation sound :: "('a, 'w) svc \<Rightarrow> bool" where
  "sound st \<equiv> good (world st)"

lemma bs_pos: "0 < bs"
  using fits by (simp add: block_fits_def)

lemma bounds: "has_block i \<Longrightarrow> blockBounds i bs (int (length obj)) = (i * bs, min (i * bs + bs - 1) (int (length obj) - 1))"
  unfolding has_block_def using blockBounds_eq [OF fits] by blast

lemma obj_len: "int (length obj) < 2 ^ 63"
  using fits by (auto simp: block_fits_def)

lemma block_eq: "has_block i \<Longrightarrow> block i = slice_of obj (i * bs) (min (i * bs + bs - 1) (int (length obj) - 1))"
  by (simp add: blk.stored_block_def bounds)

lemma block_len:
  assumes "has_block i"
  shows "int (length (block i)) = min (i * bs + bs - 1) (int (length obj) - 1) - i * bs + 1"
proof -
  have "0 \<le> i * bs" "i * bs < int (length obj)" using assms bs_pos by (auto simp: has_block_def)
  then have "length (block i) = nat (min (i * bs + bs - 1) (int (length obj) - 1) - i * bs + 1)"
    unfolding block_eq [OF assms] using bs_pos by (intro length_slice) auto
  then show ?thesis using \<open>i * bs < int (length obj)\<close> bs_pos by simp
qed

lemma block_short: "has_block i \<Longrightarrow> int (length (block i)) < 2 ^ 63"
proof -
  assume i: "has_block i"
  then have "0 \<le> i * bs" using bs_pos by (simp add: has_block_def)
  then show ?thesis using block_len [OF i] obj_len by linarith
qed

lemma slice_len_local: "0 \<le> ls \<Longrightarrow> ls \<le> le \<Longrightarrow> le < 2 ^ 63 - 1 \<Longrightarrow> slice_len ls le = le - ls + 1"
  by (simp add: slice_len_def wrap64_id int64_range_def)

lemma local_short: "local_ok i ls le \<Longrightarrow> le < 2 ^ 63 - 1"
  using block_short by (force simp: local_ok_def)

lemma length_local: "local_ok i ls le \<Longrightarrow> length (slice_of (block i) ls le) = nat (le - ls + 1)"
  unfolding local_ok_def by (intro length_slice) auto

subsection \<open>Cache reads\<close>

lemma getBlockRangeStream_sound:
  assumes "sound st" and "describes meta" and "local_ok i ls le" and "getBlockRangeStream s bucket key meta i ls le st = (st', out, e)"
  shows "sound st' \<and> svc_stopping st' = svc_stopping st \<and> (\<exists>n. out = take n (slice_of (block i) ls le)) \<and> (e = None \<longrightarrow> out = slice_of (block i) ls le)"
proof (cases "IsEnabled (s_cache s)")
  case True
  note w = on_worldD [OF assms(4) [unfolded getBlockRangeStream_def]]
  from assms(2) True w have g: "getRangeStreamByKey (s_cache s) (MakeBlockKey bucket key etag bs i) ls le accept_all (world st) = (world st', out, e)"
    by (simp add: GetBlockRangeStream_def describes_def)
  have c: "content (MakeBlockKey bucket key etag bs i) = Some (block i)" using block_content assms(3) by (simp add: local_ok_def has_block_def)
  from assms(3) have l: "0 \<le> ls" "ls \<le> le" "le < int (length (block i))" by (simp_all add: local_ok_def)
  from range_read [OF assms(1) refl c l local_short [OF assms(3)] g] w show ?thesis by simp
next
  case False
  then have "st' = st" "out = []" "e = Some ErrCacheDisabled"
    using assms(4) by (auto simp: getBlockRangeStream_def GetBlockRangeStream_def on_world_def)
  then show ?thesis using assms(1) by (auto intro!: exI [of _ 0])
qed

lemma sliced_read_sound:
  assumes "sound st" and "describes meta" and "local_ok i ls le" and "sliced_read s bucket key meta i ls le st = (st', out, e)"
  shows "sound st' \<and> svc_stopping st' = svc_stopping st \<and> (e = None \<longrightarrow> out = slice_of (block i) ls le)"
proof -
  obtain st1 o1 e1 where g: "getBlockRangeStream s bucket key meta i ls le st = (st1, o1, e1)" by (metis prod_cases3)
  note G = getBlockRangeStream_sound [OF assms(1-3) g]
  then show ?thesis using assms(4) g by (auto simp: sliced_read_def Let_def split: if_splits)
qed

lemma read_slice_sound:
  assumes "sound st" and "describes meta" and "local_ok i ls le" and "read_slice what s bucket key meta i ls le st = (st', out, e)"
  shows "sound st' \<and> svc_stopping st' = svc_stopping st \<and> (e = None \<longrightarrow> out = slice_of (block i) ls le)"
proof -
  obtain st1 o1 e1 where g: "sliced_read s bucket key meta i ls le st = (st1, o1, e1)" by (metis prod_cases3)
  note G = sliced_read_sound [OF assms(1-3) g]
  then show ?thesis using assms(4) g by (auto simp: read_slice_def Let_def split: if_splits)
qed

lemmas readCachedBlockSlice_sound = read_slice_sound [where what = "''stream''", folded readCachedBlockSlice_def]

lemma probeBlock_sound:
  assumes "sound st" and "describes meta" and "has_block i" and "probeBlock s bucket key meta i st = (st', r)"
  shows "sound st' \<and> svc_stopping st' = svc_stopping st"
proof -
  note w = on_worldD [OF assms(4) [unfolded probeBlock_def]]
  have c: "content (MakeBlockKey bucket key etag bs i) = Some (block i)" using block_content assms(3) by (simp add: has_block_def)
  have l: "0 < int (length (block i))" using block_len [OF assms(3)] assms(3) bs_pos by (auto simp: has_block_def)
  obtain w1 o1 e1 where g: "getRangeStreamByKey (s_cache s) (MakeBlockKey bucket key etag bs i) 0 0 accept_all (world st) = (w1, o1, e1)" by (metis prod_cases3)
  have "good w1" using range_read [OF assms(1) refl c _ _ l _ g] by simp
  then show ?thesis using w g assms(1,2) by (auto simp: BlockExistsErr_def probe_def describes_def split: if_splits option.splits)
qed

lemma invalidateStaleMeta_sound: "sound st \<Longrightarrow> sound (invalidateStaleMeta s bucket key e st)"
  using DeleteIfETag_good [OF _ refl no_content]
  by (auto simp: invalidateStaleMeta_def on_world_def split: prod.splits)

subsection \<open>Fetches\<close>

lemma checked_block_exact:
  assumes "describes meta" and "has_block i" and "blockBounds i bs (int (length obj)) = (bStart, bEnd)" and "honest etag obj resp"
    and "checked_block meta i bStart bEnd resp = Inr buf"
  shows "buf = block i"
proof -
  have b: "bStart = i * bs" "bEnd = min (i * bs + bs - 1) (int (length obj) - 1)" using bounds [OF assms(2)] assms(3) by auto
  have r: "0 \<le> bStart" "bStart \<le> bEnd" "bEnd < int (length obj)" using assms(2) bs_pos b by (auto simp: has_block_def)
  have len: "slice_len bStart bEnd = bEnd - bStart + 1" using r obj_len by (intro slice_len_local) auto
  obtain rs re total ok where p: "parseContentRange (header_get (resp_Header resp) ''Content-Range'') = (rs, re, total, ok)" by (metis prod_cases4)
  obtain rest where h: "resp_Status resp = 206" "header_get (resp_Header resp) ''ETag'' = etag" "ok" "rs = bStart" "re = bEnd"
    "io_ReadFull (resp_Body resp) (nat (slice_len bStart bEnd)) = Inr (buf, rest)"
    using assms(1,5) p by (auto simp: checked_block_def Let_def describes_def split: if_splits sum.splits)
  from assms(4) h(1-5) p r obtain n where n: "fst (resp_Body resp) = take n (slice_of obj bStart bEnd)"
    by (auto simp: honest_def)
  have l: "length (slice_of obj bStart bEnd) = nat (bEnd - bStart + 1)" using r by (intro length_slice) auto
  from io_ReadFull_exact [OF h(6)] len have bl: "length buf = nat (bEnd - bStart + 1)" "buf = take (nat (bEnd - bStart + 1)) (fst (resp_Body resp))" by auto
  then have "length (slice_of obj bStart bEnd) \<le> n" unfolding n using l by simp
  then show ?thesis using bl l n block_eq [OF assms(2)] b by simp
qed

lemma runBlockFetch_sound:
  assumes "sound st" and "describes meta" and "has_block i" and "runBlockFetch s bucket key ak sk meta i known st = (st', data, e)"
  shows "sound st' \<and> (\<forall>d. data = Inr (Some d) \<longrightarrow> d = block i)"
proof -
  obtain st1 pr where p: "(if known then (st, Inr False) else probeBlock s bucket key meta i st) = (st1, pr)" by fastforce
  have s1: "sound st1" using p assms(1) probeBlock_sound [OF assms(1-3)] by (auto split: if_splits)
  obtain bStart bEnd where B: "blockBounds i bs (int (length obj)) = (bStart, bEnd)" by fastforce
  have B': "blockBounds i (BlockSize meta) (ContentLength meta) = (bStart, bEnd)" using B assms(2) by (simp add: describes_def)
  define wt where "wt = populateWeight (cfg_budget (s_config s)) (budget st1) (slice_len bStart bEnd)"
  obtain st2 ok where a: "acquireCacheSlot s wt priorityReadMiss st1 = (st2, ok)" by fastforce
  have s2: "sound st2" using s1 a admission_world(1) [of s wt priorityReadMiss st1] by simp
  obtain st3 r where d: "on_world (fw_DoConditionalGetRequest (forwarder s) bucket key ak sk [] 0 (''bytes='' @ FormatInt bStart @ ''-'' @ FormatInt bEnd)) st2 = (st3, r)"
    by fastforce
  note up = upstream [OF s2 conjunct1 [OF on_worldD [OF d]]]
  have s3: "sound st3" using up by simp
  show ?thesis
  proof (cases "pr = Inr True \<or> \<not> ok \<or> (\<exists>x. r = Inl x) \<or> (\<exists>resp x. r = Inr resp \<and> checked_block meta i bStart bEnd resp = Inl x)")
    case True
    then show ?thesis using assms(4) p B' a d s1 s2 s3 wt_def
      by (auto simp: runBlockFetch_def Let_def split: sum.splits bool.splits if_splits)
  next
    case False
    then obtain resp buf where r: "r = Inr resp" and c: "checked_block meta i bStart bEnd resp = Inr buf" 
      by (cases r; cases "checked_block meta i bStart bEnd (projr r)") auto
    have buf: "buf = block i" using checked_block_exact [OF assms(2,3) B _ c] up r by simp
    obtain st4 perr where q: "on_world (PutBlock (s_cache s) bucket key (ETag meta) (BlockSize meta) i buf (TTL_Seconds (s_config s))) st3 = (st4, perr)" by fastforce
    have s4: "sound st4"
    proof (rule PutBlock_good [OF s3 refl])
      show "content (MakeBlockKey bucket key (ETag meta) (BlockSize meta) i) = Some buf"
        using block_content assms(2,3) buf by (simp add: describes_def has_block_def)
    qed (rule conjunct1 [OF on_worldD [OF q]])
    show ?thesis using assms(4) p B' a d r c q False s4 buf wt_def
      by (auto simp: runBlockFetch_def Let_def split: sum.splits bool.splits if_splits option.splits prod.splits)
  qed
qed

lemma fetchOneBlock_sound:
  assumes "sound st" and "describes meta" and "has_block i" and "fetchOneBlock s ctx bucket key ak sk meta i st = (st', e)"
  shows "sound st'"
proof -
  obtain st1 d x where r: "runBlockFetch s bucket key ak sk meta i False st = (st1, d, x)" by (metis prod_cases3)
  show ?thesis using runBlockFetch_sound [OF assms(1-3) r] r assms(1,4) by (auto simp: fetchOneBlock_def split: option.splits if_splits)
qed

lemma fetchOneBlockForAssembly_sound:
  assumes "sound st" and "describes meta" and "has_block i" and "fetchOneBlockForAssembly s bucket key ak sk meta i st = (st', data)"
  shows "sound st' \<and> (\<forall>d. data = Inr (Some d) \<longrightarrow> d = block i)"
proof -
  obtain st1 d x where r: "runBlockFetch s bucket key ak sk meta i True st = (st1, d, x)" by (metis prod_cases3)
  show ?thesis using runBlockFetch_sound [OF assms(1-3) r] r assms(1,4) by (auto simp: fetchOneBlockForAssembly_def split: if_splits)
qed

lemma fetch_blocks_sound:
  assumes "describes meta" and "sound st" and "list_all has_block is" and "fetch_blocks s ctx bucket key ak sk meta is stale transient st = (st', x)"
  shows "sound st'"
  using assms(2-)
proof (induction "is" arbitrary: st stale transient)
  case (Cons i "is")
  obtain st1 e where f: "fetchOneBlock s ctx bucket key ak sk meta i st = (st1, e)" by fastforce
  have "sound st1" using fetchOneBlock_sound [OF Cons.prems(1) assms(1) _ f] Cons.prems(2) by simp
  with Cons f show ?case by (auto split: if_splits option.splits)
qed simp

lemma fetchBlocksToCache_sound:
  assumes "sound st" and "describes meta" and "list_all has_block is" and "fetchBlocksToCache s ctx bucket key ak sk meta is st = (st', e)"
  shows "sound st'"
proof -
  obtain st1 a b c where f: "fetch_blocks s ctx bucket key ak sk meta is None None st = (st1, a, b, c)" by (metis prod_cases4)
  have "sound st1" using fetch_blocks_sound [OF assms(2,1,3) f] .
  then show ?thesis using invalidateStaleMeta_sound [of st1 etag] assms f
    by (auto simp: fetchBlocksToCache_def describes_def split: if_splits option.splits)
qed

lemma fetch_leases_sound:
  assumes "describes meta" and "sound st" and "list_all has_block is" and "\<forall>(i, d) \<in> set acc. d = block i"
    and "fetch_leases s bucket key ak sk meta is acc stale transient st = (st', leases, x)"
  shows "sound st' \<and> (\<forall>(i, d) \<in> set leases. d = block i)"
  using assms(2-)
proof (induction "is" arbitrary: st acc stale transient)
  case (Cons i "is")
  obtain st1 r where f: "fetchOneBlockForAssembly s bucket key ak sk meta i st = (st1, r)" by fastforce
  have r: "sound st1" "\<And>d. r = Inr (Some d) \<Longrightarrow> d = block i"
    using fetchOneBlockForAssembly_sound [OF Cons.prems(1) assms(1) _ f] Cons.prems(2) by auto
  have t: "list_all has_block is" using Cons.prems(2) by simp
  show ?case
  proof (cases r)
    case (Inl e)
    then show ?thesis using Cons.IH [OF r(1) t Cons.prems(3)] Cons.prems(4) f by (auto split: if_splits)
  next
    case (Inr od)
    show ?thesis
    proof (cases od)
      case None
      then show ?thesis using Cons.IH [OF r(1) t Cons.prems(3)] Cons.prems(4) f Inr by simp
    next
      case (Some d)
      have "\<forall>(i, d) \<in> set (acc @ [(i, d)]). d = block i" using Cons.prems(3) r(2) [of d] Inr Some by auto
      from Cons.IH [OF r(1) t this, of stale transient] show ?thesis using Cons.prems(4) f Inr Some by simp
    qed
  qed
qed simp

lemma fetchBlocksForAssembly_sound:
  assumes "sound st" and "describes meta" and "list_all has_block is" and "fetchBlocksForAssembly s bucket key ak sk meta is st = (st', r)"
  shows "sound st' \<and> (\<forall>leases. r = Inr leases \<longrightarrow> (\<forall>(i, d) \<in> set leases. d = block i))"
proof -
  obtain st1 l a b where f: "fetch_leases s bucket key ak sk meta is [] None None st = (st1, l, a, b)" by (metis prod_cases4)
  have L: "sound st1 \<and> (\<forall>(i, d) \<in> set l. d = block i)" using fetch_leases_sound [OF assms(2,1,3) _ f] by simp
  then show ?thesis using invalidateStaleMeta_sound [of st1 etag] assms(2,4) f
    by (auto simp: fetchBlocksForAssembly_def describes_def split: option.splits)
qed

lemma recoverMissingBlockSlice_sound:
  assumes "sound st" and "describes meta" and "local_ok i ls le" and "recoverMissingBlockSlice s ctx bucket key ak sk meta i ls le left st = (st', r, left')"
  shows "sound st' \<and> (\<forall>out. r = Inr out \<longrightarrow> out = slice_of (block i) ls le)"
proof -
  obtain st1 o1 e1 where a: "readCachedBlockSlice s bucket key meta i ls le st = (st1, o1, e1)" by (metis prod_cases3)
  note A = readCachedBlockSlice_sound [OF assms(1-3) a]
  obtain st2 e2 where f: "fetchBlocksToCache s ctx bucket key ak sk meta [i] st1 = (st2, e2)" by fastforce
  have F: "sound st2" using fetchBlocksToCache_sound [OF _ assms(2) _ f] A assms(3) by (simp add: local_ok_def)
  obtain st3 o3 e3 where b: "readCachedBlockSlice s bucket key meta i ls le st2 = (st3, o3, e3)" by (metis prod_cases3)
  note B = readCachedBlockSlice_sound [OF F assms(2,3) b]
  show ?thesis using assms(4) a f b A F B
    by (auto simp: recoverMissingBlockSlice_def Let_def split: option.splits if_splits)
qed

lemma readBlockSlice_sound:
  assumes "sound st" and "describes meta" and "local_ok i ls le" and "readBlockSlice s ctx bucket key ak sk meta i ls le left st = (st', r, left')"
  shows "sound st' \<and> (\<forall>out. r = Inr out \<longrightarrow> out = slice_of (block i) ls le)"
proof -
  obtain st1 o1 e1 where a: "readCachedBlockSlice s bucket key meta i ls le st = (st1, o1, e1)" by (metis prod_cases3)
  note A = readCachedBlockSlice_sound [OF assms(1-3) a]
  obtain st2 r2 l2 where b: "recoverMissingBlockSlice s ctx bucket key ak sk meta i ls le left st1 = (st2, r2, l2)" by (metis prod_cases3)
  have "sound st2 \<and> (\<forall>out. r2 = Inr out \<longrightarrow> out = slice_of (block i) ls le)"
    using recoverMissingBlockSlice_sound [OF _ assms(2,3) b] A by simp
  then show ?thesis using assms(4) a b A by (auto simp: readBlockSlice_def split: option.splits if_splits)
qed

subsection \<open>Streams\<close>

text \<open>A writer that was handed bytes got a prefix of them, and all of them if nothing failed; a committed status stays.\<close>

definition delivers :: "string \<Rightarrow> ResponseWriter \<Rightarrow> ResponseWriter \<Rightarrow> err option \<Rightarrow> bool" where
  "delivers bytes rw rw' e \<longleftrightarrow>
     (\<exists>n. rw_body rw' = rw_body rw @ take n bytes \<and> (e = None \<longrightarrow> length bytes \<le> n)) \<and> (rw_sent rw \<noteq> None \<longrightarrow> rw_sent rw' = rw_sent rw)"

lemma delivers_nothing: "delivers bytes rw rw (Some e)"
  by (auto simp: delivers_def intro!: exI [of _ 0])

lemma delivers_Nil: "delivers [] rw rw None"
  by (auto simp: delivers_def)

lemma delivers_body: "delivers X rw rw' None \<Longrightarrow> rw_body rw' = rw_body rw @ X"
  by (auto simp: delivers_def)

lemma delivers_append:
  assumes "delivers X rw rw1 None" and "delivers Y rw1 rw' e"
  shows "delivers (X @ Y) rw rw' e"
proof -
  from assms(1) have b: "rw_body rw1 = rw_body rw @ X" and s1: "rw_sent rw \<noteq> None \<longrightarrow> rw_sent rw1 = rw_sent rw" by (auto simp: delivers_def)
  from assms(2) obtain n where n: "rw_body rw' = rw_body rw1 @ take n Y" "e = None \<longrightarrow> length Y \<le> n" "rw_sent rw1 \<noteq> None \<longrightarrow> rw_sent rw' = rw_sent rw1"
    by (auto simp: delivers_def)
  show ?thesis unfolding delivers_def using b s1 n by (intro conjI exI [of _ "length X + n"]) auto
qed

lemma delivers_part:
  assumes "delivers X rw rw' (Some e)"
  shows "delivers (X @ Y) rw rw' (Some e')"
proof -
  from assms obtain n where n: "rw_body rw' = rw_body rw @ take n X" "rw_sent rw \<noteq> None \<longrightarrow> rw_sent rw' = rw_sent rw" by (auto simp: delivers_def)
  show ?thesis unfolding delivers_def using n by (intro conjI exI [of _ "min n (length X)"]) (auto simp: min_def)
qed

lemma delivers_Write: "rw_Write b rw = (rw', n, e) \<Longrightarrow> delivers b rw rw' e \<and> (e = None \<longrightarrow> n = length b)"
  by (auto simp: delivers_def rw_Write_def Let_def WriteHeader_def split: option.splits if_splits intro: exI [of _ "length b"])

text \<open>What a serve of \<open>[start, end']\<close> reads of block \<open>i\<close>.\<close>

definition in_range :: "int \<Rightarrow> int \<Rightarrow> bool" where
  "in_range start end' \<longleftrightarrow> 0 \<le> start \<and> start \<le> end' \<and> end' < int (length obj)"

abbreviation part :: "int \<Rightarrow> int \<Rightarrow> int \<Rightarrow> string" where
  "part start end' i \<equiv> blk.local_slice obj bs start end' i"

lemma local_range:
  assumes "in_range start end'" and "coveringBlocks start end' bs = (b0, bK)" and "b0 \<le> i" and "i \<le> bK"
  shows "has_block i \<and> (\<exists>ls le. blockLocalRange i start end' bs (int (length obj)) = (ls, le) \<and> local_ok i ls le
    \<and> slice_of (block i) ls le = part start end' i)"
proof -
  have r: "0 \<le> start" "start \<le> end'" "end' < int (length obj)" using assms(1) by (simp_all add: in_range_def)
  note ix = covering_index [OF bs_pos r(1,2) assms(2)]
  have lo: "i * bs \<le> end'" using block_index_less [OF bs_pos] ix assms(4) by simp
  have hi: "start \<le> i * bs + bs - 1" using block_index_greater [OF bs_pos] ix assms(3) by simp
  have h: "has_block i" using ix assms(3) lo r by (simp add: has_block_def)
  let ?x = "i * bs" and ?y = "min (i * bs + bs - 1) (int (length obj) - 1)"
  have i0: "0 \<le> ?x" using h bs_pos by (simp add: has_block_def)
  have w: "wrap64 (max start ?x - ?x) = max start ?x - ?x" "wrap64 (min end' ?y - ?x) = min end' ?y - ?x"
    using r lo hi i0 obj_len bs_pos by (auto intro!: wrap64_nonneg)
  have "blockLocalRange i start end' bs (int (length obj)) = (max start ?x - ?x, min end' ?y - ?x)"
    using w by (simp add: blockLocalRange_def bounds [OF h])
  moreover have "local_ok i (max start ?x - ?x) (min end' ?y - ?x)"
    using h r lo hi block_len [OF h] bs_pos by (auto simp: local_ok_def)
  moreover have "slice_of (block i) (max start ?x - ?x) (min end' ?y - ?x) = part start end' i"
    by (simp add: blk.local_slice_def bounds [OF h])
  ultimately show ?thesis using h by blast
qed

lemma stream_to_client_sound:
  assumes "sound st" and "describes meta" and "local_ok i ls le" and "stream_to_client s bucket key meta i ls le rw st = (st', rw', n, c, e)"
  shows "sound st' \<and> delivers (slice_of (block i) ls le) rw rw' e \<and> (n = 0 \<longrightarrow> delivers [] rw rw' None)"
proof -
  obtain st1 out e1 where g: "getBlockRangeStream s bucket key meta i ls le st = (st1, out, e1)" by (metis prod_cases3)
  note G = getBlockRangeStream_sound [OF assms(1-3) g]
  then obtain m where m: "out = take m (slice_of (block i) ls le)" by blast
  have ne: "slice_of (block i) ls le \<noteq> []" using length_local [OF assms(3)] assms(3) by (auto simp: local_ok_def)
  show ?thesis
  proof (cases "out = []")
    case True
    then have "e1 \<noteq> None" using G ne by auto
    then show ?thesis using True assms(4) g G by (auto simp: stream_to_client_def delivers_nothing delivers_Nil)
  next
    case False
    obtain rw1 k e2 where w: "rw_Write out rw = (rw1, k, e2)" by (metis prod_cases3)
    note D = delivers_Write [OF w]
    have r: "st' = st1" "rw' = rw1" "n = k" "e = (case e2 of Some x \<Rightarrow> Some x | None \<Rightarrow> e1)"
      using assms(4) g w False by (auto simp: stream_to_client_def split: option.splits)
    have whole: "delivers (slice_of (block i) ls le) rw rw1 e"
    proof (cases "e2 = None \<and> e1 = None")
      case True
      then show ?thesis using D G r by simp
    next
      case F: False
      then obtain x where "e = Some x" using r by (cases e2) auto
      moreover have "delivers (take m (slice_of (block i) ls le) @ drop m (slice_of (block i) ls le)) rw rw1 (Some x)" for x
      proof (cases e2)
        case None
        then have "delivers (take m (slice_of (block i) ls le)) rw rw1 None" using D m by simp
        from delivers_append [OF this delivers_nothing] show ?thesis .
      next
        case (Some y)
        then show ?thesis using D m delivers_part by blast
      qed
      ultimately show ?thesis by simp
    qed
    have "k = 0 \<longrightarrow> delivers [] rw rw1 None" using w False by (auto simp: delivers_def rw_Write_def Let_def WriteHeader_def min_def split: option.splits if_splits)
    then show ?thesis using whole r G by simp
  qed
qed

lemma sequential_blocks_sound:
  assumes "describes meta" and "in_range start end'" and "coveringBlocks start end' bs = (b0, bK)"
    and "sound st" and "\<forall>i \<in> set is. b0 \<le> i \<and> i \<le> bK"
    and "sequential_blocks s ctx bucket key ak sk meta start end' is left rw st = (st', rw', e)"
  shows "sound st' \<and> delivers (concat (map (part start end') is)) rw rw' e"
  using assms(4-)
proof (induction "is" arbitrary: left rw st)
  case Nil
  then show ?case by (simp add: delivers_Nil)
next
  case (Cons i "is")
  from local_range [OF assms(2,3)] Cons.prems(2) obtain ls le where l: "has_block i" "blockLocalRange i start end' bs (int (length obj)) = (ls, le)"
    "local_ok i ls le" "slice_of (block i) ls le = part start end' i" by fastforce
  have l': "blockLocalRange i start end' (BlockSize meta) (ContentLength meta) = (ls, le)" using l(2) assms(1) by (simp add: describes_def)
  have t: "\<forall>i \<in> set is. b0 \<le> i \<and> i \<le> bK" using Cons.prems(2) by simp
  have fin: "sound st' \<and> delivers (concat (map (part start end') (i # is))) rw0 rw' e"
    if "sound st2" "delivers (part start end' i) rw0 rw2 x"
      and "(case x of None \<Rightarrow> sequential_blocks s ctx bucket key ak sk meta start end' is left2 rw2 st2
            | Some y \<Rightarrow> if c then (st2, rw2, Some y) else (st2, rw2, Some z)) = (st', rw', e)" for st2 rw0 rw2 x left2 c z
  proof (cases x)
    case None
    then have "sound st' \<and> delivers (concat (map (part start end') is)) rw2 rw' e" using Cons.IH [OF that(1) t] that(3) by simp
    then show ?thesis using delivers_append that(2) None by simp
  next
    case (Some y)
    then have "st' = st2" "rw' = rw2" "\<exists>z. e = Some z" using that(3) by (auto split: if_splits)
    then show ?thesis using that(1,2) Some delivers_part by auto
  qed
  obtain st1 rw1 n c e1 where a: "stream_to_client s bucket key meta i ls le rw st = (st1, rw1, n, c, e1)" by (metis prod_cases5)
  note A = stream_to_client_sound [OF Cons.prems(1) assms(1) l(3) a]
  show ?case
  proof (cases "(case e1 of Some e \<Rightarrow> err_is e ErrNotFound | None \<Rightarrow> False) \<and> n = 0")
    case False
    have "(case e1 of None \<Rightarrow> sequential_blocks s ctx bucket key ak sk meta start end' is left rw1 st1
            | Some y \<Rightarrow> if c then (st1, rw1, Some y) else (st1, rw1, Some (EWrap (''block '' @ FormatInt i @ '' stream failed ('' @ Error y @ ''): '' @ Error ErrBlockStreamDegraded)
                                          [y, ErrBlockStreamDegraded]))) = (st', rw', e)"
      using Cons.prems(3) False by (simp add: l' a Let_def)
    then show ?thesis using fin [of st1 rw rw1 e1 left c "EWrap _ _"] A l(4) by (cases e1) auto
  next
    case True
    obtain st2 fe where f: "fetchBlocksToCache s ctx bucket key ak sk meta [i] st1 = (st2, fe)" by fastforce
    have s2: "sound st2" using fetchBlocksToCache_sound [OF _ assms(1) _ f] A l(1) by simp
    obtain st3 rw3 n3 c3 e3 where b: "stream_to_client s bucket key meta i ls le rw1 st2 = (st3, rw3, n3, c3, e3)" by (metis prod_cases5)
    note B = stream_to_client_sound [OF s2 assms(1) l(3) b]
    have same: "delivers [] rw rw1 None" using A True by simp
    have B1: "delivers (part start end' i) rw rw3 e3" using delivers_append [OF same] B l(4) by simp
    consider "left \<le> 0" | "0 < left" "fe \<noteq> None" | "0 < left" "fe = None" by fastforce
    then show ?thesis
    proof cases
      case 1
      then have "st' = st1" "rw' = rw1" "e = Some errBlocksMostlyAbsent" using Cons.prems(3) True by (auto simp: l' a Let_def)
      then show ?thesis using A delivers_append [OF same delivers_nothing] by simp
    next
      case 2
      then have "st' = st2" "rw' = rw1" "\<exists>z. e = Some z" using Cons.prems(3) True f by (auto simp: l' a Let_def)
      then show ?thesis using s2 delivers_append [OF same delivers_nothing] by auto
    next
      case 3
      have "(case e3 of None \<Rightarrow> sequential_blocks s ctx bucket key ak sk meta start end' is (left - 1) rw3 st3
            | Some y \<Rightarrow> if c3 then (st3, rw3, Some y) else (st3, rw3, Some (EWrap (''block '' @ FormatInt i @ '' stream failed ('' @ Error y @ ''): '' @ Error ErrBlockStreamDegraded)
                                          [y, ErrBlockStreamDegraded]))) = (st', rw', e)"
        using Cons.prems(3) True 3 f by (simp add: l' a b Let_def)
      then show ?thesis using fin [of st3 rw rw3 e3 "left - 1" c3 "EWrap _ _"] B B1 by (cases e3) auto
    qed
  qed
qed

lemma start_read_sound:
  assumes "describes meta" and "in_range start end'" and "coveringBlocks start end' bs = (b0, bK)" and "b0 \<le> i" and "i \<le> bK"
    and "sound st" and "start_read what s bucket key meta start end' i st = (st', j, out, e)"
  shows "sound st' \<and> j = i \<and> (e = None \<longrightarrow> out = part start end' i)"
proof -
  from local_range [OF assms(2-5)] obtain ls le where l: "blockLocalRange i start end' bs (int (length obj)) = (ls, le)"
    "local_ok i ls le" "slice_of (block i) ls le = part start end' i" by blast
  obtain st1 o1 e1 where a: "read_slice what s bucket key meta i ls le st = (st1, o1, e1)" by (metis prod_cases3)
  show ?thesis using read_slice_sound [OF assms(6,1) l(2) a] assms(1,7) a l by (auto simp: start_read_def describes_def)
qed

lemma start_reads_sound:
  assumes "describes meta" and "in_range start end'" and "coveringBlocks start end' bs = (b0, bK)"
    and "sound st" and "\<forall>i \<in> set is. b0 \<le> i \<and> i \<le> bK" and "start_reads s bucket key meta start end' is st = (st', rs)"
  shows "sound st' \<and> map fst rs = is \<and> (\<forall>(i, out, e) \<in> set rs. e = None \<longrightarrow> out = part start end' i)"
  using assms(4-)
proof (induction "is" arbitrary: st rs)
  case (Cons i "is")
  obtain st1 j out e where a: "start_read ''stream'' s bucket key meta start end' i st = (st1, j, out, e)" by (metis prod_cases4)
  have A: "sound st1 \<and> j = i \<and> (e = None \<longrightarrow> out = part start end' i)"
    using start_read_sound [OF assms(1-3) _ _ Cons.prems(1) a] Cons.prems(2) by simp
  obtain rs2 where b: "start_reads s bucket key meta start end' is st1 = (st', rs2)" and rs: "rs = (j, out, e) # rs2"
    using Cons.prems(3) a by (auto split: prod.splits)
  have "sound st' \<and> map fst rs2 = is \<and> (\<forall>(i, out, e) \<in> set rs2. e = None \<longrightarrow> out = part start end' i)"
    using Cons.IH [OF _ _ b] A Cons.prems(2) by simp
  then show ?case using A rs by auto
qed simp

lemma pipelined_blocks_sound:
  assumes "describes meta" and "in_range start end'" and "coveringBlocks start end' bs = (b0, bK)"
    and "sound st" and "\<forall>i \<in> fst ` set pending \<union> set rest. b0 \<le> i \<and> i \<le> bK"
    and "\<forall>(i, out, e) \<in> set pending. e = None \<longrightarrow> out = part start end' i" and "pending = [] \<longrightarrow> rest = []"
    and "pipelined_blocks s ctx bucket key ak sk meta start end' pending rest left rw st = (st', rw', e)"
  shows "sound st' \<and> delivers (concat (map (part start end') (map fst pending @ rest))) rw rw' e"
  using assms(4-)
proof (induction "length pending + length rest" arbitrary: pending rest left rw st rule: less_induct)
  case less
  show ?case
  proof (cases pending)
    case Nil
    then show ?thesis using less.prems by (simp add: delivers_Nil)
  next
    case (Cons p ps)
    obtain i out x where p: "p = (i, out, x)" by (metis prod_cases3)
    have i: "b0 \<le> i" "i \<le> bK" using less.prems(2) Cons p by auto
    from local_range [OF assms(2,3) i] obtain ls le where l: "blockLocalRange i start end' bs (int (length obj)) = (ls, le)"
      "local_ok i ls le" "slice_of (block i) ls le = part start end' i" by blast
    have l': "blockLocalRange i start end' (BlockSize meta) (ContentLength meta) = (ls, le)" using l(1) assms(1) by (simp add: describes_def)
    define res where "res = (case x of None \<Rightarrow> (st, Inr out, left)
                 | Some x \<Rightarrow> if err_is x ErrNotFound then recoverMissingBlockSlice s ctx bucket key ak sk meta i ls le left st
                     else (st, Inl (blockReadSliceError i x), left))"
    obtain st1 r left1 where r: "res = (st1, r, left1)" by (metis prod_cases3)
    have R: "sound st1 \<and> (\<forall>b. r = Inr b \<longrightarrow> b = part start end' i)"
    proof (cases x)
      case None
      then show ?thesis using r less.prems(1,3) Cons p by (auto simp: res_def)
    next
      case (Some y)
      then show ?thesis using r less.prems(1) recoverMissingBlockSlice_sound [OF less.prems(1) assms(1) l(2)] l(3)
        by (auto simp: res_def split: if_splits)
    qed
    show ?thesis
    proof (cases r)
      case (Inl y)
      then have "st' = st1" "rw' = rw" "e = Some y" using less.prems(5) Cons p r l' by (auto simp: res_def)
      then show ?thesis using R delivers_nothing by simp
    next
      case (Inr buf)
      obtain rw1 n we where w: "rw_Write buf rw = (rw1, n, we)" by (metis prod_cases3)
      have D: "delivers (part start end' i) rw rw1 we" using delivers_Write [OF w] R Inr by simp
      show ?thesis
      proof (cases we)
        case (Some y)
        then have "st' = st1" "rw' = rw1" "e = Some y" using less.prems(5) Cons p r l' Inr w by (auto simp: res_def)
        then show ?thesis using R D Some delivers_part Cons p by auto
      next
        case None
        show ?thesis
        proof (cases rest)
          case Nil
          have "sound st' \<and> delivers (concat (map (part start end') (map fst ps @ []))) rw1 rw' e"
          proof (rule less.hyps)
            show "length ps + length ([] :: int list) < length pending + length rest" using Cons by simp
            show "pipelined_blocks s ctx bucket key ak sk meta start end' ps [] left1 rw1 st1 = (st', rw', e)"
              using less.prems(5) Cons p r l' Inr w None Nil by (simp add: res_def)
          qed (use R less.prems(2,3) Cons in auto)
          then show ?thesis using delivers_append D None Cons p Nil by simp
        next
          case rest: (Cons j js)
          obtain st2 j' o2 e2 where q0: "start_read ''stream'' s bucket key meta start end' j st1 = (st2, j', o2, e2)" by (metis prod_cases4)
          define q where q': "q = (j', o2, e2)"
          have q: "start_read ''stream'' s bucket key meta start end' j st1 = (st2, q)" by (simp add: q0 q')
          have Q: "sound st2 \<and> j' = j \<and> (e2 = None \<longrightarrow> o2 = part start end' j)"
            using start_read_sound [OF assms(1-3), of j st1 "''stream''" st2 j' o2 e2] R q q' less.prems(2) rest by auto
          have "sound st' \<and> delivers (concat (map (part start end') (map fst (ps @ [q]) @ js))) rw1 rw' e"
          proof (rule less.hyps)
            show "length (ps @ [q]) + length js < length pending + length rest" using Cons rest by simp
            show "pipelined_blocks s ctx bucket key ak sk meta start end' (ps @ [q]) js left1 rw1 st2 = (st', rw', e)"
              using less.prems(5) Cons p r l' Inr w None rest q by (simp add: res_def)
          qed (use R Q q' less.prems(2,3) Cons rest in auto)
          then show ?thesis using delivers_append D None Cons p rest q' Q by simp
        qed
      qed
    qed
  qed
qed

lemma covered:
  assumes "in_range start end'" and "coveringBlocks start end' bs = (b0, bK)"
  shows "concat (map (part start end') [b0..bK]) = slice_of obj start end'"
  using blk.assemble [OF fits _ _ _ assms(2)] assms(1) by (simp add: in_range_def)

lemma streamBlockRangeSequential_sound:
  assumes "describes meta" and "in_range start end'" and "sound st"
    and "streamBlockRangeSequential s ctx bucket key ak sk meta start end' rw st = (st', rw', e)"
  shows "sound st' \<and> delivers (slice_of obj start end') rw rw' e"
proof -
  obtain b0 bK where c: "coveringBlocks start end' bs = (b0, bK)" by fastforce
  have "sequential_blocks s ctx bucket key ak sk meta start end' [b0..bK] maxInlineFetchesPerServe rw st = (st', rw', e)"
    using assms(1,4) c by (simp add: streamBlockRangeSequential_def describes_def)
  from sequential_blocks_sound [OF assms(1,2) c assms(3) _ this] show ?thesis by (simp add: covered [OF assms(2) c])
qed

lemma streamBlockRangePipelined_sound:
  assumes "describes meta" and "in_range start end'" and "sound st" and "0 < n"
    and "streamBlockRangePipelined s ctx bucket key ak sk meta start end' n rw st = (st', rw', e)"
  shows "sound st' \<and> delivers (slice_of obj start end') rw rw' e"
proof -
  obtain b0 bK where c: "coveringBlocks start end' bs = (b0, bK)" by fastforce
  obtain st1 ps where a: "start_reads s bucket key meta start end' (take n [b0..bK]) st = (st1, ps)" by fastforce
  have tk: "\<forall>i \<in> set (take n [b0..bK]). b0 \<le> i \<and> i \<le> bK" "\<forall>i \<in> set (drop n [b0..bK]). b0 \<le> i \<and> i \<le> bK"
    by (auto dest: in_set_takeD in_set_dropD)
  note A = start_reads_sound [OF assms(1,2) c assms(3) tk(1) a]
  have b: "pipelined_blocks s ctx bucket key ak sk meta start end' ps (drop n [b0..bK]) (Some maxInlineFetchesPerServe) rw st1 = (st', rw', e)"
    using assms(1,5) c a by (simp add: streamBlockRangePipelined_def describes_def)
  have m: "map fst ps = take n [b0..bK]" using A by blast
  have f: "fst ` set ps = set (take n [b0..bK])" using m by (metis list.set_map)
  have "sound st' \<and> delivers (concat (map (part start end') (map fst ps @ drop n [b0..bK]))) rw rw' e"
  proof (rule pipelined_blocks_sound [OF assms(1,2) c _ _ _ _ b])
    show "ps = [] \<longrightarrow> drop n [b0..bK] = []" using m assms(4) by (cases n) auto
  qed (use A f tk in auto)
  then show ?thesis unfolding m append_take_drop_id covered [OF assms(2) c] .
qed

lemma release_sound [simp]: "sound (release_staging w st) = sound st"
  by simp

lemma pick_window_sound: "pick_window s b ws st = (st', r) \<Longrightarrow> world st' = world st \<and> (\<forall>n. r = Some n \<longrightarrow> n \<in> set ws)"
proof (induction ws arbitrary: st)
  case (Cons w ws)
  obtain st1 ok where t: "try_staging (stagingWeight (cfg_budget (s_config s)) (wrap64 (w * b))) st = (st1, ok)" by fastforce
  have "world st1 = world st" using admission_world(3) [of "stagingWeight (cfg_budget (s_config s)) (wrap64 (w * b))" st] t by simp
  with Cons t show ?case by (cases ok) auto
qed simp

lemma stream_from_cache_sound:
  assumes "describes meta" and "in_range start end'" and "sound st" and "stream_from_cache s ctx bucket key ak sk meta start end' rw st = (st', rw', e)"
  shows "sound st' \<and> delivers (slice_of obj start end') rw rw' e"
proof -
  obtain b0 bK where c: "coveringBlocks start end' bs = (b0, bK)" by fastforce
  define req where "req = min (wrap64 (wrap64 (bK - b0) + 1)) maxRangeBlockFanout"
  obtain st1 wo where p: "pick_window s bs (rev [2..req]) st = (st1, wo)" by fastforce
  note P = pick_window_sound [OF p]
  show ?thesis
  proof (cases "b0 = bK \<or> wo = None")
    case True
    then obtain st0 where "streamBlockRangeSequential s ctx bucket key ak sk meta start end' rw st0 = (st', rw', e)" "sound st0"
      using assms(1,3,4) c p P by (auto simp: stream_from_cache_def describes_def Let_def req_def split: if_splits)
    then show ?thesis using streamBlockRangeSequential_sound [OF assms(1,2)] by blast
  next
    case False
    then obtain n where n: "wo = Some n" "b0 \<noteq> bK" by auto
    obtain st2 rw2 e2 where q: "streamBlockRangePipelined s ctx bucket key ak sk meta start end' (nat n) rw st1 = (st2, rw2, e2)" by (metis prod_cases3)
    have "0 < nat n" using P n by auto
    moreover have "sound st1" using P assms(3) by simp
    ultimately have "sound st2 \<and> delivers (slice_of obj start end') rw rw2 e2" using streamBlockRangePipelined_sound [OF assms(1,2) _ _ q] by blast
    then show ?thesis using assms(1,4) c p n q by (auto simp: stream_from_cache_def describes_def Let_def req_def)
  qed
qed

lemma streamRemainderFromUpstream_sound:
  assumes "describes meta" and "in_range absStart absEnd" and "sound st"
    and "streamRemainderFromUpstream s bucket key ak sk meta absStart absEnd rw st = (st', rw', e)"
  shows "sound st' \<and> delivers (slice_of obj absStart absEnd) rw rw' e"
proof -
  obtain st1 r where d: "on_world (fw_DoConditionalGetRequest (forwarder s) bucket key ak sk [] 0 (''bytes='' @ FormatInt absStart @ ''-'' @ FormatInt absEnd)) st = (st1, r)"
    by fastforce
  note up = upstream [OF assms(3) conjunct1 [OF on_worldD [OF d]]]
  have s1: "sound st1" and inv: "sound (invalidateStaleMeta s bucket key (ETag meta) st1)" using up invalidateStaleMeta_sound by auto
  note R = assms(2) [unfolded in_range_def]
  show ?thesis
  proof (cases "rw' = rw \<and> e \<noteq> None \<and> sound st'")
    case True
    then show ?thesis using delivers_nothing by auto
  next
    case False
    obtain resp total rw1 n ce where r: "r = Inr resp" "resp_Status resp = 206" "header_get (resp_Header resp) ''ETag'' = etag"
      "parseContentRange (header_get (resp_Header resp) ''Content-Range'') = (absStart, absEnd, total, True)"
      and cp: "io_Copy (resp_Body resp) rw = (rw1, n, ce)" and st': "st' = st1" "rw' = rw1"
      and e: "e = None \<longrightarrow> ce = None \<and> int n = slice_len absStart absEnd"
      using assms(1,4) d False s1 inv
      by (auto simp: streamRemainderFromUpstream_def describes_def Let_def split: sum.splits if_splits prod.splits option.splits)
    obtain m where m: "fst (resp_Body resp) = take m (slice_of obj absStart absEnd)" using up r R by (auto simp: honest_def)
    obtain k where k: "rw_body rw1 = rw_body rw @ take k (fst (resp_Body resp))" "n = min k (length (fst (resp_Body resp)))" "ce = None \<longrightarrow> k = length (fst (resp_Body resp))"
      using io_Copy_bytes [OF cp] by blast
    have sl: "slice_len absStart absEnd = absEnd - absStart + 1" using R obj_len by (intro slice_len_local) auto
    have ln: "length (slice_of obj absStart absEnd) = nat (absEnd - absStart + 1)" using R by (intro length_slice) auto
    have "rw_sent rw \<noteq> None \<longrightarrow> rw_sent rw1 = rw_sent rw" using io_Copy_committed [of rw "resp_Body resp"] cp by auto
    moreover have "rw_body rw1 = rw_body rw @ take (min k m) (slice_of obj absStart absEnd)" using k m by (simp add: min.commute)
    moreover have "e = None \<longrightarrow> length (slice_of obj absStart absEnd) \<le> min k m" using e k m sl ln by auto
    ultimately show ?thesis using s1 st' by (auto simp: delivers_def)
  qed
qed

lemma maybePrefetchParquetFooter_sound: "sound st \<Longrightarrow> sound (maybePrefetchParquetFooter s bucket key ak sk meta a b served st)"
proof -
  assume st: "sound st"
  obtain st1 seen where f: "on_world (footer_Get s (footer_version_key bucket key meta)) st = (st1, seen)" by fastforce
  have "sound st1" using footer [OF st conjunct1 [OF on_worldD [OF f]]] .
  then show ?thesis using st f
    by (auto simp: maybePrefetchParquetFooter_def Let_def LoadOrStore_def startBackgroundTask_def drop_marker_def split: bool.splits option.splits)
qed

lemma slice_rest:
  assumes "in_range start end'" and "k < length (slice_of obj start end')"
  shows "in_range (start + int k) end' \<and> take k (slice_of obj start end') @ slice_of obj (start + int k) end' = slice_of obj start end'"
proof -
  have R: "0 \<le> start" "start \<le> end'" "end' < int (length obj)" using assms(1) by (auto simp: in_range_def)
  have "length (slice_of obj start end') = nat (end' - start + 1)" using R by (intro length_slice) auto
  then have k: "start + int k \<le> end'" using assms(2) R by linarith
  then have "k \<le> nat (end' - start + 1)" by linarith
  then have "take k (slice_of obj start end') = slice_of obj start (start + int k - 1)" by (simp add: slice_of_def min_absorb1)
  moreover have "slice_of obj start (start + int k - 1) @ slice_of obj (start + int k - 1 + 1) end' = slice_of obj start end'"
    using R k by (intro slice_append) auto
  ultimately show ?thesis using R k by (simp add: in_range_def)
qed

lemma streamBlockRangeWithFooterRange_sound:
  assumes "describes meta" and "in_range start end'" and "sound st"
    and "streamBlockRangeWithFooterRange s ctx bucket key ak sk meta start end' fs fe rw st = (st', rw', e)"
  shows "sound st' \<and> delivers (slice_of obj start end') rw rw' e"
proof -
  obtain st1 rw1 e1 where a: "stream_from_cache s ctx bucket key ak sk meta start end' rw st = (st1, rw1, e1)" by (metis prod_cases3)
  note A = stream_from_cache_sound [OF assms(1-3) a]
  show ?thesis
  proof (cases e1)
    case None
    then show ?thesis using A assms(4) a maybePrefetchParquetFooter_sound by (auto simp: streamBlockRangeWithFooterRange_def Let_def)
  next
    case (Some x)
    let ?S = "slice_of obj start end'"
    obtain k where k: "rw_body rw1 = rw_body rw @ take k ?S" "rw_sent rw \<noteq> None \<longrightarrow> rw_sent rw1 = rw_sent rw" using A by (auto simp: delivers_def)
    define d where "d = min k (length ?S)"
    have b: "rw_body rw1 = rw_body rw @ take d ?S" and dl: "length (rw_body rw1) = length (rw_body rw) + d" using k by (auto simp: d_def min_def)
    have R: "0 \<le> start" "start \<le> end'" "end' < int (length obj)" using assms(2) by (auto simp: in_range_def)
    have ln: "length ?S = nat (end' - start + 1)" using R by (intro length_slice) auto
    show ?thesis
    proof (cases "err_is x ErrBlockStreamDegraded \<and> ctx (world st1) = None \<and> start + int d \<le> end'")
      case False
      then have "st' = st1" "rw' = rw1" "e = Some x" using assms(4) a Some dl by (auto simp: streamBlockRangeWithFooterRange_def Let_def)
      then show ?thesis using A Some by simp
    next
      case True
      obtain st2 rw2 e2 where q: "streamRemainderFromUpstream s bucket key ak sk meta (start + int d) end' rw1 st1 = (st2, rw2, e2)" by (metis prod_cases3)
      have "d < length ?S" using True ln by linarith
      note sr = slice_rest [OF assms(2) this]
      have Q: "sound st2 \<and> delivers (slice_of obj (start + int d) end') rw1 rw2 e2"
        using streamRemainderFromUpstream_sound [OF assms(1) _ _ q] sr A by blast
      have st': "rw' = rw2" "e = e2" "sound st'"
        using assms(4) a Some dl True q Q invalidateStaleMeta_sound by (auto simp: streamBlockRangeWithFooterRange_def Let_def split: option.splits if_splits)
      have "delivers (take d ?S) rw rw1 None" using b k(2) by (auto simp: delivers_def intro!: exI [of _ d])
      from delivers_append [OF this] Q st' sr show ?thesis by metis
    qed
  qed
qed

end

end
