(* ===== verification/Serve_Exact.thy ===== *)
theory Serve_Exact
  imports Block_Exact
begin

text \<open>
  The serve paths of a block-mode entry deliver bytes of the version the entry names: the assembled, the certified, the
  complete and the probing path, and the two entry points that choose among them.
\<close>

context block_service
begin

section \<open>Serve paths\<close>

definition serves :: "string \<Rightarrow> ResponseWriter \<Rightarrow> ResponseWriter \<Rightarrow> ResponseWriter \<Rightarrow> bool \<Rightarrow> err option \<Rightarrow> bool" where
  "serves bytes committed rw rw' served e \<longleftrightarrow> (if served then delivers bytes committed rw' e else rw' = rw)"

lemma assemble_pass_sound:
  assumes "describes meta" and "in_range start end'" and "coveringBlocks start end' bs = (b0, bK)"
    and "sound st" and "\<forall>i \<in> set is. b0 \<le> i \<and> i \<le> bK" and "assemble_pass s bucket key meta start end' is st = (st', r)"
  shows "sound st' \<and> (\<forall>ps. r = Inr ps \<longrightarrow> map fst ps = is \<and> (\<forall>i out. (i, Some out) \<in> set ps \<longrightarrow> out = part start end' i))"
  using assms(4-)
proof (induction "is" arbitrary: st r)
  case (Cons i "is")
  obtain st1 j out e where a: "start_read ''assembly'' s bucket key meta start end' i st = (st1, j, out, e)" by (metis prod_cases4)
  have A: "sound st1 \<and> j = i \<and> (e = None \<longrightarrow> out = part start end' i)"
    using start_read_sound [OF assms(1-3) _ _ Cons.prems(1) a] Cons.prems(2) by simp
  show ?case
  proof (cases "case e of Some x \<Rightarrow> \<not> err_is x ErrNotFound | None \<Rightarrow> False")
    case True
    then show ?thesis using A a Cons.prems(3) by auto
  next
    case False
    obtain st2 r2 where b: "assemble_pass s bucket key meta start end' is st1 = (st2, r2)" by fastforce
    have st': "st' = st2" using Cons.prems(3) a b False by (auto split: sum.splits)
    have "sound st2 \<and> (\<forall>ps. r2 = Inr ps \<longrightarrow> map fst ps = is \<and> (\<forall>i out. (i, Some out) \<in> set ps \<longrightarrow> out = part start end' i))"
      using Cons.IH [of st1 r2] A b st' Cons.prems(2) by simp
    then show ?thesis using A a b False Cons.prems(3) by (cases r2; cases e) auto
  qed
qed simp

lemma fill_missing_sound:
  assumes "describes meta" and "in_range start end'" and "coveringBlocks start end' bs = (b0, bK)" and "\<forall>(i, d) \<in> set leases. d = block i"
    and "sound st" and "\<forall>i \<in> fst ` set ps. b0 \<le> i \<and> i \<le> bK" and "\<forall>i out. (i, Some out) \<in> set ps \<longrightarrow> out = part start end' i"
    and "fill_missing s bucket key meta start end' leases ps st = (st', r)"
  shows "sound st' \<and> (\<forall>bytes. r = Inr bytes \<longrightarrow> bytes = concat (map (part start end') (map fst ps)))"
  using assms(5-)
proof (induction ps arbitrary: st r)
  case (Cons p ps)
  obtain i o' where p: "p = (i, o')" by fastforce
  have i: "b0 \<le> i" "i \<le> bK" using Cons.prems(2) p by auto
  from local_range [OF assms(2,3) i] obtain ls le where l: "blockLocalRange i start end' bs (int (length obj)) = (ls, le)"
    "local_ok i ls le" "slice_of (block i) ls le = part start end' i" by blast
  have l': "blockLocalRange i start end' (BlockSize meta) (ContentLength meta) = (ls, le)" using l(1) assms(1) by (simp add: describes_def)
  define res where "res = (case o' of Some out \<Rightarrow> (st, Inr out)
      | None \<Rightarrow> (case map_of leases i of
                  Some data \<Rightarrow> (st, Inr (slice_of data ls le))
                | None \<Rightarrow> reread_block s bucket key meta i ls le st))"
  obtain st1 r1 where a0: "res = (st1, r1)" by (cases res)
  note a = a0 [unfolded res_def]
  have A: "sound st1 \<and> (\<forall>out. r1 = Inr out \<longrightarrow> out = part start end' i)"
  proof (cases o')
    case None
    show ?thesis
    proof (cases "map_of leases i")
      case (Some d)
      then have "d = block i" using assms(4) map_of_SomeD by fastforce
      then show ?thesis using None Some a Cons.prems(1) l(3) by auto
    next
      case None': None
      obtain st2 o2 e2 where b: "sliced_read s bucket key meta i ls le st = (st2, o2, e2)" by (metis prod_cases3)
      show ?thesis using sliced_read_sound [OF Cons.prems(1) assms(1) l(2) b] None None' a b l(3) by (auto simp: reread_block_def Let_def split: if_splits)
    qed
  next
    case (Some out)
    then show ?thesis using a Cons.prems(1,3) p by auto
  qed
  obtain st3 r3 where c: "fill_missing s bucket key meta start end' leases ps st1 = (st3, r3)" by fastforce
  have C: "sound st3 \<and> (\<forall>bytes. r3 = Inr bytes \<longrightarrow> bytes = concat (map (part start end') (map fst ps)))" if "st' = st3"
    using Cons.IH [of st1 r3] A c that Cons.prems(2,3) by simp
  have "(case (st1, r1) of (st, Inl e) \<Rightarrow> (st, Inl e)
         | (st, Inr out) \<Rightarrow> (case fill_missing s bucket key meta start end' leases ps st of (st, Inl e) \<Rightarrow> (st, Inl e) | (st, Inr bytes) \<Rightarrow> (st, Inr (out @ bytes)))) = (st', r)"
    using Cons.prems(4) unfolding p fill_missing.simps l' prod.case a [symmetric] .
  then show ?case using A C c p by (cases r1; cases r3) auto
qed simp

lemma assemble_range_sound:
  assumes "describes meta" and "in_range (rng_start rng) (rng_end rng)" and "sound st" and "assemble_range s bucket key ak sk meta rng st = (st', r)"
  shows "sound st' \<and> (\<forall>bytes. r = Inr bytes \<longrightarrow> bytes = slice_of obj (rng_start rng) (rng_end rng))"
proof -
  let ?a = "rng_start rng" and ?b = "rng_end rng"
  obtain b0 bK where c: "coveringBlocks ?a ?b bs = (b0, bK)" by fastforce
  obtain st1 r1 where p: "assemble_pass s bucket key meta ?a ?b [b0..bK] st = (st1, r1)" by fastforce
  have P: "sound st1" "\<And>ps. r1 = Inr ps \<Longrightarrow> map fst ps = [b0..bK] \<and> (\<forall>i out. (i, Some out) \<in> set ps \<longrightarrow> out = part ?a ?b i)"
    using assemble_pass_sound [OF assms(1,2) c assms(3) _ p] by auto
  show ?thesis
  proof (cases r1)
    case (Inl e)
    then show ?thesis using assms(1,4) c p P(1) by (auto simp: assemble_range_def describes_def)
  next
    case (Inr ps)
    note ps = P(2) [OF Inr]
    let ?ms = "map fst (filter (\<lambda>p. snd p = None) ps)"
    have mem: "b0 \<le> i \<and> i \<le> bK" if "(i, o') \<in> set ps" for i o'
    proof -
      have "i \<in> set (map fst ps)" using that by force
      then show ?thesis using ps by simp
    qed
    have hb: "list_all has_block ?ms" using local_range [OF assms(2) c] mem by (auto simp: list_all_iff)
    define res where "res = (if ?ms = [] then (st1, Inr []) else fetchBlocksForAssembly s bucket key ak sk meta ?ms st1)"
    obtain st2 r2 where f0: "res = (st2, r2)" by (cases res)
    note f = f0 [unfolded res_def]
    have F: "sound st2" "\<And>ls. r2 = Inr ls \<Longrightarrow> \<forall>(i, d) \<in> set ls. d = block i"
      using f P(1) fetchBlocksForAssembly_sound [OF P(1) assms(1) hb] by (auto split: if_splits)
    have eq: "assemble_range s bucket key ak sk meta rng st
        = (case (st2, r2) of (st, Inl e) \<Rightarrow> (st, Inl e) | (st, Inr leases) \<Rightarrow> fill_missing s bucket key meta ?a ?b leases ps st)"
      using assms(1) unfolding f [symmetric] by (simp add: assemble_range_def describes_def c p Inr Let_def)
    show ?thesis
    proof (cases r2)
      case (Inl e)
      then show ?thesis using eq assms(4) F(1) by auto
    next
      case L: (Inr leases)
      have fm: "fill_missing s bucket key meta ?a ?b leases ps st2 = (st', r)" using eq L assms(4) by simp
      have rg: "\<forall>i \<in> fst ` set ps. b0 \<le> i \<and> i \<le> bK" using mem by auto
      from fill_missing_sound [OF assms(1,2) c F(2) [OF L] F(1) rg conjunct2 [OF ps] fm]
      show ?thesis unfolding conjunct1 [OF ps] covered [OF assms(2) c] .
    qed
  qed
qed

lemma serveAssembledRange_sound:
  assumes "describes meta" and "in_range (rng_start rng) (rng_end rng)" and "sound st"
    and "serveAssembledRange s bucket key ak sk meta rng rw st = (st', rw', served, e)"
  shows "sound st' \<and> serves (slice_of obj (rng_start rng) (rng_end rng)) (commit_range meta (rng_start rng) (rng_end rng) rw) rw rw' served e"
proof -
  obtain st1 r where a: "assemble_range s bucket key ak sk meta rng st = (st1, r)" by fastforce
  note A = assemble_range_sound [OF assms(1-3) a]
  show ?thesis
  proof (cases r)
    case (Inl x)
    then show ?thesis using A assms(4) a by (auto simp: serveAssembledRange_def serves_def)
  next
    case (Inr buf)
    obtain rw1 n we where w: "rw_Write buf (commit_range meta (rng_start rng) (rng_end rng) rw) = (rw1, n, we)" by (metis prod_cases3)
    show ?thesis using A Inr assms(4) a w delivers_Write [OF w] maybePrefetchParquetFooter_sound
      by (auto simp: serveAssembledRange_def serves_def split: option.splits)
  qed
qed

lemma write_slices_sound: "write_slices bs' rw = (rw', e) \<Longrightarrow> delivers (concat bs') rw rw' e"
proof (induction bs' arbitrary: rw)
  case Nil
  then show ?case by (simp add: delivers_Nil)
next
  case (Cons b bs')
  obtain rw1 n we where w: "rw_Write b rw = (rw1, n, we)" by (metis prod_cases3)
  note D = delivers_Write [OF w]
  show ?case
  proof (cases we)
    case None
    then show ?thesis using D Cons w delivers_append by (auto split: if_splits)
  next
    case (Some x)
    then show ?thesis using D Cons.prems w delivers_part by auto
  qed
qed

lemma staged_hits:
  assumes "staged_verdict ce fs b0 rds = AllHit" and "(i, out, e) \<in> set rds"
  shows "e = None"
proof (rule ccontr)
  assume "e \<noteq> None"
  then obtain x where x: "e = Some x" by auto
  have "failures (\<lambda>i. i = b0) rds = [] \<and> failures (\<lambda>i. i \<noteq> b0) rds = []"
    using assms(1) by (auto simp: staged_verdict_def head_verdict_def tail_verdict_def split: if_splits list.splits)
  moreover have "(i, x) \<in> set (failures (\<lambda>i. i = b0) rds) \<or> (i, x) \<in> set (failures (\<lambda>i. i \<noteq> b0) rds)"
    using assms(2) x by (force simp: failures_def)
  ultimately show False by auto
qed

lemma serveCertifiedRange_sound:
  assumes "describes meta" and "in_range (rng_start rng) (rng_end rng)" and "sound st"
    and "serveCertifiedRange s ctx bucket key ak sk meta rng wt rw st = (st', rw', served, retry, e)"
  shows "sound st' \<and> serves (slice_of obj (rng_start rng) (rng_end rng)) (commit_range meta (rng_start rng) (rng_end rng) rw) rw rw' served e"
proof -
  let ?a = "rng_start rng" and ?b = "rng_end rng"
  obtain b0 bK where c: "coveringBlocks ?a ?b bs = (b0, bK)" by fastforce
  obtain st1 rds where p: "start_reads s bucket key meta ?a ?b [b0..bK] st = (st1, rds)" by fastforce
  have P: "sound st1" "map fst rds = [b0..bK]" "\<forall>(i, out, e) \<in> set rds. e = None \<longrightarrow> out = part ?a ?b i"
    using start_reads_sound [OF assms(1,2) c assms(3) _ p] by auto
  show ?thesis
  proof (cases "staged_bytes meta rng [b0..bK] \<noteq> slice_len ?a ?b")
    case True
    then show ?thesis using assms(1,3,4) c by (auto simp: serveCertifiedRange_def serves_def describes_def Let_def)
  next
    case eq: False
    show ?thesis
    proof (cases "staged_verdict (ctx (world st1)) (s_select s (world st1)) b0 rds")
      case AllHit
      have "map (fst \<circ> snd) rds = map (part ?a ?b) (map fst rds)" using P(3) staged_hits [OF AllHit] by (fastforce intro!: map_cong)
      then have cc: "concat (map (fst \<circ> snd) rds) = slice_of obj ?a ?b" using P(2) covered [OF assms(2) c] by simp
      obtain rw1 we where w: "write_slices (map (fst \<circ> snd) rds) (commit_range meta ?a ?b rw) = (rw1, we)" by fastforce
      show ?thesis using write_slices_sound [OF w] cc assms(1,4) c p P(1) AllHit w eq maybePrefetchParquetFooter_sound
        by (auto simp: serveCertifiedRange_def serves_def describes_def Let_def split: option.splits)
    qed (use assms(1,4) c p P(1) eq in \<open>auto simp: serveCertifiedRange_def serves_def describes_def Let_def\<close>)
  qed
qed

lemma first_part:
  assumes "in_range start end'" and "coveringBlocks start end' bs = (b0, bK)" and "blockLocalRange b0 start end' bs (int (length obj)) = (ls, le)"
  shows "let m = fst (blockBounds b0 bs (int (length obj))) + le in
    wrap64 m = m \<and> start \<le> m \<and> m \<le> end' \<and> local_ok b0 ls le \<and> slice_of (block b0) ls le = slice_of obj start m"
proof -
  have r: "0 \<le> start" "start \<le> end'" "end' < int (length obj)" using assms(1) by (simp_all add: in_range_def)
  note ix = covering_index [OF bs_pos r(1,2) assms(2)]
  have b0: "b0 \<le> bK" using ix by simp
  from local_range [OF assms(1,2) order_refl b0] assms(3) have h: "has_block b0" and l: "local_ok b0 ls le" "slice_of (block b0) ls le = part start end' b0"
    by auto
  have x: "b0 * bs \<le> start" using block_index_less [OF bs_pos, of b0 start] ix by simp
  have hi: "start \<le> b0 * bs + bs - 1" using block_index_greater [OF bs_pos, of start b0] ix by simp
  have x0: "0 \<le> b0 * bs" using ix bs_pos by simp
  let ?y = "min (b0 * bs + bs - 1) (int (length obj) - 1)"
  have w: "wrap64 (min end' ?y - b0 * bs) = min end' ?y - b0 * bs"
    using r x hi x0 obj_len by (auto intro!: wrap64_nonneg)
  have le: "le = min end' ?y - b0 * bs" using assms(3) w by (simp add: blockLocalRange_def bounds [OF h])
  have m: "fst (blockBounds b0 bs (int (length obj))) + le = min end' ?y" using le by (simp add: bounds [OF h])
  have "part start end' b0 = slice_of obj start (min end' ?y)"
    using blk.local_slice_eq [of b0 bs obj start end'] x x0 by (simp add: bounds [OF h] max_absorb1)
  moreover have "wrap64 (min end' ?y) = min end' ?y" using r hi x0 obj_len by (auto intro!: wrap64_nonneg)
  ultimately show ?thesis using l r hi by (simp add: m)
qed

lemma serveCompleteFromBlocks_sound:
  assumes "describes meta" and "in_range start end'" and "sound st"
    and "start = (case rng of Some r \<Rightarrow> rng_start r | None \<Rightarrow> 0)"
    and "end' = (case rng of Some r \<Rightarrow> rng_end r | None \<Rightarrow> int (length obj) - 1)"
    and "serveCompleteFromBlocks s ctx bucket key ak sk meta rng rw st = (st', rw', served, e)"
  shows "sound st' \<and> serves (slice_of obj start end') (case rng of Some _ \<Rightarrow> commit_range meta start end' rw | None \<Rightarrow> commit_full meta rw) rw rw' served e"
proof -
  have r: "0 \<le> start" "start \<le> end'" "end' < int (length obj)" using assms(2) by (simp_all add: in_range_def)
  obtain b0 bK where c: "coveringBlocks start end' bs = (b0, bK)" by fastforce
  obtain ls le where l: "blockLocalRange b0 start end' bs (int (length obj)) = (ls, le)" by fastforce
  define m where "m = fst (blockBounds b0 bs (int (length obj))) + le"
  have M: "wrap64 m = m" "start \<le> m" "m \<le> end'" "local_ok b0 ls le" "slice_of (block b0) ls le = slice_of obj start m"
    using first_part [OF assms(2) c l] by (simp_all add: m_def Let_def)
  let ?commit = "case rng of Some _ \<Rightarrow> commit_range meta start end' rw | None \<Rightarrow> commit_full meta rw"
  have e: "(case rng of Some r \<Rightarrow> rng_end r | None \<Rightarrow> wrap64 (ContentLength meta - 1)) = end'"
  proof (cases rng)
    case None
    have "wrap64 (int (length obj) - 1) = int (length obj) - 1" using r obj_len by (intro wrap64_nonneg) auto
    then show ?thesis using None assms(1,5) by (simp add: describes_def)
  qed (simp add: assms(5))
  have d: "BlockSize meta = bs" "ContentLength meta = int (length obj)" using assms(1) by (simp_all add: describes_def)
  obtain st1 r1 lf where a: "readBlockSlice s ctx bucket key ak sk meta b0 ls le None st = (st1, r1, lf)" by (metis prod_cases3)
  note A = readBlockSlice_sound [OF assms(3,1) M(4) a]
  have eq: "serveCompleteFromBlocks s ctx bucket key ak sk meta rng rw st
     = (case r1 of Inl x \<Rightarrow> (st1, rw, False, Some x)
        | Inr buf \<Rightarrow> (case rw_Write buf ?commit of
              (rw, n, Some werr) \<Rightarrow> (st1, rw, True, Some werr)
            | (rw, n, None) \<Rightarrow> if n \<noteq> length buf then (st1, rw, True, Some ErrShortWrite)
                else if m < end' then (case streamBlockRangeWithFooterRange s ctx bucket key ak sk meta (m + 1) end' start end' rw st1 of (st, rw, e) \<Rightarrow> (st, rw, True, e))
                else (st1, rw, True, None)))"
    unfolding serveCompleteFromBlocks_def Let_def assms(4) [symmetric] e unfolding d c l fst_conv prod.case m_def [symmetric] M(1) a prod.case
    by (cases r1) simp_all
  show ?thesis
  proof (cases r1)
    case (Inl x)
    then show ?thesis using A eq assms(6) by (auto simp: serves_def)
  next
    case (Inr buf)
    have buf: "buf = slice_of obj start m" using A Inr M(5) by simp
    obtain rw1 n we where w: "rw_Write buf ?commit = (rw1, n, we)" by (metis prod_cases3)
    note D = delivers_Write [OF w, unfolded buf]
    have split: "slice_of obj start m @ slice_of obj (m + 1) end' = slice_of obj start end'" using r M(2,3) by (intro slice_append) auto
    show ?thesis
    proof (cases we)
      case (Some x)
      then have "st' = st1" "rw' = rw1" "served" "e = Some x" using eq assms(6) Inr w by auto
      then show ?thesis using A D Some delivers_part [of "slice_of obj start m" ?commit rw1 x "slice_of obj (m + 1) end'"] split by (simp add: serves_def)
    next
      case None
      then have n: "n = length buf" using D buf by simp
      show ?thesis
      proof (cases "m < end'")
        case True
        obtain st2 rw2 e2 where q: "streamBlockRangeWithFooterRange s ctx bucket key ak sk meta (m + 1) end' start end' rw1 st1 = (st2, rw2, e2)" by (metis prod_cases3)
        have ir: "in_range (m + 1) end'" using r M(2,3) True by (simp add: in_range_def)
        have "sound st1" using A by blast
        note Q = streamBlockRangeWithFooterRange_sound [OF assms(1) ir this q]
        have "st' = st2" "rw' = rw2" "served" "e = e2" using eq assms(6) Inr w None n True q by auto
        moreover have "delivers (slice_of obj start m @ slice_of obj (m + 1) end') ?commit rw2 e2"
          using delivers_append [of "slice_of obj start m" ?commit rw1 "slice_of obj (m + 1) end'" rw2 e2] D None Q by simp
        ultimately show ?thesis using Q by (simp add: serves_def split)
      next
        case False
        then have "m = end'" using M(3) by simp
        moreover have "st' = st1" "rw' = rw1" "served" "e = None" using eq assms(6) Inr w None n False by auto
        ultimately show ?thesis using A D None by (simp add: serves_def)
      qed
    qed
  qed
qed

lemma probe_blocks_sound:
  assumes "describes meta" and "sound st" and "list_all has_block is" and "list_all has_block acc" and "probe_blocks s bucket key meta fo is acc st = (st', r)"
  shows "sound st' \<and> (\<forall>ms. r = Inr ms \<longrightarrow> list_all has_block ms)"
  using assms(2-)
proof (induction "is" arbitrary: st acc)
  case (Cons i "is")
  obtain st1 p where a: "probeBlock s bucket key meta i st = (st1, p)" by fastforce
  have s1: "sound st1" using probeBlock_sound [OF Cons.prems(1) assms(1) _ a] Cons.prems(2) by simp
  have h: "has_block i" "list_all has_block is" using Cons.prems(2) by simp_all
  consider e where "p = Inl e" | "p = Inr True" | "p = Inr False" by (metis sum.exhaust bool.exhaust)
  then show ?case
  proof cases
    case 2
    then show ?thesis using Cons.IH [OF s1 h(2) Cons.prems(3)] Cons.prems(4) a by simp
  next
    case 3
    then show ?thesis using Cons.IH [OF s1 h(2), of "acc @ [i]"] Cons.prems(3,4) h(1) s1 a by (auto simp: Let_def split: if_splits)
  qed (use Cons.prems(4) a s1 in auto)
qed auto

lemma ensureBlocksCached_sound:
  assumes "describes meta" and "sound st" and "\<forall>i. b0 \<le> i \<and> i \<le> bK \<longrightarrow> has_block i"
    and "ensureBlocksCached s ctx bucket key ak sk meta b0 bK bail fo st = (st', e)"
  shows "sound st'"
proof -
  obtain st1 r where p: "probe_blocks s bucket key meta fo [b0..bK] [] st = (st1, r)" by fastforce
  have P: "sound st1" "\<And>ms. r = Inr ms \<Longrightarrow> list_all has_block ms"
    using probe_blocks_sound [OF assms(1,2) _ _ p] assms(3) by (auto simp: list_all_iff)
  show ?thesis
  proof (cases r)
    case (Inr ms)
    then show ?thesis using assms(4) p P(1) fetchBlocksToCache_sound [OF P(1) assms(1) P(2) [OF Inr]]
      by (auto simp: ensureBlocksCached_def Let_def split: if_splits)
  qed (use assms(4) p P in \<open>auto simp: ensureBlocksCached_def\<close>)
qed

lemma GetMetaWithVersion_sound:
  assumes "sound st" and "on_world (GetMetaWithVersion (s_cache s) bucket key) st = (st', r)"
  shows "sound st'"
proof -
  have g: "GetMetaWithVersion (s_cache s) bucket key (world st) = (world st', r)" using on_worldD [OF assms(2)] by simp
  show ?thesis
  proof (cases "coord (s_cache s)")
    case CasCoordinator
    obtain w1 d v f e where q: "cl_GetWithVersion (client (s_cache s)) (MakeMetaKey bucket key) (world st) = (w1, d, v, f, e)" by (metis prod_cases5)
    show ?thesis using row_GetWithVersion [OF assms(1) q] g q CasCoordinator assms(1)
      by (auto simp: GetMetaWithVersion_def coord_getMetaWithVersion_def cas_getMetaWithVersion_def split: if_splits option.splits sum.splits)
  next
    case (LegacyCoordinator tt)
    obtain w1 d e where q: "cl_Get (client (s_cache s)) (MakeMetaKey bucket key) (world st) = (w1, d, e)" by (metis prod_cases3)
    show ?thesis using row_Get [OF assms(1) q] g q LegacyCoordinator assms(1)
      by (auto simp: GetMetaWithVersion_def coord_getMetaWithVersion_def legacy_getMetaWithVersion_def Let_def split: if_splits option.splits sum.splits)
  qed
qed

lemma promo_token_sound:
  assumes "sound st" and "promo_token s bucket key meta st = (st', t)"
  shows "sound st'"
proof -
  obtain st1 r where g: "on_world (GetMetaWithVersion (s_cache s) bucket key) st = (st1, r)" by fastforce
  show ?thesis using GetMetaWithVersion_sound [OF assms(1) g] assms g
    by (auto simp: promo_token_def split: if_splits sum.splits prod.splits option.splits bool.splits)
qed

lemma start_promotion_sound [simp]: "sound (start_promotion s bucket key meta promo st) = sound st"
  by (simp add: start_promotion_def split: option.split)

lemma try_staging_sound: "try_staging w st = (st', ok) \<Longrightarrow> sound st' = sound st"
  using admission_world(3) [of w st] by simp

lemma covering_has_blocks:
  assumes "in_range start end'" and "coveringBlocks start end' bs = (b0, bK)"
  shows "\<forall>i. b0 \<le> i \<and> i \<le> bK \<longrightarrow> has_block i"
  using local_range [OF assms] by blast

subsection \<open>Entry points\<close>

lemma serve_probed_range_sound:
  assumes "describes meta" and "in_range (rng_start rng) (rng_end rng)" and "sound st"
    and "serve_probed_range s ctx bucket key ak sk meta rng rw st = (st', rw', served, e)"
  shows "sound st' \<and> serves (slice_of obj (rng_start rng) (rng_end rng)) (commit_range meta (rng_start rng) (rng_end rng) rw) rw rw' served e"
proof -
  let ?a = "rng_start rng" and ?b = "rng_end rng"
  obtain b0 bK where c: "coveringBlocks ?a ?b bs = (b0, bK)" by fastforce
  then have c': "coveringBlocks ?a ?b (BlockSize meta) = (b0, bK)" using assms(1) by (simp add: describes_def)
  obtain st1 e1 where p: "ensureBlocksCached s ctx bucket key ak sk meta b0 bK False maxRangeBlockFanout st = (st1, e1)" by fastforce
  have s1: "sound st1" by (rule ensureBlocksCached_sound [OF assms(1,3) covering_has_blocks [OF assms(2) c] p])
  obtain st2 rw2 e2 where q: "streamBlockRange s ctx bucket key ak sk meta ?a ?b (commit_range meta ?a ?b rw) st1 = (st2, rw2, e2)" by (metis prod_cases3)
  note Q = streamBlockRangeWithFooterRange_sound [OF assms(1,2) s1 q [unfolded streamBlockRange_def]]
  show ?thesis using assms(4) c' p s1 q Q by (cases e1) (auto simp: serve_probed_range_def serves_def)
qed

lemma serve_complete_range_sound:
  assumes "describes meta" and "in_range (rng_start rng) (rng_end rng)" and "sound st"
    and "serve_complete_range s ctx bucket key ak sk meta rng rw st = (st', rw', served, e)"
  shows "sound st' \<and> serves (slice_of obj (rng_start rng) (rng_end rng)) (commit_range meta (rng_start rng) (rng_end rng) rw) rw rw' served e"
proof -
  let ?a = "rng_start rng" and ?b = "rng_end rng"
  obtain fs fe where l: "blockLocalRange (fst (coveringBlocks ?a ?b (BlockSize meta))) ?a ?b (BlockSize meta) (ContentLength meta) = (fs, fe)" by fastforce
  define wt where "wt = stagingWeight (cfg_budget (s_config s)) (slice_len fs fe)"
  obtain st1 ok where t: "try_staging wt st = (st1, ok)" by fastforce
  have s1: "sound st1" using try_staging_sound [OF t] assms(3) by simp
  obtain st2 rw2 sv e2 where q: "serveCompleteFromBlocks s ctx bucket key ak sk meta (Some rng) rw st1 = (st2, rw2, sv, e2)" by (metis prod_cases4)
  note Q = serveCompleteFromBlocks_sound [OF assms(1,2) s1 _ _ q]
  have eq: "serve_complete_range s ctx bucket key ak sk meta rng rw st =
      (if BlockSize meta < slice_len ?a ?b \<and> BlocksComplete meta
       then if ok then (release_staging wt st2, rw2, sv, e2) else serve_probed_range s ctx bucket key ak sk meta rng rw st1
       else serve_probed_range s ctx bucket key ak sk meta rng rw st)"
    unfolding serve_complete_range_def Let_def l prod.case wt_def [symmetric] t by (cases ok) (simp_all add: q)
  consider "serve_complete_range s ctx bucket key ak sk meta rng rw st = (release_staging wt st2, rw2, sv, e2)"
    | st'' where "sound st''" "serve_complete_range s ctx bucket key ak sk meta rng rw st = serve_probed_range s ctx bucket key ak sk meta rng rw st''"
    using eq s1 assms(3) by (auto split: if_splits)
  then show ?thesis
  proof cases
    case 1
    then show ?thesis using Q assms(4) by auto
  next
    case 2
    show ?thesis by (rule serve_probed_range_sound [OF assms(1,2) 2(1)]) (use 2 assms(4) in simp)
  qed
qed

lemma serve_certified_range_sound:
  assumes "describes meta" and "in_range (rng_start rng) (rng_end rng)" and "sound st"
    and "serve_certified_range s ctx bucket key ak sk meta rng rw st = (st', rw', served, e)"
  shows "sound st' \<and> serves (slice_of obj (rng_start rng) (rng_end rng)) (commit_range meta (rng_start rng) (rng_end rng) rw) rw rw' served e"
proof -
  define wt where "wt = stagingWeight (cfg_budget (s_config s)) (slice_len (rng_start rng) (rng_end rng))"
  obtain b0 bK where c: "coveringBlocks (rng_start rng) (rng_end rng) (BlockSize meta) = (b0, bK)" by fastforce
  obtain st1 ok where t: "try_staging wt st = (st1, ok)" by fastforce
  have s1: "sound st1" using try_staging_sound [OF t] assms(3) by simp
  obtain st2 rw2 sv ret e2 where q: "serveCertifiedRange s ctx bucket key ak sk meta rng wt rw st1 = (st2, rw2, sv, ret, e2)" by (metis prod_cases5)
  note Q = serveCertifiedRange_sound [OF assms(1,2) s1 q]
  have eq: "serve_certified_range s ctx bucket key ak sk meta rng rw st =
      (if BlockSize meta < slice_len (rng_start rng) (rng_end rng) \<and> b0 < bK \<and> certifiedRangeBlockSpanCovers meta b0 bK
       then if ok then (if sv \<or> \<not> ret then (st2, rw2, sv, e2) else serve_complete_range s ctx bucket key ak sk meta rng rw st2)
            else serve_complete_range s ctx bucket key ak sk meta rng rw st1
       else serve_complete_range s ctx bucket key ak sk meta rng rw st)"
    unfolding serve_certified_range_def Let_def c prod.case wt_def [symmetric] t by (cases ok) (simp_all add: q)
  consider "serve_certified_range s ctx bucket key ak sk meta rng rw st = (st2, rw2, sv, e2)"
    | st'' where "sound st''" "serve_certified_range s ctx bucket key ak sk meta rng rw st = serve_complete_range s ctx bucket key ak sk meta rng rw st''"
    using eq Q s1 assms(3) by (auto split: if_splits)
  then show ?thesis
  proof cases
    case 1
    then show ?thesis using Q assms(4) by simp
  next
    case 2
    show ?thesis by (rule serve_complete_range_sound [OF assms(1,2) 2(1)]) (use 2 assms(4) in simp)
  qed
qed

lemma serve_small_range_sound:
  assumes "describes meta" and "in_range (rng_start rng) (rng_end rng)" and "sound st"
    and "serve_small_range s ctx bucket key ak sk meta rng rw st = (st', rw', served, e)"
  shows "sound st' \<and> serves (slice_of obj (rng_start rng) (rng_end rng)) (commit_range meta (rng_start rng) (rng_end rng) rw) rw rw' served e"
proof -
  define wt where "wt = stagingWeight (cfg_budget (s_config s)) (slice_len (rng_start rng) (rng_end rng))"
  obtain st1 ok where t: "try_staging wt st = (st1, ok)" by fastforce
  have s1: "sound st1" using try_staging_sound [OF t] assms(3) by simp
  obtain st2 rw2 sv e2 where q: "serveAssembledRange s bucket key ak sk meta rng rw st1 = (st2, rw2, sv, e2)" by (metis prod_cases4)
  note Q = serveAssembledRange_sound [OF assms(1,2) s1 q]
  have eq: "serve_small_range s ctx bucket key ak sk meta rng rw st =
      (if slice_len (rng_start rng) (rng_end rng) \<le> BlockSize meta
       then if ok then (release_staging wt st2, rw2, sv, e2) else serve_certified_range s ctx bucket key ak sk meta rng rw st1
       else serve_certified_range s ctx bucket key ak sk meta rng rw st)"
    unfolding serve_small_range_def Let_def wt_def [symmetric] t by (cases ok) (simp_all add: q)
  consider "serve_small_range s ctx bucket key ak sk meta rng rw st = (release_staging wt st2, rw2, sv, e2)"
    | st'' where "sound st''" "serve_small_range s ctx bucket key ak sk meta rng rw st = serve_certified_range s ctx bucket key ak sk meta rng rw st''"
    using eq s1 assms(3) by (auto split: if_splits)
  then show ?thesis
  proof cases
    case 1
    then show ?thesis using Q assms(4) by auto
  next
    case 2
    show ?thesis by (rule serve_certified_range_sound [OF assms(1,2) 2(1)]) (use 2 assms(4) in simp)
  qed
qed

lemma whole: "slice_of obj 0 (int (length obj) - 1) = obj"
  by (simp add: slice_of_def)

lemma serve_probed_full_sound:
  assumes "describes meta" and "obj \<noteq> []" and "sound st"
    and "serve_probed_full s ctx bucket key ak sk meta rw st = (st', rw', served, e)"
  shows "sound st' \<and> serves obj (commit_full meta rw) rw rw' served e"
proof -
  let ?z = "int (length obj) - 1"
  have d: "ETag meta = etag" "BlockSize meta = bs" "ContentLength meta = int (length obj)" using assms(1) by (simp_all add: describes_def)
  have r: "in_range 0 ?z" using assms(2) by (simp add: in_range_def Suc_le_eq)
  then have z: "wrap64 ?z = ?z" using obj_len by (intro wrap64_nonneg) (auto simp: in_range_def)
  have c: "coveringBlocks 0 ?z bs = (0, go_div ?z bs)" by (simp add: coveringBlocks_def go_div_def)
  obtain st1 promo where t: "promo_token s bucket key meta st = (st1, promo)" by fastforce
  have s1: "sound st1" by (rule promo_token_sound [OF assms(3) t])
  obtain st2 e2 where p: "ensureBlocksCached s ctx bucket key ak sk meta 0 (go_div ?z bs) True 0 st1 = (st2, e2)" by fastforce
  have s2: "sound st2" by (rule ensureBlocksCached_sound [OF assms(1) s1 covering_has_blocks [OF r c] p])
  then have s3: "sound (start_promotion s bucket key meta promo st2)" by simp
  obtain st4 rw4 e4 where q: "streamBlockRange s ctx bucket key ak sk meta 0 ?z (commit_full meta rw) (start_promotion s bucket key meta promo st2) = (st4, rw4, e4)"
    by (metis prod_cases3)
  note Q = streamBlockRangeWithFooterRange_sound [OF assms(1) r s3 q [unfolded streamBlockRange_def]]
  have eq: "serve_probed_full s ctx bucket key ak sk meta rw st =
     (case e2 of
        Some x \<Rightarrow> if err_is x ErrBlockAssemblyWouldAmplify then (invalidateStaleMeta s bucket key etag st2, rw, False, None) else (st2, rw, False, Some x)
      | None \<Rightarrow> (st4, rw4, True, e4))"
    using t p q by (simp add: serve_probed_full_def d z split: option.split)
  show ?thesis using assms(4) eq s2 Q invalidateStaleMeta_sound [OF s2] by (auto simp: serves_def whole split: option.splits if_splits)
qed

lemma serveFullObjectFromBlockCache_sound:
  assumes "describes meta" and "obj \<noteq> []" and "sound st"
    and "serveFullObjectFromBlockCache s ctx bucket key ak sk meta rw st = (st', rw', served, e)"
  shows "sound st' \<and> serves obj (commit_full meta rw) rw rw' served e"
proof -
  define wt where "wt = stagingWeight (cfg_budget (s_config s)) (min (BlockSize meta) (ContentLength meta))"
  have r: "in_range 0 (int (length obj) - 1)" using assms(2) by (simp add: in_range_def Suc_le_eq)
  obtain st1 ok where t: "try_staging wt st = (st1, ok)" by fastforce
  have s1: "sound st1" using try_staging_sound [OF t] assms(3) by simp
  obtain st2 rw2 sv e2 where q: "serveCompleteFromBlocks s ctx bucket key ak sk meta None rw st1 = (st2, rw2, sv, e2)" by (metis prod_cases4)
  note Q = serveCompleteFromBlocks_sound [OF assms(1) r s1 _ _ q, simplified whole, simplified]
  have eq: "serveFullObjectFromBlockCache s ctx bucket key ak sk meta rw st =
      (if BlocksComplete meta
       then if ok then (release_staging wt st2, rw2, sv, e2) else serve_probed_full s ctx bucket key ak sk meta rw st1
       else serve_probed_full s ctx bucket key ak sk meta rw st)"
    unfolding serveFullObjectFromBlockCache_def Let_def wt_def [symmetric] t by (cases ok) (simp_all add: q)
  consider "serveFullObjectFromBlockCache s ctx bucket key ak sk meta rw st = (release_staging wt st2, rw2, sv, e2)"
    | st'' where "sound st''" "serveFullObjectFromBlockCache s ctx bucket key ak sk meta rw st = serve_probed_full s ctx bucket key ak sk meta rw st''"
    using eq s1 assms(3) by (auto split: if_splits)
  then show ?thesis
  proof cases
    case 1
    then show ?thesis using Q assms(4) by auto
  next
    case 2
    show ?thesis by (rule serve_probed_full_sound [OF assms(1,2) 2(1)]) (use 2 assms(4) in simp)
  qed
qed

end

section \<open>The store and the forwarder\<close>

text \<open>The rows of one version of an object, and a store none of whose rows contradicts them.\<close>

definition block_rows :: "string \<Rightarrow> string \<Rightarrow> string \<Rightarrow> int \<Rightarrow> string \<Rightarrow> string \<Rightarrow> string option" where
  "block_rows bucket key etag bs obj =
     map_of (map (\<lambda>i. (MakeBlockKey bucket key etag bs i, blk.stored_block obj bs i)) [0..(int (length obj) - 1) div bs])"

definition rows_agree :: "(string \<Rightarrow> string option) \<Rightarrow> mem \<Rightarrow> bool" where
  "rows_agree content m \<longleftrightarrow> (\<forall>k d. content k = Some d \<longrightarrow> rows m k = None \<or> rows m k = Some d)"

lemma rows_agree_upd:
  assumes "rows_agree content m" and "x = None \<or> content k = None \<or> content k = x"
  shows "rows_agree content (m\<lparr>rows := (rows m)(k := x)\<rparr>)" "rows_agree content (m\<lparr>rows := (rows m)(k := x), vers := v\<rparr>)"
  using assms by (auto simp: rows_agree_def)

interpretation mem_blocks: immutable_rows mem_client "rows_agree content" content for content
proof (unfold_locales, goal_cases)
  case (7 w k d a b w' out e)
  then have "rows w k = None \<or> rows w k = Some d" by (simp add: rows_agree_def)
  then show ?case using 7 by (auto simp: mem_client_def mem_range_def slice_of_def intro: exI [of _ 0] exI [of _ "nat (b - a + 1)"])
qed (auto simp: mem_client_def mem_put_def mem_put_if_def mem_delete_if_def mem_bump_def split: if_splits option.splits intro!: rows_agree_upd)

lemma block_rows_block:
  assumes "block_fits bs (int (length obj))" and "0 \<le> i" and "i * bs < int (length obj)"
  shows "block_rows bucket key etag bs obj (MakeBlockKey bucket key etag bs i) = Some (blk.stored_block obj bs i)"
proof -
  have b: "0 < bs" "int (length obj) < 2 ^ 63" using assms(1) by (auto simp: block_fits_def)
  have in64: "int64_range j" if "0 \<le> j" "j \<le> (int (length obj) - 1) div bs" for j
    using block_index_less [OF b(1) that(2)] mult_left_mono [of 1 bs j] that b by (simp add: int64_range_def)
  have inj: "inj_on (MakeBlockKey bucket key etag bs) {0..(int (length obj) - 1) div bs}"
    using FormatInt_inject in64 by (auto simp: inj_on_def MakeBlockKey_def)
  have "i \<le> (int (length obj) - 1) div bs" using zdiv_mono1 [of "i * bs" "int (length obj) - 1" bs] assms(3) b(1) by simp
  then show ?thesis using inj assms(2) unfolding block_rows_def
    by (intro map_of_is_SomeI) (auto simp: distinct_map comp_def)
qed

lemma block_rows_none:
  "block_rows bucket key etag bs obj (MakeMetaKey b k) = None" "block_rows bucket key etag bs obj (MakeTombstoneKey b k) = None"
  using keyspaces_disjoint(6) [symmetric] by (auto simp: block_rows_def map_of_eq_None_iff)

text \<open>An upstream that holds one version of the object and answers range requests for it.\<close>

definition range_answer :: "string \<Rightarrow> string \<Rightarrow> string \<Rightarrow> Response" where
  "range_answer etag obj rangeHeader =
     (case parseRangeHeader rangeHeader (int (length obj)) of
        Inr [rng] \<Rightarrow>
          \<lparr>resp_Status = 206, resp_Header = WithRangeHeaders (rng_start rng) (rng_end rng) (int (length obj)) [(''Etag'', [etag])],
           resp_Body = (slice_of obj (rng_start rng) (rng_end rng), None), resp_ContentLength = rng_end rng - rng_start rng + 1\<rparr>
      | _ \<Rightarrow> \<lparr>resp_Status = 416, resp_Header = [], resp_Body = ([], None), resp_ContentLength = 0\<rparr>)"

definition range_upstream :: "string \<Rightarrow> string \<Rightarrow> 'w Upstream" where
  "range_upstream etag obj = \<lparr>up_Do = (\<lambda>r body w. (w, [], Inr (range_answer etag obj (header_get (Header r) ''Range'')))), up_now = (\<lambda>_. 0)\<rparr>"

lemma range_answer_honest: "int (length obj) < 2 ^ 63 \<Longrightarrow> honest etag obj (range_answer etag obj h)"
proof (cases "\<exists>rng. parseRangeHeader h (int (length obj)) = Inr [rng]")
  case True
  assume l: "int (length obj) < 2 ^ 63"
  from True obtain rng where p: "parseRangeHeader h (int (length obj)) = Inr [rng]" by blast
  have i: "int64_range (int (length obj))" using l by (simp add: int64_range_def)
  have r: "0 \<le> rng_start rng" "rng_start rng \<le> rng_end rng" "rng_end rng < int (length obj)"
    using accepted_ranges_ok [OF i p] by (simp_all add: range_ok_def)
  have "parseContentRange (header_get (WithRangeHeaders (rng_start rng) (rng_end rng) (int (length obj)) [(''Etag'', [etag])]) ''Content-Range'')
      = (rng_start rng, rng_end rng, int (length obj), True)"
    using r l by (intro content_range_roundtrip) (auto simp: int64_range_def)
  then show ?thesis by (auto simp: honest_def range_answer_def p intro!: exI [of _ "length obj"] split del: if_split) (simp add: slice_of_def)
next
  case False
  then show ?thesis by (auto simp: honest_def range_answer_def split: sum.splits list.splits)
qed

text \<open>The service over the versioned store, the signing forwarder and that upstream.\<close>

definition mem_service :: "signingForwarder \<Rightarrow> svc_config \<Rightarrow> string \<Rightarrow> string \<Rightarrow> (unit, mem) Service" where
  "mem_service f cfg etag obj =
     \<lparr>forwarder = signing_RequestForwarder f (endpointURL (sf_signer f)) (range_upstream etag obj), s_cache = mem_cache CasCoordinator,
      s_config = cfg, disk_usage = (\<lambda>_. None), s_now = mem_now, footer_Get = (\<lambda>k m. (m, False)), footer_Add = (\<lambda>k m. m),
      mint_id = (\<lambda>_. ''id''), s_select = (\<lambda>_. True), s_late = (\<lambda>_. False), s_chunks = (\<lambda>_ b. [b]), s_rand = (\<lambda>w. (w, Inr (replicate 16 (CHR ''r'')))),
      chunk_verifier = None, retier_Get = (\<lambda>_ w. (w, False)), retier_Add = (\<lambda>_ w. w)\<rparr>"

lemma mem_service_blocks:
  assumes "block_fits bs (int (length obj))"
  shows "block_service (mem_service f cfg etag obj) (rows_agree (block_rows bucket key etag bs obj)) (block_rows bucket key etag bs obj) bucket key etag obj bs"
proof -
  have c: "client (s_cache (mem_service f cfg etag obj)) = mem_client" by (simp add: mem_service_def)
  have h: "honest etag obj (range_answer etag obj h)" for h using assms by (intro range_answer_honest) (auto simp: block_fits_def)
  show ?thesis
    by (intro block_service.intro block_service_axioms.intro; (unfold c)?)
      (use assms h in \<open>auto simp: mem_blocks.immutable_rows_axioms block_rows_block block_rows_none mem_service_def signing_RequestForwarder_def DoConditionalGetRequest_def
        doConditionalRequest_def own_request_def range_upstream_def Let_def split: sum.splits\<close>)
qed

section \<open>Properties\<close>

lemma commit_sent: "rw_sent (commit_range meta a b rw) \<noteq> None" "rw_sent (commit_full meta rw) \<noteq> None"
  by (auto simp: commit_range_def commit_full_def WriteHeader_def)

lemma commit_body: "rw_body (commit_range meta a b rw) = rw_body rw" "rw_body (commit_full meta rw) = rw_body rw"
  by (simp_all add: commit_range_def commit_full_def WriteHeader_def writeCacheStatus_def write_meta_headers_def set_header_def)

text \<open>C33: whatever blocks are cached, evicted or replaced meanwhile, and whichever path is taken, a range request served from a
  block-mode entry answers 206 and delivers a prefix of exactly the requested bytes of the version the entry's validator names, and all of
  them unless it reports an error; a request that was not served left the response untouched.\<close>

theorem range_serve_exact:
  assumes "block_service s good content bucket key (ETag meta) obj (BlockSize meta)" and "good (world st)"
    and "ContentLength meta = int (length obj)" and "parseRangeHeader rangeHeader (ContentLength meta) = Inr [rng]"
    and "serveRangeFromBlockCache s ctx r bucket key ak sk meta rangeHeader rw st = (st', rw', served, e)"
  shows "good (world st') \<and>
    (if served
     then rw_sent rw' = rw_sent (commit_range meta (rng_start rng) (rng_end rng) rw) \<and>
       (\<exists>n. rw_body rw' = rw_body rw @ take n (slice_of obj (rng_start rng) (rng_end rng)) \<and>
            (e = None \<longrightarrow> int n = rng_end rng - rng_start rng + 1))
     else rw' = rw)"
proof -
  have i: "int64_range (int (length obj))"
    using block_service.obj_len [OF assms(1)] by (simp add: int64_range_def)
  have r: "0 \<le> rng_start rng" "rng_start rng \<le> rng_end rng" "rng_end rng < int (length obj)"
    using accepted_ranges_ok [OF i assms(4) [unfolded assms(3)]] by (simp_all add: range_ok_def)
  let ?sl = "slice_of obj (rng_start rng) (rng_end rng)"
  have l: "length ?sl = nat (rng_end rng - rng_start rng + 1)"
    using r by (intro length_slice) auto
  have "serve_small_range s ctx bucket key ak sk meta rng rw st = (st', rw', served, e)"
    using assms(4,5) by (simp add: serveRangeFromBlockCache_def)
  from block_service.serve_small_range_sound [OF assms(1) _ _ assms(2) this]
  have *: "good (world st')" "block_service.serves (slice_of obj (rng_start rng) (rng_end rng))
       (commit_range meta (rng_start rng) (rng_end rng) rw) rw rw' served e"
    using r assms(3) block_service.describes_def [OF assms(1)] block_service.in_range_def [OF assms(1)] by auto
  show ?thesis
  proof (cases served)
    case True
    with *(2) obtain n where n: "rw_body rw' = rw_body rw @ take n ?sl" "e = None \<longrightarrow> length ?sl \<le> n"
      and sent: "rw_sent rw' = rw_sent (commit_range meta (rng_start rng) (rng_end rng) rw)"
      using commit_sent(1) commit_body(1) unfolding block_service.serves_def [OF assms(1)] block_service.delivers_def [OF assms(1)] by auto
    have "rw_body rw' = rw_body rw @ take (min n (length ?sl)) ?sl" using n(1) by (simp add: min_def)
    then show ?thesis using n(2) l r sent True *(1) by (auto intro!: exI [of _ "min n (length ?sl)"])
  qed (use * block_service.serves_def [OF assms(1)] in auto)
qed

definition digits_meta :: CachedObjectMeta where
  "digits_meta = \<lparr>Key = ''k'', Bucket = ''b'', ETag = ''e'', ContentType = [], ContentLength = 10, LastModified = 0, CacheControl = [],
     StorageClass = [], ACL = [], ContentEncoding = [], ContentDisposition = [], ContentLanguage = [], Expires = [], ServerSideEncryption = [],
     VersionID = [], PartsCount = [], UserMetadata = [], StatusCode = 200, BodyUpstream = False, BlockSize = 4, BlocksComplete = True,
     RangeBlockSpan = None, BodyRef = [], ContentLengthKnown = True, CachedAt = 0\<rparr>"

definition digits_config :: svc_config where
  "digits_config =
     \<lparr>cfg_budget = \<lparr>MaxConcurrentWrites = 4, MaxPopulateMemoryBytes = 0, WarmOnWrite = False, WarmOnWriteReservedFraction = Fin 0,
        PopulateShedDiskRatio = 0, IsBlockCachingEnabled = True, cfg_BlockSize = 4, cfg_ChunkSize = 65536, cfg_ChannelBuffer = 16, IsTiered = False\<rparr>,
      SizeThreshold = 1048576, TTL_Seconds = 60, ParquetOptimization = False, MetaOnWrite = False,
      PopulateShedReject = False, ForwardsTransparently = True\<rparr>"

definition digits_service :: "(unit, mem) Service" where
  "digits_service =
     mem_service \<lparr>sf_signer = \<lparr>endpointURL = Inl (EText ''no endpoint''), signer_region = ''auto''\<rparr>, sf_credStore = NewCredentialStore\<rparr>
       digits_config ''e'' ''0123456789''"

definition digits_rows :: "string \<Rightarrow> string option" where
  "digits_rows = map_of [(MakeBlockKey ''b'' ''k'' ''e'' 4 0, ''0123''), (MakeBlockKey ''b'' ''k'' ''e'' 4 1, ''4567''), (MakeBlockKey ''b'' ''k'' ''e'' 4 2, ''89'')]"

definition digits_state :: "(unit, mem) svc" where
  "digits_state =
     \<lparr>fwd = (), world = \<lparr>rows = digits_rows, vers = (\<lambda>_. 1), mem_now = 0\<rparr>,
      budget = \<lparr>populateBudget = None, cacheSemaphore = None, enginePutSlots = None, perPopulateCap = 0, backgroundPopulateWriterCap = 0\<rparr>,
      active = {}, tasks = [], svc_stopping = False, footer_slots = \<lparr>sem_cap = 1, sem_len = 0\<rparr>,
      retierClaims = (\<lambda>_. 0), retierInflight = (\<lambda>_. None)\<rparr>"

definition blank_writer :: ResponseWriter where
  "blank_writer = \<lparr>rw_header = [], rw_sent = None, rw_body = [], rw_room = None\<rparr>"

definition no_request :: Request where
  "no_request = \<lparr>Method = ''GET'', URL = \<lparr>url_Opaque = [], url_Host = [], url_Path = [], url_RawPath = [], url_RawQuery = [], url_ForceQuery = False\<rparr>, Host = [], Header = [], ReqContentLength = 0\<rparr>"

lemma digits_blocks:
  "block_service digits_service (rows_agree (block_rows ''b'' ''k'' (ETag digits_meta) (BlockSize digits_meta) ''0123456789''))
     (block_rows ''b'' ''k'' (ETag digits_meta) (BlockSize digits_meta) ''0123456789'') ''b'' ''k'' (ETag digits_meta) ''0123456789'' (BlockSize digits_meta)"
  unfolding digits_service_def digits_meta_def CachedObjectMeta.simps by (rule mem_service_blocks) (simp add: block_fits_def)

interpretation digits: block_service digits_service "rows_agree (block_rows ''b'' ''k'' (ETag digits_meta) (BlockSize digits_meta) ''0123456789'')"
  "block_rows ''b'' ''k'' (ETag digits_meta) (BlockSize digits_meta) ''0123456789''" "''b''" "''k''" "ETag digits_meta" "''0123456789''" "BlockSize digits_meta"
  by (rule digits_blocks)

lemma digits_agree: "rows_agree (block_rows ''b'' ''k'' (ETag digits_meta) (BlockSize digits_meta) ''0123456789'') (world digits_state)"
proof -
  have "block_rows ''b'' ''k'' ''e'' 4 ''0123456789'' = digits_rows"
    by (simp add: block_rows_def digits_rows_def blk.stored_block_def upto.simps blockBounds_def slice_of_def wrap64_def)
  then show ?thesis by (simp add: rows_agree_def digits_state_def digits_meta_def)
qed


lemma digits_keys: "MakeBlockKey ''b'' ''k'' ''e'' 4 1 \<noteq> MakeBlockKey ''b'' ''k'' ''e'' 4 0"
  by code_simp

lemma digits_range: "parseRangeHeader ''bytes=2-5'' 10 = Inr [\<lparr>rng_start = 2, rng_end = 5\<rparr>]"
proof -
  have t: "TrimSpace ''2-5'' = ''2-5''" by code_simp
  have "ParseInt ''2'' 10 = (2, True)" and "ParseInt ''5'' 10 = (5, True)"
    by (simp_all add: ParseInt_def ParseUint_def digit_val_def signed_result_def)
  then show ?thesis by (simp add: parseRangeHeader_def TrimPrefix_def t parse_part_def check_range_def wrap64_def)
qed

lemmas digits_defs = digits_service_def mem_service_def mem_client_def digits_state_def digits_rows_def digits_meta_def

lemma digits_reads:
  "read_slice what digits_service ''b'' ''k'' digits_meta 0 2 3 digits_state = (digits_state, ''23'', None)"
  "read_slice what digits_service ''b'' ''k'' digits_meta 1 0 1 digits_state = (digits_state, ''45'', None)"
  by (simp_all add: readCachedBlockSlice_def read_slice_def sliced_read_def getBlockRangeStream_def on_world_def GetBlockRangeStream_def getRangeStreamByKey_def digits_defs
      mem_range_def slice_len_def wrap64_def Let_def digits_keys)

lemma digits_assembled: "assemble_range digits_service ''b'' ''k'' [] [] digits_meta \<lparr>rng_start = 2, rng_end = 5\<rparr> digits_state = (digits_state, Inr ''2345'')"
proof -
  have m: "BlockSize digits_meta = 4" "ContentLength digits_meta = 10" by (simp_all add: digits_meta_def)
  have c: "coveringBlocks 2 5 4 = (0, 1)" "[0..1] = [0, 1::int]" "blockLocalRange 0 2 5 4 10 = (2, 3)" "blockLocalRange 1 2 5 4 10 = (0, 1)" by code_simp+
  show ?thesis by (simp add: assemble_range_def m c start_read_def digits_reads)
qed

lemma digits_staging: "try_staging w digits_state = (digits_state, True)"
  by (simp add: try_staging_def on_limits_def on_budget_def digits_state_def)

lemma write_blank: "rw_room rw = None \<Longrightarrow> \<exists>rw'. rw_Write b rw = (rw', length b, None)"
  by (simp add: rw_Write_def WriteHeader_def Let_def)

lemma commit_room: "rw_room (commit_range meta a b rw) = rw_room rw" "rw_room (commit_full meta rw) = rw_room rw"
  by (simp_all add: commit_range_def commit_full_def WriteHeader_def writeCacheStatus_def write_meta_headers_def set_header_def)

theorem range_serve_exact_witness:
  "\<exists>st' rw'. serveRangeFromBlockCache digits_service (\<lambda>_. None) no_request ''b'' ''k'' [] [] digits_meta ''bytes=2-5'' blank_writer digits_state
     = (st', rw', True, None) \<and> rw_body rw' = ''2345''"
proof -
  have m: "BlockSize digits_meta = 4" "ContentLength digits_meta = 10" by (simp_all add: digits_meta_def)
  have w: "rw_room (commit_range digits_meta 2 5 blank_writer) = None" by (simp add: commit_room blank_writer_def)
  obtain rw' where "rw_Write ''2345'' (commit_range digits_meta 2 5 blank_writer) = (rw', 4, None)" using write_blank [OF w, of "''2345''"] by auto
  then have "\<exists>st' rw'. serveRangeFromBlockCache digits_service (\<lambda>_. None) no_request ''b'' ''k'' [] [] digits_meta ''bytes=2-5'' blank_writer digits_state
     = (st', rw', True, None)"
    by (simp add: serveRangeFromBlockCache_def m digits_range serve_small_range_def slice_len_def wrap64_def Let_def digits_staging serveAssembledRange_def digits_assembled)
  then obtain st' rw' where q: "serveRangeFromBlockCache digits_service (\<lambda>_. None) no_request ''b'' ''k'' [] [] digits_meta ''bytes=2-5'' blank_writer digits_state
     = (st', rw', True, None)" by blast
  have "ContentLength digits_meta = int (length ''0123456789'')" "parseRangeHeader ''bytes=2-5'' (ContentLength digits_meta) = Inr [\<lparr>rng_start = 2, rng_end = 5\<rparr>]"
    by (simp_all add: m digits_range)
  from range_serve_exact [OF digits_blocks digits_agree this q] q show ?thesis by (auto simp: slice_of_def blank_writer_def)
qed

text \<open>C34: a full read of a block-mode entry refines the read of one immutable object: it delivers a prefix of the object the entry's
  validator names under the entry's own status, the whole object unless it reports an error, and nothing at all when it was not served.\<close>

theorem full_serve_exact:
  assumes "block_service s good content bucket key (ETag meta) obj (BlockSize meta)" and "good (world st)"
    and "ContentLength meta = int (length obj)" and "obj \<noteq> []"
    and "serveFullObjectFromBlockCache s ctx bucket key ak sk meta rw st = (st', rw', served, e)"
  shows "good (world st') \<and>
    (if served
     then rw_sent rw' = rw_sent (commit_full meta rw) \<and>
       (\<exists>n. rw_body rw' = rw_body rw @ take n obj \<and> (e = None \<longrightarrow> n = length obj))
     else rw' = rw)"
proof -
  have d: "block_service.describes (ETag meta) obj (BlockSize meta) meta" using block_service.describes_def [OF assms(1)] assms(3) by simp
  note * = block_service.serveFullObjectFromBlockCache_sound [OF assms(1) d assms(4,2,5)]
  show ?thesis
  proof (cases served)
    case True
    with * obtain n where n: "rw_body rw' = rw_body rw @ take n obj" "e = None \<longrightarrow> length obj \<le> n" and sent: "rw_sent rw' = rw_sent (commit_full meta rw)"
      using commit_sent(2) commit_body(2) unfolding block_service.serves_def [OF assms(1)] block_service.delivers_def [OF assms(1)] by auto
    have "rw_body rw' = rw_body rw @ take (min n (length obj)) obj" using n(1) by (simp add: min_def)
    then show ?thesis using n(2) sent True * by (auto intro!: exI [of _ "min n (length obj)"])
  qed (use * block_service.serves_def [OF assms(1)] in auto)
qed

theorem full_serve_exact_witness:
  "\<exists>st' rw'. serveFullObjectFromBlockCache digits_service (\<lambda>_. None) ''b'' ''k'' [] [] (digits_meta\<lparr>BlockSize := 16\<rparr>) blank_writer
       (digits_state\<lparr>world := \<lparr>rows = [MakeBlockKey ''b'' ''k'' ''e'' 16 0 \<mapsto> ''0123456789''], vers = (\<lambda>_. 1), mem_now = 0\<rparr>\<rparr>)
     = (st', rw', True, None) \<and> rw_body rw' = ''0123456789''"
proof -
  let ?m = "digits_meta\<lparr>BlockSize := 16\<rparr>" and ?o = "''0123456789''"
  let ?st = "digits_state\<lparr>world := \<lparr>rows = [MakeBlockKey ''b'' ''k'' ''e'' 16 0 \<mapsto> ?o], vers = (\<lambda>_. 1), mem_now = 0\<rparr>\<rparr>"
  let ?rows = "block_rows ''b'' ''k'' (ETag ?m) (BlockSize ?m) ?o"
  have m: "BlockSize ?m = 16" "ContentLength ?m = 10" "ETag ?m = ''e''" "BlocksComplete ?m" by (simp_all add: digits_meta_def)
  have c: "coveringBlocks 0 9 16 = (0, 0)" "blockLocalRange 0 0 9 16 10 = (0, 9)" "blockBounds 0 16 10 = (0, 9)" "wrap64 9 = 9" by code_simp+
  have rd: "readCachedBlockSlice digits_service ''b'' ''k'' ?m 0 0 9 ?st = (?st, ?o, None)"
    by (simp add: readCachedBlockSlice_def read_slice_def sliced_read_def getBlockRangeStream_def on_world_def GetBlockRangeStream_def getRangeStreamByKey_def digits_defs
      mem_range_def slice_len_def wrap64_def Let_def)
  have t: "try_staging x ?st = (?st, True)" for x by (simp add: try_staging_def on_limits_def on_budget_def digits_state_def)
  have w: "rw_room (commit_full ?m blank_writer) = None" by (simp add: commit_room blank_writer_def)
  obtain rw' where "rw_Write ?o (commit_full ?m blank_writer) = (rw', 10, None)" using write_blank [OF w, of ?o] by auto
  then have "\<exists>st' rw'. serveFullObjectFromBlockCache digits_service (\<lambda>_. None) ''b'' ''k'' [] [] ?m blank_writer ?st = (st', rw', True, None)"
    by (simp add: serveFullObjectFromBlockCache_def m Let_def t serveCompleteFromBlocks_def readBlockSlice_def c rd)
  then obtain st' rw' where q: "serveFullObjectFromBlockCache digits_service (\<lambda>_. None) ''b'' ''k'' [] [] ?m blank_writer ?st = (st', rw', True, None)" by blast
  have b: "block_service digits_service (rows_agree ?rows) ?rows ''b'' ''k'' (ETag ?m) ?o (BlockSize ?m)"
    unfolding digits_service_def m by (rule mem_service_blocks) (simp add: block_fits_def)
  have a: "rows_agree ?rows (world ?st)"
    by (simp add: rows_agree_def m block_rows_def blk.stored_block_def upto.simps blockBounds_def slice_of_def wrap64_def)
  from full_serve_exact [OF b a _ _ q] q show ?thesis by (auto simp: m blank_writer_def)
qed

end
