(* ===== verification/Whole_Serve.thy ===== *)
theory Whole_Serve
  imports Cache_Populate Serve_Exact
begin

text \<open>
  Serving whole cached objects (\<^verbatim>\<open>proxy/revalidation.go\<close>, \<^verbatim>\<open>proxy/get_object.go\<close>, \<^verbatim>\<open>proxy/localstore.go\<close>):
  conditional requests answered from metadata, the writers that commit a response with its first byte and hold back
  the last, and the serve of a body or a range of it.
\<close>

section \<open>Answers from metadata\<close>

definition serveMetaHit :: "ResponseWriter \<Rightarrow> CachedObjectMeta \<Rightarrow> ResponseWriter" where
  "serveMetaHit rw meta = WriteHeader (StatusCode meta) (writeCacheStatus (write_meta_headers meta [] rw) ''HIT'')"

text \<open>A request with \<^verbatim>\<open>If-None-Match\<close> is judged by it alone.\<close>

definition not_modified :: "Request \<Rightarrow> CachedObjectMeta \<Rightarrow> bool" where
  "not_modified r meta =
     (let inm = header_get (Header r) ''If-None-Match''; ims = header_get (Header r) ''If-Modified-Since'' in
      if inm \<noteq> [] then MatchesETagHeader meta inm False
      else ims \<noteq> [] \<and> (case ParseTime ims of None \<Rightarrow> False | Some t \<Rightarrow> \<not> IsModifiedSince meta t))"

definition writeNotModifiedFromCache :: "ResponseWriter \<Rightarrow> Request \<Rightarrow> CachedObjectMeta \<Rightarrow> ResponseWriter \<times> bool" where
  "writeNotModifiedFromCache rw r meta =
     (if not_modified r meta then (WriteHeader 304 (set_header ''ETag'' (ETag meta) (writeCacheStatus rw ''HIT'')), True)
      else (rw, False))"

text \<open>A request with \<^verbatim>\<open>If-Match\<close> ignores \<^verbatim>\<open>If-Unmodified-Since\<close>.\<close>

definition precondition_failed :: "Request \<Rightarrow> CachedObjectMeta \<Rightarrow> bool" where
  "precondition_failed r meta =
     (let im = header_get (Header r) ''If-Match''; ius = header_get (Header r) ''If-Unmodified-Since'' in
      if im \<noteq> [] then im \<noteq> ''*'' \<and> \<not> MatchesETagHeader meta im True
      else ius \<noteq> [] \<and> (case ParseTime ius of None \<Rightarrow> False | Some t \<Rightarrow> IsModifiedSince meta t))"

definition writePreconditionFailed :: "string \<Rightarrow> ResponseWriter \<Rightarrow> Request \<Rightarrow> CachedObjectMeta \<Rightarrow> ResponseWriter \<times> bool" where
  "writePreconditionFailed rid rw r meta =
     (if precondition_failed r meta then (WriteError rid rw r ''PreconditionFailed'', True) else (rw, False))"

definition answerConditionalsFromMeta :: "string \<Rightarrow> ResponseWriter \<Rightarrow> Request \<Rightarrow> CachedObjectMeta \<Rightarrow> ResponseWriter \<times> bool" where
  "answerConditionalsFromMeta rid rw r meta =
     (case writePreconditionFailed rid rw r meta of
        (rw, True) \<Rightarrow> (rw, True)
      | (rw, False) \<Rightarrow> writeNotModifiedFromCache rw r meta)"

definition cacheMissStatus :: "('a, 'w) Service \<Rightarrow> bool \<Rightarrow> string" where
  "cacheMissStatus s bypassCache =
     (if \<not> IsEnabled (s_cache s) then ''DISABLED'' else if bypassCache then ''BYPASS'' else ''MISS'')"

text \<open>The status in an error's chain, as \<^verbatim>\<open>status.FromError\<close> finds it.\<close>

fun status_FromError :: "err \<Rightarrow> grpc_code option" where
  "status_FromError (EStatus c _) = Some c"
| "status_FromError (EWrap _ es) =
     (case filter (\<lambda>c. c \<noteq> None) (map status_FromError es) of [] \<Rightarrow> None | c # _ \<Rightarrow> c)"
| "status_FromError (EAuth _ e) = status_FromError e"
| "status_FromError _ = None"

text \<open>Whether a failed read of a body should invalidate the metadata that points at it.\<close>

definition bodyGone :: "err option \<Rightarrow> bool" where
  "bodyGone err =
     (case err of
        None \<Rightarrow> False
      | Some e \<Rightarrow>
          \<not> err_is e CtxCanceled \<and> \<not> err_is e CtxDeadlineExceeded
          \<and> status_FromError e \<notin> {Some Canceled, Some DeadlineExceeded, Some Unavailable})"

section \<open>Writers (get_object.go, revalidation.go)\<close>

text \<open>Commits the response when the first nonempty chunk arrives; \<open>commit\<close> writes its status and headers.\<close>

record lazyCommitWriter =
  cw_rw :: ResponseWriter
  cw_written :: int
  committed :: bool

definition lazy_Write ::
  "(ResponseWriter \<Rightarrow> ResponseWriter) \<Rightarrow> string \<Rightarrow> lazyCommitWriter \<Rightarrow> lazyCommitWriter \<times> nat \<times> err option" where
  "lazy_Write commit p cw =
     (if p = [] then (cw, 0, None)
      else
        let cw = (if committed cw then cw else cw\<lparr>cw_rw := commit (cw_rw cw), committed := True\<rparr>) in
        case rw_Write p (cw_rw cw) of
          (rw, n, e) \<Rightarrow>
            (cw\<lparr>cw_rw := rw, cw_written := cw_written cw + int n\<rparr>, n,
             if e = None \<and> n \<noteq> length p then Some ErrShortWrite else e))"

definition errCacheBodyLengthMismatch :: err where
  "errCacheBodyLengthMismatch = EText ''cache body length mismatch''"

definition checkCachedBodyLength :: "string \<Rightarrow> string \<Rightarrow> CachedObjectMeta \<Rightarrow> int \<Rightarrow> err option" where
  "checkCachedBodyLength bucket key meta got =
     (if ContentLength meta < 0 \<or> got = ContentLength meta then None
      else Some (EWrap (Error errCacheBodyLengthMismatch @ '' for '' @ bucket @ ''/'' @ key @ '': body is '' @ FormatInt got
                        @ '' bytes, metadata says '' @ FormatInt (ContentLength meta)) [errCacheBodyLengthMismatch]))"

text \<open>Refuses what goes past the promised length and holds back the last promised byte.\<close>

record lengthBoundedWriter =
  bw_w :: lazyCommitWriter
  bw_written :: int
  bw_held :: "char option"

definition bw_seen :: "lengthBoundedWriter \<Rightarrow> int" where
  "bw_seen bw = (if bw_held bw \<noteq> None then bw_written bw + 1 else bw_written bw)"

definition bounded_Write ::
  "string \<Rightarrow> string \<Rightarrow> CachedObjectMeta \<Rightarrow> string \<Rightarrow> lengthBoundedWriter \<Rightarrow> lengthBoundedWriter \<times> nat \<times> err option" where
  "bounded_Write bucket key meta p bw =
     (let limit = ContentLength meta;
          pass = (\<lambda>q bw. case lazy_Write (commit_full meta) q (bw_w bw) of
                             (cw, n, e) \<Rightarrow> (bw\<lparr>bw_w := cw, bw_written := bw_written bw + int n\<rparr>, n, e))
      in if p = [] then (bw, 0, None)
         else if limit < 0 then pass p bw
         else
           let next = bw_seen bw + int (length p) in
           if limit < next then (bw, 0, checkCachedBodyLength bucket key meta next)
           else
             let forward = (if next = limit then butlast p else p);
                 bw = (if next = limit then bw\<lparr>bw_held := Some (last p)\<rparr> else bw)
             in if forward = [] then (bw, length p, None)
                else case pass forward bw of
                       (bw, n, Some e) \<Rightarrow> (bw, n, Some e)
                     | (bw, n, None) \<Rightarrow> (bw, length p, None))"

definition bw_release :: "CachedObjectMeta \<Rightarrow> lengthBoundedWriter \<Rightarrow> lengthBoundedWriter \<times> err option" where
  "bw_release meta bw =
     (case bw_held bw of
        None \<Rightarrow> (bw, None)
      | Some c \<Rightarrow>
          (case lazy_Write (commit_full meta) [c] (bw_w bw) of
             (cw, n, e) \<Rightarrow> (bw\<lparr>bw_held := None, bw_w := cw, bw_written := bw_written bw + int n\<rparr>, e)))"

text \<open>
  A stream from the store into a writer: the chunks in order, up to the first the writer refuses. The store ends the
  stream with the writer's error, or with its own.
\<close>

fun feed :: "(string \<Rightarrow> 'b \<Rightarrow> 'b \<times> nat \<times> err option) \<Rightarrow> string list \<Rightarrow> 'b \<Rightarrow> 'b \<times> err option" where
  "feed wr [] b = (b, None)"
| "feed wr (c # cs) b = (case wr c b of (b, _, Some e) \<Rightarrow> (b, Some e) | (b, _, None) \<Rightarrow> feed wr cs b)"

definition stream_into ::
  "(string \<Rightarrow> 'b \<Rightarrow> 'b \<times> nat \<times> err option) \<Rightarrow> string list \<Rightarrow> err option \<Rightarrow> 'b \<Rightarrow> 'b \<times> err option" where
  "stream_into wr chunks e b =
     (case feed wr chunks b of
        (b, Some we) \<Rightarrow> (b, Some (if isNotFoundError we then ErrNotFound else we))
      | (b, None) \<Rightarrow> (b, e))"

section \<open>Serving a body\<close>

abbreviation smallObjectThreshold :: int where
  "smallObjectThreshold \<equiv> 65536"

definition serve_small ::
  "('a, 'w) Service \<Rightarrow> ResponseWriter \<Rightarrow> string \<Rightarrow> string \<Rightarrow> CachedObjectMeta \<Rightarrow> ('a, 'w) svc \<Rightarrow> ('a, 'w) svc \<times> ResponseWriter \<times> err option" where
  "serve_small s rw bucket key meta st =
     (case on_world (GetBodyStream (s_cache s) bucket key (BodyDiscriminator meta)) st of
        (st, out, Some e) \<Rightarrow> (st, rw, Some (Errorf ''cache body read failed: '' e))
      | (st, out, None) \<Rightarrow>
          if out = [] then (st, rw, Some (EText (''cache body empty for '' @ bucket @ ''/'' @ key)))
          else case checkCachedBodyLength bucket key meta (int (length out)) of
                 Some e \<Rightarrow> (st, rw, Some e)
               | None \<Rightarrow> (st, fst (rw_Write out (commit_full meta rw)), None))"

text \<open>A body streamed through the bounded writer, and the held byte released when exactly the promised bytes came.\<close>

definition bounded_stream ::
  "string \<Rightarrow> string \<Rightarrow> CachedObjectMeta \<Rightarrow> string list \<Rightarrow> err option \<Rightarrow> ResponseWriter \<Rightarrow> lengthBoundedWriter \<times> err option" where
  "bounded_stream bucket key meta chunks e rw =
     (case stream_into (bounded_Write bucket key meta) chunks e
             \<lparr>bw_w = \<lparr>cw_rw = rw, cw_written = 0, committed = False\<rparr>, bw_written = 0, bw_held = None\<rparr> of
        (bw, bodyErr) \<Rightarrow>
          (case (if bodyErr = None then checkCachedBodyLength bucket key meta (bw_seen bw) else bodyErr) of
             Some e \<Rightarrow> (bw, Some e)
           | None \<Rightarrow> bw_release meta bw))"

definition serve_large ::
  "('a, 'w) Service \<Rightarrow> ResponseWriter \<Rightarrow> string \<Rightarrow> string \<Rightarrow> CachedObjectMeta \<Rightarrow> ('a, 'w) svc \<Rightarrow> ('a, 'w) svc \<times> ResponseWriter \<times> err option" where
  "serve_large s rw bucket key meta st =
     (case on_world (GetBodyStream (s_cache s) bucket key (BodyDiscriminator meta)) st of
        (st, out, e) \<Rightarrow>
          (case bounded_stream bucket key meta (s_chunks s (world st) out) e rw of
             (bw, bodyErr) \<Rightarrow>
               if \<not> committed (bw_w bw)
               then (st, rw, Some (case bodyErr of
                                     Some e \<Rightarrow> Errorf ''cache body unavailable: '' e
                                   | None \<Rightarrow> EText (''cache body empty for '' @ bucket @ ''/'' @ key)))
               else (if bodyErr \<noteq> None \<and> err_is (the bodyErr) errCacheBodyLengthMismatch
                     then invalidateStaleMeta s bucket key (ETag meta) st else st,
                     cw_rw (bw_w bw), None)))"

definition serveFromCache ::
  "('a, 'w) Service \<Rightarrow> ResponseWriter \<Rightarrow> string \<Rightarrow> string \<Rightarrow> CachedObjectMeta \<Rightarrow> ('a, 'w) svc \<Rightarrow> ('a, 'w) svc \<times> ResponseWriter \<times> err option" where
  "serveFromCache s rw bucket key meta st =
     (if ContentLength meta = 0 then (st, serveMetaHit rw meta, None)
      else if ContentLength meta \<le> smallObjectThreshold then serve_small s rw bucket key meta st
      else serve_large s rw bucket key meta st)"

text \<open>Whether a response was produced, and the error; without a response nothing has been written.\<close>

definition serveRangeFromCache ::
  "('a, 'w) Service \<Rightarrow> ResponseWriter \<Rightarrow> Request \<Rightarrow> string \<Rightarrow> string \<Rightarrow> CachedObjectMeta \<Rightarrow> string \<Rightarrow> ('a, 'w) svc
   \<Rightarrow> ('a, 'w) svc \<times> ResponseWriter \<times> bool \<times> err option" where
  "serveRangeFromCache s rw r bucket key meta rangeHeader st =
     (case parseRangeHeader rangeHeader (ContentLength meta) of
        Inr [rng] \<Rightarrow>
          (case on_world (GetRangeStream (s_cache s) bucket key (BodyDiscriminator meta) (rng_start rng) (rng_end rng) accept_all) st of
             (st, out, e) \<Rightarrow>
               (case stream_into (lazy_Write (commit_range meta (rng_start rng) (rng_end rng))) (s_chunks s (world st) out) e
                       \<lparr>cw_rw = rw, cw_written = 0, committed = False\<rparr> of
                  (cw, streamErr) \<Rightarrow>
                    if committed cw then (st, cw_rw cw, True, streamErr)
                    else (st, rw, False,
                          Some (case streamErr of Some e \<Rightarrow> e | None \<Rightarrow> EText (''cache range body empty for '' @ bucket @ ''/'' @ key)))))
      | _ \<Rightarrow> (st, writeRangeNotSatisfiable s r meta rw st, True, None))"

section \<open>A body is complete only at its promised length\<close>

text \<open>
  What a bounded writer has done with the bytes \<open>F\<close> it was given, over the response \<open>rw\<close>: all but a held last byte
  has been forwarded.
\<close>

definition bounded_ok :: "ResponseWriter \<Rightarrow> int \<Rightarrow> string \<Rightarrow> lengthBoundedWriter \<Rightarrow> bool" where
  "bounded_ok rw limit F bw \<longleftrightarrow>
     (let fw = (if int (length F) = limit then butlast F else F) in
      int (length F) \<le> limit
      \<and> bw_held bw = (if int (length F) = limit then Some (last F) else None)
      \<and> bw_written bw = int (length fw)
      \<and> rw_body (cw_rw (bw_w bw)) = rw_body rw @ fw
      \<and> (committed (bw_w bw) = (fw \<noteq> [])))"

text \<open>A response cut short: a part of \<open>F\<close> below the promised length.\<close>

definition cut_short :: "ResponseWriter \<Rightarrow> int \<Rightarrow> string \<Rightarrow> lengthBoundedWriter \<Rightarrow> bool" where
  "cut_short rw limit F bw \<longleftrightarrow>
     (\<exists>p q. rw_body (cw_rw (bw_w bw)) = rw_body rw @ p \<and> F = p @ q \<and> int (length p) < limit)"

lemma cut_shortI:
  "rw_body (cw_rw (bw_w bw)) = rw_body rw @ p \<Longrightarrow> F = p @ q \<Longrightarrow> int (length p) < limit \<Longrightarrow> cut_short rw limit F bw"
  by (auto simp: cut_short_def)

lemma lazy_Write_body:
  assumes "lazy_Write (commit_full meta) p cw = (cw', n, e)" and "p \<noteq> []"
  shows "rw_body (cw_rw cw') = rw_body (cw_rw cw) @ take n p" and "n \<le> length p" and "e = None \<longleftrightarrow> n = length p" and "committed cw'"
proof -
  define c where "c = (if committed cw then cw else cw\<lparr>cw_rw := commit_full meta (cw_rw cw), committed := True\<rparr>)"
  have b: "rw_body (cw_rw c) = rw_body (cw_rw cw)" "committed c" by (simp_all add: c_def commit_body)
  obtain rw m f where w: "rw_Write p (cw_rw c) = (rw, m, f)" by (metis prod_cases3)
  have eq: "c\<lparr>cw_rw := rw, cw_written := cw_written c + int m\<rparr> = cw' \<and> m = n
      \<and> (if f = None \<and> m \<noteq> length p then Some ErrShortWrite else f) = e"
    using assms w by (auto simp: lazy_Write_def c_def [symmetric] Let_def split: if_splits)
  have "rw_body rw = rw_body (cw_rw c) @ take m p" "m \<le> length p" "f = None \<longleftrightarrow> m = length p"
    using w by (auto simp: rw_Write_def WriteHeader_def Let_def split: option.splits if_splits)
  then show "rw_body (cw_rw cw') = rw_body (cw_rw cw) @ take n p" "n \<le> length p" "e = None \<longleftrightarrow> n = length p" "committed cw'"
    using eq b by (auto split: if_splits)
qed

lemma bounded_seen: "bounded_ok rw limit F bw \<Longrightarrow> 0 < limit \<Longrightarrow> bw_seen bw = int (length F)"
  by (cases F rule: rev_cases) (auto simp: bounded_ok_def bw_seen_def Let_def split: if_splits)

lemma bounded_cut: "bounded_ok rw limit F bw \<Longrightarrow> 0 < limit \<Longrightarrow> cut_short rw limit (F @ p) bw"
  by (cases F rule: rev_cases) (auto simp: bounded_ok_def cut_short_def Let_def split: if_splits)

lemma bounded_Write_step:
  assumes inv: "bounded_ok rw (ContentLength meta) F bw" and pos: "0 < ContentLength meta"
    and wr: "bounded_Write bucket key meta p bw = (bw', n, e)"
  shows "(e = None \<longrightarrow> bounded_ok rw (ContentLength meta) (F @ p) bw') \<and> (e \<noteq> None \<longrightarrow> cut_short rw (ContentLength meta) (F @ p) bw')"
proof -
  define limit where "limit = ContentLength meta"
  define q where "q = (if int (length F) + int (length p) = limit then butlast p else p)"
  define b1 where "b1 = (if int (length F) + int (length p) = limit then bw\<lparr>bw_held := Some (last p)\<rparr> else bw)"
  consider (nil) "p = []" | (over) "p \<noteq> []" "limit < int (length F) + int (length p)"
    | (fits) "p \<noteq> []" "int (length F) + int (length p) \<le> limit" by linarith
  then show ?thesis
  proof cases
    case nil
    with inv wr show ?thesis by (simp add: bounded_Write_def)
  next
    case over
    with pos wr bounded_seen [OF inv pos]
    have "bw' = bw" "e = checkCachedBodyLength bucket key meta (int (length F) + int (length p))"
      by (simp_all add: bounded_Write_def Let_def limit_def)
    with over pos bounded_cut [OF inv pos] show ?thesis by (auto simp: checkCachedBodyLength_def limit_def)
  next
    case fits
    then have room: "int (length F) < limit" by (cases p) auto
    have old: "bw_written bw = int (length F)" "rw_body (cw_rw (bw_w bw)) = rw_body rw @ F" "committed (bw_w bw) = (F \<noteq> [])" "bw_held bw = None"
      using inv room by (auto simp: bounded_ok_def limit_def Let_def)
    have Fq: "(if int (length (F @ p)) = limit then butlast (F @ p) else F @ p) = F @ q" using fits by (simp add: q_def butlast_append)
    have held: "bw_held b1 = (if int (length (F @ p)) = limit then Some (last (F @ p)) else None)" "bw_w b1 = bw_w bw" "bw_written b1 = bw_written bw"
      using old fits by (simp_all add: b1_def)
    have lp: "length q \<le> length p" "\<exists>z. p = q @ z" using fits(1) by (auto simp: q_def intro: exI [of _ "[last p]"])
    have eq: "bounded_Write bucket key meta p bw =
        (if q = [] then (b1, length p, None)
         else case lazy_Write (commit_full meta) q (bw_w b1) of
                (cw, n, e) \<Rightarrow> (b1\<lparr>bw_w := cw, bw_written := bw_written b1 + int n\<rparr>, if e = None then length p else n, e))"
      using fits pos bounded_seen [OF inv pos] unfolding bounded_Write_def limit_def [symmetric] Let_def q_def b1_def
      by (auto split: prod.splits option.splits)
    show ?thesis
    proof (cases "q = []")
      case True
      with eq wr have "bw' = b1" "e = None" by simp_all
      then show ?thesis using True Fq held old fits by (simp add: bounded_ok_def limit_def [symmetric] Let_def)
    next
      case q: False
      obtain cw m f where w: "lazy_Write (commit_full meta) q (bw_w b1) = (cw, m, f)" by (metis prod_cases3)
      note lw = lazy_Write_body [OF w q]
      have r: "bw' = b1\<lparr>bw_w := cw, bw_written := bw_written b1 + int m\<rparr>" "e = f" using eq wr w q by simp_all
      have body: "rw_body (cw_rw cw) = rw_body rw @ F @ take m q" using lw(1) held(2) old(2) by simp
      have "bounded_ok rw limit (F @ p) bw'" if "f = None"
        using that r lw body Fq held old fits q by (simp add: bounded_ok_def Let_def)
      moreover have "cut_short rw limit (F @ p) bw'" if "f \<noteq> None"
      proof -
        have "int (length F + m) < limit" using that lw lp fits by simp
        moreover obtain z where "p = q @ z" using lp by blast
        ultimately show ?thesis using body lw(2) r by (intro cut_shortI [of _ _ "F @ take m q" _ "drop m q @ z"]) simp_all
      qed
      ultimately show ?thesis using r by (simp add: limit_def)
    qed
  qed
qed

lemma feed_bounded:
  assumes "bounded_ok rw (ContentLength meta) F bw" and "0 < ContentLength meta" and "feed (bounded_Write bucket key meta) cs bw = (bw', e)"
  shows "(e = None \<longrightarrow> bounded_ok rw (ContentLength meta) (F @ concat cs) bw')
    \<and> (e \<noteq> None \<longrightarrow> cut_short rw (ContentLength meta) (F @ concat cs) bw')"
  using assms
proof (induction cs arbitrary: F bw)
  case (Cons c cs)
  obtain b n f where w: "bounded_Write bucket key meta c bw = (b, n, f)" by (metis prod_cases3)
  note st = bounded_Write_step [OF Cons.prems(1,2) w]
  show ?case
  proof (cases f)
    case None
    with st Cons.prems(3) w show ?thesis using Cons.IH [of "F @ c" b] Cons.prems(2) by simp
  next
    case (Some x)
    with st Cons.prems(3) w have "cut_short rw (ContentLength meta) (F @ c) bw'" "e = Some x" by simp_all
    then obtain p q where "rw_body (cw_rw (bw_w bw')) = rw_body rw @ p" "F @ c = p @ q" "int (length p) < ContentLength meta"
      by (auto simp: cut_short_def)
    then have "cut_short rw (ContentLength meta) (F @ concat (c # cs)) bw'"
      by (intro cut_shortI [of _ _ p _ "q @ concat cs"]) (simp_all flip: append_assoc)
    with \<open>e = Some x\<close> show ?thesis by simp
  qed
qed simp

text \<open>A client that takes everything.\<close>

lemma lazy_Write_room:
  "lazy_Write (commit_full meta) p cw = (cw', n, e) \<Longrightarrow> rw_room (cw_rw cw) = None \<Longrightarrow> e = None \<and> rw_room (cw_rw cw') = None"
  by (auto simp: lazy_Write_def rw_Write_def WriteHeader_def commit_full_def writeCacheStatus_def set_header_def write_meta_headers_def
      Let_def split: if_splits)

lemma bounded_Write_room:
  assumes "bounded_Write bucket key meta p bw = (bw', n, e)" and "rw_room (cw_rw (bw_w bw)) = None"
    and "bw_seen bw + int (length p) \<le> ContentLength meta" and "0 < ContentLength meta"
  shows "e = None \<and> rw_room (cw_rw (bw_w bw')) = None"
  using assms by (auto simp: bounded_Write_def Let_def split: if_splits prod.splits option.splits dest!: lazy_Write_room)

lemma feed_room:
  assumes "bounded_ok rw (ContentLength meta) F bw" and "0 < ContentLength meta" and "rw_room (cw_rw (bw_w bw)) = None"
    and "int (length (F @ concat cs)) \<le> ContentLength meta" and "feed (bounded_Write bucket key meta) cs bw = (bw', e)"
  shows "e = None \<and> rw_room (cw_rw (bw_w bw')) = None"
  using assms
proof (induction cs arbitrary: F bw)
  case (Cons c cs)
  obtain b n f where w: "bounded_Write bucket key meta c bw = (b, n, f)" by (metis prod_cases3)
  have f: "f = None \<and> rw_room (cw_rw (bw_w b)) = None"
    using bounded_Write_room [OF w Cons.prems(3) _ Cons.prems(2)] bounded_seen [OF Cons.prems(1,2)] Cons.prems(4) by simp
  then have "bounded_ok rw (ContentLength meta) (F @ c) b" using bounded_Write_step [OF Cons.prems(1,2) w] by simp
  with f Cons.IH [of "F @ c" b] Cons.prems w show ?case by simp
qed simp

text \<open>The end of a large body: the held byte goes out when the stream ended cleanly at the promised length.\<close>

lemma bounded_end:
  assumes "bounded_ok rw (ContentLength meta) F bw" and "0 < ContentLength meta" and "int (length F) = ContentLength meta"
    and "bw_release meta bw = (bw', e)"
  shows "rw_body (cw_rw (bw_w bw')) = rw_body rw @ F \<and> e = None \<or> cut_short rw (ContentLength meta) F bw' \<and> e \<noteq> None"
    and "committed (bw_w bw')" and "rw_room (cw_rw (bw_w bw)) = None \<Longrightarrow> e = None"
proof -
  obtain G c where F: "F = G @ [c]" using assms(2,3) by (cases F rule: rev_cases) auto
  have h: "bw_held bw = Some c" "rw_body (cw_rw (bw_w bw)) = rw_body rw @ G"
    using assms(1,3) F by (auto simp: bounded_ok_def Let_def)
  obtain cw n f where w: "lazy_Write (commit_full meta) [c] (bw_w bw) = (cw, n, f)" by (metis prod_cases3)
  note lw = lazy_Write_body [OF w]
  have r: "bw_w bw' = cw" "e = f" using assms(4) h w by (auto simp: bw_release_def)
  show "committed (bw_w bw')" "rw_room (cw_rw (bw_w bw)) = None \<Longrightarrow> e = None" using lw r lazy_Write_room [OF w] by auto
  show "rw_body (cw_rw (bw_w bw')) = rw_body rw @ F \<and> e = None \<or> cut_short rw (ContentLength meta) F bw' \<and> e \<noteq> None"
  proof (cases "n = 1")
    case True
    with lw h r F show ?thesis by simp
  next
    case False
    with lw(2) have "n = 0" by (cases n) auto
    with lw h r F assms(3) show ?thesis by (auto intro: cut_shortI [of _ _ G _ "[c]"])
  qed
qed

lemma bounded_stream_length:
  assumes pos: "0 < ContentLength meta" and str: "bounded_stream bucket key meta cs e0 rw = (bw, e)"
  shows "rw_body (cw_rw (bw_w bw)) = rw_body rw @ concat cs \<and> int (length (concat cs)) = ContentLength meta \<and> e0 = None \<and> e = None
      \<or> cut_short rw (ContentLength meta) (concat cs) bw \<and> e \<noteq> None"
    and "int (length (concat cs)) = ContentLength meta \<Longrightarrow> e0 = None \<Longrightarrow> rw_room rw = None \<Longrightarrow> e = None"
    and "e = None \<Longrightarrow> committed (bw_w bw)"
proof -
  let ?bw = "\<lparr>bw_w = \<lparr>cw_rw = rw, cw_written = 0, committed = False\<rparr>, bw_written = 0, bw_held = None\<rparr>"
  have start: "bounded_ok rw (ContentLength meta) [] ?bw" using pos by (simp add: bounded_ok_def Let_def)
  obtain b0 f0 where fd: "feed (bounded_Write bucket key meta) cs ?bw = (b0, f0)" by (metis surj_pair)
  note fb = feed_bounded [OF start pos fd, unfolded append_Nil]
  note room = feed_room [OF start pos _ _ fd, unfolded append_Nil, simplified]
  define ok where "ok \<longleftrightarrow> f0 = None \<and> e0 = None \<and> int (length (concat cs)) = ContentLength meta"
  have seen: "bw_seen b0 = int (length (concat cs))" if "f0 = None" using fb bounded_seen pos that by blast
  have eq: "bounded_stream bucket key meta cs e0 rw = (if ok then bw_release meta b0 else (b0, snd (bounded_stream bucket key meta cs e0 rw)))"
    and ne: "\<not> ok \<Longrightarrow> snd (bounded_stream bucket key meta cs e0 rw) \<noteq> None"
    using fd pos seen by (auto simp: bounded_stream_def stream_into_def ok_def checkCachedBodyLength_def split: option.splits)
  have goal: "(rw_body (cw_rw (bw_w bw)) = rw_body rw @ concat cs \<and> int (length (concat cs)) = ContentLength meta \<and> e0 = None \<and> e = None
      \<or> cut_short rw (ContentLength meta) (concat cs) bw \<and> e \<noteq> None)
      \<and> (int (length (concat cs)) = ContentLength meta \<and> e0 = None \<and> rw_room rw = None \<longrightarrow> e = None) \<and> (e = None \<longrightarrow> committed (bw_w bw))"
  proof (cases ok)
    case True
    then have "bounded_ok rw (ContentLength meta) (concat cs) b0" using fb by (simp add: ok_def)
    from bounded_end [OF this pos] show ?thesis using True eq str room by (auto simp: ok_def)
  next
    case False
    then have "bw = b0" "e \<noteq> None" using eq ne str by auto
    moreover have "cut_short rw (ContentLength meta) (concat cs) b0"
      using fb bounded_cut [of rw "ContentLength meta" "concat cs" b0 "[]"] pos by (cases f0) auto
    ultimately show ?thesis using False room by (auto simp: ok_def)
  qed
  then show "rw_body (cw_rw (bw_w bw)) = rw_body rw @ concat cs \<and> int (length (concat cs)) = ContentLength meta \<and> e0 = None \<and> e = None
      \<or> cut_short rw (ContentLength meta) (concat cs) bw \<and> e \<noteq> None"
    and "int (length (concat cs)) = ContentLength meta \<Longrightarrow> e0 = None \<Longrightarrow> rw_room rw = None \<Longrightarrow> e = None"
    and "e = None \<Longrightarrow> committed (bw_w bw)" by simp_all
qed

text \<open>C36: serving a whole cached body writes a prefix of what the store holds, and as many bytes as the metadata promises
  only when the store's stream ended cleanly at exactly that length; a failed serve has written nothing, and an intact
  body goes out in full to a client that takes it.\<close>

theorem whole_serve_exact:
  assumes "0 < ContentLength meta"
    and get: "GetBodyStream (s_cache s) bucket key (BodyDiscriminator meta) (world st) = (w, out, e0)"
    and "concat (s_chunks s w out) = out"
    and serve: "serveFromCache s rw bucket key meta st = (st', rw', e)"
  shows "\<exists>p q. rw_body rw' = rw_body rw @ p \<and> out = p @ q \<and> (e \<noteq> None \<longrightarrow> rw' = rw)
      \<and> (int (length p) = ContentLength meta \<longrightarrow> q = [] \<and> e0 = None)
      \<and> (int (length out) = ContentLength meta \<and> e0 = None \<and> rw_room rw = None \<longrightarrow> q = [] \<and> e = None)"
proof (cases "ContentLength meta \<le> smallObjectThreshold")
  case True
  define good where "good \<longleftrightarrow> e0 = None \<and> int (length out) = ContentLength meta"
  have r: "if good then rw' = fst (rw_Write out (commit_full meta rw)) \<and> e = None else rw' = rw \<and> e \<noteq> None"
    using True assms(1) get serve
    by (auto simp: serveFromCache_def serve_small_def on_world_def good_def checkCachedBodyLength_def split: option.splits if_splits)
  obtain rw1 n f where w: "rw_Write out (commit_full meta rw) = (rw1, n, f)" by (metis prod_cases3)
  have b: "rw_body rw1 = rw_body rw @ take n out" "rw_room rw = None \<longrightarrow> n = length out"
    using w commit_body(2) [of meta rw] commit_room(2) [of meta rw]
    by (cases "rw_room rw"; auto simp: rw_Write_def WriteHeader_def Let_def split: if_splits)+
  show ?thesis
  proof (cases good)
    case True
    then show ?thesis using r w b by (intro exI [of _ "take n out"] exI [of _ "drop n out"]) (auto simp: good_def)
  next
    case False
    then show ?thesis using r assms(1) by (auto simp: good_def)
  qed
next
  case False
  obtain bw f where bs: "bounded_stream bucket key meta (s_chunks s w out) e0 rw = (bw, f)" by (metis surj_pair)
  note len = bounded_stream_length [OF assms(1) bs, unfolded assms(3)]
  have r: "if committed (bw_w bw) then rw' = cw_rw (bw_w bw) \<and> e = None else rw' = rw \<and> e \<noteq> None"
    using False assms(1) get serve bs by (auto simp: serveFromCache_def serve_large_def on_world_def split: if_splits)
  show ?thesis
  proof (cases "committed (bw_w bw)")
    case True
    from len(1) show ?thesis using r True len(2) by (auto simp: cut_short_def)
  next
    case nc: False
    then have "\<not> (int (length out) = ContentLength meta \<and> e0 = None \<and> rw_room rw = None)" using len(2,3) by blast
    with nc r assms(1) show ?thesis by auto
  qed
qed

theorem whole_serve_exact_witness:
  "rw_body (fst (snd (serveFromCache digits_service blank_writer ''b'' ''k'' digits_meta
       (digits_state\<lparr>world := \<lparr>rows = [MakeBodyKey ''b'' ''k'' ''e'' \<mapsto> ''0123456789''], vers = (\<lambda>_. 1), mem_now = 0\<rparr>\<rparr>)))) = ''0123456789''"
proof -
  let ?st = "digits_state\<lparr>world := \<lparr>rows = [MakeBodyKey ''b'' ''k'' ''e'' \<mapsto> ''0123456789''], vers = (\<lambda>_. 1), mem_now = 0\<rparr>\<rparr>"
  have get: "GetBodyStream (s_cache digits_service) ''b'' ''k'' (BodyDiscriminator digits_meta) (world ?st) = (world ?st, ''0123456789'', None)"
    by (simp add: GetBodyStream_def BodyDiscriminator_def digits_defs)
  obtain st' rw' e where q: "serveFromCache digits_service blank_writer ''b'' ''k'' digits_meta ?st = (st', rw', e)" by (metis prod_cases3)
  have "0 < ContentLength digits_meta" "concat (s_chunks digits_service (world ?st) ''0123456789'') = ''0123456789''"
    "rw_room blank_writer = None" "int (length ''0123456789'') = ContentLength digits_meta"
    by (simp_all add: digits_defs blank_writer_def)
  from whole_serve_exact [OF this(1) get this(2) q] this(3,4) have "rw_body rw' = rw_body blank_writer @ ''0123456789''" by auto
  with q show ?thesis by (simp add: blank_writer_def)
qed

end
