(* ===== verification/Go_Md5.thy ===== *)
theory Go_Md5
  imports Go_Crypto
begin

text \<open>
  MD5 (\<^verbatim>\<open>crypto/md5\<close>), the digest the local store takes an object's entity tag from and checks \<^verbatim>\<open>Content-MD5\<close> with.
\<close>

unbundle bit_operations_syntax

definition rotl :: "nat \<Rightarrow> w32 \<Rightarrow> w32" where
  "rotl n x = push_bit n x OR drop_bit (32 - n) x"

definition md5_k :: "w32 list" where
  "md5_k =
    [0xd76aa478, 0xe8c7b756, 0x242070db, 0xc1bdceee, 0xf57c0faf, 0x4787c62a, 0xa8304613, 0xfd469501,
     0x698098d8, 0x8b44f7af, 0xffff5bb1, 0x895cd7be, 0x6b901122, 0xfd987193, 0xa679438e, 0x49b40821,
     0xf61e2562, 0xc040b340, 0x265e5a51, 0xe9b6c7aa, 0xd62f105d, 0x02441453, 0xd8a1e681, 0xe7d3fbc8,
     0x21e1cde6, 0xc33707d6, 0xf4d50d87, 0x455a14ed, 0xa9e3e905, 0xfcefa3f8, 0x676f02d9, 0x8d2a4c8a,
     0xfffa3942, 0x8771f681, 0x6d9d6122, 0xfde5380c, 0xa4beea44, 0x4bdecfa9, 0xf6bb4b60, 0xbebfbc70,
     0x289b7ec6, 0xeaa127fa, 0xd4ef3085, 0x04881d05, 0xd9d4d039, 0xe6db99e5, 0x1fa27cf8, 0xc4ac5665,
     0xf4292244, 0x432aff97, 0xab9423a7, 0xfc93a039, 0x655b59c3, 0x8f0ccc92, 0xffeff47d, 0x85845dd1,
     0x6fa87e4f, 0xfe2ce6e0, 0xa3014314, 0x4e0811a1, 0xf7537e82, 0xbd3af235, 0x2ad7d2bb, 0xeb86d391]"

definition md5_s :: "nat list" where
  "md5_s = concat (map (\<lambda>r. concat (replicate 4 r)) [[7, 12, 17, 22], [5, 9, 14, 20], [4, 11, 16, 23], [6, 10, 15, 21]])"

definition le_word :: "string \<Rightarrow> w32" where
  "le_word s = foldr (\<lambda>c a. a * 256 + of_nat (of_char c)) s 0"

definition le_bytes :: "nat \<Rightarrow> nat \<Rightarrow> string" where
  "le_bytes n v = map (\<lambda>i. char_of (v div 256 ^ i)) [0..<n]"

definition md5_pad :: "string \<Rightarrow> string" where
  "md5_pad s =
     (let l = length s; z = (119 - l mod 64) mod 64
      in s @ [char_of (128::nat)] @ replicate z (char_of (0::nat)) @ le_bytes 8 (8 * l))"

fun md5_step :: "w32 list \<Rightarrow> w32 list \<Rightarrow> nat \<Rightarrow> w32 list" where
  "md5_step m [a, b, c, d] i =
     (let (f, g) = (if i < 16 then ((b AND c) OR (NOT b AND d), i)
                    else if i < 32 then ((d AND b) OR (NOT d AND c), (5 * i + 1) mod 16)
                    else if i < 48 then (b XOR c XOR d, (3 * i + 5) mod 16)
                    else (c XOR (b OR NOT d), (7 * i) mod 16))
      in [d, b + rotl (md5_s ! i) (f + a + md5_k ! i + m ! g), b, c])"
| "md5_step m s i = s"

definition md5_block :: "w32 list \<Rightarrow> string \<Rightarrow> w32 list" where
  "md5_block h b =
     (let m = map (\<lambda>i. le_word (take 4 (drop (4 * i) b))) [0..<16]
      in map2 (+) h (foldl (md5_step m) h [0..<64]))"

definition md5_sum :: "string \<Rightarrow> string" where
  "md5_sum s =
     (let p = md5_pad s
      in concat (map (\<lambda>x. le_bytes 4 (unat x))
           (foldl (\<lambda>h i. md5_block h (take 64 (drop (64 * i) p))) [0x67452301, 0xefcdab89, 0x98badcfe, 0x10325476]
              [0..<length p div 64])))"

section \<open>Lengths\<close>

lemma length_md5_step: "length (md5_step m s i) = length s"
  by (cases "(m, s, i)" rule: md5_step.cases) (auto simp: Let_def split: prod.splits)

lemma length_md5_block: "length (md5_block h b) = length h"
proof -
  have "length (foldl (md5_step m) s xs) = length s" for m s xs
    by (induction xs arbitrary: s) (simp_all add: length_md5_step)
  then show ?thesis by (simp add: md5_block_def Let_def)
qed

lemma length_md5_sum [simp]: "length (md5_sum s) = 16"
proof -
  have "length (foldl (\<lambda>h i. md5_block h (f i)) h xs) = length h" for f h and xs :: "nat list"
    by (induction xs arbitrary: h) (simp_all add: length_md5_block)
  then show ?thesis by (simp add: md5_sum_def Let_def length_concat le_bytes_def comp_def sum_list_triv)
qed

end
