(* ===== verification/Local_Store.thy ===== *)
theory Local_Store
  imports Whole_Serve Go_Md5
begin

text \<open>
  The local-store engine (\<^verbatim>\<open>proxy/localstore.go\<close>): objects stored in and served from the cache alone, with
  authoritative misses. It is the small tier of tiered mode. A \<^verbatim>\<open>PUT\<close> streams its body under a fresh reference,
  checks length and digests, and becomes visible with one conditional metadata write.
\<close>

section \<open>Requests\<close>

text \<open>Whether a response was given a success status, as the recorder around a writer sees it (\<^verbatim>\<open>service.go\<close>).\<close>

definition wroteSuccess :: "ResponseWriter \<Rightarrow> bool" where
  "wroteSuccess rw = (case rw_sent rw of None \<Rightarrow> False | Some (code, _) \<Rightarrow> 200 \<le> code \<and> code < 300)"

definition originlessPlainObject :: "Request \<Rightarrow> bool" where
  "originlessPlainObject r =
     (if header_get (Header r) ''X-Amz-Copy-Source'' \<noteq> [] then False
      else if url_RawQuery (URL r) = [] then True
      else list_all (\<lambda>(name, _). name \<in> set originlessIgnoredParams) (URL_Query r))"

text \<open>The decoded size a \<^verbatim>\<open>PUT\<close> declares, when it declares one.\<close>

definition originlessPutSize :: "Request \<Rightarrow> int option" where
  "originlessPutSize r =
     (if IsStreamingPayload (header_get (Header r) ''X-Amz-Content-Sha256'')
      then (let dcl = header_get (Header r) ''X-Amz-Decoded-Content-Length'' in
            if dcl = [] then None
            else case ParseInt dcl 10 of (n, ok) \<Rightarrow> if ok \<and> 0 \<le> n then Some n else None)
      else if ReqContentLength r < 0 then None else Some (ReqContentLength r))"

definition concretePayloadSHA256 :: "Request \<Rightarrow> string option" where
  "concretePayloadSHA256 r =
     (let payloadHash = header_get (Header r) ''X-Amz-Content-Sha256'' in
      if payloadHash = [] \<or> payloadHash = ''UNSIGNED-PAYLOAD'' \<or> IsStreamingPayload payloadHash \<or> length payloadHash \<noteq> 64 then None
      else hex_DecodeString payloadHash)"

definition streamingChunkVerifier :: "('a, 'w) Service \<Rightarrow> Request \<Rightarrow> ('a, 'w) svc \<Rightarrow> ChunkVerifier option result" where
  "streamingChunkVerifier s r st =
     (if header_get (Header r) ''X-Amz-Content-Sha256'' \<noteq> StreamingPayloadHash then Inr None
      else case chunk_verifier s of None \<Rightarrow> Inr None | Some p \<Rightarrow> p r (fwd st) (world st))"

section \<open>Reading\<close>

definition HandleOriginlessUnsupported :: "('a, 'w) Service \<Rightarrow> ResponseWriter \<Rightarrow> Request \<Rightarrow> ('a, 'w) svc \<Rightarrow> ('a, 'w) svc \<times> ResponseWriter \<times> err option" where
  "HandleOriginlessUnsupported s rw r st = (st, WriteError (mint_id s (world st)) rw r ''NotImplemented'', None)"

definition originlessMiss :: "('a, 'w) Service \<Rightarrow> ResponseWriter \<Rightarrow> Request \<Rightarrow> ('a, 'w) svc \<Rightarrow> ('a, 'w) svc \<times> ResponseWriter \<times> err option" where
  "originlessMiss s rw r st = (st, WriteError (mint_id s (world st)) (writeCacheStatus rw ''MISS'') r ''NoSuchKey'', None)"

text \<open>An entry exists when its data can be served: an empty object always, any other when its body is there.\<close>

definition entryServable :: "('a, 'w) Service \<Rightarrow> string \<Rightarrow> string \<Rightarrow> CachedObjectMeta \<Rightarrow> ('a, 'w) svc \<Rightarrow> ('a, 'w) svc \<times> bool result" where
  "entryServable s bucket key meta st =
     (if ContentLength meta = 0 then (st, Inr True)
      else on_world (BodyExistsErr (s_cache s) bucket key (BodyDiscriminator meta)) st)"

text \<open>A body that is gone is a miss, and the metadata that pointed at it goes too; any other failure is not absence.\<close>

definition finishServeBodyError ::
  "('a, 'w) Service \<Rightarrow> ResponseWriter \<Rightarrow> Request \<Rightarrow> string \<Rightarrow> string \<Rightarrow> version \<Rightarrow> err option \<Rightarrow> ('a, 'w) svc \<Rightarrow> ('a, 'w) svc \<times> ResponseWriter \<times> err option" where
  "finishServeBodyError s rw r bucket key metaVersion serveErr st =
     (if \<not> bodyGone serveErr then (st, rw, serveErr)
      else originlessMiss s rw r (fst (on_world (DeleteMetaIfVersion (s_cache s) bucket key metaVersion) st)))"

definition serveOriginlessObject ::
  "('a, 'w) Service \<Rightarrow> ResponseWriter \<Rightarrow> Request \<Rightarrow> CachedObjectMeta option \<Rightarrow> version \<Rightarrow> ('a, 'w) svc \<Rightarrow> ('a, 'w) svc \<times> ResponseWriter \<times> err option" where
  "serveOriginlessObject s rw r snapshot metaVersion st =
     (let (bucket, key) = ParseBucketKey r in
      case snapshot of
        None \<Rightarrow> originlessMiss s rw r st
      | Some meta \<Rightarrow>
          (case entryServable s bucket key meta st of
             (st, Inl e) \<Rightarrow> (st, rw, Some e)
           | (st, Inr False) \<Rightarrow> originlessMiss s rw r st
           | (st, Inr True) \<Rightarrow>
               (case answerConditionalsFromMeta (mint_id s (world st)) rw r meta of
                  (rw, True) \<Rightarrow> (st, rw, None)
                | (rw, False) \<Rightarrow>
                    if Method r = ''HEAD'' then (st, serveMetaHit rw meta, None)
                    else
                      let rangeHeader = header_get (Header r) ''Range'' in
                      if rangeHeader \<noteq> []
                      then (case serveRangeFromCache s rw r bucket key meta rangeHeader st of
                              (st, rw, True, e) \<Rightarrow> (st, rw, e)
                            | (st, rw, False, e) \<Rightarrow> finishServeBodyError s rw r bucket key metaVersion e st)
                      else (case serveFromCache s rw bucket key meta st of
                              (st, rw, None) \<Rightarrow> (st, rw, None)
                            | (st, rw, Some e) \<Rightarrow> finishServeBodyError s rw r bucket key metaVersion (Some e) st))))"

definition HandleOriginlessObject :: "('a, 'w) Service \<Rightarrow> ResponseWriter \<Rightarrow> Request \<Rightarrow> ('a, 'w) svc \<Rightarrow> ('a, 'w) svc \<times> ResponseWriter \<times> err option" where
  "HandleOriginlessObject s rw r st =
     (let (bucket, key) = ParseBucketKey r in
      if \<not> originlessPlainObject r then HandleOriginlessUnsupported s rw r st
      else if \<not> IsEnabled (s_cache s)
      then (st, WriteError (mint_id s (world st)) (writeCacheStatus rw ''DISABLED'') r ''NoSuchKey'', None)
      else case on_world (GetMetaWithVersion (s_cache s) bucket key) st of
             (st, Inl e) \<Rightarrow> (st, rw, Some e)
           | (st, Inr (meta, metaVersion, found)) \<Rightarrow> serveOriginlessObject s rw r (if found then meta else None) metaVersion st)"

section \<open>Deleting\<close>

definition invalidateObject :: "('a, 'w) Service \<Rightarrow> string \<Rightarrow> string \<Rightarrow> ('a, 'w) svc \<Rightarrow> ('a, 'w) svc \<times> err option" where
  "invalidateObject s bucket key st =
     (if \<not> IsEnabled (s_cache s) then (st, None) else on_world (Delete (s_cache s) bucket key) st)"

definition HandleOriginlessDelete :: "('a, 'w) Service \<Rightarrow> ResponseWriter \<Rightarrow> Request \<Rightarrow> ('a, 'w) svc \<Rightarrow> ('a, 'w) svc \<times> ResponseWriter \<times> err option" where
  "HandleOriginlessDelete s rw r st =
     (let (bucket, key) = ParseBucketKey r in
      if \<not> originlessPlainObject r then HandleOriginlessUnsupported s rw r st
      else case invalidateObject s bucket key st of
             (st, Some e) \<Rightarrow> (st, rw, Some e)
           | (st, None) \<Rightarrow> (st, WriteHeader 204 rw, None))"

section \<open>Storing\<close>

record putPrior =
  prior_meta :: "CachedObjectMeta option"
  prior_version :: version
  prior_found :: bool

text \<open>The decision state: the caller's snapshot, or a read of its own.\<close>

definition put_snapshot ::
  "('a, 'w) Service \<Rightarrow> string \<Rightarrow> string \<Rightarrow> putPrior option \<Rightarrow> ('a, 'w) svc \<Rightarrow> ('a, 'w) svc \<times> putPrior result" where
  "put_snapshot s bucket key prior st =
     (case prior of
        Some p \<Rightarrow> (st, Inr p)
      | None \<Rightarrow>
          (case on_world (GetMetaWithVersion (s_cache s) bucket key) st of
             (st, Inl e) \<Rightarrow> (st, Inl e)
           | (st, Inr (meta, version, found)) \<Rightarrow> (st, Inr \<lparr>prior_meta = meta, prior_version = version, prior_found = found\<rparr>)))"

definition conditional_put :: "Request \<Rightarrow> bool" where
  "conditional_put r \<longleftrightarrow> header_get (Header r) ''If-Match'' \<noteq> [] \<or> header_get (Header r) ''If-None-Match'' \<noteq> []"

text \<open>The precondition against the snapshot: the error code it earns, if any. A marker of the upstream tier exists.\<close>

definition put_precondition ::
  "('a, 'w) Service \<Rightarrow> Request \<Rightarrow> string \<Rightarrow> string \<Rightarrow> putPrior \<Rightarrow> ('a, 'w) svc \<Rightarrow> ('a, 'w) svc \<times> ErrorCode option result" where
  "put_precondition s r bucket key prior st =
     (let ifMatch = header_get (Header r) ''If-Match''; ifNoneMatch = header_get (Header r) ''If-None-Match'' in
      if \<not> conditional_put r then (st, Inr None)
      else
        let existing = (if prior_found prior then prior_meta prior else None) in
        case (case existing of
                None \<Rightarrow> (st, Inr False)
              | Some m \<Rightarrow> if BodyUpstream m then (st, Inr True) else entryServable s bucket key m st) of
          (st, Inl e) \<Rightarrow> (st, Inl e)
        | (st, Inr exists) \<Rightarrow>
            (st, Inr (if ifMatch \<noteq> [] \<and> \<not> exists then Some ''NoSuchKey''
                      else if ifMatch \<noteq> [] \<and> ifMatch \<noteq> ''*'' \<and> \<not> MatchesETagHeader (the existing) ifMatch True then Some ''PreconditionFailed''
                      else if ifNoneMatch \<noteq> [] \<and> exists \<and> (ifNoneMatch = ''*'' \<or> MatchesETagHeader (the existing) ifNoneMatch False)
                      then Some ''PreconditionFailed''
                      else None)))"

text \<open>The decoded body of an upload, its framing verified when there is a chain to verify it against.\<close>

definition decoded_body :: "Request \<Rightarrow> ChunkVerifier option \<Rightarrow> int \<Rightarrow> body \<Rightarrow> body" where
  "decoded_body r verify declaredSize body =
     (if \<not> IsStreamingPayload (header_get (Header r) ''X-Amz-Content-Sha256'') then body
      else let d = newVerifyingAWSChunkedReader body verify declaredSize in
           case reads (replicate (Suc (length (input d))) (8192, 8192)) d of
             (_, out, e) \<Rightarrow> (out, if e = Some EOF then None else e))"

definition io_LimitReader :: "nat \<Rightarrow> body \<Rightarrow> body" where
  "io_LimitReader n r = (if n \<le> length (fst r) then (take n (fst r), None) else r)"

text \<open>
  The staged write: how many bytes the store read, the error it returned, and the reader's own error when the store
  has read up to it.
\<close>

definition captureReader ::
  "'w Cache \<Rightarrow> string \<Rightarrow> string \<Rightarrow> string \<Rightarrow> reader \<Rightarrow> int \<Rightarrow> 'w \<Rightarrow> 'w \<times> nat \<times> err option \<times> err option" where
  "captureReader c bucket key discriminator src ttl w =
     (if \<not> IsEnabled c then (w, 0, None, None)
      else let ttl = (if ttl \<le> 0 then defaultTTL c else ttl);
               (w, n, e) = putBody c (MakeBodyKey bucket key discriminator) src ttl w;
               n = min (nat n) (length (fst src))
           in (w, n, e, if n = length (fst src) then snd src else None))"

lemma captureReader_PutBodyStream:
  "PutBodyStream c bucket key d src ttl w = (case captureReader c bucket key d src ttl w of (w, _, e, _) \<Rightarrow> (w, e))"
  by (simp add: PutBodyStream_def captureReader_def Let_def split: prod.splits)

text \<open>What the staged bytes earn: an error code for the client, an error of the store, or their entity tag.\<close>

datatype put_verdict = PutRejected ErrorCode | PutFailed err | PutStaged string

definition staged_put ::
  "string \<Rightarrow> int \<Rightarrow> string option \<Rightarrow> string option \<Rightarrow> nat \<Rightarrow> err option \<Rightarrow> err option \<Rightarrow> put_verdict" where
  "staged_put sent declaredSize wantMD5 expectedSHA256 n putErr readErr =
     (case putErr of
        Some e \<Rightarrow>
          (case readErr of
             Some re \<Rightarrow> PutRejected (if err_is re ErrChunkSignatureMismatch then ''SignatureDoesNotMatch'' else ''IncompleteBody'')
           | None \<Rightarrow> if err_is e ErrPopulateShed then PutRejected ''SlowDown'' else PutFailed e)
      | None \<Rightarrow>
          let body = take n sent; sum = md5_sum body in
          if int n \<noteq> declaredSize then PutRejected ''IncompleteBody''
          else if wantMD5 \<noteq> None \<and> wantMD5 \<noteq> Some sum then PutRejected ''BadDigest''
          else if expectedSHA256 \<noteq> None \<and> expectedSHA256 \<noteq> Some (sha256 body) then PutRejected ''XAmzContentSHA256Mismatch''
          else PutStaged ([CHR 0x22] @ EncodeToString sum @ [CHR 0x22]))"

text \<open>The metadata of a stored object: the request's headers, with what a terminal store owns.\<close>

definition put_meta :: "int \<Rightarrow> string \<Rightarrow> string \<Rightarrow> Request \<Rightarrow> string \<Rightarrow> string \<Rightarrow> int \<Rightarrow> CachedObjectMeta" where
  "put_meta now bucket key r etag ref declaredSize =
     (let streaming = IsStreamingPayload (header_get (Header r) ''X-Amz-Content-Sha256'');
          ce = Join '','' (header_values (Header r) ''Content-Encoding'')
      in (MetaFromHTTPHeaders now bucket key 200 (Header r))
           \<lparr>ETag := etag, BodyRef := ref, ContentLength := declaredSize,
            ContentEncoding := (if streaming then stripAWSChunkedToken ce else ce), LastModified := unix_sec now\<rparr>)"

text \<open>
  The commit: stored, refused by the store, or failed; an error of the store itself leaves open whether it applied the
  write. An unconditional write is retried under fresh tokens, at most eight times.
\<close>

datatype commit_result = Stored | Refused | Ambiguous err | GaveUp err

definition store_meta ::
  "('a, 'w) Service \<Rightarrow> string \<Rightarrow> string \<Rightarrow> CachedObjectMeta \<Rightarrow> version \<Rightarrow> ('a, 'w) svc \<Rightarrow> ('a, 'w) svc \<times> commit_result" where
  "store_meta s bucket key meta token st =
     (case on_world (PutMetaIfVersion (s_cache s) bucket key meta (TTL_Seconds (s_config s)) token) st of
        (st, Inl e) \<Rightarrow> (st, Ambiguous e)
      | (st, Inr wrote) \<Rightarrow> (st, if wrote then Stored else Refused))"

fun put_retry ::
  "('a, 'w) Service \<Rightarrow> 'w ctx \<Rightarrow> string \<Rightarrow> string \<Rightarrow> CachedObjectMeta \<Rightarrow> nat \<Rightarrow> ('a, 'w) svc \<Rightarrow> ('a, 'w) svc \<times> commit_result" where
  "put_retry s ctx bucket key meta 0 st =
     (st, GaveUp (EText (''put '' @ bucket @ ''/'' @ key @ '': store refused 8 retries under fresh tokens'')))"
| "put_retry s ctx bucket key meta (Suc attempts) st =
     (case ctx (world st) of
        Some e \<Rightarrow> (st, GaveUp e)
      | None \<Rightarrow>
          (case on_world (GetMetaWithVersion (s_cache s) bucket key) st of
             (st, Inl e) \<Rightarrow> (st, GaveUp e)
           | (st, Inr (_, retryToken, _)) \<Rightarrow>
               (case store_meta s bucket key meta retryToken st of
                  (st, Refused) \<Rightarrow> put_retry s ctx bucket key meta attempts st
                | (st, c) \<Rightarrow> (st, c))))"

definition put_commit ::
  "('a, 'w) Service \<Rightarrow> 'w ctx \<Rightarrow> string \<Rightarrow> string \<Rightarrow> CachedObjectMeta \<Rightarrow> version \<Rightarrow> bool \<Rightarrow> ('a, 'w) svc \<Rightarrow> ('a, 'w) svc \<times> commit_result" where
  "put_commit s ctx bucket key meta expected conditional st =
     (case store_meta s bucket key meta expected st of
        (st, Refused) \<Rightarrow> if conditional then (st, Refused) else put_retry s ctx bucket key meta 8 st
      | (st, c) \<Rightarrow> (st, c))"

definition new_ref :: "('a, 'w) Service \<Rightarrow> ('a, 'w) svc \<Rightarrow> ('a, 'w) svc \<times> string" where
  "new_ref s st = (case on_world (s_rand s) st of (st, rnd) \<Rightarrow> (st, NewBodyRef rnd (nat (s_now s (world st)))))"

text \<open>
  The admitted \<^verbatim>\<open>PUT\<close>. A staged body whose metadata was not committed is removed, unless the commit may have been
  applied.
\<close>

definition put_body ::
  "('a, 'w) Service \<Rightarrow> 'w ctx \<Rightarrow> ResponseWriter \<Rightarrow> Request \<Rightarrow> body \<Rightarrow> string \<Rightarrow> string \<Rightarrow> putPrior \<Rightarrow> int \<Rightarrow> string option
   \<Rightarrow> string option \<Rightarrow> ChunkVerifier option \<Rightarrow> ('a, 'w) svc \<Rightarrow> ('a, 'w) svc \<times> ResponseWriter \<times> err option" where
  "put_body s ctx rw r body bucket key prior declaredSize wantMD5 expectedSHA256 verify st =
     (let src = io_LimitReader (nat (declaredSize + 1)) (decoded_body r verify declaredSize body);
          (st, ref) = new_ref s st;
          discard = (\<lambda>st. fst (on_world (DeleteBody (s_cache s) bucket key ref) st));
          reject = (\<lambda>code st. (discard st, WriteError (mint_id s (world st)) rw r code, None))
      in case on_world (captureReader (s_cache s) bucket key ref src (TTL_Seconds (s_config s))) st of
           (st, n, putErr, readErr) \<Rightarrow>
             (case staged_put (fst src) declaredSize wantMD5 expectedSHA256 n putErr readErr of
                PutRejected code \<Rightarrow> reject code st
              | PutFailed e \<Rightarrow> (discard st, rw, Some e)
              | PutStaged etag \<Rightarrow>
                  (case put_commit s ctx bucket key (put_meta (s_now s (world st)) bucket key r etag ref declaredSize) (prior_version prior)
                          (conditional_put r) st of
                     (st, Stored) \<Rightarrow> (st, WriteHeader 200 (set_header ''ETag'' etag rw), None)
                   | (st, Refused) \<Rightarrow> reject ''PreconditionFailed'' st
                   | (st, Ambiguous e) \<Rightarrow> (st, rw, Some e)
                   | (st, GaveUp e) \<Rightarrow> (discard st, rw, Some e))))"

text \<open>\<^verbatim>\<open>Content-MD5\<close> of the request: malformed, or the digest it asks for, if any.\<close>

definition content_md5 :: "Request \<Rightarrow> string option option" where
  "content_md5 r =
     (case header_values (Header r) ''Content-MD5'' of
        [] \<Rightarrow> Some None
      | v # _ \<Rightarrow> (case base64_DecodeString v of
                    None \<Rightarrow> None
                  | Some want \<Rightarrow> if length want = 16 then Some (Some want) else None))"

abbreviation originlessPutStreamWeight :: int where
  "originlessPutStreamWeight \<equiv> 2 * 1024 * 1024 + 128 * 1024"

abbreviation awsChunkedReaderBufSize :: int where
  "awsChunkedReaderBufSize \<equiv> 65536"

definition put_admitted ::
  "('a, 'w) Service \<Rightarrow> 'w ctx \<Rightarrow> ResponseWriter \<Rightarrow> Request \<Rightarrow> body \<Rightarrow> string \<Rightarrow> string \<Rightarrow> putPrior \<Rightarrow> string option
   \<Rightarrow> ChunkVerifier option \<Rightarrow> ('a, 'w) svc \<Rightarrow> ('a, 'w) svc \<times> ResponseWriter \<times> err option" where
  "put_admitted s ctx rw r body bucket key prior expectedSHA256 verify st =
     (let fail = (\<lambda>code st. (st, WriteError (mint_id s (world st)) rw r code, None));
          streaming = IsStreamingPayload (header_get (Header r) ''X-Amz-Content-Sha256'');
          weight = originlessPutStreamWeight + (if streaming then awsChunkedReaderBufSize else 0)
      in case originlessPutSize r of
           None \<Rightarrow> fail ''MissingContentLength'' st
         | Some declaredSize \<Rightarrow>
             if SizeThreshold (s_config s) < declaredSize then fail ''EntityTooLarge'' st
             else case on_limits (acquireEnginePutSlot weight) st of
                    (st, False) \<Rightarrow> fail ''SlowDown'' st
                  | (st, True) \<Rightarrow>
                      (case (case content_md5 r of
                               None \<Rightarrow> fail ''InvalidDigest'' st
                             | Some wantMD5 \<Rightarrow> put_body s ctx rw r body bucket key prior declaredSize wantMD5 expectedSHA256 verify st) of
                         (st, rw, e) \<Rightarrow> (st\<lparr>budget := releaseEnginePutSlot weight (budget st)\<rparr>, rw, e)))"

definition handleOriginlessPut ::
  "('a, 'w) Service \<Rightarrow> 'w ctx \<Rightarrow> ResponseWriter \<Rightarrow> Request \<Rightarrow> body \<Rightarrow> putPrior option \<Rightarrow> string option \<Rightarrow> ChunkVerifier option
   \<Rightarrow> ('a, 'w) svc \<Rightarrow> ('a, 'w) svc \<times> ResponseWriter \<times> err option" where
  "handleOriginlessPut s ctx rw r body prior expectedSHA256 verify st =
     (let (bucket, key) = ParseBucketKey r in
      if \<not> originlessPlainObject r \<or> \<not> IsEnabled (s_cache s) then HandleOriginlessUnsupported s rw r st
      else case put_snapshot s bucket key prior st of
             (st, Inl e) \<Rightarrow> (st, rw, Some e)
           | (st, Inr prior) \<Rightarrow>
               (case put_precondition s r bucket key prior st of
                  (st, Inl e) \<Rightarrow> (st, rw, Some e)
                | (st, Inr (Some code)) \<Rightarrow> (st, WriteError (mint_id s (world st)) rw r code, None)
                | (st, Inr None) \<Rightarrow> put_admitted s ctx rw r body bucket key prior expectedSHA256 verify st))"

section \<open>What a stored object holds\<close>

text \<open>A store with nobody else writing, whose range reads change nothing and whose deletes touch one row.\<close>

locale ocache_objects = ocache_bytes cl cv live
  for cl :: "'w CacheClient" and cv live +
  assumes range_pure: "cl_GetRangeStream cl k a b w = (w', out, e) \<Longrightarrow> w' = w"
    and remove_one: "cl_Delete cl k w = (w', e) \<Longrightarrow> j \<noteq> k \<Longrightarrow> live w' j = live w j"
begin

lemma probe_pure:
  assumes "client c = cl" and "probe c k w = (w', r)"
  shows "w' = w"
proof -
  obtain w1 buf e where g: "cl_GetRangeStream cl k 0 1 w = (w1, buf, e)" by (metis prod_cases3)
  from range_pure [OF g] assms g show ?thesis
    by (auto simp: probe_def getRangeStreamByKey_def accept_all_def split: option.splits if_splits)
qed

lemma servable_pure:
  assumes "client (s_cache s) = cl" and "entryServable s bucket key meta st = (st', r)"
  shows "st' = st"
proof -
  obtain w r where b: "BodyExistsErr (s_cache s) bucket key (BodyDiscriminator meta) (world st) = (w, r)" by fastforce
  then have "w = world st" using probe_pure [OF assms(1)] by (auto simp: BodyExistsErr_def split: if_splits)
  with assms(2) b show ?thesis by (auto simp: entryServable_def on_world_def split: if_splits)
qed

lemma precondition_pure:
  assumes "client (s_cache s) = cl" and "put_precondition s r bucket key prior st = (st', x)"
  shows "st' = st"
proof -
  define ex where "ex = (case (if prior_found prior then prior_meta prior else None) of
      None \<Rightarrow> (st, Inr False) | Some m \<Rightarrow> if BodyUpstream m then (st, Inr True) else entryServable s bucket key m st)"
  have "fst (entryServable s bucket key m st) = st" for m using servable_pure [OF assms(1)] by (metis prod.collapse)
  then have "fst ex = st" unfolding ex_def by (auto split: option.splits if_splits)
  then show ?thesis
    using assms(2) unfolding put_precondition_def Let_def ex_def [symmetric] by (cases ex; cases "snd ex") (auto split: if_splits)
qed

lemma read_meta:
  assumes "client c = cl" and "coord c = CasCoordinator" and "IsEnabled c" and "GetMetaWithVersion c b k w = (w', r)"
  shows "w' = w \<and> (\<forall>m t f. r = Inr (m, t, f) \<longrightarrow> t = cv w (MakeMetaKey b k))"
proof -
  obtain w1 d v f e where g: "cl_GetWithVersion cl (MakeMetaKey b k) w = (w1, d, v, f, e)" by (metis prod_cases5)
  from seq_get [OF g] assms g show ?thesis
    by (auto simp: GetMetaWithVersion_def coord_getMetaWithVersion_def cas_getMetaWithVersion_def split: option.splits sum.splits if_splits)
qed

lemma staged_row:
  assumes "client c = cl" and "IsEnabled c" and "captureReader c b k d src ttl w = (w', n, putErr, readErr)"
  shows "cv w' j = cv w j" and "j \<noteq> MakeBodyKey b k d \<Longrightarrow> live w' j = live w j"
    and "putErr = None \<Longrightarrow> n = length (fst src) \<and> snd src \<in> {None, Some UnexpectedEOF} \<and> live w' (MakeBodyKey b k d) = Some (fst src)"
proof -
  obtain w1 m e where p: "cl_PutStream cl (MakeBodyKey b k d) src (if ttl \<le> 0 then defaultTTL c else ttl) w = (w1, m, e)" by (metis prod_cases3)
  have "w' = w1" "putErr = e" "n = min (nat m) (length (fst src))"
    using assms(2,3) p unfolding captureReader_def putBody_stream [OF assms(1)] by (simp_all add: Let_def)
  then show "cv w' j = cv w j" "j \<noteq> MakeBodyKey b k d \<Longrightarrow> live w' j = live w j"
    "putErr = None \<Longrightarrow> n = length (fst src) \<and> snd src \<in> {None, Some UnexpectedEOF} \<and> live w' (MakeBodyKey b k d) = Some (fst src)"
    using seq_stream [OF p] by auto
qed

lemma discard_row:
  assumes "client (s_cache s) = cl"
  shows "live (world (fst (on_world (DeleteBody (s_cache s) b k d) st))) (MakeMetaKey b k) = live (world st) (MakeMetaKey b k)"
proof -
  obtain w e where d: "cl_Delete cl (MakeBodyKey b k d) (world st) = (w, e)" by fastforce
  from remove_one [OF d keyspaces_disjoint(1)] d assms show ?thesis by (simp add: on_world_def DeleteBody_def)
qed

lemma commit_row:
  assumes c: "client (s_cache s) = cl" "coord (s_cache s) = CasCoordinator" "IsEnabled (s_cache s)"
    and fresh: "t = cv (world st) (MakeMetaKey b k)" "t < - 2" and etag: "ETag meta \<noteq> []"
    and put: "put_commit s ctx b k meta t cond st = (st', res)"
  shows "if res = Stored
         then \<exists>data. snd (Encode (json_marshal (s_cache s)) meta) = Inr data \<and> live (world st') = (live (world st))(MakeMetaKey b k \<mapsto> data)
         else world st' = world st \<and> (\<exists>e. res = Ambiguous e)"
proof (cases "snd (Encode (json_marshal (s_cache s)) meta)")
  case (Inl e)
  with c etag put show ?thesis by (auto simp: put_commit_def store_meta_def on_world_def PutMetaIfVersion_def)
next
  case (Inr data)
  obtain w e where p: "cl_PutIfVersion cl (MakeMetaKey b k) data (ttl_or_default (s_cache s) (TTL_Seconds (s_config s))) t (world st) = (w, e)"
    by fastforce
  have t: "t \<noteq> 0" "t \<noteq> VersionAny" using seq_version [of "world st" "MakeMetaKey b k"] fresh minus_two_less by auto
  have cv: "cv (world st) (MakeMetaKey b k) < - 2" using fresh by simp
  from seq_put [OF t(1) cv p] fresh(1) have e: "e = None" "live w = (live (world st))(MakeMetaKey b k \<mapsto> data)" by simp_all
  with put Inr c etag p t show ?thesis
    by (auto simp: put_commit_def store_meta_def on_world_def PutMetaIfVersion_def putMetaVersioned_def cas_putMeta_def)
qed

end

text \<open>No error code has the status of a success.\<close>

lemma WriteError_sent: "rw_sent rw = None \<Longrightarrow> \<exists>c h. rw_sent (WriteError rid rw r code) = Some (c, h) \<and> 400 \<le> c"
  by (cases "map_of errorMap code")
    (auto simp: WriteError_def WriteErrorWithMessage_def WriteHeader_def rw_Write_def Let_def dest: errorMap_status)

lemma WriteError_fails: "rw_sent rw = None \<Longrightarrow> \<not> wroteSuccess (WriteError rid rw r code)"
  using WriteError_sent [of rw rid r code] by (auto simp: wroteSuccess_def)

lemma NewBodyRef_nonempty: "(\<And>b. rnd = Inr b \<Longrightarrow> b \<noteq> []) \<Longrightarrow> NewBodyRef rnd t \<noteq> []"
  by (cases rnd) (auto simp: NewBodyRef_def hex_EncodeToString_def Let_def neq_Nil_conv)

text \<open>A world in which the object is visible with these bytes and this metadata.\<close>

definition holds_object :: "('a, 'w) Service \<Rightarrow> string \<Rightarrow> string \<Rightarrow> string \<Rightarrow> CachedObjectMeta \<Rightarrow> 'w \<Rightarrow> bool" where
  "holds_object s b k obj meta w \<longleftrightarrow>
     GetMeta (s_cache s) b k w = (w, Inr (Some meta)) \<and> GetBodyStream (s_cache s) b k (BodyDiscriminator meta) w = (w, obj, None)"

definition quoted_md5 :: "string \<Rightarrow> string" where
  "quoted_md5 obj = [CHR 0x22] @ EncodeToString (md5_sum obj) @ [CHR 0x22]"

context ocache_objects
begin

lemma stored_object:
  assumes c: "client (s_cache s) = cl" "IsEnabled (s_cache s)"
    and codec: "\<forall>m data. json_marshal (s_cache s) m = Inr data \<longrightarrow> json_unmarshal (s_cache s) data = Inr m"
    and enc: "snd (Encode (json_marshal (s_cache s)) meta) = Inr data" and len: "0 \<le> ContentLength meta"
    and rows: "live w (MakeMetaKey b k) = Some data" "live w (MakeBodyKey b k (BodyDiscriminator meta)) = Some obj"
  shows "holds_object s b k obj (meta\<lparr>ContentLengthKnown := True\<rparr>) w"
proof -
  have d: "DecodeMeta (json_unmarshal (s_cache s)) data = Inr (meta\<lparr>ContentLengthKnown := True\<rparr>)"
    using codec [rule_format, of "meta\<lparr>ContentLengthKnown := True\<rparr>" data] enc len by (simp add: DecodeMeta_def Encode_def Let_def)
  obtain w1 x e where g: "cl_Get cl (MakeMetaKey b k) w = (w1, x, e)" by (metis prod_cases3)
  obtain w2 out e2 where gs: "cl_GetStream cl (MakeBodyKey b k (BodyDiscriminator meta)) w = (w2, out, e2)" by (metis prod_cases3)
  show ?thesis
    using seq_plain_get [OF g] seq_get_stream [OF gs rows(2)] g gs rows(1) d c
    by (auto simp: holds_object_def GetMeta_def GetBodyStream_def BodyDiscriminator_def split: option.splits)
qed

end

context ocache_objects
begin

lemma put_body_row:
  assumes c: "client (s_cache s) = cl" "coord (s_cache s) = CasCoordinator" "IsEnabled (s_cache s)"
    and codec: "\<forall>m data. json_marshal (s_cache s) m = Inr data \<longrightarrow> json_unmarshal (s_cache s) data = Inr m"
    and rand: "\<forall>w. live (fst (s_rand s w)) = live w \<and> cv (fst (s_rand s w)) = cv w \<and> snd (s_rand s w) \<noteq> Inr []"
    and fresh: "prior_version prior = cv (world st) (MakeMetaKey b k)" "prior_version prior < - 2"
    and n: "0 \<le> n" and sent: "rw_sent rw = None"
    and put: "put_body s ctx rw r body b k prior n want sha verify st = (st', rw', e)"
  shows "if wroteSuccess rw'
         then \<exists>meta obj. fst (decoded_body r verify n body) = obj \<and> snd (decoded_body r verify n body) \<in> {None, Some UnexpectedEOF} \<and> int (length obj) = n \<and> e = None
                \<and> ETag meta = quoted_md5 obj \<and> ContentLength meta = n
                \<and> (want \<noteq> None \<longrightarrow> want = Some (md5_sum obj)) \<and> (sha \<noteq> None \<longrightarrow> sha = Some (sha256 obj))
                \<and> holds_object s b k obj meta (world st')
         else live (world st') (MakeMetaKey b k) = live (world st) (MakeMetaKey b k)"
proof -
  obtain st1 ref where ref: "new_ref s st = (st1, ref)" by fastforce
  obtain w0 rnd where rd: "s_rand s (world st) = (w0, rnd)" by fastforce
  have st1: "live (world st1) = live (world st)" "cv (world st1) = cv (world st)" "ref \<noteq> []"
    using ref rd rand [rule_format, of "world st"] by (auto simp: new_ref_def on_world_def intro!: NewBodyRef_nonempty)
  define src where "src = io_LimitReader (nat (n + 1)) (decoded_body r verify n body)"
  obtain w2 m pe re where cr: "captureReader (s_cache s) b k ref src (TTL_Seconds (s_config s)) (world st1) = (w2, m, pe, re)"
    by (metis prod_cases4)
  let ?st2 = "st1\<lparr>world := w2\<rparr>"
  note row = staged_row [OF c(1,3) cr]
  have same: "live w2 (MakeMetaKey b k) = live (world st) (MakeMetaKey b k)" using row(2) [of "MakeMetaKey b k"] keyspaces_disjoint(1) st1 by simp
  have undone: "live (world (fst (on_world (DeleteBody (s_cache s) b k ref) ?st2))) (MakeMetaKey b k) = live (world st) (MakeMetaKey b k)"
    by (rule trans [OF discard_row [OF c(1)]]) (simp add: same)
  note failed = WriteError_fails [OF sent]
  show ?thesis
  proof (cases "staged_put (fst src) n want sha m pe re")
    case (PutRejected code)
    then have "rw' = WriteError (mint_id s w2) rw r code" "st' = fst (on_world (DeleteBody (s_cache s) b k ref) ?st2)"
      using put ref cr by (auto simp: put_body_def Let_def src_def [symmetric] on_world_def)
    with failed undone show ?thesis by simp
  next
    case (PutFailed x)
    then have "rw' = rw" "st' = fst (on_world (DeleteBody (s_cache s) b k ref) ?st2)"
      using put ref cr by (auto simp: put_body_def Let_def src_def [symmetric] on_world_def)
    with sent undone show ?thesis by (simp add: wroteSuccess_def)
  next
    case (PutStaged etag)
    define meta where "meta = put_meta (s_now s w2) b k r etag ref n"
    from PutStaged have ok: "pe = None" "int m = n" "etag = quoted_md5 (take m (fst src))"
      "want \<noteq> None \<longrightarrow> want = Some (md5_sum (take m (fst src)))" "sha \<noteq> None \<longrightarrow> sha = Some (sha256 (take m (fst src)))"
      by (auto simp: staged_put_def quoted_md5_def Let_def split: option.splits if_splits)
    note full = row(3) [OF ok(1)]
    have dec: "fst (decoded_body r verify n body) = fst src" "snd (decoded_body r verify n body) \<in> {None, Some UnexpectedEOF}"
      using full ok(2) n by (auto simp: src_def io_LimitReader_def split: if_splits)
    have m: "ETag meta = etag" "BodyDiscriminator meta = ref" "ContentLength meta = n" "etag \<noteq> []"
      using st1(3) ok(3) by (auto simp: meta_def put_meta_def BodyDiscriminator_def Let_def quoted_md5_def)
    have tok: "prior_version prior = cv (world ?st2) (MakeMetaKey b k)" using fresh(1) row(1) st1(2) by simp
    obtain st3 res where cm: "put_commit s ctx b k meta (prior_version prior) (conditional_put r) ?st2 = (st3, res)" by fastforce
    have "ETag meta \<noteq> []" using m by simp
    note com = commit_row [OF c tok fresh(2) this cm]
    have out: "(st', rw', e) = (case res of Stored \<Rightarrow> (st3, WriteHeader 200 (set_header ''ETag'' etag rw), None)
        | Refused \<Rightarrow> (st', rw', e) | Ambiguous x \<Rightarrow> (st3, rw, Some x) | GaveUp x \<Rightarrow> (st', rw', e))"
      using put ref cr PutStaged cm by (auto simp: put_body_def Let_def src_def [symmetric] on_world_def meta_def split: commit_result.splits)
    show ?thesis
    proof (cases "res = Stored")
      case True
      with com obtain data where data: "snd (Encode (json_marshal (s_cache s)) meta) = Inr data" "live (world st3) = (live w2)(MakeMetaKey b k \<mapsto> data)"
        by auto
      have "holds_object s b k (fst src) (meta\<lparr>ContentLengthKnown := True\<rparr>) (world st3)"
        by (rule stored_object [OF c(1,3) codec data(1)]) (use data m n full keyspaces_disjoint(1) in \<open>auto simp: not_sym\<close>)
      then show ?thesis using True out dec ok full m sent
        by (auto intro!: exI [of _ "meta\<lparr>ContentLengthKnown := True\<rparr>"] simp: WriteHeader_def set_header_def wroteSuccess_def)
    next
      case False
      with com out sent same show ?thesis by (auto simp: wroteSuccess_def)
    qed
  qed
qed

end

interpretation mem_objects: ocache_objects mem_client mem_cv rows
  by unfold_locales (auto simp: mem_client_def split: option.splits)

context ocache_objects
begin

lemma snapshot_row:
  assumes "client (s_cache s) = cl" and "coord (s_cache s) = CasCoordinator" and "IsEnabled (s_cache s)"
    and "\<forall>p. prior = Some p \<longrightarrow> prior_version p = cv (world st) (MakeMetaKey b k)"
    and "put_snapshot s b k prior st = (st', pr)"
  shows "st' = st \<and> (\<forall>p. pr = Inr p \<longrightarrow> prior_version p = cv (world st) (MakeMetaKey b k))"
proof -
  obtain w x where g: "GetMetaWithVersion (s_cache s) b k (world st) = (w, x)" by fastforce
  from read_meta [OF assms(1-3) g] assms(4,5) g show ?thesis
    by (auto simp: put_snapshot_def on_world_def split: sum.splits option.splits)
qed

lemma put_admitted_row:
  assumes c: "client (s_cache s) = cl" "coord (s_cache s) = CasCoordinator" "IsEnabled (s_cache s)"
    and codec: "\<forall>m data. json_marshal (s_cache s) m = Inr data \<longrightarrow> json_unmarshal (s_cache s) data = Inr m"
    and rand: "\<forall>w. live (fst (s_rand s w)) = live w \<and> cv (fst (s_rand s w)) = cv w \<and> snd (s_rand s w) \<noteq> Inr []"
    and fresh: "prior_version prior = cv (world st) (MakeMetaKey b k)" "prior_version prior < - 2" and sent: "rw_sent rw = None"
    and put: "put_admitted s ctx rw r body b k prior sha verify st = (st', rw', e)"
  shows "if wroteSuccess rw'
         then \<exists>n want meta obj. originlessPutSize r = Some n \<and> content_md5 r = Some want
                \<and> fst (decoded_body r verify n body) = obj \<and> snd (decoded_body r verify n body) \<in> {None, Some UnexpectedEOF} \<and> int (length obj) = n \<and> e = None
                \<and> ETag meta = quoted_md5 obj \<and> ContentLength meta = n
                \<and> (want \<noteq> None \<longrightarrow> want = Some (md5_sum obj)) \<and> (sha \<noteq> None \<longrightarrow> sha = Some (sha256 obj))
                \<and> holds_object s b k obj meta (world st')
         else live (world st') (MakeMetaKey b k) = live (world st) (MakeMetaKey b k)"
proof -
  let ?w = "originlessPutStreamWeight + (if IsStreamingPayload (header_get (Header r) ''X-Amz-Content-Sha256'') then awsChunkedReaderBufSize else 0)"
  note failed = WriteError_fails [OF sent]
  obtain st1 ok where acq: "on_limits (acquireEnginePutSlot ?w) st = (st1, ok)" by fastforce
  have w1: "world st1 = world st" using acq by (metis fst_conv on_limits_world)
  show ?thesis
  proof (cases "\<exists>n want. originlessPutSize r = Some n \<and> \<not> SizeThreshold (s_config s) < n \<and> ok \<and> content_md5 r = Some want")
    case True
    then obtain n want where t: "originlessPutSize r = Some n" "\<not> SizeThreshold (s_config s) < n" ok "content_md5 r = Some want" by blast
    obtain st2 rw2 e2 where pb: "put_body s ctx rw r body b k prior n want sha verify st1 = (st2, rw2, e2)" by (metis prod_cases3)
    have n: "0 \<le> n" using t(1) by (auto simp: originlessPutSize_def Let_def split: if_splits prod.splits)
    have r: "world st' = world st2" "rw' = rw2" "e = e2" using put t acq pb by (auto simp: put_admitted_def Let_def)
    have f: "prior_version prior = cv (world st1) (MakeMetaKey b k)" using fresh(1) w1 by simp
    from put_body_row [OF c codec rand f fresh(2) n sent pb] t r w1 show ?thesis by (auto split: if_splits)
  next
    case False
    then have "world st' = world st" "\<exists>rid code. rw' = WriteError rid rw r code"
      using put acq w1 by (auto simp: put_admitted_def Let_def split: option.splits if_splits bool.splits)
    with failed show ?thesis by auto
  qed
qed

text \<open>The whole handler, from its own snapshot or its caller's.\<close>

lemma handle_put_row:
  assumes c: "client (s_cache s) = cl" "coord (s_cache s) = CasCoordinator" "IsEnabled (s_cache s)"
    and codec: "\<forall>m data. json_marshal (s_cache s) m = Inr data \<longrightarrow> json_unmarshal (s_cache s) data = Inr m"
    and rand: "\<forall>w. live (fst (s_rand s w)) = live w \<and> cv (fst (s_rand s w)) = cv w \<and> snd (s_rand s w) \<noteq> Inr []"
    and key: "ParseBucketKey r = (b, k)" "cv (world st) (MakeMetaKey b k) < - 2" and sent: "rw_sent rw = None"
    and prior: "\<forall>p. prior = Some p \<longrightarrow> prior_version p = cv (world st) (MakeMetaKey b k)"
    and put: "handleOriginlessPut s ctx rw r body prior sha verify st = (st', rw', e)"
  shows "if wroteSuccess rw'
         then \<exists>n want meta obj. originlessPutSize r = Some n \<and> content_md5 r = Some want
                \<and> fst (decoded_body r verify n body) = obj \<and> snd (decoded_body r verify n body) \<in> {None, Some UnexpectedEOF} \<and> int (length obj) = n \<and> e = None
                \<and> ETag meta = quoted_md5 obj \<and> ContentLength meta = n
                \<and> (want \<noteq> None \<longrightarrow> want = Some (md5_sum obj)) \<and> (sha \<noteq> None \<longrightarrow> sha = Some (sha256 obj))
                \<and> holds_object s b k obj meta (world st')
         else live (world st') (MakeMetaKey b k) = live (world st) (MakeMetaKey b k)"
proof -
  note failed = WriteError_fails [OF sent]
  obtain st1 pr where sn: "put_snapshot s b k prior st = (st1, pr)" by fastforce
  note snap = snapshot_row [OF c prior sn]
  show ?thesis
  proof (cases "originlessPlainObject r \<and> (\<exists>p. pr = Inr p)")
    case False
    then have "st' = st" "rw' = rw \<or> (\<exists>rid code. rw' = WriteError rid rw r code)"
      using put key(1) sn snap c(3) by (auto simp: handleOriginlessPut_def HandleOriginlessUnsupported_def split: if_splits sum.splits)
    with failed sent show ?thesis by (auto simp: wroteSuccess_def)
  next
    case True
    then obtain p where p: "originlessPlainObject r" "pr = Inr p" by blast
    obtain st2 x where pc: "put_precondition s r b k p st = (st2, x)" by fastforce
    have st2: "st2 = st" by (rule precondition_pure [OF c(1) pc])
    have tok: "prior_version p = cv (world st) (MakeMetaKey b k)" "prior_version p < - 2" using snap p key(2) by auto
    show ?thesis
    proof (cases "x = Inr None")
      case True
      then have "put_admitted s ctx rw r body b k p sha verify st = (st', rw', e)"
        using put key(1) sn snap p pc st2 c(3) by (auto simp: handleOriginlessPut_def)
      from put_admitted_row [OF c codec rand tok sent this] show ?thesis .
    next
      case False
      then have "st' = st" "rw' = rw \<or> (\<exists>rid code. rw' = WriteError rid rw r code)"
        using put key(1) sn snap p pc st2 c(3) by (auto simp: handleOriginlessPut_def split: sum.splits option.splits)
      with failed sent show ?thesis by (auto simp: wroteSuccess_def)
    qed
  qed
qed

end

section \<open>Properties\<close>


text \<open>A small upload over the versioned store, with the rows of just its own metadata.\<close>

definition upload_request :: Request where
  "upload_request =
     \<lparr>Method = ''PUT'', URL = \<lparr>url_Opaque = [], url_Host = [], url_Path = ''/bkt/k'', url_RawPath = [], url_RawQuery = [], url_ForceQuery = False\<rparr>,
      Host = [], Header = [], ReqContentLength = 5\<rparr>"

definition upload_ref :: string where
  "upload_ref = NewBodyRef (Inr (replicate 16 (CHR ''r''))) 0"

definition upload_meta :: CachedObjectMeta where
  "upload_meta = (put_meta 0 ''bkt'' ''k'' upload_request (quoted_md5 ''hello'') upload_ref 5)\<lparr>ContentLengthKnown := True\<rparr>"

definition upload_service :: "(unit, mem) Service" where
  "upload_service =
     digits_service\<lparr>s_config := digits_config\<lparr>SizeThreshold := 1024\<rparr>, s_cache := (mem_cache CasCoordinator)
       \<lparr>json_marshal := (\<lambda>m. if m = upload_meta then Inr ''row'' else Inl (EText ''unsupported value'')),
        json_unmarshal := (\<lambda>d. if d = ''row'' then Inr upload_meta else Inl (EText ''invalid character''))\<rparr>\<rparr>"

definition upload_state :: "(unit, mem) svc" where
  "upload_state = digits_state\<lparr>world := \<lparr>rows = Map.empty, vers = (\<lambda>_. 1), mem_now = 0\<rparr>\<rparr>"

lemma upload_headers [simp]: "Header upload_request = []" "ReqContentLength upload_request = 5"
  by (simp_all add: upload_request_def)

lemma upload_path: "ParseBucketKey upload_request = (''bkt'', ''k'')"
  by code_simp

lemma upload_cache:
  "client (s_cache upload_service) = mem_client" "coord (s_cache upload_service) = CasCoordinator" "IsEnabled (s_cache upload_service)"
  by (simp_all add: upload_service_def mem_cache_def IsEnabled_def)

lemma upload_plain: "header_get [] x = []" "\<not> IsStreamingPayload []" "\<not> conditional_put upload_request"
  by (simp_all add: header_get_def header_values_def IsStreamingPayload_def streamingPayloadHashes_def StreamingPayloadHash_def conditional_put_def)

lemma upload_encoded:
  "snd (Encode (json_marshal (s_cache upload_service)) (put_meta 0 ''bkt'' ''k'' upload_request (quoted_md5 ''hello'') upload_ref 5)) = Inr ''row''"
  by (simp add: upload_service_def Encode_def upload_meta_def put_meta_def Let_def)

lemma upload_sent:
  "\<exists>h. rw_sent (fst (snd (handleOriginlessPut upload_service (\<lambda>_. None) blank_writer upload_request (''hello'', None) None None None upload_state)))
     = Some (200, h)"
proof -
  have g: "GetMetaWithVersion (s_cache upload_service) ''bkt'' ''k'' (world upload_state) = (world upload_state, Inr (None, 1, False))"
    by (simp add: GetMetaWithVersion_def coord_getMetaWithVersion_def upload_cache cas_getMetaWithVersion_def mem_client_def upload_state_def
        mem_cv_def)
  let ?st = "upload_state" and ?meta = "put_meta 0 ''bkt'' ''k'' upload_request (quoted_md5 ''hello'') upload_ref 5"
  have size: "originlessPutSize upload_request = Some 5" "content_md5 upload_request = Some None" "originlessPlainObject upload_request"
    by (simp_all add: originlessPutSize_def upload_plain content_md5_def header_values_def originlessPlainObject_def header_get_def upload_request_def)
  have adm: "on_limits (acquireEnginePutSlot w) ?st = (?st, True)" for w
    by (simp add: on_limits_def acquireEnginePutSlot_def acquireCacheBytes_readMiss_def upload_state_def digits_state_def)
  have ref: "new_ref upload_service ?st = (?st, upload_ref)"
    by (simp add: new_ref_def on_world_def upload_service_def digits_defs upload_state_def upload_ref_def)
  let ?w = "(world ?st)\<lparr>rows := [MakeBodyKey ''bkt'' ''k'' upload_ref \<mapsto> ''hello'']\<rparr>"
  have src: "io_LimitReader 6 (decoded_body upload_request None 5 (''hello'', None)) = (''hello'', None)"
    by (simp add: io_LimitReader_def decoded_body_def upload_plain)
  have cap: "captureReader (s_cache upload_service) ''bkt'' ''k'' upload_ref (''hello'', None) t (world ?st) = (?w, 5, None, None)" for t
    by (simp add: captureReader_def upload_cache putBody_def mem_client_def mem_put_def upload_state_def)
  have now: "s_now upload_service ?w = 0" by (simp add: upload_service_def digits_defs upload_state_def)
  have stg: "staged_put ''hello'' 5 None None 5 None None = PutStaged (quoted_md5 ''hello'')"
    by (simp add: staged_put_def quoted_md5_def Let_def)
  obtain st3 where com: "put_commit upload_service (\<lambda>_. None) ''bkt'' ''k'' ?meta 1 False (?st\<lparr>world := ?w\<rparr>) = (st3, Stored)"
  proof -
    have one: "(1::version) < - 2" by (simp add: word_less_nat_alt)
    have "ETag ?meta \<noteq> []" by (simp add: put_meta_def quoted_md5_def Let_def)
    moreover have "mem_cv ?w k = 1" for k by (simp add: mem_cv_def upload_state_def)
    ultimately show ?thesis
      using that upload_encoded one by (auto simp: put_commit_def store_meta_def on_world_def PutMetaIfVersion_def upload_cache putMetaVersioned_def
          cas_putMeta_def mem_client_def mem_put_if_def mem_bump_def)
  qed
  have thr: "SizeThreshold (s_config upload_service) = 1024" by (simp add: upload_service_def)
  have sent: "\<exists>h. rw_sent (WriteHeader 200 (set_header a b blank_writer)) = Some (200, h)" for a b
    by (simp add: WriteHeader_def set_header_def blank_writer_def)
  show ?thesis
    by (simp add: thr sent handleOriginlessPut_def upload_path size upload_cache put_snapshot_def on_world_def g put_precondition_def upload_plain
        put_admitted_def adm put_body_def ref src cap stg now com)
qed


end
