(* ===== verification/Tiered_Store.thy ===== *)
theory Tiered_Store
  imports Local_Store
begin

text \<open>
  Tiered mode (\<^verbatim>\<open>proxy/tiered.go\<close>): small objects live in the local store, large ones upstream with a marker in the
  local metadata, which alone decides what exists. A write that changes tier cleans up the version it displaced; a
  read that meets a misplaced small object moves it in the background, unless a write holds the key.
\<close>

section \<open>Claims of writers and running re-tiers\<close>

text \<open>A registered re-tier is present with whether it has been cancelled.\<close>

definition claimRetierWrite :: "string \<Rightarrow> string \<Rightarrow> ('a, 'w) svc \<Rightarrow> ('a, 'w) svc" where
  "claimRetierWrite bucket key st =
     (let k = bucket @ ''|'' @ key in
      st\<lparr>retierClaims := (retierClaims st)(k := retierClaims st k + 1),
         retierInflight := (retierInflight st)(k := map_option (\<lambda>_. True) (retierInflight st k))\<rparr>)"

definition releaseRetierWrite :: "string \<Rightarrow> string \<Rightarrow> ('a, 'w) svc \<Rightarrow> ('a, 'w) svc" where
  "releaseRetierWrite bucket key st =
     (let k = bucket @ ''|'' @ key; n = retierClaims st k - 1 in
      st\<lparr>retierClaims := (retierClaims st)(k := (if n \<le> 0 then 0 else n))\<rparr>)"

definition tryRegisterRetier :: "string \<Rightarrow> string \<Rightarrow> ('a, 'w) svc \<Rightarrow> ('a, 'w) svc \<times> bool" where
  "tryRegisterRetier bucket key st =
     (let k = bucket @ ''|'' @ key in
      if 0 < retierClaims st k \<or> retierInflight st k \<noteq> None then (st, False)
      else (st\<lparr>retierInflight := (retierInflight st)(k := Some False)\<rparr>, True))"

definition unregisterRetier :: "string \<Rightarrow> string \<Rightarrow> ('a, 'w) svc \<Rightarrow> ('a, 'w) svc" where
  "unregisterRetier bucket key st = st\<lparr>retierInflight := (retierInflight st)(bucket @ ''|'' @ key := None)\<rparr>"

definition retierRunning :: "string \<Rightarrow> string \<Rightarrow> ('a, 'w) svc \<Rightarrow> bool" where
  "retierRunning bucket key st \<longleftrightarrow> retierInflight st (bucket @ ''|'' @ key) \<noteq> None"

section \<open>Markers of the upstream tier\<close>

text \<open>The version displaced, its token, and whether the lookup succeeded.\<close>

definition captureMarkerPrior ::
  "('a, 'w) Service \<Rightarrow> string \<Rightarrow> string \<Rightarrow> ('a, 'w) svc \<Rightarrow> ('a, 'w) svc \<times> CachedObjectMeta option \<times> version \<times> bool" where
  "captureMarkerPrior s bucket key st =
     (if \<not> IsEnabled (s_cache s) then (st, None, 0, False)
      else case on_world (GetMetaWithVersion (s_cache s) bucket key) st of
             (st, Inl _) \<Rightarrow> (st, None, 0, False)
           | (st, Inr (m, version, found)) \<Rightarrow> (st, if found then m else None, version, True))"

definition invalidateDisplacedTieredMeta ::
  "('a, 'w) Service \<Rightarrow> string \<Rightarrow> string \<Rightarrow> CachedObjectMeta option \<Rightarrow> version \<Rightarrow> bool \<Rightarrow> ('a, 'w) svc \<Rightarrow> ('a, 'w) svc" where
  "invalidateDisplacedTieredMeta s bucket key prior priorVersion priorKnown st =
     (if \<not> priorKnown \<or> prior = None then st
      else fst (on_world (DeleteMetaIfVersion (s_cache s) bucket key priorVersion) st))"

definition commitUpstreamMarker ::
  "('a, 'w) Service \<Rightarrow> string \<Rightarrow> string \<Rightarrow> CachedObjectMeta \<Rightarrow> CachedObjectMeta option \<Rightarrow> version \<Rightarrow> bool \<Rightarrow> ('a, 'w) svc \<Rightarrow> ('a, 'w) svc" where
  "commitUpstreamMarker s bucket key meta prior priorVersion priorKnown st =
     (if \<not> priorKnown then invalidateDisplacedTieredMeta s bucket key prior priorVersion priorKnown st
      else case on_world (PutMetaIfVersion (s_cache s) bucket key meta (TTL_Seconds (s_config s)) priorVersion) st of
             (st, Inr True) \<Rightarrow> st
           | (st, _) \<Rightarrow> invalidateDisplacedTieredMeta s bucket key prior priorVersion priorKnown st)"

text \<open>The marker of a forwarded upload: the request's headers under the tag of the answer, and the decoded length.\<close>

definition upstream_marker :: "int \<Rightarrow> string \<Rightarrow> string \<Rightarrow> Request \<Rightarrow> string \<Rightarrow> CachedObjectMeta" where
  "upstream_marker now bucket key r etag =
     (let ce = Join '','' (header_values (Header r) ''Content-Encoding'') in
      (MetaFromHTTPHeaders now bucket key 200 (Header r))
        \<lparr>ETag := etag, BodyUpstream := True, LastModified := unix_sec now,
         ContentLength := (case originlessPutSize r of Some n \<Rightarrow> n | None \<Rightarrow> - 1),
         ContentEncoding := (if IsStreamingPayload (header_get (Header r) ''X-Amz-Content-Sha256'') then stripAWSChunkedToken ce else ce)\<rparr>)"

definition putUpstreamMarker ::
  "('a, 'w) Service \<Rightarrow> Request \<Rightarrow> string \<Rightarrow> string \<Rightarrow> string \<Rightarrow> CachedObjectMeta option \<Rightarrow> version \<Rightarrow> bool \<Rightarrow> ('a, 'w) svc \<Rightarrow> ('a, 'w) svc" where
  "putUpstreamMarker s r etag bucket key prior priorVersion priorKnown st =
     (if etag = [] then invalidateDisplacedTieredMeta s bucket key prior priorVersion priorKnown st
      else commitUpstreamMarker s bucket key (upstream_marker (s_now s (world st)) bucket key r etag) prior priorVersion priorKnown st)"

text \<open>After a completed multipart upload: a marker of unknown length at once, its metadata from the origin later.\<close>

definition completion_marker :: "int \<Rightarrow> string \<Rightarrow> string \<Rightarrow> string \<Rightarrow> CachedObjectMeta" where
  "completion_marker now bucket key etag =
     \<lparr>Key = key, Bucket = bucket, ETag = etag, ContentType = [], ContentLength = - 1, LastModified = unix_sec now, CacheControl = [],
      StorageClass = [], ACL = [], ContentEncoding = [], ContentDisposition = [], ContentLanguage = [], Expires = [],
      ServerSideEncryption = [], VersionID = [], PartsCount = [], UserMetadata = [], StatusCode = 200, BodyUpstream = True,
      BlockSize = 0, BlocksComplete = False, RangeBlockSpan = None, BodyRef = [], ContentLengthKnown = False, CachedAt = unix_sec now\<rparr>"

definition stampUpstreamMarkerAfterCompletion ::
  "('a, 'w) Service \<Rightarrow> string \<Rightarrow> string \<Rightarrow> string \<Rightarrow> string \<Rightarrow> string \<Rightarrow> CachedObjectMeta option \<Rightarrow> version \<Rightarrow> bool \<Rightarrow> ('a, 'w) svc \<Rightarrow> ('a, 'w) svc" where
  "stampUpstreamMarkerAfterCompletion s bucket key etag accessKey secretKey prior priorVersion priorKnown st =
     (if etag = [] then invalidateDisplacedTieredMeta s bucket key prior priorVersion priorKnown st
      else
        let st = commitUpstreamMarker s bucket key (completion_marker (s_now s (world st)) bucket key etag) prior priorVersion priorKnown st
        in if accessKey = [] \<or> secretKey = [] then st
           else fst (startBackgroundTask (MarkerUpgrade bucket key etag accessKey secretKey) st))"

text \<open>Only the marker of unknown length that still carries the tag is upgraded.\<close>

definition run_MarkerUpgrade :: "('a, 'w) Service \<Rightarrow> string \<Rightarrow> string \<Rightarrow> string \<Rightarrow> string \<Rightarrow> string \<Rightarrow> ('a, 'w) svc \<Rightarrow> ('a, 'w) svc" where
  "run_MarkerUpgrade s bucket key etag accessKey secretKey st =
     (case headObjectMeta s bucket key accessKey secretKey etag st of
        (st, None) \<Rightarrow> st
      | (st, Some full) \<Rightarrow>
          (case on_world (GetMetaWithVersion (s_cache s) bucket key) st of
             (st, Inr (Some cur, curVersion, True)) \<Rightarrow>
               if \<not> BodyUpstream cur \<or> ETag cur \<noteq> etag \<or> 0 \<le> ContentLength cur then st
               else
                 let full = full\<lparr>BodyUpstream := True, LastModified := (if LastModified full = 0 then LastModified cur else LastModified full)\<rparr>
                 in fst (on_world (PutMetaIfVersion (s_cache s) bucket key full (TTL_Seconds (s_config s)) curVersion) st)
           | (st, _) \<Rightarrow> st))"

section \<open>Moving a misplaced object\<close>

abbreviation retier_key :: "string \<Rightarrow> string \<Rightarrow> string \<Rightarrow> string" where
  "retier_key bucket key etag \<equiv> bucket @ ''|'' @ key @ ''|'' @ etag"

definition svc_diskOverBudget :: "('a, 'w) Service \<Rightarrow> ('a, 'w) svc \<Rightarrow> bool" where
  "svc_diskOverBudget s st = diskOverBudget (cfg_budget (s_config s)) (disk_usage s (world st))"

definition maybeRetierOnRead ::
  "('a, 'w) Service \<Rightarrow> string \<Rightarrow> string \<Rightarrow> string \<Rightarrow> string \<Rightarrow> CachedObjectMeta \<Rightarrow> version \<Rightarrow> ('a, 'w) svc \<Rightarrow> ('a, 'w) svc" where
  "maybeRetierOnRead s bucket key accessKey secretKey marker markerVersion st =
     (if ContentLength marker < 0 \<or> SizeThreshold (s_config s) < ContentLength marker then st
      else if accessKey = [] \<or> secretKey = [] \<or> \<not> IsEnabled (s_cache s) then st
      else if svc_diskOverBudget s st then st
      else case on_world (retier_Get s (retier_key bucket key (ETag marker))) st of
             (st, True) \<Rightarrow> st
           | (st, False) \<Rightarrow>
               if svc_stopping st then st
               else case tryRegisterRetier bucket key st of
                      (st, False) \<Rightarrow> st
                    | (st, True) \<Rightarrow>
                        (case acquireCacheSlot s originlessPutStreamWeight priorityReadMiss st of
                           (st, False) \<Rightarrow> unregisterRetier bucket key st
                         | (st, True) \<Rightarrow> fst (startBackgroundTask (Retier bucket key accessKey secretKey marker markerVersion) st)))"

text \<open>The worker's context ends when a writer cancelled it, or as \<open>ctx\<close> says.\<close>

definition retier_ctx :: "'w ctx \<Rightarrow> string \<Rightarrow> string \<Rightarrow> ('a, 'w) svc \<Rightarrow> err option" where
  "retier_ctx ctx bucket key st =
     (if retierInflight st (bucket @ ''|'' @ key) = Some True then Some CtxCanceled else ctx (world st))"

text \<open>Upstream no longer has the marker's version: the marker goes, or becomes that of what is there.\<close>

definition retier_converge ::
  "('a, 'w) Service \<Rightarrow> string \<Rightarrow> string \<Rightarrow> string \<Rightarrow> version \<Rightarrow> Response \<Rightarrow> ('a, 'w) svc \<Rightarrow> ('a, 'w) svc" where
  "retier_converge s bucket key etag markerVersion resp st =
     (if resp_Status resp \<noteq> 200 \<and> resp_Status resp \<noteq> 404 then st
      else
        let st = st\<lparr>world := retier_Add s (retier_key bucket key etag) (world st)\<rparr> in
        if resp_Status resp = 404 then fst (on_world (DeleteMetaIfVersion (s_cache s) bucket key markerVersion) st)
        else
          let fresh = (MetaFromHTTPHeaders (s_now s (world st)) bucket key 200 (resp_Header resp))\<lparr>BodyUpstream := True\<rparr>;
              fresh = (if ContentLength fresh < 0 \<and> snd (resp_Body resp) = None
                       then fresh\<lparr>ContentLength := int (length (fst (resp_Body resp)))\<rparr> else fresh)
          in fst (on_world (PutMetaIfVersion (s_cache s) bucket key fresh (TTL_Seconds (s_config s)) markerVersion) st))"

text \<open>The commit of a moved body, when the entry still is the marker and no writer has come.\<close>

definition retier_commit ::
  "('a, 'w) Service \<Rightarrow> 'w ctx \<Rightarrow> string \<Rightarrow> string \<Rightarrow> string \<Rightarrow> version \<Rightarrow> header \<Rightarrow> string \<Rightarrow> int \<Rightarrow> ('a, 'w) svc \<Rightarrow> ('a, 'w) svc" where
  "retier_commit s ctx bucket key etag markerVersion h ref n st =
     (let discard = (\<lambda>st. fst (on_world (DeleteBody (s_cache s) bucket key ref) st)) in
      case on_world (GetMetaWithVersion (s_cache s) bucket key) st of
        (st, Inr (Some cur, _, True)) \<Rightarrow>
          if ETag cur \<noteq> etag \<or> \<not> BodyUpstream cur then discard st
          else if retier_ctx ctx bucket key st \<noteq> None then discard st
          else
            let meta = (MetaFromHTTPHeaders (s_now s (world st)) bucket key 200 h)\<lparr>BodyRef := ref, ContentLength := n\<rparr> in
            (case on_world (PutMetaIfVersion (s_cache s) bucket key meta (TTL_Seconds (s_config s)) markerVersion) st of
               (st, Inl _) \<Rightarrow> st
             | (st, Inr wrote) \<Rightarrow> if wrote then st else discard st)
      | (st, _) \<Rightarrow> discard st)"

definition retier_store ::
  "('a, 'w) Service \<Rightarrow> 'w ctx \<Rightarrow> string \<Rightarrow> string \<Rightarrow> CachedObjectMeta \<Rightarrow> version \<Rightarrow> Response \<Rightarrow> ('a, 'w) svc \<Rightarrow> ('a, 'w) svc" where
  "retier_store s ctx bucket key marker markerVersion resp st =
     (let (st, ref) = new_ref s st;
          src = io_LimitReader (nat (ContentLength marker + 1)) (resp_Body resp);
          discard = (\<lambda>st. fst (on_world (DeleteBody (s_cache s) bucket key ref) st))
      in case on_world (captureReader (s_cache s) bucket key ref src (TTL_Seconds (s_config s))) st of
           (st, n, Some _, _) \<Rightarrow> discard st
         | (st, n, None, _) \<Rightarrow>
             if int n \<noteq> ContentLength marker
             then (let st = discard st in st\<lparr>world := retier_Add s (retier_key bucket key (ETag marker)) (world st)\<rparr>)
             else retier_commit s ctx bucket key (ETag marker) markerVersion (resp_Header resp) ref (int n) st)"

definition retier_work ::
  "('a, 'w) Service \<Rightarrow> 'w ctx \<Rightarrow> string \<Rightarrow> string \<Rightarrow> string \<Rightarrow> string \<Rightarrow> CachedObjectMeta \<Rightarrow> version \<Rightarrow> ('a, 'w) svc \<Rightarrow> ('a, 'w) svc" where
  "retier_work s ctx bucket key accessKey secretKey marker markerVersion st =
     (case on_world (GetMetaWithVersion (s_cache s) bucket key) st of
        (st, Inr (Some current, currentVersion, True)) \<Rightarrow>
          if currentVersion \<noteq> markerVersion \<or> \<not> BodyUpstream current \<or> ETag current \<noteq> ETag marker \<or> ContentLength current \<noteq> ContentLength marker
          then st
          else (case on_world (fw_DoFullObjectRequest (forwarder s) bucket key accessKey secretKey) st of
                  (st, Inl _) \<Rightarrow> st
                | (st, Inr resp) \<Rightarrow>
                    if resp_Status resp \<noteq> 200 \<or> header_get (resp_Header resp) ''ETag'' \<noteq> ETag marker
                    then retier_converge s bucket key (ETag marker) markerVersion resp st
                    else retier_store s ctx bucket key marker markerVersion resp st)
      | (st, _) \<Rightarrow> st)"

definition run_Retier ::
  "('a, 'w) Service \<Rightarrow> 'w ctx \<Rightarrow> string \<Rightarrow> string \<Rightarrow> string \<Rightarrow> string \<Rightarrow> CachedObjectMeta \<Rightarrow> version \<Rightarrow> ('a, 'w) svc \<Rightarrow> ('a, 'w) svc" where
  "run_Retier s ctx bucket key accessKey secretKey marker markerVersion st =
     unregisterRetier bucket key
       (release_slot originlessPutStreamWeight (retier_work s ctx bucket key accessKey secretKey marker markerVersion st))"

section \<open>Removing a displaced upstream copy\<close>

definition deleteUpstreamObjectAsync ::
  "('a, 'w) Service \<Rightarrow> string \<Rightarrow> string \<Rightarrow> string \<Rightarrow> string \<Rightarrow> string \<Rightarrow> ('a, 'w) svc \<Rightarrow> ('a, 'w) svc" where
  "deleteUpstreamObjectAsync s bucket key etag accessKey secretKey st =
     (if accessKey = [] \<or> secretKey = [] \<or> etag = [] \<or> \<not> ForwardsTransparently (s_config s) then st
      else fst (startBackgroundTask (CleanupDelete bucket key etag accessKey secretKey) st))"

definition is_marker_of :: "string \<Rightarrow> CachedObjectMeta option \<Rightarrow> bool" where
  "is_marker_of etag cur = (case cur of None \<Rightarrow> False | Some m \<Rightarrow> BodyUpstream m \<and> ETag m = etag)"

definition run_CleanupDelete ::
  "('a, 'w) Service \<Rightarrow> string \<Rightarrow> string \<Rightarrow> string \<Rightarrow> string \<Rightarrow> string \<Rightarrow> ('a, 'w) svc \<Rightarrow> ('a, 'w) svc" where
  "run_CleanupDelete s bucket key etag accessKey secretKey st =
     (case on_world (GetMeta (s_cache s) bucket key) st of
        (st, cur) \<Rightarrow>
          if (case cur of Inl _ \<Rightarrow> False | Inr m \<Rightarrow> is_marker_of etag m) then st
          else (case on_world (fw_DoObjectDeleteRequest (forwarder s) bucket key etag accessKey secretKey) st of
                  (st, Inl _) \<Rightarrow> st
                | (st, Inr resp) \<Rightarrow>
                    if 300 \<le> resp_Status resp then st
                    else (case on_world (GetMetaWithVersion (s_cache s) bucket key) st of
                            (st, Inr (cur, curVersion, True)) \<Rightarrow>
                              if is_marker_of etag cur then fst (on_world (DeleteMetaIfVersion (s_cache s) bucket key curVersion) st) else st
                          | (st, _) \<Rightarrow> st)))"

section \<open>Handlers\<close>

definition handleTieredObject ::
  "('a, 'w) Service \<Rightarrow> ResponseWriter \<Rightarrow> Request \<Rightarrow> body \<Rightarrow> ('a, 'w) svc \<Rightarrow> ('a, 'w) svc \<times> ResponseWriter \<times> err option" where
  "handleTieredObject s rw r body st =
     (let (bucket, key) = ParseBucketKey r in
      case on_fwd (fw_ValidateAndGetCredentials (forwarder s) r) st of
        (st, Inl e) \<Rightarrow> (st, rw, Some e)
      | (st, Inr (result, accessKey, secretKey)) \<Rightarrow>
          if result \<noteq> AuthValidated then on_fwd (fw_Forward (forwarder s) rw r body) st
          else case on_world (GetMetaWithVersion (s_cache s) bucket key) st of
                 (st, Inl e) \<Rightarrow> (st, rw, Some e)
               | (st, Inr (meta, metaVersion, found)) \<Rightarrow>
                   (case (if found then meta else None) of
                      Some m \<Rightarrow>
                        if BodyUpstream m
                        then if Method r = ''HEAD'' \<and> originlessPlainObject r
                             then (case answerConditionalsFromMeta (mint_id s (world st)) rw r m of
                                     (rw, True) \<Rightarrow> (st, rw, None)
                                   | (rw, False) \<Rightarrow> (st, serveMetaHit rw m, None))
                             else on_fwd (fw_Forward (forwarder s) rw r body)
                                    (if Method r = ''GET'' \<and> originlessPlainObject r
                                     then maybeRetierOnRead s bucket key accessKey secretKey m metaVersion st else st)
                        else if \<not> originlessPlainObject r then HandleOriginlessUnsupported s rw r st
                        else serveOriginlessObject s rw r (Some m) metaVersion st
                    | None \<Rightarrow>
                        if \<not> originlessPlainObject r then HandleOriginlessUnsupported s rw r st
                        else serveOriginlessObject s rw r None metaVersion st))"

text \<open>The large upload: forwarded, then marked under the token read before.\<close>

definition tiered_put_upstream ::
  "('a, 'w) Service \<Rightarrow> ResponseWriter \<Rightarrow> Request \<Rightarrow> body \<Rightarrow> string \<Rightarrow> string \<Rightarrow> ('a, 'w) svc \<Rightarrow> ('a, 'w) svc \<times> ResponseWriter \<times> err option" where
  "tiered_put_upstream s rw r body bucket key st =
     (let owning = originlessPlainObject r;
          (st, prior, priorVersion, priorKnown) = (if owning then captureMarkerPrior s bucket key st else (st, None, 0, False));
          (st, rw, e) = on_fwd (fw_Forward (forwarder s) rw r body) st
      in (if wroteSuccess rw \<and> owning \<and> IsEnabled (s_cache s)
          then putUpstreamMarker s r (header_get (rw_header rw) ''ETag'') bucket key prior priorVersion priorKnown st else st, rw, e))"

text \<open>The small upload into the local store, under the snapshot its tier was decided from.\<close>

definition tiered_put_local ::
  "('a, 'w) Service \<Rightarrow> 'w ctx \<Rightarrow> ResponseWriter \<Rightarrow> Request \<Rightarrow> body \<Rightarrow> string \<Rightarrow> string \<Rightarrow> string \<Rightarrow> string \<Rightarrow> putPrior
   \<Rightarrow> ('a, 'w) svc \<Rightarrow> ('a, 'w) svc \<times> ResponseWriter \<times> err option" where
  "tiered_put_local s ctx rw r body bucket key accessKey secretKey p st =
     (case streamingChunkVerifier s r st of
        Inl e \<Rightarrow> (st, rw, Some e)
      | Inr verify \<Rightarrow>
          (case handleOriginlessPut s ctx rw r body (Some p) (concretePayloadSHA256 r) verify st of
             (st, rw, e) \<Rightarrow>
               (case (if prior_found p then prior_meta p else None) of
                  Some prior \<Rightarrow>
                    (if e = None \<and> wroteSuccess rw \<and> BodyUpstream prior
                     then deleteUpstreamObjectAsync s bucket key (ETag prior) accessKey secretKey st else st, rw, e)
                | None \<Rightarrow> (st, rw, e))))"

definition tiered_put_routed ::
  "('a, 'w) Service \<Rightarrow> 'w ctx \<Rightarrow> ResponseWriter \<Rightarrow> Request \<Rightarrow> body \<Rightarrow> string \<Rightarrow> string \<Rightarrow> ('a, 'w) svc
   \<Rightarrow> ('a, 'w) svc \<times> ResponseWriter \<times> err option" where
  "tiered_put_routed s ctx rw r body bucket key st =
     (case on_fwd (fw_ValidateAndGetCredentials (forwarder s) r) st of
        (st, Inl e) \<Rightarrow> (st, rw, Some e)
      | (st, Inr (result, accessKey, secretKey)) \<Rightarrow>
          let sized = (case originlessPutSize r of None \<Rightarrow> False | Some n \<Rightarrow> n \<le> SizeThreshold (s_config s));
              localTier = (result = AuthValidated \<and> originlessPlainObject r \<and> sized);
              shed = (localTier \<and> \<not> conditional_put r \<and> svc_diskOverBudget s st)
          in if shed \<and> PopulateShedReject (s_config s) then (st, WriteError (mint_id s (world st)) rw r ''SlowDown'', None)
             else if \<not> localTier \<or> shed then tiered_put_upstream s rw r body bucket key st
             else case on_world (GetMetaWithVersion (s_cache s) bucket key) st of
                    (st, Inl e) \<Rightarrow> (st, rw, Some e)
                  | (st, Inr (meta, version, found)) \<Rightarrow>
                      if conditional_put r \<and> found \<and> (case meta of None \<Rightarrow> False | Some m \<Rightarrow> BodyUpstream m)
                      then tiered_put_upstream s rw r body bucket key st
                      else tiered_put_local s ctx rw r body bucket key accessKey secretKey
                             \<lparr>prior_meta = meta, prior_version = version, prior_found = found\<rparr> st)"

definition handleTieredPut ::
  "('a, 'w) Service \<Rightarrow> 'w ctx \<Rightarrow> ResponseWriter \<Rightarrow> Request \<Rightarrow> body \<Rightarrow> ('a, 'w) svc \<Rightarrow> ('a, 'w) svc \<times> ResponseWriter \<times> err option" where
  "handleTieredPut s ctx rw r body st =
     (let (bucket, key) = ParseBucketKey r;
          (st, rw, e) = tiered_put_routed s ctx rw r body bucket key (claimRetierWrite bucket key st)
      in (releaseRetierWrite bucket key st, rw, e))"

definition handleTieredDeleteLocal ::
  "('a, 'w) Service \<Rightarrow> ResponseWriter \<Rightarrow> Request \<Rightarrow> ('a, 'w) svc \<Rightarrow> ('a, 'w) svc \<times> ResponseWriter \<times> bool \<times> err option" where
  "handleTieredDeleteLocal s rw r st =
     (let (bucket, key) = ParseBucketKey r in
      case on_fwd (fw_ValidateAndGetCredentials (forwarder s) r) st of
        (st, Inl e) \<Rightarrow> (st, rw, True, Some e)
      | (st, Inr (result, _, _)) \<Rightarrow>
          if result \<noteq> AuthValidated \<or> \<not> originlessPlainObject r then (st, rw, False, None)
          else case on_world (GetMeta (s_cache s) bucket key) st of
                 (st, Inl e) \<Rightarrow> (st, rw, True, Some e)
               | (st, Inr meta) \<Rightarrow>
                   (case meta of
                      Some m \<Rightarrow>
                        if BodyUpstream m then (st, rw, False, None)
                        else (case HandleOriginlessDelete s rw r st of (st, rw, e) \<Rightarrow> (st, rw, True, e))
                    | None \<Rightarrow> (st, rw, False, None)))"

section \<open>A write is all or nothing\<close>

text \<open>The object exists upstream: its metadata row is a marker with this tag.\<close>

definition shows_marker :: "('a, 'w) Service \<Rightarrow> string \<Rightarrow> string \<Rightarrow> string \<Rightarrow> 'w \<Rightarrow> bool" where
  "shows_marker s b k etag w \<longleftrightarrow> (\<exists>m. GetMeta (s_cache s) b k w = (w, Inr (Some m)) \<and> is_marker_of etag (Some m))"

text \<open>A row that cannot be read as metadata.\<close>

definition unreadable :: "('a, 'w) Service \<Rightarrow> string option \<Rightarrow> bool" where
  "unreadable s row \<longleftrightarrow> (\<exists>data e. row = Some data \<and> DecodeMeta (json_unmarshal (s_cache s)) data = Inl e)"

lemma upstream_marker_fields: "BodyUpstream (upstream_marker now b k r etag)" "ETag (upstream_marker now b k r etag) = etag"
  by (simp_all add: upstream_marker_def Let_def)

lemma retier_bookkeeping [simp]:
  "world (claimRetierWrite b k st) = world st" "world (releaseRetierWrite b k st) = world st" "world (unregisterRetier b k st) = world st"
  "world (fst (tryRegisterRetier b k st)) = world st" "world (deleteUpstreamObjectAsync s b k etag ak sk st) = world st"
  by (simp_all add: claimRetierWrite_def releaseRetierWrite_def unregisterRetier_def tryRegisterRetier_def deleteUpstreamObjectAsync_def Let_def)

text \<open>What a successful write leaves: the object, a marker for the answered tag, a miss, or an untouched row of another kind.\<close>

definition put_effect :: "('a, 'w) Service \<Rightarrow> string \<Rightarrow> string \<Rightarrow> Request \<Rightarrow> ResponseWriter \<Rightarrow> string option \<Rightarrow> string option \<Rightarrow> 'w \<Rightarrow> bool" where
  "put_effect s b k r rw before now w \<longleftrightarrow>
     (\<exists>obj meta. ETag meta = quoted_md5 obj \<and> holds_object s b k obj meta w)
     \<or> header_get (rw_header rw) ''ETag'' \<noteq> [] \<and> shows_marker s b k (header_get (rw_header rw) ''ETag'') w
     \<or> now = None \<or> now = before \<and> (\<not> originlessPlainObject r \<or> unreadable s before)"

context ocache_objects
begin

lemma capture_prior:
  assumes c: "client (s_cache s) = cl" "coord (s_cache s) = CasCoordinator" "IsEnabled (s_cache s)"
    and cap: "captureMarkerPrior s b k st = (st', prior, t, known)"
  shows "st' = st" and "known \<Longrightarrow> t = cv (world st) (MakeMetaKey b k)" and "known \<Longrightarrow> prior = None \<Longrightarrow> live (world st) (MakeMetaKey b k) = None"
    and "\<not> known \<Longrightarrow> unreadable s (live (world st) (MakeMetaKey b k))"
proof -
  obtain w1 d v f e where g: "cl_GetWithVersion cl (MakeMetaKey b k) (world st) = (w1, d, v, f, e)" by (metis prod_cases5)
  note r = seq_get [OF g]
  let ?row = "live (world st) (MakeMetaKey b k)"
  have gm: "GetMetaWithVersion (s_cache s) b k (world st) =
      (world st, case ?row of None \<Rightarrow> Inr (None, cv (world st) (MakeMetaKey b k), False)
        | Some data \<Rightarrow> (case DecodeMeta (json_unmarshal (s_cache s)) data of
             Inl e \<Rightarrow> Inl e | Inr m \<Rightarrow> Inr (Some m, cv (world st) (MakeMetaKey b k), True)))"
    using r g c by (auto simp: GetMetaWithVersion_def coord_getMetaWithVersion_def cas_getMetaWithVersion_def split: option.splits sum.splits)
  from cap c(3) show "st' = st" "known \<Longrightarrow> t = cv (world st) (MakeMetaKey b k)" "known \<Longrightarrow> prior = None \<Longrightarrow> ?row = None"
    "\<not> known \<Longrightarrow> unreadable s ?row"
    by (auto simp: captureMarkerPrior_def on_world_def gm unreadable_def split: option.splits sum.splits)
qed

lemma displaced_removed:
  assumes c: "client (s_cache s) = cl" "coord (s_cache s) = CasCoordinator" "IsEnabled (s_cache s)"
    and t: "t = cv (world st) (MakeMetaKey b k)" "t < - 2"
  shows "live (world (invalidateDisplacedTieredMeta s b k prior t True st)) (MakeMetaKey b k)
         = (if prior = None then live (world st) (MakeMetaKey b k) else None)"
proof -
  obtain w e where d: "cl_DeleteIfVersion cl (MakeMetaKey b k) t (world st) = (w, e)" by fastforce
  have "cv (world st) (MakeMetaKey b k) < - 2" using t by simp
  from seq_delete [OF this d] t d c show ?thesis
    by (auto simp: invalidateDisplacedTieredMeta_def on_world_def DeleteMetaIfVersion_def cas_deleteMetaIfVersion_def)
qed

lemma marker_row:
  assumes c: "client (s_cache s) = cl" "coord (s_cache s) = CasCoordinator" "IsEnabled (s_cache s)"
    and codec: "\<forall>m data. json_marshal (s_cache s) m = Inr data \<longrightarrow> json_unmarshal (s_cache s) data = Inr m"
    and t: "t = cv (world st) (MakeMetaKey b k)" "t < - 2" and m: "BodyUpstream m" "ETag m \<noteq> []"
    and none: "prior = None \<longrightarrow> live (world st) (MakeMetaKey b k) = None"
    and st': "st' = commitUpstreamMarker s b k m prior t True st"
  shows "shows_marker s b k (ETag m) (world st') \<or> live (world st') (MakeMetaKey b k) = None"
proof (cases "snd (Encode (json_marshal (s_cache s)) m)")
  case (Inl e)
  then have "st' = invalidateDisplacedTieredMeta s b k prior t True st"
    using st' c m by (simp add: commitUpstreamMarker_def on_world_def PutMetaIfVersion_def)
  with displaced_removed [OF c t] none show ?thesis by simp
next
  case (Inr data)
  let ?k = "MakeMetaKey b k"
  obtain w e where p: "cl_PutIfVersion cl ?k data (ttl_or_default (s_cache s) (TTL_Seconds (s_config s))) t (world st) = (w, e)" by fastforce
  have v: "t \<noteq> 0" "t \<noteq> VersionAny" using seq_version [of "world st" ?k] t minus_two_less by auto
  have cv: "cv (world st) ?k < - 2" using t by simp
  from seq_put [OF v(1) cv p] t(1) have e: "e = None" "live w = (live (world st))(?k \<mapsto> data)" by simp_all
  have st': "st' = st\<lparr>world := w\<rparr>"
    using st' Inr c m p v e
    by (simp add: commitUpstreamMarker_def on_world_def PutMetaIfVersion_def putMetaVersioned_def cas_putMeta_def)
  obtain w1 x e1 where g: "cl_Get cl ?k w = (w1, x, e1)" by (metis prod_cases3)
  have "json_unmarshal (s_cache s) data = Inr (m\<lparr>ContentLengthKnown := 0 \<le> ContentLength m\<rparr>)"
    using codec Inr by (simp add: Encode_def Let_def)
  with seq_plain_get [OF g] g e(2) c m show ?thesis
    by (auto simp: st' shows_marker_def is_marker_of_def GetMeta_def DecodeMeta_def map_sum_def split: option.splits)
qed

lemma put_upstream_row:
  assumes c: "client (s_cache s) = cl" "coord (s_cache s) = CasCoordinator" "IsEnabled (s_cache s)"
    and codec: "\<forall>m data. json_marshal (s_cache s) m = Inr data \<longrightarrow> json_unmarshal (s_cache s) data = Inr m"
    and calm: "\<forall>a w. live (snd (fst (fw_Forward (forwarder s) rw r body (a, w)))) = live w \<and> cv (snd (fst (fw_Forward (forwarder s) rw r body (a, w)))) = cv w"
    and v: "cv (world st) (MakeMetaKey b k) < - 2"
    and put: "tiered_put_upstream s rw r body b k st = (st', rw', e)"
  shows "if wroteSuccess rw' then put_effect s b k r rw' (live (world st) (MakeMetaKey b k)) (live (world st') (MakeMetaKey b k)) (world st')
         else live (world st') (MakeMetaKey b k) = live (world st) (MakeMetaKey b k)"
proof -
  let ?k = "MakeMetaKey b k"
  obtain st1 prior t known where cap: "captureMarkerPrior s b k st = (st1, prior, t, known)" by (metis prod_cases4)
  note cap' = capture_prior [OF c cap]
  obtain a w rw1 e1 where f: "fw_Forward (forwarder s) rw r body (fwd st, world st) = ((a, w), rw1, e1)" by (metis prod.exhaust)
  have w: "live w = live (world st)" "cv w = cv (world st)" using calm [rule_format, of "fwd st" "world st"] f by simp_all
  let ?st2 = "st\<lparr>fwd := a, world := w\<rparr>" and ?etag = "header_get (rw_header rw1) ''ETag''"
  have res: "rw' = rw1" "world st' = (if wroteSuccess rw1 \<and> originlessPlainObject r then world (putUpstreamMarker s r ?etag b k prior t known ?st2) else w)"
    using put f cap cap'(1) c(3) by (auto simp: tiered_put_upstream_def on_fwd_def Let_def split: if_splits)
  show ?thesis
  proof (cases "wroteSuccess rw1 \<and> originlessPlainObject r")
    case False
    then have "world st' = w" using res(2) by (simp only: if_False)
    with False res(1) w(1) show ?thesis by (auto simp: put_effect_def)
  next
    case True
    then have st': "world st' = world (putUpstreamMarker s r ?etag b k prior t known ?st2)" using res by simp
    show ?thesis
    proof (cases known)
      case False
      then have "world st' = w" using st' by (simp add: putUpstreamMarker_def commitUpstreamMarker_def invalidateDisplacedTieredMeta_def)
      with True False res(1) w(1) cap'(4) show ?thesis by (simp add: put_effect_def)
    next
      case True': True
      have t: "t = cv (world ?st2) ?k" "t < - 2" using cap'(2) [OF True'] w(2) v by simp_all
      have none: "prior = None \<longrightarrow> live (world ?st2) ?k = None" using cap'(3) [OF True'] w(1) by simp
      show ?thesis
      proof (cases "?etag = []")
        case True
        then have "live (world st') ?k = None"
          using st' True' displaced_removed [OF c t, of prior] none by (simp add: putUpstreamMarker_def)
        with res(1) \<open>wroteSuccess rw1 \<and> originlessPlainObject r\<close> show ?thesis by (simp add: put_effect_def)
      next
        case False
        then have "world st' = world (commitUpstreamMarker s b k (upstream_marker (s_now s w) b k r ?etag) prior t True ?st2)"
          using st' True' by (simp add: putUpstreamMarker_def)
        with marker_row [OF c codec t upstream_marker_fields(1) _ none refl, of "s_now s w" b k r ?etag] False res(1) True
        show ?thesis by (auto simp: put_effect_def upstream_marker_fields)
      qed
    qed
  qed
qed

lemma put_local_row:
  assumes c: "client (s_cache s) = cl" "coord (s_cache s) = CasCoordinator" "IsEnabled (s_cache s)"
    and codec: "\<forall>m data. json_marshal (s_cache s) m = Inr data \<longrightarrow> json_unmarshal (s_cache s) data = Inr m"
    and rand: "\<forall>w. live (fst (s_rand s w)) = live w \<and> cv (fst (s_rand s w)) = cv w \<and> snd (s_rand s w) \<noteq> Inr []"
    and key: "ParseBucketKey r = (b, k)" "cv (world st) (MakeMetaKey b k) < - 2" and sent: "rw_sent rw = None"
    and p: "prior_version p = cv (world st) (MakeMetaKey b k)"
    and put: "tiered_put_local s ctx rw r body b k ak sk p st = (st', rw', e)"
  shows "if wroteSuccess rw' then put_effect s b k r rw' (live (world st) (MakeMetaKey b k)) (live (world st') (MakeMetaKey b k)) (world st')
         else live (world st') (MakeMetaKey b k) = live (world st) (MakeMetaKey b k)"
proof (cases "streamingChunkVerifier s r st")
  case (Inl x)
  with put sent show ?thesis by (auto simp: tiered_put_local_def wroteSuccess_def)
next
  case (Inr verify)
  obtain st1 rw1 e1 where h: "handleOriginlessPut s ctx rw r body (Some p) (concretePayloadSHA256 r) verify st = (st1, rw1, e1)"
    by (metis prod_cases3)
  have "world st' = world st1" "rw' = rw1"
    using put Inr h by (auto simp: tiered_put_local_def split: option.splits if_splits)
  moreover have "\<forall>q. Some p = Some q \<longrightarrow> prior_version q = cv (world st) (MakeMetaKey b k)" using p by simp
  note handle_put_row [OF c codec rand key sent this h]
  ultimately show ?thesis by (auto simp: put_effect_def split: if_splits)
qed

lemma put_routed_row:
  assumes c: "client (s_cache s) = cl" "coord (s_cache s) = CasCoordinator" "IsEnabled (s_cache s)"
    and codec: "\<forall>m data. json_marshal (s_cache s) m = Inr data \<longrightarrow> json_unmarshal (s_cache s) data = Inr m"
    and rand: "\<forall>w. live (fst (s_rand s w)) = live w \<and> cv (fst (s_rand s w)) = cv w \<and> snd (s_rand s w) \<noteq> Inr []"
    and calm: "\<forall>a w. live (snd (fst (fw_Forward (forwarder s) rw r body (a, w)))) = live w \<and> cv (snd (fst (fw_Forward (forwarder s) rw r body (a, w)))) = cv w"
    and still: "\<forall>a w. live (snd (fst (fw_ValidateAndGetCredentials (forwarder s) r (a, w)))) = live w
                  \<and> cv (snd (fst (fw_ValidateAndGetCredentials (forwarder s) r (a, w)))) = cv w"
    and key: "ParseBucketKey r = (b, k)" "cv (world st) (MakeMetaKey b k) < - 2" and sent: "rw_sent rw = None"
    and put: "tiered_put_routed s ctx rw r body b k st = (st', rw', e)"
  shows "if wroteSuccess rw' then put_effect s b k r rw' (live (world st) (MakeMetaKey b k)) (live (world st') (MakeMetaKey b k)) (world st')
         else live (world st') (MakeMetaKey b k) = live (world st) (MakeMetaKey b k)"
proof -
  let ?k = "MakeMetaKey b k"
  obtain a w res where va: "fw_ValidateAndGetCredentials (forwarder s) r (fwd st, world st) = ((a, w), res)" by (metis prod.exhaust)
  have w: "live w = live (world st)" "cv w = cv (world st)" using still [rule_format, of "fwd st" "world st"] va by simp_all
  let ?st1 = "st\<lparr>fwd := a, world := w\<rparr>"
  have v: "cv (world ?st1) ?k < - 2" using key(2) w by simp
  obtain w2 g where gm: "GetMetaWithVersion (s_cache s) b k w = (w2, g)" by fastforce
  note rd = read_meta [OF c gm]
  consider (up) "tiered_put_upstream s rw r body b k ?st1 = (st', rw', e)"
    | (loc) ak sk p where "tiered_put_local s ctx rw r body b k ak sk p ?st1 = (st', rw', e)" "prior_version p = cv w ?k"
    | (no) "world st' = w" "rw' = rw \<or> (\<exists>rid code. rw' = WriteError rid rw r code)"
    using put va gm rd
    by (fastforce simp: tiered_put_routed_def on_fwd_def on_world_def Let_def split: sum.splits if_splits)
  then show ?thesis
  proof cases
    case up
    from put_upstream_row [OF c codec calm v up] w show ?thesis by (auto split: if_splits)
  next
    case loc
    from put_local_row [OF c codec rand key(1) v sent _ loc(1)] loc(2) w show ?thesis by (auto split: if_splits)
  next
    case no
    with WriteError_fails [OF sent] sent w show ?thesis by (auto simp: wroteSuccess_def)
  qed
qed

end

section \<open>Writers and re-tiers of one key\<close>

text \<open>
  The steps on one key, each under the mutex, with the number of writers that hold it: a writer claims and later
  releases, a re-tier registers if it may and later unregisters.
\<close>

inductive retier_step :: "string \<Rightarrow> string \<Rightarrow> nat \<times> ('a, 'w) svc \<Rightarrow> nat \<times> ('a, 'w) svc \<Rightarrow> bool" for b k where
  rt_claim: "retier_step b k (n, st) (Suc n, claimRetierWrite b k st)"
| rt_release: "retier_step b k (Suc n, st) (n, releaseRetierWrite b k st)"
| rt_register: "retier_step b k (n, st) (n, fst (tryRegisterRetier b k st))"
| rt_unregister: "retier_step b k (n, st) (n, unregisterRetier b k st)"

inductive_cases retier_stepE: "retier_step b k c c'"

definition retier_inv :: "string \<Rightarrow> string \<Rightarrow> nat \<times> ('a, 'w) svc \<Rightarrow> bool" where
  "retier_inv b k = (\<lambda>(n, st). retierClaims st (b @ ''|'' @ k) = int n \<and> (0 < n \<longrightarrow> retierInflight st (b @ ''|'' @ k) \<noteq> Some False))"

lemma retier_inv_step: "retier_step b k c c' \<Longrightarrow> retier_inv b k c \<Longrightarrow> retier_inv b k c'"
  by (erule retier_stepE)
    (auto simp: retier_inv_def claimRetierWrite_def releaseRetierWrite_def tryRegisterRetier_def unregisterRetier_def Let_def)

lemma retier_reachable: "(retier_step b k)\<^sup>*\<^sup>* c c' \<Longrightarrow> retier_inv b k c \<Longrightarrow> retier_inv b k c'"
  by (induction rule: rtranclp_induct) (auto intro: retier_inv_step)

context ocache_objects
begin

text \<open>A cancelled re-tier commits nothing.\<close>

lemma cancelled_commit:
  assumes c: "client (s_cache s) = cl" "coord (s_cache s) = CasCoordinator" "IsEnabled (s_cache s)"
    and can: "retierInflight st (b @ ''|'' @ k) = Some True"
  shows "live (world (retier_commit s ctx b k etag v h ref n st)) (MakeMetaKey b k) = live (world st) (MakeMetaKey b k)"
proof -
  obtain w g where gm: "GetMetaWithVersion (s_cache s) b k (world st) = (w, g)" by fastforce
  have "w = world st" using read_meta [OF c gm] by simp
  with gm can discard_row [OF c(1), of b k ref st] show ?thesis
    by (auto simp: retier_commit_def on_world_def retier_ctx_def Let_def split: sum.splits option.splits bool.splits)
qed

end

section \<open>Properties\<close>


text \<open>An upload the proxy cannot validate, accepted upstream.\<close>

definition accepting_service :: "(unit, mem) Service" where
  "accepting_service = upload_service\<lparr>forwarder := (forwarder digits_service)
     \<lparr>fw_Forward := (\<lambda>rw r body st. (st, WriteHeader 200 (set_header ''ETag'' ''tag'' rw), None)),
      fw_ValidateAndGetCredentials := (\<lambda>r st. (st, Inr (AuthNotValidated, [], [])))\<rparr>\<rparr>"




end
