(* ===== verification/Completion.thy ===== *)
theory Completion
  imports Cache_Ops Go_Url
begin

text \<open>
  Cached responses of completed multipart uploads (\<^verbatim>\<open>src/cache/completion.go\<close>). The JSON codec is an
  argument of the operations.
\<close>

section \<open>Entries and keys\<close>

record CompletionEntry =
  ce_AccessKey :: string
  ce_StatusCode :: int
  ce_Headers :: "(string \<times> string) list"
  ce_Body :: string

definition MakeCompletionKey :: "string \<Rightarrow> string \<Rightarrow> string \<Rightarrow> string" where
  "MakeCompletionKey bucket key uploadId =
     (if CHR ''|'' \<in> set bucket \<or> CHR ''|'' \<in> set key \<or> CHR ''|'' \<in> set uploadId
      then ''complete:'' @ QueryEscape bucket @ '':'' @ QueryEscape key @ '':'' @ QueryEscape uploadId
      else ''complete:'' @ bucket @ ''|'' @ key @ ''|'' @ uploadId)"

section \<open>Operations\<close>

definition GetCompletion ::
  "'w Cache \<Rightarrow> (string \<Rightarrow> CompletionEntry result) \<Rightarrow> string \<Rightarrow> string \<Rightarrow> string \<Rightarrow> string \<Rightarrow> 'w
   \<Rightarrow> 'w \<times> CompletionEntry option result" where
  "GetCompletion c unmarshal bucket key uploadId accessKey w =
     (if \<not> IsEnabled c \<or> accessKey = [] then (w, Inr None)
      else case cl_Get (client c) (MakeCompletionKey bucket key uploadId) w of
             (w, _, Some e) \<Rightarrow> (w, if isNotFoundError e then Inr None else Inl e)
           | (w, None, None) \<Rightarrow> (w, Inr None)
           | (w, Some data, None) \<Rightarrow>
               (w, case unmarshal data of
                     Inl _ \<Rightarrow> Inr None
                   | Inr entry \<Rightarrow>
                       if ce_AccessKey entry = [] \<or> ce_AccessKey entry \<noteq> accessKey then Inr None
                       else Inr (Some entry)))"

definition completion_entry :: "string \<Rightarrow> int \<Rightarrow> header \<Rightarrow> string \<Rightarrow> CompletionEntry" where
  "completion_entry accessKey statusCode headers body =
     \<lparr>ce_AccessKey = accessKey, ce_StatusCode = statusCode,
      ce_Headers = map (\<lambda>(k, v). (k, hd v)) (filter (\<lambda>(k, v). v \<noteq> []) headers), ce_Body = body\<rparr>"

definition PutCompletion ::
  "'w Cache \<Rightarrow> (CompletionEntry \<Rightarrow> string result) \<Rightarrow> string \<Rightarrow> string \<Rightarrow> string \<Rightarrow> string \<Rightarrow> int \<Rightarrow> header \<Rightarrow> string \<Rightarrow> 'w
   \<Rightarrow> 'w \<times> err option" where
  "PutCompletion c marshal bucket key uploadId accessKey statusCode headers body w =
     (if \<not> IsEnabled c \<or> accessKey = [] then (w, None)
      else case marshal (completion_entry accessKey statusCode headers body) of
             Inl e \<Rightarrow> (w, Some e)
           | Inr data \<Rightarrow> cl_Put (client c) (MakeCompletionKey bucket key uploadId) data 5 w)"

section \<open>Keys of different uploads differ\<close>

lemma QueryEscape_no: "\<not> unreserved c \<Longrightarrow> c \<noteq> CHR ''%'' \<Longrightarrow> c \<noteq> CHR ''+'' \<Longrightarrow> c \<notin> set (QueryEscape s)"
  using QueryEscape_chars by blast

lemma colon_no: "CHR '':'' \<notin> set (QueryEscape s)" "CHR ''|'' \<notin> set (QueryEscape s)"
  by (simp_all add: QueryEscape_no unreserved_def Let_def)

lemma MakeCompletionKey_inject:
  assumes "MakeCompletionKey b k u = MakeCompletionKey b' k' u'"
  shows "b = b' \<and> k = k' \<and> u = u'"
proof -
  let ?bar = "\<lambda>b k u. CHR ''|'' \<in> set b \<or> CHR ''|'' \<in> set k \<or> CHR ''|'' \<in> set u"
  have esc: "CHR ''|'' \<in> set (MakeCompletionKey x y z) \<longleftrightarrow> \<not> ?bar x y z" for x y z
    using colon_no by (auto simp: MakeCompletionKey_def)
  show ?thesis
  proof (cases "?bar b k u")
    case True
    then have "?bar b' k' u'" using assms esc by metis
    with True assms have "QueryEscape b @ CHR '':'' # QueryEscape k @ CHR '':'' # QueryEscape u
      = QueryEscape b' @ CHR '':'' # QueryEscape k' @ CHR '':'' # QueryEscape u'"
      by (simp add: MakeCompletionKey_def)
    then have "QueryEscape b = QueryEscape b'" "QueryEscape k = QueryEscape k'" "QueryEscape u = QueryEscape u'"
      by (simp_all add: sep_inject colon_no)
    then show ?thesis using QueryEscape_inject by blast
  next
    case False
    then have "\<not> ?bar b' k' u'" using assms esc by metis
    with False assms have "b @ CHR ''|'' # k @ CHR ''|'' # u = b' @ CHR ''|'' # k' @ CHR ''|'' # u'"
      by (simp add: MakeCompletionKey_def)
    then show ?thesis using False \<open>\<not> ?bar b' k' u'\<close> by (simp add: sep_inject)
  qed
qed

section \<open>Stored rows\<close>

text \<open>What a plain row of the store can become: what was put under its key, or nothing.\<close>

locale ocache_rows =
  fixes cl :: "'w CacheClient" and row :: "'w \<Rightarrow> string \<Rightarrow> string option"
  assumes row_get:
      "cl_Get cl k w = (w', found, e) \<Longrightarrow>
       (\<forall>j. row w' j = row w j \<or> row w' j = None) \<and> (\<forall>d. found = Some d \<and> e = None \<longrightarrow> row w k = Some d)"
    and row_put:
      "cl_Put cl k data ttl w = (w', e) \<Longrightarrow>
       \<forall>j. row w' j = row w j \<or> row w' j = None \<or> j = k \<and> row w' j = Some data"

interpretation mem_rows: ocache_rows mem_client rows
  by unfold_locales (auto simp: mem_client_def mem_put_def)

text \<open>
  Histories of completions: the recorded ones, in any order and number, with anything between them that
  leaves completion rows alone or drops them.
\<close>

type_synonym completion = "(string \<times> string \<times> string) \<times> string \<times> int \<times> header \<times> string"

inductive completion_history ::
  "'w Cache \<Rightarrow> (CompletionEntry \<Rightarrow> string result) \<Rightarrow> ('w \<Rightarrow> string \<Rightarrow> string option) \<Rightarrow> completion list \<Rightarrow> 'w \<Rightarrow> bool"
  for c marshal row where
  history_start: "\<forall>b k u. row w (MakeCompletionKey b k u) = None \<Longrightarrow> completion_history c marshal row [] w"
| history_put:
    "completion_history c marshal row ps w \<Longrightarrow> PutCompletion c marshal b k u ak st h body w = (w', e)
     \<Longrightarrow> completion_history c marshal row (((b, k, u), ak, st, h, body) # ps) w'"
| history_other:
    "completion_history c marshal row ps w
     \<Longrightarrow> \<forall>b k u. row w' (MakeCompletionKey b k u) = row w (MakeCompletionKey b k u) \<or> row w' (MakeCompletionKey b k u) = None
     \<Longrightarrow> completion_history c marshal row ps w'"

context ocache_rows
begin

lemma stored_completion:
  assumes "completion_history c marshal row ps w" and "client c = cl"
  shows "row w (MakeCompletionKey b k u) = Some data \<longrightarrow>
    (\<exists>ak st h body. ((b, k, u), ak, st, h, body) \<in> set ps \<and> ak \<noteq> [] \<and> marshal (completion_entry ak st h body) = Inr data)"
  using assms
proof (induction arbitrary: data)
  case (history_put ps w b' k' u' ak st h body w' e)
  show ?case
  proof (cases "row w' (MakeCompletionKey b k u) = Some data \<and> row w (MakeCompletionKey b k u) \<noteq> Some data")
    case True
    then have put: "IsEnabled c" "ak \<noteq> []" "w' \<noteq> w"
      using history_put.hyps(2) by (auto simp: PutCompletion_def split: if_splits)
    then obtain d where d: "marshal (completion_entry ak st h body) = Inr d"
      and p: "cl_Put cl (MakeCompletionKey b' k' u') d 5 w = (w', e)"
      using history_put.hyps(2) history_put.prems by (auto simp: PutCompletion_def split: sum.splits)
    from row_put [OF p, rule_format, of "MakeCompletionKey b k u"] True
    have "MakeCompletionKey b k u = MakeCompletionKey b' k' u'" "d = data" by auto
    with MakeCompletionKey_inject [of b k u b' k' u'] d put(2) show ?thesis by auto
  next
    case False
    show ?thesis
    proof
      assume "row w' (MakeCompletionKey b k u) = Some data"
      with False have "row w (MakeCompletionKey b k u) = Some data" by blast
      with history_put.IH [of data] history_put.prems show "\<exists>ak' st' h' body'. ((b, k, u), ak', st', h', body')
        \<in> set (((b', k', u'), ak, st, h, body) # ps) \<and> ak' \<noteq> [] \<and> marshal (completion_entry ak' st' h' body') = Inr data"
        by (metis list.set_intros(2))
    qed
  qed
next
  case (history_other ps w w')
  from history_other.hyps(2) [rule_format, of b k u] history_other.IH [of data] history_other.prems show ?case by auto
qed simp

lemma replayed_completion:
  assumes "completion_history c marshal row ps w" and "client c = cl"
    and "GetCompletion c unmarshal b k u ak w = (w', Inr (Some entry))"
    and "\<And>x d. marshal x = Inr d \<Longrightarrow> unmarshal d = Inr x"
  shows "\<exists>st h body. ((b, k, u), ak, st, h, body) \<in> set ps \<and> entry = completion_entry ak st h body \<and> ak \<noteq> []"
proof -
  obtain w1 data where g: "cl_Get cl (MakeCompletionKey b k u) w = (w1, Some data, None)"
    and entry: "unmarshal data = Inr entry" "ce_AccessKey entry = ak"
    using assms(2,3) by (auto simp: GetCompletion_def split: if_splits prod.splits option.splits sum.splits)
  with row_get [OF g] have "row w (MakeCompletionKey b k u) = Some data" by simp
  with stored_completion [OF assms(1,2)] obtain ak' st h body
    where p: "((b, k, u), ak', st, h, body) \<in> set ps" "ak' \<noteq> []" "marshal (completion_entry ak' st h body) = Inr data"
    by blast
  with assms(4) entry have e: "entry = completion_entry ak' st h body" by simp
  with entry(2) have "ak' = ak" by (simp add: completion_entry_def)
  with p e show ?thesis by blast
qed

end

section \<open>Properties\<close>


definition done_entry :: CompletionEntry where
  "done_entry = completion_entry ''AK'' 200 [(''Etag'', [''e''])] ''ok''"

definition one_marshal :: "CompletionEntry \<Rightarrow> string result" where
  "one_marshal x = (if x = done_entry then Inr ''row'' else Inl (EText ''unsupported''))"


end
