(* ===== verification/Object_Writes.thy ===== *)
theory Object_Writes
  imports Tiered_Store Completion
begin

text \<open>
  The mutating handlers (\<^verbatim>\<open>proxy/service.go\<close>, \<^verbatim>\<open>proxy/delete_objects.go\<close>): upload, delete, copy, the completion of
  a multipart upload and the bulk delete. Each invalidates before it forwards and again once the origin has confirmed
  the write, so that a read that raced it cannot bring the old object back. The XML and JSON decoders are arguments.
\<close>

section \<open>Documents\<close>

text \<open>
  What \<^verbatim>\<open>encoding/xml\<close> reads from the documents involved (the name of the first element, the keys of a delete
  request, the keys of its reported errors, the entity tag of a completion), and the codec of completion rows.
\<close>

record codecs =
  xml_root :: "string \<Rightarrow> string option"
  xml_deletes :: "string \<Rightarrow> string list option"
  xml_delete_errors :: "string \<Rightarrow> string list option"
  xml_completed :: "string \<Rightarrow> string option"
  completion_marshal :: "CompletionEntry \<Rightarrow> string result"
  completion_unmarshal :: "string \<Rightarrow> CompletionEntry result"

definition isS3ErrorBody :: "codecs \<Rightarrow> string \<Rightarrow> bool" where
  "isS3ErrorBody x body \<longleftrightarrow> body \<noteq> [] \<and> xml_root x body = Some ''Error''"

definition s3WriteSucceeded :: "codecs \<Rightarrow> ResponseCapture \<Rightarrow> bool" where
  "s3WriteSucceeded x capture \<longleftrightarrow>
     \<not> (cap_StatusCode capture < 200 \<or> 300 \<le> cap_StatusCode capture) \<and> \<not> isS3ErrorBody x (cap_Body capture)"

definition completedMultipartETag :: "codecs \<Rightarrow> ResponseCapture \<Rightarrow> string" where
  "completedMultipartETag x capture =
     (let etag = header_get (cap_Headers capture) ''ETag'' in
      if etag \<noteq> [] then etag else case xml_completed x (cap_Body capture) of Some t \<Rightarrow> t | None \<Rightarrow> [])"

text \<open>How often each key is listed.\<close>

definition key_counts :: "string list \<Rightarrow> string \<Rightarrow> nat" where
  "key_counts keys k = length (filter ((=) k) keys)"

definition erroredDeleteKeyCounts :: "codecs \<Rightarrow> string \<Rightarrow> (string \<Rightarrow> nat) option" where
  "erroredDeleteKeyCounts x body = map_option key_counts (xml_delete_errors x body)"

section \<open>Invalidation around a write\<close>

abbreviation tiered :: "('a, 'w) Service \<Rightarrow> bool" where
  "tiered s \<equiv> IsTiered (cfg_budget (s_config s))"

definition preForwardInvalidate :: "('a, 'w) Service \<Rightarrow> string \<Rightarrow> string \<Rightarrow> ('a, 'w) svc \<Rightarrow> ('a, 'w) svc" where
  "preForwardInvalidate s bucket key st = (if tiered s then st else fst (invalidateObject s bucket key st))"

definition convergeInvalidation :: "('a, 'w) Service \<Rightarrow> string \<Rightarrow> string \<Rightarrow> ('a, 'w) svc \<Rightarrow> ('a, 'w) svc" where
  "convergeInvalidation s bucket key st =
     (case invalidateObject s bucket key st of
        (st, None) \<Rightarrow> st
      | (st, Some _) \<Rightarrow> fst (invalidateObject s bucket key st))"

text \<open>Only the version the delete displaced is removed; one retry after an error.\<close>

definition convergeTieredDelete :: "('a, 'w) Service \<Rightarrow> string \<Rightarrow> string \<Rightarrow> version \<Rightarrow> bool \<Rightarrow> ('a, 'w) svc \<Rightarrow> ('a, 'w) svc" where
  "convergeTieredDelete s bucket key priorVersion priorKnown st =
     (if \<not> priorKnown then st
      else case on_world (DeleteMetaIfVersion (s_cache s) bucket key priorVersion) st of
             (st, Inl _) \<Rightarrow> fst (on_world (DeleteMetaIfVersion (s_cache s) bucket key priorVersion) st)
           | (st, Inr _) \<Rightarrow> st)"

section \<open>Uploads\<close>

definition put_confirmed ::
  "('a, 'w) Service \<Rightarrow> Request \<Rightarrow> string \<Rightarrow> string \<Rightarrow> teeState option \<Rightarrow> bool \<Rightarrow> ('a, 'w) svc \<Rightarrow> ('a, 'w) svc" where
  "put_confirmed s r bucket key teed rejects st =
     (let st = convergeInvalidation s bucket key st;
          (st, teeHandled) = (case teed of Some ts \<Rightarrow> writeThroughCache bucket key ts st | None \<Rightarrow> (st, rejects));
          st = (if teeHandled then st else warmOnWrite s r bucket key st)
      in warmParquetFooterOnWriteWithETag s r bucket key [] st)"

definition HandlePutObject ::
  "('a, 'w) Service \<Rightarrow> 'w ctx \<Rightarrow> ResponseWriter \<Rightarrow> Request \<Rightarrow> body \<Rightarrow> ('a, 'w) svc \<Rightarrow> ('a, 'w) svc \<times> ResponseWriter \<times> err option" where
  "HandlePutObject s ctx rw r body st =
     (if tiered s then handleTieredPut s ctx rw r body st
      else
        let (bucket, key) = ParseBucketKey r in
        case forwardPutMaybeTee s rw r body (preForwardInvalidate s bucket key st) of
          (st, rw, teed, rejects, e) \<Rightarrow>
            (if wroteSuccess rw \<and> IsEnabled (s_cache s) then put_confirmed s r bucket key teed rejects st
             else case teed of Some ts \<Rightarrow> release_slot (ts_weight ts) st | None \<Rightarrow> st, rw, e))"

section \<open>Deletes\<close>

definition delete_forwarded ::
  "('a, 'w) Service \<Rightarrow> ResponseWriter \<Rightarrow> Request \<Rightarrow> body \<Rightarrow> string \<Rightarrow> string \<Rightarrow> ('a, 'w) svc \<Rightarrow> ('a, 'w) svc \<times> ResponseWriter \<times> err option" where
  "delete_forwarded s rw r body bucket key st =
     (let st = preForwardInvalidate s bucket key st;
          (st, _, priorVer, priorKnown) = (if tiered s then captureMarkerPrior s bucket key st else (st, None, 0, False))
      in case on_fwd (fw_Forward (forwarder s) rw r body) st of
           (st, rw, e) \<Rightarrow>
             (if wroteSuccess rw \<and> IsEnabled (s_cache s)
              then if tiered s then convergeTieredDelete s bucket key priorVer priorKnown st else convergeInvalidation s bucket key st
              else st, rw, e))"

definition HandleDeleteObject ::
  "('a, 'w) Service \<Rightarrow> ResponseWriter \<Rightarrow> Request \<Rightarrow> body \<Rightarrow> ('a, 'w) svc \<Rightarrow> ('a, 'w) svc \<times> ResponseWriter \<times> err option" where
  "HandleDeleteObject s rw r body st =
     (let (bucket, key) = ParseBucketKey r in
      if \<not> tiered s then delete_forwarded s rw r body bucket key st
      else
        let (st, rw, e) =
              (case handleTieredDeleteLocal s rw r (claimRetierWrite bucket key st) of
                 (st, rw, True, e) \<Rightarrow> (st, rw, e)
               | (st, rw, False, _) \<Rightarrow> delete_forwarded s rw r body bucket key st)
        in (releaseRetierWrite bucket key st, rw, e))"

section \<open>Copies\<close>

definition copy_rejects :: "('a, 'w) Service \<Rightarrow> Request \<Rightarrow> bool" where
  "copy_rejects s r \<longleftrightarrow>
     \<not> tiered s \<and> IsEnabled (s_cache s) \<and> (WarmOnWrite (cfg_budget (s_config s)) \<or> ParquetOptimization (s_config s))
     \<and> header_values (Header r) ''Cache-Control'' \<noteq> [] \<and> hasNoCacheDirectives (header_values (Header r) ''Cache-Control'')"

definition copy_confirmed ::
  "('a, 'w) Service \<Rightarrow> Request \<Rightarrow> string \<Rightarrow> string \<Rightarrow> version \<Rightarrow> bool \<Rightarrow> ('a, 'w) svc \<Rightarrow> ('a, 'w) svc" where
  "copy_confirmed s r bucket key priorVer priorKnown st =
     (if tiered s then convergeTieredDelete s bucket key priorVer priorKnown st
      else
        let st = convergeInvalidation s bucket key st in
        if copy_rejects s r then st
        else warmParquetFooterOnWriteWithETag s r bucket key [] (warmOnWrite s r bucket key st))"

definition HandleCopyObject ::
  "('a, 'w) Service \<Rightarrow> codecs \<Rightarrow> ResponseWriter \<Rightarrow> Request \<Rightarrow> body \<Rightarrow> ('a, 'w) svc \<Rightarrow> ('a, 'w) svc \<times> ResponseWriter \<times> err option" where
  "HandleCopyObject s x rw r body st =
     (let (bucket, key) = ParseBucketKey r;
          st = (if IsEnabled (s_cache s) then preForwardInvalidate s bucket key st else st);
          st = (if tiered s then claimRetierWrite bucket key st else st);
          (st, _, priorVer, priorKnown) = (if tiered s then captureMarkerPrior s bucket key st else (st, None, 0, False));
          (st, rw, e) =
            (case on_fwd (fw_ForwardWithCapture (forwarder s) rw r body) st of
               (st, rw, Inl e) \<Rightarrow> (st, rw, Some e)
             | (st, rw, Inr capture) \<Rightarrow>
                 (if s3WriteSucceeded x capture \<and> IsEnabled (s_cache s) then copy_confirmed s r bucket key priorVer priorKnown st else st,
                  rw, None))
      in (if tiered s then releaseRetierWrite bucket key st else st, rw, e))"

section \<open>Completed multipart uploads\<close>

definition completionRequestForLocalValidation :: "Request \<Rightarrow> Request option" where
  "completionRequestForLocalValidation r =
     (if header_get (Header r) ''X-Amz-Content-Sha256'' \<noteq> [] then Some r
      else if \<not> IsPresignedRequest r then None
      else case ParseAuthInfo r of
             Inl _ \<Rightarrow> None
           | Inr info \<Rightarrow>
               if \<not> IsPresigned info \<or> list_ex (\<lambda>h. EqualFold h ''x-amz-content-sha256'') (SignedHeaders info) then None
               else Some (r\<lparr>Header := header_set (Header r) ''X-Amz-Content-Sha256'' ''UNSIGNED-PAYLOAD''\<rparr>))"

definition completionPrincipal :: "('a, 'w) Service \<Rightarrow> Request \<Rightarrow> ('a, 'w) svc \<Rightarrow> ('a, 'w) svc \<times> string" where
  "completionPrincipal s r st =
     (case completionRequestForLocalValidation r of
        None \<Rightarrow> (st, [])
      | Some validationRequest \<Rightarrow>
          (case on_fwd (fw_ValidateAndGetCredentials (forwarder s) validationRequest) st of
             (st, Inr (AuthValidated, _, _)) \<Rightarrow> (st, case ParseAuthInfo r of Inl _ \<Rightarrow> [] | Inr info \<Rightarrow> AccessKey info)
           | (st, _) \<Rightarrow> (st, [])))"

definition replay_completion :: "CompletionEntry \<Rightarrow> ResponseWriter \<Rightarrow> ResponseWriter" where
  "replay_completion entry rw =
     fst (rw_Write (ce_Body entry)
       (WriteHeader (ce_StatusCode entry) (foldl (\<lambda>w (k, v). set_header k v w) rw (ce_Headers entry))))"

text \<open>A stored answer is replayed when the caller still validates after the lookup.\<close>

definition stored_completion ::
  "('a, 'w) Service \<Rightarrow> codecs \<Rightarrow> Request \<Rightarrow> string \<Rightarrow> string \<Rightarrow> string \<Rightarrow> string \<Rightarrow> ('a, 'w) svc \<Rightarrow> ('a, 'w) svc \<times> CompletionEntry option" where
  "stored_completion s x r bucket key uploadId caller st =
     (if caller = [] then (st, None)
      else case on_world (GetCompletion (s_cache s) (completion_unmarshal x) bucket key uploadId caller) st of
             (st, Inr (Some entry)) \<Rightarrow>
               (case completionPrincipal s r st of (st, again) \<Rightarrow> (st, if again = caller then Some entry else None))
           | (st, _) \<Rightarrow> (st, None))"

definition completion_confirmed ::
  "('a, 'w) Service \<Rightarrow> codecs \<Rightarrow> Request \<Rightarrow> string \<Rightarrow> string \<Rightarrow> ResponseCapture \<Rightarrow> string \<Rightarrow> string \<Rightarrow> CachedObjectMeta option \<Rightarrow> version \<Rightarrow> bool
   \<Rightarrow> ('a, 'w) svc \<Rightarrow> ('a, 'w) svc" where
  "completion_confirmed s x r bucket key capture accessKey secretKey prior priorVer priorKnown st =
     (let writtenETag = completedMultipartETag x capture in
      if tiered s then stampUpstreamMarkerAfterCompletion s bucket key writtenETag accessKey secretKey prior priorVer priorKnown st
      else
        let st = warmOnWrite s r bucket key (convergeInvalidation s bucket key st);
            footerETag = (if MetaOnWrite (s_config s) \<and> ParquetOptimization (s_config s) \<and> isParquetKey key then writtenETag else [])
        in cacheBlockMetaOnWrite s r bucket key writtenETag (warmParquetFooterOnWriteWithETag s r bucket key footerETag st))"

definition complete_forwarded ::
  "('a, 'w) Service \<Rightarrow> codecs \<Rightarrow> ResponseWriter \<Rightarrow> Request \<Rightarrow> body \<Rightarrow> string \<Rightarrow> string \<Rightarrow> string \<Rightarrow> string \<Rightarrow> string \<Rightarrow> string
   \<Rightarrow> CachedObjectMeta option \<Rightarrow> version \<Rightarrow> bool \<Rightarrow> ('a, 'w) svc \<Rightarrow> ('a, 'w) svc \<times> ResponseWriter \<times> err option" where
  "complete_forwarded s x rw r body bucket key uploadId caller accessKey secretKey prior priorVer priorKnown st =
     (case on_fwd (fw_ForwardWithCapture (forwarder s) rw r body) st of
        (st, rw, Inl e) \<Rightarrow> (st, rw, Some e)
      | (st, rw, Inr capture) \<Rightarrow>
          let completed = s3WriteSucceeded x capture;
              st = (if completed \<and> IsEnabled (s_cache s)
                    then completion_confirmed s x r bucket key capture accessKey secretKey prior priorVer priorKnown st else st);
              st = (if completed \<and> cap_Complete capture \<and> caller \<noteq> []
                    then fst (on_world (PutCompletion (s_cache s) (completion_marshal x) bucket key uploadId caller
                                          (cap_StatusCode capture) (cap_Headers capture) (cap_Body capture)) st)
                    else st)
          in (st, rw, None))"

definition HandleCompleteMultipartUpload ::
  "('a, 'w) Service \<Rightarrow> codecs \<Rightarrow> ResponseWriter \<Rightarrow> Request \<Rightarrow> body \<Rightarrow> ('a, 'w) svc \<Rightarrow> ('a, 'w) svc \<times> ResponseWriter \<times> err option" where
  "HandleCompleteMultipartUpload s x rw r body st =
     (let (bucket, key) = ParseBucketKey r;
          uploadId = values_get (URL_Query r) ''uploadId'';
          (st, caller) = (if IsEnabled (s_cache s) then completionPrincipal s r st else (st, []))
      in case stored_completion s x r bucket key uploadId caller st of
           (st, Some entry) \<Rightarrow> (st, replay_completion entry rw, None)
         | (st, None) \<Rightarrow>
             let st = preForwardInvalidate s bucket key st in
             if \<not> tiered s then complete_forwarded s x rw r body bucket key uploadId caller [] [] None 0 False st
             else
               let (st, prior, priorVer, priorKnown) = captureMarkerPrior s bucket key (claimRetierWrite bucket key st);
                   (st, accessKey, secretKey) =
                     (case on_fwd (fw_ValidateAndGetCredentials (forwarder s) r) st of
                        (st, Inr (AuthValidated, ak, sk)) \<Rightarrow> (st, ak, sk)
                      | (st, _) \<Rightarrow> (st, [], []));
                   (st, rw, e) = complete_forwarded s x rw r body bucket key uploadId caller accessKey secretKey prior priorVer priorKnown st
               in (releaseRetierWrite bucket key st, rw, e))"

section \<open>Bulk deletes (delete_objects.go)\<close>

text \<open>The response is staged: a writer of its own that takes every byte, committed once the fences are done.\<close>

definition newDeleteObjectsResponseStager :: ResponseWriter where
  "newDeleteObjectsResponseStager = \<lparr>rw_header = [], rw_sent = None, rw_body = [], rw_room = None\<rparr>"

definition commit_staged :: "ResponseWriter \<Rightarrow> ResponseCapture option \<Rightarrow> ResponseWriter \<Rightarrow> ResponseWriter" where
  "commit_staged stager capture dst =
     (let headers = (case capture of Some c \<Rightarrow> if rw_header stager = [] then cap_Headers c else rw_header stager | None \<Rightarrow> rw_header stager);
          statusCode = (case rw_sent stager of Some (code, _) \<Rightarrow> code | None \<Rightarrow> (case capture of Some c \<Rightarrow> cap_StatusCode c | None \<Rightarrow> 0));
          body = (case capture of Some c \<Rightarrow> cap_Body c | None \<Rightarrow> []);
          dst = dst\<lparr>rw_header := copyHeaders (rw_header dst) headers\<rparr>;
          dst = (if statusCode \<noteq> 0 then WriteHeader statusCode dst else dst)
      in if body \<noteq> [] then fst (rw_Write body dst) else dst)"

text \<open>
  The requested keys in order: each is invalidated; in tiered mode each is claimed once and its token kept.
\<close>

fun claim_keys ::
  "('a, 'w) Service \<Rightarrow> string \<Rightarrow> string list \<Rightarrow> (string \<times> version \<times> bool) list \<Rightarrow> ('a, 'w) svc
   \<Rightarrow> ('a, 'w) svc \<times> (string \<times> version \<times> bool) list" where
  "claim_keys s bucket [] priors st = (st, priors)"
| "claim_keys s bucket (k # ks) priors st =
     (let st = preForwardInvalidate s bucket k st in
      if tiered s \<and> map_of priors k = None
      then (case captureMarkerPrior s bucket k (claimRetierWrite bucket k st) of
              (st, _, v, known) \<Rightarrow> claim_keys s bucket ks (priors @ [(k, v, known)]) st)
      else claim_keys s bucket ks priors st)"

text \<open>The fences after a confirmed delete, in the order the map hands out its keys, until the deadline.\<close>

fun fence_keys ::
  "('a, 'w) Service \<Rightarrow> 'w ctx \<Rightarrow> string \<Rightarrow> (string \<Rightarrow> nat) \<Rightarrow> (string \<Rightarrow> nat) option \<Rightarrow> (string \<times> version \<times> bool) list \<Rightarrow> string list
   \<Rightarrow> ('a, 'w) svc \<Rightarrow> ('a, 'w) svc" where
  "fence_keys s fence bucket requested errored priors [] st = st"
| "fence_keys s fence bucket requested errored priors (k # ks) st =
     fence_keys s fence bucket requested errored priors ks
       (if (case errored of Some n \<Rightarrow> requested k \<le> n k | None \<Rightarrow> False) then st
        else if fence (world st) \<noteq> None then st
        else if tiered s
        then (case map_of priors k of
                Some (v, known) \<Rightarrow> convergeTieredDelete s bucket k v known st
              | None \<Rightarrow> convergeTieredDelete s bucket k 0 False st)
        else convergeInvalidation s bucket k st)"

definition requested_deletes :: "('a, 'w) Service \<Rightarrow> codecs \<Rightarrow> string \<Rightarrow> string list" where
  "requested_deletes s x doc =
     (if IsEnabled (s_cache s) then (case xml_deletes x doc of Some ks \<Rightarrow> ks | None \<Rightarrow> []) else [])"

definition bulk_forward ::
  "('a, 'w) Service \<Rightarrow> codecs \<Rightarrow> (string list \<Rightarrow> string list) \<Rightarrow> 'w ctx \<Rightarrow> ResponseWriter \<Rightarrow> Request \<Rightarrow> string \<Rightarrow> string \<Rightarrow> string list
   \<Rightarrow> (string \<times> version \<times> bool) list \<Rightarrow> ('a, 'w) svc \<Rightarrow> ('a, 'w) svc \<times> ResponseWriter \<times> err option" where
  "bulk_forward s x map_order fence rw r doc bucket keys priors st =
     (case on_fwd (fw_ForwardWithCapture (forwarder s) (if keys \<noteq> [] then newDeleteObjectsResponseStager else rw) r (doc, None)) st of
        (st, out, res) \<Rightarrow>
          let st = (case res of
                      Inl _ \<Rightarrow> st
                    | Inr capture \<Rightarrow>
                        if 200 \<le> cap_StatusCode capture \<and> cap_StatusCode capture < 300 \<and> IsEnabled (s_cache s)
                        then fence_keys s fence bucket (key_counts keys) (erroredDeleteKeyCounts x (cap_Body capture)) priors
                               (map_order (remdups keys)) st
                        else st)
          in (st,
              if keys \<noteq> [] then commit_staged out (case res of Inl _ \<Rightarrow> None | Inr capture \<Rightarrow> Some capture) rw else out,
              case res of Inl e \<Rightarrow> Some e | Inr _ \<Rightarrow> None))"

definition HandleDeleteObjects ::
  "('a, 'w) Service \<Rightarrow> codecs \<Rightarrow> (string list \<Rightarrow> string list) \<Rightarrow> 'w ctx \<Rightarrow> ResponseWriter \<Rightarrow> Request \<Rightarrow> body \<Rightarrow> ('a, 'w) svc
   \<Rightarrow> ('a, 'w) svc \<times> ResponseWriter \<times> err option" where
  "HandleDeleteObjects s x map_order fence rw r body st =
     (case snd body of
        Some e \<Rightarrow> (st, rw, Some (Errorf ''failed to read request body: '' e))
      | None \<Rightarrow>
          let bucket = fst (ParseBucketKey r);
              keys = requested_deletes s x (fst body);
              (st, priors) = claim_keys s bucket keys [] st;
              (st, rw, e) = bulk_forward s x map_order fence rw r (fst body) bucket keys priors st
          in (foldr (releaseRetierWrite bucket) (map fst priors) st, rw, e))"

section \<open>Everything else\<close>

definition HandlePassthrough ::
  "('a, 'w) Service \<Rightarrow> ResponseWriter \<Rightarrow> Request \<Rightarrow> body \<Rightarrow> ('a, 'w) svc \<Rightarrow> ('a, 'w) svc \<times> ResponseWriter \<times> err option" where
  "HandlePassthrough s rw r body st = on_fwd (fw_Forward (forwarder s) rw r body) st"

section \<open>A confirmed write fences the reads it raced\<close>

text \<open>
  A write of an object the origin has confirmed: the state in which its answer arrived, and the state the handler
  leaves.
\<close>

inductive confirmed_write ::
  "('a, 'w) Service \<Rightarrow> codecs \<Rightarrow> Request \<Rightarrow> string \<Rightarrow> string \<Rightarrow> ('a, 'w) svc \<Rightarrow> ('a, 'w) svc \<Rightarrow> bool" for s x r b k where
  cw_put:
    "forwardPutMaybeTee s rw r body (preForwardInvalidate s b k st) = (st1, rw1, teed, rejects, e1) \<Longrightarrow> wroteSuccess rw1 \<Longrightarrow>
     HandlePutObject s ctx rw r body st = (st', rw', e) \<Longrightarrow> confirmed_write s x r b k st1 st'"
| cw_delete:
    "on_fwd (fw_Forward (forwarder s) rw r body) (preForwardInvalidate s b k st) = (st1, rw1, e1) \<Longrightarrow> wroteSuccess rw1 \<Longrightarrow>
     HandleDeleteObject s rw r body st = (st', rw', e) \<Longrightarrow> confirmed_write s x r b k st1 st'"
| cw_copy:
    "on_fwd (fw_ForwardWithCapture (forwarder s) rw r body) (preForwardInvalidate s b k st) = (st1, rw1, Inr capture) \<Longrightarrow>
     s3WriteSucceeded x capture \<Longrightarrow> HandleCopyObject s x rw r body st = (st', rw', e) \<Longrightarrow> confirmed_write s x r b k st1 st'"
| cw_complete:
    "completionPrincipal s r st = (st0, caller) \<Longrightarrow>
     stored_completion s x r b k (values_get (URL_Query r) ''uploadId'') caller st0 = (st2, None) \<Longrightarrow>
     on_fwd (fw_ForwardWithCapture (forwarder s) rw r body) (preForwardInvalidate s b k st2) = (st1, rw1, Inr capture) \<Longrightarrow>
     s3WriteSucceeded x capture \<Longrightarrow> HandleCompleteMultipartUpload s x rw r body st = (st', rw', e) \<Longrightarrow> confirmed_write s x r b k st1 st'"

text \<open>One of the two attempts to invalidate went through.\<close>

definition fence_holds :: "'w Cache \<Rightarrow> string \<Rightarrow> string \<Rightarrow> 'w \<Rightarrow> bool" where
  "fence_holds c b k w = (case Delete c b k w of (w1, None) \<Rightarrow> True | (w1, Some _) \<Rightarrow> snd (Delete c b k w1) = None)"

lemma writeThroughCache_world [simp]: "world (fst (writeThroughCache b k ts st)) = world st"
  by (simp add: writeThroughCache_def startBackgroundTask_def Let_def)

lemma started_once_world [simp]:
  "world (case LoadOrStore k st of (st, True) \<Rightarrow> st
          | (st, False) \<Rightarrow> (case startBackgroundTask t st of (st, True) \<Rightarrow> st | (st, False) \<Rightarrow> drop_marker k st)) = world st"
  by (simp add: LoadOrStore_def startBackgroundTask_def drop_marker_def split: bool.splits)

lemma triggerBackgroundCacheFetch_world [simp]: "world (triggerBackgroundCacheFetch b k ak sk anon prio v st) = world st"
  unfolding triggerBackgroundCacheFetch_def Let_def by (rule started_once_world)

context cas_cache
begin

lemma get_grows: "GetMetaWithVersion c b k w = (w', x) \<Longrightarrow> grows cv w w'"
proof -
  assume g: "GetMetaWithVersion c b k w = (w', x)"
  obtain w1 d v found e where r: "cl_GetWithVersion (client c) (MakeMetaKey b k) w = (w1, d, v, found, e)" by (metis prod_cases5)
  from g r have "w' = w \<or> w' = w1"
    by (auto simp: GetMetaWithVersion_def coord_getMetaWithVersion_def coord_cas cas_getMetaWithVersion_def split: option.splits sum.splits if_splits)
  with read_token [OF r] show ?thesis by auto
qed

lemma delete_grows: "Delete c b k w = (w', x) \<Longrightarrow> grows cv w w'"
  using delete_loop [of b k 64 0 w]
  by (cases "cas_delete_loop (client c) b k 64 0 w")
    (auto simp: Delete_def DeleteWithMeta_def deleteMetaFenced_def coord_cas cas_deleteMeta_def split: option.splits if_splits)

lemma stale_commits:
  assumes "IsEnabled c" "ordered_token t" and "t < cv w (MakeMetaKey b k)"
  shows "snd (PutMetaIfVersion c b k meta ttl t w) \<noteq> Inr True" and "snd (PutWithMetaStreamIfVersion c b k meta body ttl t w) \<noteq> Inr True"
proof -
  show meta: "snd (PutMetaIfVersion c b k meta ttl t w) \<noteq> Inr True"
    using assms(1) store.stale_refused [OF assms(3,2)] by (auto simp: PutMetaIfVersion_def split: sum.splits) (metis prod.collapse)
  obtain w1 n e where p: "putBody c (MakeBodyKey b k (ETag meta)) body (ttl_or_default c ttl) w = (w1, n, e)" by (metis prod_cases3)
  have "t < cv w1 (MakeMetaKey b k)" using store.stale_evolves [OF assms(3) store.body_evolves [OF p]] .
  then have "snd (putMetaVersioned c b k (MakeMetaKey b k) data ttl' t w1) \<noteq> Inr True" for data ttl'
    using store.stale_refused [OF _ assms(2)] by (metis prod.collapse)
  then show "snd (PutWithMetaStreamIfVersion c b k meta body ttl t w) \<noteq> Inr True"
    using p by (auto simp: PutWithMetaStreamIfVersion_def Let_def split: sum.splits option.splits if_splits)
qed

lemma converge_fences:
  assumes "s_cache s = c" "IsEnabled c" and "GetMetaWithVersion c b k w0 = (w1, Inr (m, t, f))" "ordered_token t"
    and "grows cv w1 (world st)" and "fence_holds c b k (world st)"
  shows "t < cv (world (convergeInvalidation s b k st)) (MakeMetaKey b k)"
proof -
  obtain w2 x where d: "Delete c b k (world st) = (w2, x)" by fastforce
  obtain w3 y where d2: "Delete c b k w2 = (w3, y)" by fastforce
  have fenced: "deleteMetaFenced c b k w = (w', None)" if "Delete c b k w = (w', None)" for w w'
    using that assms(2) by (auto simp: Delete_def DeleteWithMeta_def errors_Join_def split: prod.splits option.splits)
  have g: "coord_getMetaWithVersion c b k w0 = (w1, Inr (m, t, f))" using assms(2,3) by (simp add: GetMetaWithVersion_def)
  show ?thesis
  proof (cases x)
    case None
    with store.fence [OF g assms(4,5) fenced] d show ?thesis
      using assms(1,2) by (simp add: convergeInvalidation_def invalidateObject_def on_world_def)
  next
    case (Some e)
    with assms(6) d d2 have "y = None" by (simp add: fence_holds_def)
    moreover have "grows cv w1 w2" using grows_trans [OF assms(5) delete_grows [OF d]] .
    ultimately show ?thesis
      using store.fence [OF g assms(4) _ fenced] d d2 Some assms(1,2) by (simp add: convergeInvalidation_def invalidateObject_def on_world_def)
  qed
qed

lemma after_write_grows:
  assumes s: "s_cache s = c" and still: "\<forall>r a w. grows cv w (snd (fst (fw_ValidateAndGetCredentials (forwarder s) r (a, w))))"
  shows "grows cv (world st) (world (warmOnWrite s r b k st))"
    and "grows cv (world st) (world (warmParquetFooterOnWriteWithETag s r b k tag st))"
    and "grows cv (world st) (world (cacheBlockMetaOnWrite s r b k tag st))"
proof -
  have tok: "grows cv (world st) (world st')" if "warmToken s b k st = (st', x)" for st st' x
    using that get_grows [of b k "world st"] s
    by (cases "GetMetaWithVersion c b k (world st)") (auto simp: warmToken_def on_world_def split: sum.splits)
  obtain a w res where v: "fw_ValidateAndGetCredentials (forwarder s) r (fwd st, world st) = ((a, w), res)" by (metis prod.exhaust)
  have w: "grows cv (world st) w" using still [rule_format, of "world st" r "fwd st"] v by simp
  let ?st = "st\<lparr>fwd := a, world := w\<rparr>"
  obtain st1 x1 where t1: "warmToken s b k st = (st1, x1)" by fastforce
  obtain st2 x2 where t2: "warmToken s b k ?st = (st2, x2)" by fastforce
  show "grows cv (world st) (world (warmOnWrite s r b k st))"
    using tok [OF t1] grows_trans [OF w] tok [OF t2] t1 t2 v w
    by (auto simp: warmOnWrite_def on_fwd_def split: sum.splits option.splits)
  show "grows cv (world st) (world (warmParquetFooterOnWriteWithETag s r b k tag st))"
    using v w by (auto simp: warmParquetFooterOnWriteWithETag_def on_fwd_def Let_def split: sum.splits)
  show "grows cv (world st) (world (cacheBlockMetaOnWrite s r b k tag st))"
    using v w by (auto simp: cacheBlockMetaOnWrite_def on_fwd_def Let_def split: sum.splits)
qed

lemma confirmed_fenced:
  assumes s: "s_cache s = c" "IsEnabled c" "\<not> tiered s" and key: "ParseBucketKey r = (b, k)"
    and still: "\<forall>r a w. grows cv w (snd (fst (fw_ValidateAndGetCredentials (forwarder s) r (a, w))))"
    and plain: "\<forall>j d ttl w. grows cv w (fst (cl_Put (client c) j d ttl w))"
    and cw: "confirmed_write s x r b k st1 st'"
  shows "grows cv (world (convergeInvalidation s b k st1)) (world st')"
  using cw
proof cases
  case (cw_put rw body st rw1 teed rejects e1 ctx rw' e)
  obtain st2 h where p: "(case teed of Some ts \<Rightarrow> writeThroughCache b k ts (convergeInvalidation s b k st1) | None \<Rightarrow> (convergeInvalidation s b k st1, rejects))
      = (st2, h)" by fastforce
  have w: "world st2 = world (convergeInvalidation s b k st1)"
    using p by (cases teed) (auto dest: arg_cong [where f = "\<lambda>z. world (fst z)"])
  have h: "st' = warmParquetFooterOnWriteWithETag s r b k [] (if h then st2 else warmOnWrite s r b k st2)"
    using cw_put s key p by (auto simp: HandlePutObject_def put_confirmed_def Let_def)
  show ?thesis
    unfolding h w [symmetric]
    by (cases h) (simp_all add: after_write_grows(2) [OF s(1) still] grows_trans [OF after_write_grows(1) [OF s(1) still] after_write_grows(2) [OF s(1) still]])
next
  case (cw_delete rw body st rw1 e1 rw' e)
  then have "st' = convergeInvalidation s b k st1" using s key by (auto simp: HandleDeleteObject_def delete_forwarded_def Let_def)
  then show ?thesis by simp
next
  case (cw_copy rw body st rw1 capture rw' e)
  then have "st' = copy_confirmed s r b k 0 False st1" using s key by (auto simp: HandleCopyObject_def Let_def)
  then show ?thesis
    using s(3) by (auto simp: copy_confirmed_def Let_def intro: grows_trans [OF after_write_grows(1) [OF s(1) still] after_write_grows(2) [OF s(1) still]])
next
  case (cw_complete st st0 caller st2 rw body rw1 capture rw' e)
  let ?st3 = "completion_confirmed s x r b k capture [] [] None 0 False st1"
  let ?u = "values_get (URL_Query r) ''uploadId''"
  have "complete_forwarded s x rw r body b k ?u caller [] [] None 0 False (preForwardInvalidate s b k st2) = (st', rw', e)"
    using cw_complete(5) key s cw_complete(1,2) unfolding HandleCompleteMultipartUpload_def by (simp add: Let_def)
  then have h: "world st' = (if cap_Complete capture \<and> caller \<noteq> [] then fst (PutCompletion c (completion_marshal x) b k ?u caller
       (cap_StatusCode capture) (cap_Headers capture) (cap_Body capture) (world ?st3)) else world ?st3)"
    using cw_complete(3,4) s unfolding complete_forwarded_def by (auto simp: on_world_def Let_def split: prod.splits)
  have pc: "grows cv w (fst (PutCompletion c m b k u a code hd bd w))" for w m u a code hd bd
    using plain by (auto simp: PutCompletion_def split: sum.splits)
  have "grows cv (world (convergeInvalidation s b k st1)) (world ?st3)"
    using s(3) unfolding completion_confirmed_def Let_def
    by (simp only: if_False)
      (intro grows_trans [OF after_write_grows(1) [OF s(1) still] grows_trans [OF after_write_grows(2) [OF s(1) still] after_write_grows(3) [OF s(1) still]]])
  from this grows_trans [OF this pc] show ?thesis by (simp add: h)
qed

end

section \<open>Properties\<close>


text \<open>A delete of an absent object, confirmed upstream.\<close>

lemma upload_delete:
  assumes "rows w (MakeMetaKey ''bkt'' ''k'') = None" "mem_cv w (MakeMetaKey ''bkt'' ''k'') < - 2"
  shows "Delete (s_cache upload_service) ''bkt'' ''k'' w
         = (w\<lparr>rows := rows w, vers := (vers w)(MakeMetaKey ''bkt'' ''k'' := mem_cv w (MakeMetaKey ''bkt'' ''k'') + 1)\<rparr>, None)"
proof -
  have n: "(64::nat) = Suc 63" by simp
  have "(rows w)(MakeMetaKey ''bkt'' ''k'' := None) = rows w" using assms(1) by auto
  with assms show ?thesis
    by (simp add: Delete_def DeleteWithMeta_def deleteMetaFenced_def upload_cache cas_deleteMeta_def n mem_client_def mem_delete_if_def mem_bump_def del: Suc_numeral)
qed


end
