(* ===== verification/Spec2Isabelle.thy ===== *)
theory Spec2Isabelle
  imports Byte_Budget Broadcaster Aws_Chunked Forwarding Http_Server Object_Writes
begin

text \<open>
  TAG, the Tigris acceleration gateway: an S3 caching proxy.
\<close>

end
